(* ===== verification/Prelude.thy ===== *)
theory Prelude
  imports Main "HOL-Library.Sublist"
begin

section \<open>Shared vocabulary\<close>

text \<open>
  What every component uses: the collections of rewrite rules, Go's small containers (a
  \<open>map[T]struct{}\<close> kept as a list without repetitions, a loop that may fail), the
  string functions of the standard library the sources call, and the free-form JSON
  values that flow through the loader.
\<close>

named_theorems gomodel \<open>definitions that evaluate a model function\<close>
named_theorems tree_facts \<open>consequences of a well-formed state tree\<close>
named_theorems result_iff \<open>when a computation that may fail returns a value\<close>

subsection \<open>Sets kept as lists\<close>

text \<open>
  A Go \<open>map[*T]struct{}\<close> is a list without repetitions: \<open>s[x] = struct{}{}\<close> is
  \<open>ins x s\<close>, \<open>delete(s, x)\<close> is \<open>del x s\<close>, and a range over the map visits the
  list in some order, which the code then sorts.
\<close>

definition ins :: "'a \<Rightarrow> 'a list \<Rightarrow> 'a list" where
  "ins x xs = (if x \<in> set xs then xs else xs @ [x])"

definition del :: "'a \<Rightarrow> 'a list \<Rightarrow> 'a list" where
  "del x xs = filter (\<lambda>y. y \<noteq> x) xs"

definition ins_all :: "'a list \<Rightarrow> 'a list \<Rightarrow> 'a list" where
  "ins_all ys xs = fold ins ys xs"

lemma set_ins [simp]: "set (ins x xs) = insert x (set xs)"
  by (auto simp: ins_def)

lemma distinct_ins [simp]: "distinct (ins x xs) \<longleftrightarrow> distinct xs"
  by (auto simp: ins_def)

lemma ins_mem [simp]: "x \<in> set xs \<Longrightarrow> ins x xs = xs"
  by (simp add: ins_def)

lemma set_del [simp]: "set (del x xs) = set xs - {x}"
  by (auto simp: del_def)

lemma distinct_del [simp]: "distinct xs \<Longrightarrow> distinct (del x xs)"
  by (simp add: del_def)

lemma set_ins_all [simp]: "set (ins_all ys xs) = set ys \<union> set xs"
  by (induction ys arbitrary: xs) (auto simp: ins_all_def)

lemma distinct_ins_all [simp]: "distinct (ins_all ys xs) \<longleftrightarrow> distinct xs"
  by (induction ys arbitrary: xs) (auto simp: ins_all_def)

lemma singleton_list: "distinct xs \<Longrightarrow> set xs = {a} \<Longrightarrow> xs = [a]"
  by (metis distinct.simps(2) empty_set insert_not_empty list.exhaust list.set_intros(1)
      list.simps(15) singletonD subset_singletonD set_subset_Cons)

subsection \<open>Sorting by a key that tells elements apart\<close>

text \<open>
  The code sorts what it read from a map by document order. When the key is injective the
  result depends on the set alone, so the random iteration order of Go maps cannot show.
\<close>

lemma sort_key_set_unique:
  assumes "distinct xs" and "distinct ys" and "set xs = set ys" and "inj_on f (set xs)"
  shows "sort_key f xs = sort_key f ys"
proof -
  let ?a = "sort_key f xs" and ?b = "sort_key f ys"
  have inj: "inj_on f (set ?a \<union> set ?b)"
    using assms(3,4) by simp
  have "map f ?a = map f ?b"
    by (rule sorted_distinct_set_unique)
       (use assms in \<open>auto simp: distinct_map inj_on_def\<close>)
  then show ?thesis
    by (rule map_inj_on [OF _ inj])
qed

lemma sorted_key_filter_all:
  "sorted (map f xs) \<Longrightarrow> sorted (map f (filter P xs))"
  by (simp add: sorted_filter)

subsection \<open>Loops that may fail to return\<close>

text \<open>
  \<open>foldM f xs s\<close> is \<open>for _, x := range xs { s = f(x, s) }\<close> where the body may
  fail to return (\<open>None\<close>).
\<close>

fun foldM :: "('a \<Rightarrow> 's \<Rightarrow> 's option) \<Rightarrow> 'a list \<Rightarrow> 's \<Rightarrow> 's option" where
  "foldM f [] s = Some s"
| "foldM f (x # xs) s = Option.bind (f x s) (foldM f xs)"

lemma foldM_Nil_eta [simp]: "foldM f [] = Some"
  by (rule ext) simp

lemma foldM_append: "foldM f (xs @ ys) s = Option.bind (foldM f xs s) (foldM f ys)"
  by (induction xs arbitrary: s) (auto simp: bind_eq_Some_conv split: Option.bind_splits)

lemma foldM_mono:
  assumes "foldM f xs s = Some r"
    and "\<And>x t u. x \<in> set xs \<Longrightarrow> f x t = Some u \<Longrightarrow> g x t = Some u"
  shows "foldM g xs s = Some r"
  using assms
proof (induction xs arbitrary: s)
  case Nil
  then show ?case by simp
next
  case (Cons x xs)
  from Cons.prems(1) obtain t where t: "f x s = Some t" and "foldM f xs t = Some r"
    by (auto simp: bind_eq_Some_conv)
  then have "foldM g xs t = Some r"
    using Cons.IH Cons.prems(2) by simp
  moreover have "g x s = Some t"
    using Cons.prems(2) t by simp
  ultimately show ?case by simp
qed

lemma foldM_cong:
  assumes "\<And>x t. x \<in> set xs \<Longrightarrow> f x t = g x t"
  shows "foldM f xs s = foldM g xs s"
  using assms by (induction xs arbitrary: s) (auto split: Option.bind_splits)

lemma foldM_inv:
  assumes "foldM f xs s = Some r" and "I s"
    and "\<And>x t u. x \<in> set xs \<Longrightarrow> I t \<Longrightarrow> f x t = Some u \<Longrightarrow> I u"
  shows "I r"
  using assms
proof (induction xs arbitrary: s)
  case Nil
  then show ?case by simp
next
  case (Cons x xs)
  from Cons.prems(1) obtain t where t: "f x s = Some t" and rest: "foldM f xs t = Some r"
    by (auto simp: bind_eq_Some_conv)
  have "I t"
    using Cons.prems(2) Cons.prems(3) [of x s t] t by simp
  show ?case
    by (rule Cons.IH [OF rest \<open>I t\<close>]) (use Cons.prems(3) in auto)
qed

subsection \<open>Results with an error\<close>

text \<open>
  A Go function returning \<open>(T, error)\<close> is a value of \<open>'e + 'a\<close>: \<open>Inl\<close> the error, \<open>Inr\<close> the
  value. \<open>bindE\<close> is \<open>if err != nil { return err }\<close>; \<open>foldE\<close> and \<open>mapE\<close> are the loops that
  leave at the first error.
\<close>

fun bindE :: "'e + 'a \<Rightarrow> ('a \<Rightarrow> 'e + 'b) \<Rightarrow> 'e + 'b" where
  "bindE (Inl e) f = Inl e"
| "bindE (Inr x) f = f x"

fun foldE :: "('a \<Rightarrow> 's \<Rightarrow> 'e + 's) \<Rightarrow> 'a list \<Rightarrow> 's \<Rightarrow> 'e + 's" where
  "foldE f [] s = Inr s"
| "foldE f (x # xs) s = bindE (f x s) (foldE f xs)"

fun mapE :: "('a \<Rightarrow> 'e + 'b) \<Rightarrow> 'a list \<Rightarrow> 'e + 'b list" where
  "mapE f [] = Inr []"
| "mapE f (x # xs) = bindE (f x) (\<lambda>y. bindE (mapE f xs) (\<lambda>ys. Inr (y # ys)))"

lemma bindE_Inr [result_iff]: "bindE m f = Inr y \<longleftrightarrow> (\<exists>x. m = Inr x \<and> f x = Inr y)"
  by (cases m) auto

lemma bindE_Inl [result_iff]: "bindE m f = Inl e \<longleftrightarrow> m = Inl e \<or> (\<exists>x. m = Inr x \<and> f x = Inl e)"
  by (cases m) auto

lemma if_Inl_Inr [result_iff]: "(if b then Inl e else r) = Inr y \<longleftrightarrow> \<not> b \<and> r = Inr y"
  by simp

lemma bindE_assoc: "bindE (bindE m f) g = bindE m (\<lambda>x. bindE (f x) g)"
  by (cases m) auto

lemma bindE_cong [fundef_cong]:
  "m = m' \<Longrightarrow> (\<And>x. m' = Inr x \<Longrightarrow> f x = f' x) \<Longrightarrow> bindE m f = bindE m' f'"
  by (cases m') auto

lemma foldE_eq:
  "(\<And>x u. x \<in> set xs \<Longrightarrow> f x u = g x u) \<Longrightarrow> foldE f xs s = foldE g xs s"
proof (induction xs arbitrary: s)
  case (Cons x xs)
  then show ?case
    by (cases "g x s") simp_all
qed simp

lemma foldE_cong [fundef_cong]:
  "xs = ys \<Longrightarrow> s = t \<Longrightarrow> (\<And>x u. x \<in> set ys \<Longrightarrow> f x u = g x u) \<Longrightarrow> foldE f xs s = foldE g ys t"
  using foldE_eq [of ys f g t] by blast

lemma mapE_cong [fundef_cong]:
  "xs = ys \<Longrightarrow> (\<And>x. x \<in> set ys \<Longrightarrow> f x = g x) \<Longrightarrow> mapE f xs = mapE g ys"
  by (induction ys arbitrary: xs) auto

lemma foldE_append: "foldE f (xs @ ys) s = bindE (foldE f xs s) (foldE f ys)"
proof (induction xs arbitrary: s)
  case (Cons x xs)
  then show ?case
    by (cases "f x s") simp_all
qed simp

lemma foldE_inv:
  assumes "foldE f xs s = Inr r" and "I s"
    and "\<And>x t u. x \<in> set xs \<Longrightarrow> I t \<Longrightarrow> f x t = Inr u \<Longrightarrow> I u"
  shows "I r"
  using assms
proof (induction xs arbitrary: s)
  case Nil
  then show ?case by simp
next
  case (Cons x xs)
  then obtain t where t: "f x s = Inr t" "foldE f xs t = Inr r"
    by (auto simp: result_iff)
  show ?case
    by (rule Cons.IH [OF t(2)]) (use Cons.prems t in auto)
qed

lemma mapE_Inr [result_iff]: "mapE f xs = Inr ys \<longleftrightarrow> list_all2 (\<lambda>x y. f x = Inr y) xs ys"
  by (induction xs arbitrary: ys) (auto simp: result_iff list_all2_Cons1)

subsection \<open>Strings\<close>

text \<open>
  A Go string is its list of bytes. The functions are those of package \<open>strings\<close>:
  \<open>HasPrefix\<close>, \<open>Contains\<close> of one byte, \<open>Split\<close> on one byte, \<open>Join\<close>,
  \<open>TrimPrefix\<close>, \<open>ReplaceAll\<close> of one byte by one byte.
\<close>

definition HasPrefix :: "string \<Rightarrow> string \<Rightarrow> bool" where
  "HasPrefix s p \<longleftrightarrow> take (length p) s = p"

definition TrimPrefix :: "string \<Rightarrow> string \<Rightarrow> string" where
  "TrimPrefix s p = (if HasPrefix s p then drop (length p) s else s)"

definition ContainsByte :: "string \<Rightarrow> char \<Rightarrow> bool" where
  "ContainsByte s c \<longleftrightarrow> c \<in> set s"

fun SplitByte :: "char \<Rightarrow> string \<Rightarrow> string list" where
  "SplitByte c [] = [[]]"
| "SplitByte c (x # xs) =
     (if x = c then [] # SplitByte c xs
      else (case SplitByte c xs of
              [] \<Rightarrow> [[x]]
            | w # ws \<Rightarrow> (x # w) # ws))"

fun Join :: "string list \<Rightarrow> string \<Rightarrow> string" where
  "Join [] sep = []"
| "Join [w] sep = w"
| "Join (w # ws) sep = w @ sep @ Join ws sep"

definition ReplaceByte :: "char \<Rightarrow> char \<Rightarrow> string \<Rightarrow> string" where
  "ReplaceByte a b s = map (\<lambda>c. if c = a then b else c) s"

text \<open>The decimal text of a number, as \<open>strconv.Itoa\<close> and the verb \<open>%d\<close> write it.\<close>

fun digits :: "nat \<Rightarrow> string" where
  "digits n = (if n < 10 then [char_of (48 + n)] else digits (n div 10) @ [char_of (48 + n mod 10)])"

declare digits.simps [simp del]

definition itoa :: "int \<Rightarrow> string" where
  "itoa i = (if i < 0 then CHR ''-'' # digits (nat (- i)) else digits (nat i))"

definition nl :: string where
  "nl = [CHR 0x0A]"

declare itoa_def [gomodel] nl_def [gomodel]

lemma HasPrefix_iff: "HasPrefix s p \<longleftrightarrow> (\<exists>t. s = p @ t)"
  by (metis HasPrefix_def append_eq_conv_conj append_take_drop_id)

lemma HasPrefix_append [simp]: "HasPrefix (p @ t) p"
  by (simp add: HasPrefix_def)

lemma TrimPrefix_append [simp]: "TrimPrefix (p @ t) p = t"
  by (simp add: TrimPrefix_def)

lemma SplitByte_nonempty [simp]: "SplitByte c s \<noteq> []"
  by (induction s) (auto split: list.splits)

lemma Join_Cons: "ws \<noteq> [] \<Longrightarrow> Join (w # ws) sep = w @ sep @ Join ws sep"
  by (cases ws) auto

lemma Join_SplitByte: "Join (SplitByte c s) [c] = s"
proof (induction s)
  case Nil
  then show ?case by simp
next
  case (Cons x xs)
  obtain w ws where split: "SplitByte c xs = w # ws"
    by (cases "SplitByte c xs") auto
  show ?case
    using Cons split by (cases ws) (auto simp: Join_Cons)
qed

lemma SplitByte_no_sep: "w \<in> set (SplitByte c s) \<Longrightarrow> c \<notin> set w"
  by (induction s arbitrary: w) (auto split: list.splits if_splits)

subsection \<open>Free-form JSON values\<close>

text \<open>
  What \<open>json.Decoder.Decode\<close> stores into an \<open>any\<close> after \<open>UseNumber\<close>: numbers
  keep their literal text. An object keeps the members in reading order here; the Go map
  it becomes is \<open>json_members\<close>, where the last of several equal keys wins.
\<close>

datatype json =
    JNull
  | JBool bool
  | JNumber string
  | JString string
  | JArray "json list"
  | JObject "(string \<times> json) list"

definition json_members :: "(string \<times> json) list \<Rightarrow> (string \<rightharpoonup> json)" where
  "json_members ms = map_of (rev ms)"

lemma json_members_last [simp]: "json_members (ms @ [(k, v)]) = (json_members ms)(k \<mapsto> v)"
  by (simp add: json_members_def)

end
