(* ===== verification/Chart.thy ===== *)
theory Chart
  imports Prelude
begin

section \<open>The machine model: \<open>definition.go\<close>, \<open>ids.go\<close>, \<open>errors.go\<close>\<close>

text \<open>
  The validated machine the engine walks. Go links the nodes of the tree by pointers
  (\<open>Parent\<close>, \<open>Children\<close>, \<open>Initial\<close>, \<open>Source\<close>, \<open>Targets\<close>) and compares
  nodes and transitions by pointer, so the model keeps them in an arena: an address is a
  position in \<open>nodes\<close> or \<open>edges\<close>, a nil pointer is \<open>None\<close>. The arena is built once by
  the loader and never written afterwards. Document order and address agree because the
  loader allocates nodes in document order (\<open>tree\<close> below, proved of the loader in
  \<open>Schema_Tree\<close>).
\<close>

type_synonym StateID = string
type_synonym ActorAddress = string
type_synonym node = nat
type_synonym tref = nat

datatype StateKind = StateAtomic | StateCompound | StateParallel | StateFinal | StateHistory

datatype HistoryKind = HistoryShallow | HistoryDeep

fun StateKind_String :: "StateKind \<Rightarrow> string" where
  "StateKind_String StateAtomic = ''atomic''"
| "StateKind_String StateCompound = ''compound''"
| "StateKind_String StateParallel = ''parallel''"
| "StateKind_String StateFinal = ''final''"
| "StateKind_String StateHistory = ''history''"

record ActionRef =
  AType :: string
  AParams :: "string \<rightharpoonup> json"
  ACallsite :: int

record GuardRef =
  GType :: string
  GParams :: "string \<rightharpoonup> json"
  GCallsite :: int

record Delay =
  Millis :: int
  Symbol :: string

record Transition =
  Source :: node
  Event :: string
  Guard :: "GuardRef option"
  Targets :: "node list"
  Actions :: "ActionRef list"
  TDocOrder :: nat
  IsAfter :: bool
  TDelay :: Delay

record Invoke =
  IvID :: string
  Src :: string
  OnDone :: "tref list"
  OnError :: "tref list"

record StateNode =
  ID :: StateID
  Key :: string
  Kind :: StateKind
  Parent :: "node option"
  Children :: "node list"
  Initial :: "node option"
  HistKind :: HistoryKind
  HistoryTo :: "node list"
  Entry :: "ActionRef list"
  Exit :: "ActionRef list"
  Invokes :: "Invoke list"
  Transitions :: "tref list"
  DocOrder :: nat

record heap =
  nodes :: "StateNode list"
  edges :: "Transition list"

definition nodeAt :: "heap \<Rightarrow> node \<Rightarrow> StateNode" where
  "nodeAt H n = nodes H ! n"

definition edgeAt :: "heap \<Rightarrow> tref \<Rightarrow> Transition" where
  "edgeAt H t = edges H ! t"

abbreviation kind :: "heap \<Rightarrow> node \<Rightarrow> StateKind" where
  "kind H n \<equiv> Kind (nodeAt H n)"

abbreviation par :: "heap \<Rightarrow> node \<Rightarrow> node option" where
  "par H n \<equiv> Parent (nodeAt H n)"

abbreviation kids :: "heap \<Rightarrow> node \<Rightarrow> node list" where
  "kids H n \<equiv> Children (nodeAt H n)"

abbreviation doc :: "heap \<Rightarrow> node \<Rightarrow> nat" where
  "doc H n \<equiv> DocOrder (nodeAt H n)"

lemmas heap_access = nodeAt_def edgeAt_def

declare heap_access [gomodel]

subsection \<open>Predicates of a transition\<close>

definition Eventless :: "Transition \<Rightarrow> bool" where
  "Eventless t \<longleftrightarrow> Event t = '''' \<and> \<not> IsAfter t"

definition Internal :: "Transition \<Rightarrow> bool" where
  "Internal t \<longleftrightarrow> length (Targets t) = 0"

declare Eventless_def [gomodel] Internal_def [gomodel]

subsection \<open>Walking up the tree\<close>

text \<open>
  \<open>for p := n.Parent; p != nil; p = p.Parent\<close>. A cyclic chain would make Go loop for
  ever; the model follows at most as many links as there are nodes, which is exact on a
  tree (\<open>ProperAncestors_step\<close>).
\<close>

fun climb :: "heap \<Rightarrow> nat \<Rightarrow> node option \<Rightarrow> node list" where
  "climb H 0 p = []"
| "climb H (Suc k) p = (case p of None \<Rightarrow> [] | Some a \<Rightarrow> a # climb H k (par H a))"

definition ProperAncestors :: "heap \<Rightarrow> node \<Rightarrow> node list" where
  "ProperAncestors H n = climb H (length (nodes H)) (par H n)"

fun climbs_to :: "heap \<Rightarrow> nat \<Rightarrow> node option \<Rightarrow> node \<Rightarrow> bool" where
  "climbs_to H 0 p anc = False"
| "climbs_to H (Suc k) p anc =
     (case p of None \<Rightarrow> False | Some a \<Rightarrow> if a = anc then True else climbs_to H k (par H a) anc)"

definition IsDescendant :: "heap \<Rightarrow> node \<Rightarrow> node option \<Rightarrow> bool" where
  "IsDescendant H n anc =
     (case anc of None \<Rightarrow> False | Some a \<Rightarrow> climbs_to H (length (nodes H)) (par H n) a)"

definition IsAtomic :: "heap \<Rightarrow> node \<Rightarrow> bool" where
  "IsAtomic H n \<longleftrightarrow> kind H n = StateAtomic \<or> kind H n = StateFinal"

declare ProperAncestors_def [gomodel] IsDescendant_def [gomodel] IsAtomic_def [gomodel]

lemma climbs_to_iff: "climbs_to H k p a \<longleftrightarrow> a \<in> set (climb H k p)"
  by (induction k arbitrary: p) (auto split: option.splits)

lemma IsDescendant_None [simp]: "\<not> IsDescendant H n None"
  by (simp add: IsDescendant_def)

lemma IsDescendant_Some [simp]: "IsDescendant H n (Some a) \<longleftrightarrow> a \<in> set (ProperAncestors H n)"
  by (simp add: IsDescendant_def ProperAncestors_def climbs_to_iff)

subsection \<open>Walking down the tree, and \<open>NewDefinition\<close>\<close>

text \<open>The depth-first visits of the sources (node, then its children in order).\<close>

fun visit :: "heap \<Rightarrow> nat \<Rightarrow> node \<Rightarrow> node list" where
  "visit H 0 n = []"
| "visit H (Suc k) n = n # concat (map (visit H k) (kids H n))"

definition preorder :: "heap \<Rightarrow> node \<Rightarrow> node list" where
  "preorder H n = visit H (length (nodes H)) n"

record Definition =
  DefID :: string
  Root :: node
  index :: "StateID \<rightharpoonup> node"
  ActionCount :: nat
  GuardCount :: nat

definition Lookup :: "Definition \<Rightarrow> StateID \<Rightarrow> node option" where
  "Lookup d i = index d i"

definition NewDefinition :: "heap \<Rightarrow> string \<Rightarrow> node \<Rightarrow> nat \<Rightarrow> nat \<Rightarrow> Definition" where
  "NewDefinition H i root ac gc =
     \<lparr>DefID = i, Root = root,
      index = fold (\<lambda>n m. m(ID (nodeAt H n) \<mapsto> n)) (preorder H root) Map.empty,
      ActionCount = ac, GuardCount = gc\<rparr>"

declare preorder_def [gomodel] Lookup_def [gomodel] NewDefinition_def [gomodel]

subsection \<open>Well-formed trees\<close>

text \<open>
  What the loader guarantees of the arena: parents and children agree, a parent precedes
  its children, document order is the address, \<open>Initial\<close> is a child, leaves have no
  children, and every edge listed at a node starts there and ends inside the arena.
\<close>

definition node_edges :: "StateNode \<Rightarrow> tref list" where
  "node_edges n = Transitions n @ concat (map (\<lambda>iv. OnDone iv @ OnError iv) (Invokes n))"

definition tree_node :: "heap \<Rightarrow> node \<Rightarrow> bool" where
  "tree_node H n \<longleftrightarrow>
     (case par H n of None \<Rightarrow> n = 0 | Some p \<Rightarrow> p < n \<and> n \<in> set (kids H p))
     \<and> list_all (\<lambda>c. c < length (nodes H) \<and> par H c = Some n) (kids H n)
     \<and> distinct (kids H n)
     \<and> doc H n = n
     \<and> (case Initial (nodeAt H n) of None \<Rightarrow> True | Some i \<Rightarrow> i \<in> set (kids H n))
     \<and> list_all (\<lambda>t. t < length (edges H) \<and> Source (edgeAt H t) = n
           \<and> list_all (\<lambda>g. g < length (nodes H)) (Targets (edgeAt H t)))
         (node_edges (nodeAt H n))
     \<and> list_all (\<lambda>g. g < length (nodes H)) (HistoryTo (nodeAt H n))"

definition tree :: "heap \<Rightarrow> bool" where
  "tree H \<longleftrightarrow> nodes H \<noteq> [] \<and> list_all (tree_node H) [0..<length (nodes H)]"

lemma tree_nodeD: "tree H \<Longrightarrow> n < length (nodes H) \<Longrightarrow> tree_node H n"
  by (simp add: tree_def list_all_iff)

lemma tree_size [tree_facts]: "tree H \<Longrightarrow> 0 < length (nodes H)"
  by (simp add: tree_def)

lemma tree_par [tree_facts]:
  "tree H \<Longrightarrow> n < length (nodes H) \<Longrightarrow> par H n = Some p \<Longrightarrow>
     p < n \<and> p < length (nodes H) \<and> n \<in> set (kids H p)"
  by (drule (1) tree_nodeD) (simp add: tree_node_def)

lemma tree_par_None: "tree H \<Longrightarrow> n < length (nodes H) \<Longrightarrow> par H n = None \<longleftrightarrow> n = 0"
  by (drule (1) tree_nodeD, cases "par H n") (auto simp: tree_node_def)

lemma tree_root_par [simp]: "tree H \<Longrightarrow> par H 0 = None"
  using tree_par_None [of H 0] tree_size by simp

lemma tree_kid:
  "tree H \<Longrightarrow> n < length (nodes H) \<Longrightarrow> c \<in> set (kids H n) \<Longrightarrow>
     c < length (nodes H) \<and> par H c = Some n \<and> n < c"
  using tree_nodeD [of H n] tree_par [of H c n]
  by (auto simp: tree_node_def list_all_iff)

lemma tree_distinct_kids: "tree H \<Longrightarrow> n < length (nodes H) \<Longrightarrow> distinct (kids H n)"
  by (drule (1) tree_nodeD) (simp add: tree_node_def)

lemma tree_doc: "tree H \<Longrightarrow> n < length (nodes H) \<Longrightarrow> doc H n = n"
  by (drule (1) tree_nodeD) (simp add: tree_node_def)

lemma tree_initial:
  "tree H \<Longrightarrow> n < length (nodes H) \<Longrightarrow> Initial (nodeAt H n) = Some i \<Longrightarrow> i \<in> set (kids H n)"
  by (drule (1) tree_nodeD) (simp add: tree_node_def)

lemma tree_edge:
  "tree H \<Longrightarrow> n < length (nodes H) \<Longrightarrow> t \<in> set (node_edges (nodeAt H n)) \<Longrightarrow>
     t < length (edges H) \<and> Source (edgeAt H t) = n \<and>
     (\<forall>g \<in> set (Targets (edgeAt H t)). g < length (nodes H))"
  by (drule (1) tree_nodeD) (auto simp: tree_node_def list_all_iff)

lemma inj_doc: "tree H \<Longrightarrow> \<forall>n \<in> S. n < length (nodes H) \<Longrightarrow> inj_on (doc H) S"
  by (simp add: inj_on_def tree_doc)

text \<open>The bound on the climb is never reached on a tree: addresses decrease.\<close>

lemma climb_stable:
  assumes "tree H" and "p < length (nodes H)" and "p < k"
  shows "climb H (Suc k) (Some p) = climb H k (Some p)"
  using assms(2,3)
proof (induction k arbitrary: p)
  case 0
  then show ?case by simp
next
  case (Suc k)
  show ?case
  proof (cases "par H p")
    case None
    then show ?thesis by (cases k) auto
  next
    case (Some q)
    then have "q < p" "q < length (nodes H)"
      using tree_par [OF assms(1) Suc.prems(1)] by auto
    then have "climb H (Suc k) (Some q) = climb H k (Some q)"
      using Suc by auto
    then show ?thesis using Some by simp
  qed
qed

lemma ProperAncestors_step:
  assumes "tree H" and "n < length (nodes H)"
  shows "ProperAncestors H n = (case par H n of None \<Rightarrow> [] | Some p \<Rightarrow> p # ProperAncestors H p)"
proof (cases "par H n")
  case None
  then show ?thesis by (cases "length (nodes H)") (auto simp: ProperAncestors_def)
next
  case (Some p)
  obtain k where k: "length (nodes H) = Suc k"
    using assms by (cases "length (nodes H)") auto
  have p: "p < n" "p < length (nodes H)"
    using tree_par [OF assms Some] by auto
  have "climb H k (par H p) = climb H (Suc k) (par H p)"
  proof (cases "par H p")
    case None
    then show ?thesis by (cases k) auto
  next
    case (Some q)
    then have "q < p" "q < length (nodes H)"
      using tree_par [OF assms(1) p(2)] by auto
    then show ?thesis
      using climb_stable [OF assms(1), of q k] Some p assms(2) k by simp
  qed
  then show ?thesis
    using Some k by (simp add: ProperAncestors_def)
qed

lemma tree_induct [consumes 2, case_names root child]:
  assumes "tree H" and "n < length (nodes H)"
    and "P 0"
    and "\<And>n p. n < length (nodes H) \<Longrightarrow> par H n = Some p \<Longrightarrow> p < length (nodes H) \<Longrightarrow> P p \<Longrightarrow> P n"
  shows "P n"
  using assms(2)
proof (induction n rule: less_induct)
  case (less n)
  show ?case
  proof (cases "par H n")
    case None
    then show ?thesis
      using tree_par_None [OF assms(1) less.prems] assms(3) by simp
  next
    case (Some p)
    then have "p < n" "p < length (nodes H)"
      using tree_par [OF assms(1) less.prems] by auto
    then show ?thesis
      using less.IH [of p] assms(4) [OF less.prems Some] by simp
  qed
qed

lemma ProperAncestors_root [simp]: "tree H \<Longrightarrow> ProperAncestors H 0 = []"
  using ProperAncestors_step [of H 0] tree_size by simp

lemma ProperAncestors_child:
  "tree H \<Longrightarrow> n < length (nodes H) \<Longrightarrow> par H n = Some p \<Longrightarrow>
     ProperAncestors H n = p # ProperAncestors H p"
  by (simp add: ProperAncestors_step)

lemma ProperAncestors_less:
  assumes "tree H" and "n < length (nodes H)" and "a \<in> set (ProperAncestors H n)"
  shows "a < n \<and> a < length (nodes H)"
  using assms(1,2,3)
proof (induction n rule: tree_induct)
  case root
  then show ?case by (simp add: assms(1))
next
  case (child n p)
  have "p < n"
    using tree_par [OF assms(1) child(1,2)] by simp
  with child show ?case
    using ProperAncestors_child [OF assms(1) child(1,2)] by auto
qed

lemma root_ancestor:
  assumes "tree H" and "n < length (nodes H)" and "n \<noteq> 0"
  shows "0 \<in> set (ProperAncestors H n)"
  using assms(1,2,3)
proof (induction n rule: tree_induct)
  case root
  then show ?case by simp
next
  case (child n p)
  then show ?case
    using ProperAncestors_child [OF assms(1) child(1,2)] by (cases "p = 0") auto
qed

lemma ProperAncestors_trans:
  assumes "tree H" and "n < length (nodes H)" and "a \<in> set (ProperAncestors H n)"
    and "b \<in> set (ProperAncestors H a)"
  shows "b \<in> set (ProperAncestors H n)"
  using assms(1,2,3)
proof (induction n rule: tree_induct)
  case root
  then show ?case by (simp add: assms(1))
next
  case (child n p)
  then show ?case
    using ProperAncestors_child [OF assms(1) child(1,2)] assms(4) by auto
qed

lemma ancestors_comparable:
  assumes "tree H" and "n < length (nodes H)"
    and "a \<in> set (ProperAncestors H n)" and "b \<in> set (ProperAncestors H n)"
  shows "a = b \<or> a \<in> set (ProperAncestors H b) \<or> b \<in> set (ProperAncestors H a)"
  using assms(1,2,3,4)
proof (induction n rule: tree_induct)
  case root
  then show ?case by (simp add: assms(1))
next
  case (child n p)
  then show ?case
    using ProperAncestors_child [OF assms(1) child(1,2)] by auto
qed

subsection \<open>Subtrees\<close>

text \<open>\<open>below H a\<close> is the subtree rooted at \<open>a\<close>, \<open>a\<close> included.\<close>

definition below :: "heap \<Rightarrow> node \<Rightarrow> node set" where
  "below H a = {n. n < length (nodes H) \<and> (n = a \<or> a \<in> set (ProperAncestors H n))}"

lemma below_refl [simp]: "a \<in> below H a \<longleftrightarrow> a < length (nodes H)"
  by (simp add: below_def) 

lemma below_lt: "n \<in> below H a \<Longrightarrow> n < length (nodes H)"
  by (simp add: below_def)

lemma below_trans:
  "tree H \<Longrightarrow> n \<in> below H b \<Longrightarrow> b \<in> below H a \<Longrightarrow> n \<in> below H a"
  using ProperAncestors_trans [of H n b a] by (auto simp: below_def)

lemma below_kid_iff:
  assumes "tree H" and "a < length (nodes H)" and "n < length (nodes H)"
  shows "a \<in> set (ProperAncestors H n) \<longleftrightarrow> (\<exists>c \<in> set (kids H a). n \<in> below H c)"
proof
  assume "a \<in> set (ProperAncestors H n)"
  with assms(1,3) show "\<exists>c \<in> set (kids H a). n \<in> below H c"
  proof (induction n rule: tree_induct)
    case root
    then show ?case by (simp add: assms(1))
  next
    case (child n p)
    have anc: "ProperAncestors H n = p # ProperAncestors H p"
      using ProperAncestors_child [OF assms(1) child(1,2)] .
    show ?case
    proof (cases "a = p")
      case True
      then show ?thesis
        using tree_par [OF assms(1) child(1,2)] child(1) by (auto simp: below_def)
    next
      case False
      then have "a \<in> set (ProperAncestors H p)"
        using child.prems anc by simp
      then obtain c where "c \<in> set (kids H a)" "p \<in> below H c"
        using child.IH by blast
      then show ?thesis
        using anc child(1) by (auto simp: below_def)
    qed
  qed
next
  assume "\<exists>c \<in> set (kids H a). n \<in> below H c"
  then obtain c where c: "c \<in> set (kids H a)" "n \<in> below H c"
    by blast
  have "c < length (nodes H)" "par H c = Some a"
    using tree_kid [OF assms(1,2) c(1)] by auto
  then have "a \<in> set (ProperAncestors H c)"
    using ProperAncestors_child [OF assms(1)] by simp
  then show "a \<in> set (ProperAncestors H n)"
    using c(2) ProperAncestors_trans [OF assms(1,3)] by (auto simp: below_def)
qed

lemma below_unfold:
  assumes "tree H" and "a < length (nodes H)"
  shows "below H a = insert a (\<Union>c \<in> set (kids H a). below H c)"
proof -
  have "n \<in> below H a \<longleftrightarrow> n = a \<or> (\<exists>c \<in> set (kids H a). n \<in> below H c)" for n
    using below_kid_iff [OF assms, of n] assms(2)
    by (cases "n < length (nodes H)") (auto simp: below_def)
  then show ?thesis by auto
qed

lemma kid_below: "tree H \<Longrightarrow> a < length (nodes H) \<Longrightarrow> c \<in> set (kids H a) \<Longrightarrow> c \<in> below H a"
  using below_unfold [of H a] tree_kid [of H a c] below_refl [of c H] by blast

lemma not_below_kid:
  "tree H \<Longrightarrow> a < length (nodes H) \<Longrightarrow> c \<in> set (kids H a) \<Longrightarrow> a \<notin> below H c"
  using tree_kid [of H a c] ProperAncestors_less [of H a c] by (auto simp: below_def)

lemma siblings_disjoint:
  assumes "tree H" and "a < length (nodes H)"
    and "c \<in> set (kids H a)" and "d \<in> set (kids H a)" and "c \<noteq> d"
  shows "below H c \<inter> below H d = {}"
proof (rule ccontr)
  assume "\<not> ?thesis"
  then obtain n where n: "n \<in> below H c" "n \<in> below H d"
    by blast
  note kc = tree_kid [OF assms(1,2,3)] and kd = tree_kid [OF assms(1,2,4)]
  have anc_c: "ProperAncestors H c = a # ProperAncestors H a"
    using ProperAncestors_child [OF assms(1)] kc by simp
  have anc_d: "ProperAncestors H d = a # ProperAncestors H a"
    using ProperAncestors_child [OF assms(1)] kd by simp
  have notin: "c \<notin> set (ProperAncestors H d)" "d \<notin> set (ProperAncestors H c)"
    using ProperAncestors_less [OF assms(1,2)] anc_c anc_d kc kd
    by (metis less_irrefl order_less_trans set_ConsD)+
  show False
  proof (cases "n = c \<or> n = d")
    case True
    then show ?thesis using n notin assms(5) by (auto simp: below_def)
  next
    case False
    then have "c \<in> set (ProperAncestors H n)" "d \<in> set (ProperAncestors H n)"
      using n by (auto simp: below_def)
    then show ?thesis
      using ancestors_comparable [OF assms(1), of n c d] n(1) notin assms(5)
      by (auto simp: below_def)
  qed
qed

end
