(* ===== verification/Selection.thy ===== *)
theory Selection
  imports Chart "HOL-Library.Product_Lexorder"
begin

section \<open>Configurations, exit sets and transition selection: \<open>transition.go\<close>\<close>

text \<open>
  The pure first half of \<open>transition.go\<close>: the active-state configuration, the least
  common compound ancestor, the exit sets, and the selection of transitions with its
  resolution of conflicts between parallel regions. A configuration is the set of active
  nodes kept as a list without repetitions; \<open>cfg_all\<close> is the only way it is read in
  order, so nothing depends on how the list is laid out (\<open>cfg_all_unique\<close>).
\<close>

type_synonym configuration = "node list"

definition newConfiguration :: configuration where
  "newConfiguration = []"

definition cfg_add :: "configuration \<Rightarrow> node \<Rightarrow> configuration" where
  "cfg_add c n = ins n c"

definition cfg_remove :: "configuration \<Rightarrow> node \<Rightarrow> configuration" where
  "cfg_remove c n = del n c"

definition cfg_has :: "configuration \<Rightarrow> node \<Rightarrow> bool" where
  "cfg_has c n \<longleftrightarrow> n \<in> set c"

definition cfg_all :: "heap \<Rightarrow> configuration \<Rightarrow> node list" where
  "cfg_all H c = sort_key (doc H) c"

definition cfg_atomic :: "heap \<Rightarrow> configuration \<Rightarrow> node list" where
  "cfg_atomic H c = filter (IsAtomic H) (cfg_all H c)"

lemmas cfg_defs = newConfiguration_def cfg_add_def cfg_remove_def cfg_has_def

declare cfg_defs [gomodel] cfg_all_def [gomodel] cfg_atomic_def [gomodel]

subsection \<open>The least common compound ancestor and the exit sets\<close>

definition findLCCA :: "heap \<Rightarrow> node list \<Rightarrow> node option" where
  "findLCCA H states =
     (case states of
        [] \<Rightarrow> None
      | s0 # rest \<Rightarrow>
          find (\<lambda>anc. \<not> (kind H anc \<noteq> StateCompound \<and> par H anc \<noteq> None)
                      \<and> list_all (\<lambda>s. IsDescendant H s (Some anc)) rest)
            (ProperAncestors H s0))"

definition getTransitionDomain :: "heap \<Rightarrow> tref \<Rightarrow> node option" where
  "getTransitionDomain H t =
     (if length (Targets (edgeAt H t)) = 0 then None
      else findLCCA H (Source (edgeAt H t) # Targets (edgeAt H t)))"

definition exitSetOf :: "heap \<Rightarrow> configuration \<Rightarrow> tref \<Rightarrow> node list" where
  "exitSetOf H c t =
     (if length (Targets (edgeAt H t)) = 0 then []
      else let dom = getTransitionDomain H t
           in filter (\<lambda>s. IsDescendant H s dom) (cfg_all H c))"

definition computeExitSet :: "heap \<Rightarrow> configuration \<Rightarrow> tref list \<Rightarrow> node list" where
  "computeExitSet H c ts =
     (let exitset = fold (\<lambda>t acc. ins_all (exitSetOf H c t) acc) ts []
      in rev (sort_key (doc H) exitset))"

definition intersects :: "node list \<Rightarrow> node list \<Rightarrow> bool" where
  "intersects a b =
     (let (small, large) = (if length b < length a then (b, a) else (a, b))
      in list_ex (\<lambda>s. s \<in> set large) small)"

declare findLCCA_def [gomodel] getTransitionDomain_def [gomodel] exitSetOf_def [gomodel]
  computeExitSet_def [gomodel] intersects_def [gomodel]

subsection \<open>Matching one node\<close>

definition nodeEventedTransitions :: "heap \<Rightarrow> node \<Rightarrow> tref list" where
  "nodeEventedTransitions H s =
     (if length (Invokes (nodeAt H s)) = 0 then Transitions (nodeAt H s)
      else fold (\<lambda>iv out. (out @ OnDone iv) @ OnError iv) (Invokes (nodeAt H s))
             (Transitions (nodeAt H s)))"

definition matchAtNode :: "heap \<Rightarrow> node \<Rightarrow> string \<Rightarrow> (tref \<Rightarrow> bool) \<Rightarrow> tref option" where
  "matchAtNode H s event pass =
     (let evented = nodeEventedTransitions H s
      in case find (\<lambda>t. \<not> Eventless (edgeAt H t) \<and> Event (edgeAt H t) = event \<and> pass t) evented of
           Some t \<Rightarrow> Some t
         | None \<Rightarrow> find (\<lambda>t. \<not> Eventless (edgeAt H t) \<and> Event (edgeAt H t) = ''*'' \<and> pass t) evented)"

definition eventlessAtNode :: "heap \<Rightarrow> node \<Rightarrow> (tref \<Rightarrow> bool) \<Rightarrow> tref option" where
  "eventlessAtNode H s pass =
     find (\<lambda>t. Eventless (edgeAt H t) \<and> pass t) (Transitions (nodeAt H s))"

declare nodeEventedTransitions_def [gomodel] matchAtNode_def [gomodel] eventlessAtNode_def [gomodel]

subsection \<open>Conflict resolution\<close>

text \<open>
  The inner loop of \<open>removeConflictingTransitions\<close>: \<open>None\<close> is the early exit that sets
  \<open>preempted\<close>, \<open>Some r\<close> the accumulated \<open>toRemove\<close>.
\<close>

fun scanFiltered :: "heap \<Rightarrow> configuration \<Rightarrow> tref \<Rightarrow> node list \<Rightarrow> tref list \<Rightarrow> tref list \<Rightarrow> tref list option" where
  "scanFiltered H c t1 es1 [] toRemove = Some toRemove"
| "scanFiltered H c t1 es1 (t2 # rest) toRemove =
     (if intersects es1 (exitSetOf H c t2) then
        (if IsDescendant H (Source (edgeAt H t1)) (Some (Source (edgeAt H t2)))
         then scanFiltered H c t1 es1 rest (ins t2 toRemove)
         else None)
      else scanFiltered H c t1 es1 rest toRemove)"

fun resolveConflicts :: "heap \<Rightarrow> configuration \<Rightarrow> tref list \<Rightarrow> tref list \<Rightarrow> tref list" where
  "resolveConflicts H c [] filtered = filtered"
| "resolveConflicts H c (t1 # ts) filtered =
     (case scanFiltered H c t1 (exitSetOf H c t1) filtered [] of
        None \<Rightarrow> resolveConflicts H c ts filtered
      | Some toRemove \<Rightarrow>
          resolveConflicts H c ts (filter (\<lambda>t2. t2 \<notin> set toRemove) filtered @ [t1]))"

definition removeConflictingTransitions :: "heap \<Rightarrow> configuration \<Rightarrow> tref list \<Rightarrow> tref list" where
  "removeConflictingTransitions H c enabled =
     resolveConflicts H c
       (sort_key (\<lambda>t. (doc H (Source (edgeAt H t)), TDocOrder (edgeAt H t))) enabled) []"

subsection \<open>Selection\<close>

fun firstMatch :: "(node \<Rightarrow> tref option) \<Rightarrow> node list \<Rightarrow> tref option" where
  "firstMatch at [] = None"
| "firstMatch at (s # ss) = (case at s of None \<Rightarrow> firstMatch at ss | Some t \<Rightarrow> Some t)"

fun gatherEnabled :: "heap \<Rightarrow> (node \<Rightarrow> tref option) \<Rightarrow> node list \<Rightarrow> tref list \<Rightarrow> tref list" where
  "gatherEnabled H at [] enabled = enabled"
| "gatherEnabled H at (st # sts) enabled =
     gatherEnabled H at sts
       (case firstMatch at (st # ProperAncestors H st) of
          None \<Rightarrow> enabled
        | Some t \<Rightarrow> ins t enabled)"

definition selectBy :: "heap \<Rightarrow> configuration \<Rightarrow> (node \<Rightarrow> tref option) \<Rightarrow> tref list" where
  "selectBy H c at = removeConflictingTransitions H c (gatherEnabled H at (cfg_atomic H c) [])"

definition selectTransitions :: "heap \<Rightarrow> configuration \<Rightarrow> string \<Rightarrow> (tref \<Rightarrow> bool) \<Rightarrow> tref list" where
  "selectTransitions H c event pass = selectBy H c (\<lambda>s. matchAtNode H s event pass)"

definition selectEventlessTransitions :: "heap \<Rightarrow> configuration \<Rightarrow> (tref \<Rightarrow> bool) \<Rightarrow> tref list" where
  "selectEventlessTransitions H c pass = selectBy H c (\<lambda>s. eventlessAtNode H s pass)"

declare removeConflictingTransitions_def [gomodel] selectBy_def [gomodel]
  selectTransitions_def [gomodel] selectEventlessTransitions_def [gomodel]

subsection \<open>Configurations are sets\<close>

lemma set_cfg_all [simp]: "set (cfg_all H c) = set c"
  by (simp add: cfg_all_def)

lemma distinct_cfg_all [simp]: "distinct (cfg_all H c) \<longleftrightarrow> distinct c"
  by (simp add: cfg_all_def)

lemma set_cfg_atomic: "set (cfg_atomic H c) = {n \<in> set c. IsAtomic H n}"
  by (auto simp: cfg_atomic_def)

lemma cfg_all_unique:
  assumes "distinct c" and "distinct d" and "set c = set d" and "inj_on (doc H) (set c)"
  shows "cfg_all H c = cfg_all H d"
  unfolding cfg_all_def using assms by (rule sort_key_set_unique)

subsection \<open>Facts about the least common compound ancestor\<close>

lemma find_Some_first:
  "find P xs = Some x \<Longrightarrow> \<exists>us vs. xs = us @ x # vs \<and> P x \<and> (\<forall>u \<in> set us. \<not> P u)"
proof (induction xs)
  case Nil
  then show ?case by simp
next
  case (Cons y ys)
  show ?case
  proof (cases "P y")
    case True
    then show ?thesis
      using Cons.prems by (intro exI [of _ "[]"] exI [of _ ys]) simp
  next
    case False
    then obtain us vs where "ys = us @ x # vs" "P x" "\<forall>u \<in> set us. \<not> P u"
      using Cons by auto
    then show ?thesis
      using False by (intro exI [of _ "y # us"] exI [of _ vs]) simp
  qed
qed

lemma findLCCA_Some:
  assumes "findLCCA H (s # rest) = Some a"
  shows "a \<in> set (ProperAncestors H s)"
    and "kind H a = StateCompound \<or> par H a = None"
    and "x \<in> set rest \<Longrightarrow> a \<in> set (ProperAncestors H x)"
  using find_Some_first [OF assms [unfolded findLCCA_def list.case]]
  by (auto simp: list_all_iff)

lemma ProperAncestors_after:
  assumes "tree H" and "n < length (nodes H)" and "ProperAncestors H n = us @ a # vs"
  shows "vs = ProperAncestors H a"
  using assms(1,2,3)
proof (induction n arbitrary: us rule: tree_induct)
  case root
  then show ?case by (simp add: assms(1))
next
  case (child n p)
  then show ?case
    using ProperAncestors_child [OF assms(1) child(1,2)]
    by (cases us) auto
qed

lemma findLCCA_least:
  assumes "tree H" and "s < length (nodes H)" and "findLCCA H (s # rest) = Some a"
    and "b \<in> set (ProperAncestors H s)" and "kind H b = StateCompound \<or> par H b = None"
    and "\<forall>x \<in> set rest. b \<in> set (ProperAncestors H x)"
  shows "b = a \<or> b \<in> set (ProperAncestors H a)"
proof -
  from find_Some_first [OF assms(3) [unfolded findLCCA_def list.case]] obtain us vs where
    split: "ProperAncestors H s = us @ a # vs" and
    skip: "\<forall>u \<in> set us. \<not> (\<not> (kind H u \<noteq> StateCompound \<and> par H u \<noteq> None)
             \<and> list_all (\<lambda>x. IsDescendant H x (Some u)) rest)"
    by blast
  have "b \<notin> set us"
    using skip assms(5,6) by (auto simp: list_all_iff)
  moreover have "vs = ProperAncestors H a"
    by (rule ProperAncestors_after [OF assms(1,2) split])
  ultimately show ?thesis
    using assms(4) split by auto
qed

lemma findLCCA_exists:
  assumes "tree H" and "s < length (nodes H)" and "s \<noteq> 0"
    and "\<forall>x \<in> set rest. x < length (nodes H) \<and> x \<noteq> 0"
  shows "\<exists>a. findLCCA H (s # rest) = Some a"
proof -
  have "0 \<in> set (ProperAncestors H s)"
    using root_ancestor assms by blast
  moreover have "\<forall>x \<in> set rest. 0 \<in> set (ProperAncestors H x)"
    using root_ancestor assms by blast
  moreover have "par H 0 = None"
    using assms(1) by simp
  ultimately have "findLCCA H (s # rest) \<noteq> None"
    unfolding findLCCA_def list.case find_None_iff by (auto simp: list_all_iff)
  then show ?thesis by blast
qed

subsection \<open>Facts about exit sets\<close>

lemma set_exitSetOf:
  "set (exitSetOf H c t) =
     (case getTransitionDomain H t of
        None \<Rightarrow> {}
      | Some d \<Rightarrow> {s \<in> set c. d \<in> set (ProperAncestors H s)})"
  by (auto simp: exitSetOf_def getTransitionDomain_def Let_def split: option.splits)

lemma distinct_exitSetOf: "distinct c \<Longrightarrow> distinct (exitSetOf H c t)"
  by (simp add: exitSetOf_def Let_def)

lemma exitSetOf_internal: "Internal (edgeAt H t) \<Longrightarrow> exitSetOf H c t = []"
  by (simp add: exitSetOf_def Internal_def)

lemma exit_fold:
  "set (fold (\<lambda>t acc. ins_all (exitSetOf H c t) acc) ts acc) =
     set acc \<union> (\<Union>t \<in> set ts. set (exitSetOf H c t))"
  "distinct (fold (\<lambda>t acc. ins_all (exitSetOf H c t) acc) ts acc) \<longleftrightarrow> distinct acc"
  by (induction ts arbitrary: acc) auto

lemma set_computeExitSet: "set (computeExitSet H c ts) = (\<Union>t \<in> set ts. set (exitSetOf H c t))"
  by (simp add: computeExitSet_def Let_def exit_fold)

lemma computeExitSet_active: "n \<in> set (computeExitSet H c ts) \<Longrightarrow> n \<in> set c"
  by (auto simp: set_computeExitSet set_exitSetOf split: option.splits)

lemma distinct_computeExitSet: "distinct (computeExitSet H c ts)"
  by (simp add: computeExitSet_def Let_def exit_fold)

lemma sorted_computeExitSet: "sorted (rev (map (doc H) (computeExitSet H c ts)))"
  by (simp add: computeExitSet_def Let_def rev_map)

lemma intersects_iff: "intersects a b \<longleftrightarrow> set a \<inter> set b \<noteq> {}"
  by (auto simp: intersects_def Let_def list_ex_iff)

lemma source_in_exitSet:
  assumes "tree H" and "getTransitionDomain H t = Some d" and "Source (edgeAt H t) \<in> set c"
  shows "Source (edgeAt H t) \<in> set (exitSetOf H c t)"
proof -
  have "findLCCA H (Source (edgeAt H t) # Targets (edgeAt H t)) = Some d"
    using assms(2) by (auto simp: getTransitionDomain_def split: if_splits)
  then show ?thesis
    using findLCCA_Some(1) assms by (simp add: set_exitSetOf)
qed

subsection \<open>Facts about conflict resolution\<close>

lemma scanFiltered_Some:
  assumes "scanFiltered H c t1 es1 fs rem = Some rem'"
  shows "set rem' = set rem \<union> {t2 \<in> set fs. intersects es1 (exitSetOf H c t2)}"
    and "\<forall>t2 \<in> set fs. intersects es1 (exitSetOf H c t2) \<longrightarrow>
           IsDescendant H (Source (edgeAt H t1)) (Some (Source (edgeAt H t2)))"
  using assms by (induction fs arbitrary: rem) (auto split: if_splits)

lemma scanFiltered_None:
  "scanFiltered H c t1 es1 fs rem = None \<longleftrightarrow>
     (\<exists>t2 \<in> set fs. intersects es1 (exitSetOf H c t2) \<and>
        \<not> IsDescendant H (Source (edgeAt H t1)) (Some (Source (edgeAt H t2))))"
  by (induction fs arbitrary: rem) auto

lemma scanFiltered_quiet:
  "\<forall>t2 \<in> set fs. \<not> intersects es1 (exitSetOf H c t2) \<Longrightarrow> scanFiltered H c t1 es1 fs rem = Some rem"
  by (induction fs arbitrary: rem) auto

definition exits_disjoint :: "heap \<Rightarrow> configuration \<Rightarrow> tref list \<Rightarrow> bool" where
  "exits_disjoint H c ts \<longleftrightarrow>
     (\<forall>t1 \<in> set ts. \<forall>t2 \<in> set ts. t1 \<noteq> t2 \<longrightarrow> set (exitSetOf H c t1) \<inter> set (exitSetOf H c t2) = {})"

lemma resolveConflicts_disjoint:
  "exits_disjoint H c filtered \<Longrightarrow> exits_disjoint H c (resolveConflicts H c ts filtered)"
proof (induction ts arbitrary: filtered)
  case Nil
  then show ?case by simp
next
  case (Cons t1 ts)
  show ?case
  proof (cases "scanFiltered H c t1 (exitSetOf H c t1) filtered []")
    case None
    then show ?thesis using Cons by simp
  next
    case (Some rem)
    have "exits_disjoint H c (filter (\<lambda>t2. t2 \<notin> set rem) filtered @ [t1])"
      using Cons.prems scanFiltered_Some(1) [OF Some]
      by (auto simp: exits_disjoint_def intersects_iff)
    then show ?thesis using Cons.IH Some by simp
  qed
qed

lemma resolveConflicts_subset:
  "set (resolveConflicts H c ts filtered) \<subseteq> set ts \<union> set filtered"
proof (induction ts arbitrary: filtered)
  case Nil
  then show ?case by simp
next
  case (Cons t1 ts)
  show ?case
    using Cons.IH [of filtered]
    by (cases "scanFiltered H c t1 (exitSetOf H c t1) filtered []")
       (auto dest: subsetD [OF Cons.IH])
qed

lemma resolveConflicts_distinct:
  "distinct (ts @ filtered) \<Longrightarrow> distinct (resolveConflicts H c ts filtered)"
proof (induction ts arbitrary: filtered)
  case Nil
  then show ?case by simp
next
  case (Cons t1 ts)
  have "distinct (ts @ filter P filtered @ [t1])" for P
    using Cons.prems by auto
  then show ?case
    using Cons by (auto split: option.splits)
qed

lemma resolveConflicts_quiet:
  "exits_disjoint H c (ts @ filtered) \<Longrightarrow> distinct (ts @ filtered) \<Longrightarrow>
     resolveConflicts H c ts filtered = filtered @ ts"
proof (induction ts arbitrary: filtered)
  case Nil
  then show ?case by simp
next
  case (Cons t1 ts)
  have "\<forall>t2 \<in> set filtered. \<not> intersects (exitSetOf H c t1) (exitSetOf H c t2)"
    using Cons.prems by (auto simp: exits_disjoint_def intersects_iff)
  then have "scanFiltered H c t1 (exitSetOf H c t1) filtered [] = Some []"
    by (rule scanFiltered_quiet)
  moreover have "resolveConflicts H c ts (filtered @ [t1]) = (filtered @ [t1]) @ ts"
    using Cons.prems by (intro Cons.IH) (auto simp: exits_disjoint_def)
  ultimately show ?case by simp
qed

lemma removeConflicting_subset: "set (removeConflictingTransitions H c en) \<subseteq> set en"
  unfolding removeConflictingTransitions_def
  by (rule order_trans [OF resolveConflicts_subset]) simp

lemma removeConflicting_disjoint: "exits_disjoint H c (removeConflictingTransitions H c en)"
  unfolding removeConflictingTransitions_def
  by (rule resolveConflicts_disjoint) (simp add: exits_disjoint_def)

lemma removeConflicting_distinct: "distinct en \<Longrightarrow> distinct (removeConflictingTransitions H c en)"
  unfolding removeConflictingTransitions_def by (rule resolveConflicts_distinct) simp

subsection \<open>Facts about matching and selection\<close>

lemma nodeEvented_set:
  "nodeEventedTransitions H s = node_edges (nodeAt H s)"
proof -
  have "fold (\<lambda>iv out. (out @ OnDone iv) @ OnError iv) ivs out =
          out @ concat (map (\<lambda>iv. OnDone iv @ OnError iv) ivs)"
    for ivs :: "Invoke list" and out
    by (induction ivs arbitrary: out) auto
  then show ?thesis
    by (auto simp: nodeEventedTransitions_def node_edges_def)
qed

lemma matchAtNode_Some:
  assumes "matchAtNode H s event pass = Some t"
  shows "t \<in> set (node_edges (nodeAt H s))" and "pass t" and "\<not> Eventless (edgeAt H t)"
    and "Event (edgeAt H t) = event \<or> Event (edgeAt H t) = ''*''"
  using assms
  by (auto simp: matchAtNode_def Let_def nodeEvented_set find_Some_iff split: option.splits)

lemma eventlessAtNode_Some:
  assumes "eventlessAtNode H s pass = Some t"
  shows "t \<in> set (node_edges (nodeAt H s))" and "pass t" and "Eventless (edgeAt H t)"
  using assms by (auto simp: eventlessAtNode_def find_Some_iff node_edges_def)

lemma firstMatch_Some:
  assumes "firstMatch at ss = Some t"
  shows "\<exists>us s vs. ss = us @ s # vs \<and> at s = Some t \<and> (\<forall>u \<in> set us. at u = None)"
  using assms
proof (induction ss)
  case Nil
  then show ?case by simp
next
  case (Cons s ss)
  show ?case
  proof (cases "at s")
    case None
    then obtain us s' vs where "ss = us @ s' # vs" "at s' = Some t" "\<forall>u \<in> set us. at u = None"
      using Cons by auto
    then show ?thesis
      using None by (intro exI [of _ "s # us"] exI [of _ s'] exI [of _ vs]) simp
  next
    case (Some t')
    then show ?thesis
      using Cons.prems by (intro exI [of _ "[]"] exI [of _ s] exI [of _ ss]) simp
  qed
qed

lemma firstMatch_None: "firstMatch at ss = None \<longleftrightarrow> (\<forall>s \<in> set ss. at s = None)"
  by (induction ss) (auto split: option.splits)

lemma gatherEnabled_set:
  "set (gatherEnabled H at sts en) =
     set en \<union> {t. \<exists>st \<in> set sts. firstMatch at (st # ProperAncestors H st) = Some t}"
proof (induction sts arbitrary: en)
  case Nil
  then show ?case by simp
next
  case (Cons st sts)
  show ?case
    using Cons.IH by (cases "firstMatch at (st # ProperAncestors H st)") auto
qed

lemma gatherEnabled_distinct: "distinct en \<Longrightarrow> distinct (gatherEnabled H at sts en)"
  by (induction sts arbitrary: en) (auto split: option.splits)

lemma selectBy_subset:
  "set (selectBy H c at) \<subseteq>
     {t. \<exists>st \<in> set (cfg_atomic H c). firstMatch at (st # ProperAncestors H st) = Some t}"
  using removeConflicting_subset [of H c "gatherEnabled H at (cfg_atomic H c) []"]
  by (auto simp: selectBy_def gatherEnabled_set)

lemma selectBy_disjoint: "exits_disjoint H c (selectBy H c at)"
  by (simp add: selectBy_def removeConflicting_disjoint)

lemma selectBy_distinct: "distinct (selectBy H c at)"
  by (simp add: selectBy_def removeConflicting_distinct gatherEnabled_distinct)

end
