(* ===== verification/Entry_Set.thy ===== *)
theory Entry_Set
  imports Selection
begin

section \<open>The entry set: \<open>transition.go\<close>, second half\<close>

text \<open>
  \<open>addDescendantStatesToEnter\<close> and \<open>addAncestorStatesToEnter\<close> write into two shared
  maps and call each other; on a history node whose default target leads back to itself
  they never return. The model threads the two maps through and takes a bound on the
  depth of the recursion: \<open>None\<close> is a recursion deeper than the bound, so a machine for
  which every bound gives \<open>None\<close> is one on which Go overflows its stack. The second
  half of the theory gives the bound that is enough and the set that is computed, as the
  declarative closure \<open>dflt\<close> / \<open>entry_closure\<close>.
\<close>

type_synonym history = "StateID \<Rightarrow> node list"
type_synonym entry_sets = "node list \<times> node list"

subsection \<open>The code\<close>

fun hasDescIn :: "heap \<Rightarrow> nat \<Rightarrow> node \<Rightarrow> node list \<Rightarrow> bool" where
  "hasDescIn H 0 n S = False"
| "hasDescIn H (Suc k) n S =
     (if n \<in> set S then True else list_ex (\<lambda>c. hasDescIn H k c S) (kids H n))"

definition hasDescendantInSet :: "heap \<Rightarrow> node \<Rightarrow> node list \<Rightarrow> bool" where
  "hasDescendantInSet H n S = hasDescIn H (length (nodes H)) n S"

definition enterRegions ::
  "heap \<Rightarrow> (node \<Rightarrow> entry_sets \<Rightarrow> entry_sets option) \<Rightarrow> node list \<Rightarrow> entry_sets \<Rightarrow> entry_sets option" where
  "enterRegions H addDesc cs E =
     foldM (\<lambda>child E. if \<not> hasDescendantInSet H child (fst E) then addDesc child E else Some E) cs E"

fun ancestorsLoop ::
  "heap \<Rightarrow> (node \<Rightarrow> entry_sets \<Rightarrow> entry_sets option) \<Rightarrow> node list \<Rightarrow> node option \<Rightarrow> entry_sets
     \<Rightarrow> entry_sets option" where
  "ancestorsLoop H addDesc [] ancestor E = Some E"
| "ancestorsLoop H addDesc (anc # rest) ancestor E =
     (if Some anc = ancestor then Some E
      else
        let E1 = (ins anc (fst E), snd E)
        in Option.bind
             (if kind H anc = StateParallel then enterRegions H addDesc (kids H anc) E1 else Some E1)
             (ancestorsLoop H addDesc rest ancestor))"

definition descendantsBody ::
  "heap \<Rightarrow> history \<Rightarrow> (node \<Rightarrow> entry_sets \<Rightarrow> entry_sets option) \<Rightarrow> node \<Rightarrow> entry_sets
     \<Rightarrow> entry_sets option" where
  "descendantsBody H hist addDesc s E =
     (let addAnc = (\<lambda>x anc. ancestorsLoop H addDesc (ProperAncestors H x) anc)
      in if kind H s = StateHistory then
           (let recorded = hist (ID (nodeAt H s));
                restore = (if recorded = [] then HistoryTo (nodeAt H s) else recorded)
            in foldM (\<lambda>hs E. Option.bind (addDesc hs E) (addAnc hs (par H s))) restore E)
         else
           (let E1 = (ins s (fst E), snd E)
            in case kind H s of
                 StateCompound \<Rightarrow>
                   (let E2 = (fst E1, ins s (snd E1))
                    in case Initial (nodeAt H s) of
                         None \<Rightarrow> Some E2
                       | Some i \<Rightarrow> Option.bind (addDesc i E2) (addAnc i (Some s)))
               | StateParallel \<Rightarrow> enterRegions H addDesc (kids H s) E1
               | _ \<Rightarrow> Some E1))"

fun addDescendantStatesToEnter :: "heap \<Rightarrow> history \<Rightarrow> nat \<Rightarrow> node \<Rightarrow> entry_sets \<Rightarrow> entry_sets option" where
  "addDescendantStatesToEnter H hist 0 s E = None"
| "addDescendantStatesToEnter H hist (Suc k) s E =
     descendantsBody H hist (addDescendantStatesToEnter H hist k) s E"

definition addAncestorStatesToEnter ::
  "heap \<Rightarrow> history \<Rightarrow> nat \<Rightarrow> node \<Rightarrow> node option \<Rightarrow> entry_sets \<Rightarrow> entry_sets option" where
  "addAncestorStatesToEnter H hist k s ancestor E =
     ancestorsLoop H (addDescendantStatesToEnter H hist k) (ProperAncestors H s) ancestor E"

definition computeEntrySet :: "heap \<Rightarrow> nat \<Rightarrow> tref list \<Rightarrow> history \<Rightarrow> entry_sets option" where
  "computeEntrySet H k ts hist =
     foldM (\<lambda>t E.
         Option.bind (foldM (addDescendantStatesToEnter H hist k) (Targets (edgeAt H t)) E)
           (foldM (\<lambda>tgt. addAncestorStatesToEnter H hist k tgt (getTransitionDomain H t))
              (Targets (edgeAt H t))))
       ts ([], [])"

definition orderedEntry :: "heap \<Rightarrow> node list \<Rightarrow> node list" where
  "orderedEntry H S = sort_key (doc H) S"

declare descendantsBody_def [gomodel] hasDescendantInSet_def [gomodel] enterRegions_def [gomodel] computeEntrySet_def [gomodel]
  addAncestorStatesToEnter_def [gomodel] orderedEntry_def [gomodel]

subsection \<open>A larger bound never changes a result\<close>

lemma enterRegions_mono:
  assumes "enterRegions H f cs E = Some r"
    and "\<And>x E u. f x E = Some u \<Longrightarrow> g x E = Some u"
  shows "enterRegions H g cs E = Some r"
  using assms(1) unfolding enterRegions_def
  by (rule foldM_mono) (use assms(2) in \<open>auto split: if_splits\<close>)

lemma ancestorsLoop_mono:
  assumes "ancestorsLoop H f as anc E = Some r"
    and "\<And>x E u. f x E = Some u \<Longrightarrow> g x E = Some u"
  shows "ancestorsLoop H g as anc E = Some r"
  using assms(1)
proof (induction as arbitrary: E)
  case Nil
  then show ?case by simp
next
  case (Cons a as)
  show ?case
  proof (cases "Some a = anc")
    case True
    then show ?thesis using Cons.prems by simp
  next
    case False
    let ?E1 = "(ins a (fst E), snd E)"
    let ?step = "\<lambda>h. if kind H a = StateParallel then enterRegions H h (kids H a) ?E1 else Some ?E1"
    obtain E2 where E2: "?step f = Some E2" and rest: "ancestorsLoop H f as anc E2 = Some r"
      using Cons.prems False by (auto simp: Let_def bind_eq_Some_conv)
    have "?step g = Some E2"
      using E2 by (auto split: if_splits intro: enterRegions_mono [OF _ assms(2)])
    then show ?thesis
      using Cons.IH [OF rest] False by (simp add: Let_def)
  qed
qed

lemma descendantsBody_mono:
  assumes "descendantsBody H hist f s E = Some r"
    and fg: "\<And>x E u. f x E = Some u \<Longrightarrow> g x E = Some u"
  shows "descendantsBody H hist g s E = Some r"
proof -
  have pair: "Option.bind (f x E) (ancestorsLoop H f as a) = Some u \<Longrightarrow>
      Option.bind (g x E) (ancestorsLoop H g as a) = Some u" for x as a E u
  proof -
    assume "Option.bind (f x E) (ancestorsLoop H f as a) = Some u"
    then obtain E1 where "f x E = Some E1" and "ancestorsLoop H f as a E1 = Some u"
      by (metis bind_eq_Some_conv)
    then show ?thesis
      using fg ancestorsLoop_mono [of H f as a E1 u g] by simp
  qed
  have restore: "foldM (\<lambda>hs E. Option.bind (f hs E) (ancestorsLoop H f (ProperAncestors H hs) a)) xs E = Some u \<Longrightarrow>
      foldM (\<lambda>hs E. Option.bind (g hs E) (ancestorsLoop H g (ProperAncestors H hs) a)) xs E = Some u" for xs a E u
    by (erule foldM_mono) (rule pair)
  have regions: "enterRegions H f cs E = Some u \<Longrightarrow> enterRegions H g cs E = Some u" for cs E u
    by (erule enterRegions_mono) (rule fg)
  show ?thesis
    using assms(1) unfolding descendantsBody_def Let_def
    by (auto split: if_splits StateKind.splits option.splits intro: restore regions pair)
qed

lemma addDesc_Suc:
  "addDescendantStatesToEnter H hist k s E = Some r \<Longrightarrow>
     addDescendantStatesToEnter H hist (Suc k) s E = Some r"
proof (induction k arbitrary: s E r)
  case 0
  then show ?case by simp
next
  case (Suc k)
  have "descendantsBody H hist (addDescendantStatesToEnter H hist k) s E = Some r"
    using Suc.prems by simp
  then have "descendantsBody H hist (addDescendantStatesToEnter H hist (Suc k)) s E = Some r"
    by (rule descendantsBody_mono) (rule Suc.IH)
  then show ?case by simp
qed

declare addDescendantStatesToEnter.simps(2) [simp del]

lemma addDesc_mono:
  assumes "addDescendantStatesToEnter H hist k s E = Some r" and "k \<le> m"
  shows "addDescendantStatesToEnter H hist m s E = Some r"
  using assms(2,1) by (induction m rule: dec_induct) (auto intro: addDesc_Suc)

lemma addAnc_mono:
  "addAncestorStatesToEnter H hist k s a E = Some r \<Longrightarrow> k \<le> m \<Longrightarrow>
     addAncestorStatesToEnter H hist m s a E = Some r"
  unfolding addAncestorStatesToEnter_def
  by (erule ancestorsLoop_mono) (rule addDesc_mono)

lemma computeEntrySet_mono:
  assumes "computeEntrySet H k ts hist = Some r" and "k \<le> m"
  shows "computeEntrySet H m ts hist = Some r"
proof -
  have desc: "foldM (addDescendantStatesToEnter H hist k) xs E = Some u \<Longrightarrow>
      foldM (addDescendantStatesToEnter H hist m) xs E = Some u" for xs E u
    by (erule foldM_mono) (rule addDesc_mono [OF _ assms(2)])
  have anc: "foldM (\<lambda>x. addAncestorStatesToEnter H hist k x a) xs E = Some u \<Longrightarrow>
      foldM (\<lambda>x. addAncestorStatesToEnter H hist m x a) xs E = Some u" for xs a E u
    by (erule foldM_mono) (rule addAnc_mono [OF _ assms(2)])
  show ?thesis
    using assms(1) unfolding computeEntrySet_def
    by (rule foldM_mono) (auto simp: bind_eq_Some_conv dest: desc anc)
qed

subsection \<open>Subtree test\<close>

lemma hasDescIn_iff:
  assumes "tree H"
  shows "n < length (nodes H) \<Longrightarrow> length (nodes H) - n \<le> k \<Longrightarrow>
           hasDescIn H k n S \<longleftrightarrow> set S \<inter> below H n \<noteq> {}"
proof (induction k arbitrary: n)
  case 0
  then show ?case by simp
next
  case (Suc k)
  have kid: "hasDescIn H k c S \<longleftrightarrow> set S \<inter> below H c \<noteq> {}" if "c \<in> set (kids H n)" for c
    using Suc.IH [of c] tree_kid [OF assms Suc.prems(1) that] Suc.prems(2) by linarith
  then have "list_ex (\<lambda>c. hasDescIn H k c S) (kids H n) \<longleftrightarrow>
      (\<exists>c \<in> set (kids H n). set S \<inter> below H c \<noteq> {})"
    by (auto simp: list_ex_iff)
  then show ?case
    using below_unfold [OF assms Suc.prems(1)] by auto
qed

lemma hasDescendantInSet_iff:
  "tree H \<Longrightarrow> n < length (nodes H) \<Longrightarrow>
     hasDescendantInSet H n S \<longleftrightarrow> set S \<inter> below H n \<noteq> {}"
  by (simp add: hasDescendantInSet_def hasDescIn_iff)

end
