(* ===== verification/Lifecycle.thy ===== *)
theory Lifecycle
  imports Chart
begin

section \<open>Addresses, statuses and errors: \<open>ids.go\<close>, \<open>errors.go\<close>, \<open>transient.go\<close>\<close>

text \<open>
  The actor address tree, the lifecycle status with the order in which an actor goes
  through it, the error values of the runtime with their wrapping, and the classification
  of transient errors.
\<close>

definition Child :: "ActorAddress \<Rightarrow> string \<Rightarrow> ActorAddress" where
  "Child a name = a @ ''/'' @ name"

datatype ActorStatus = StatusStarting | StatusRunning | StatusDone | StatusError | StatusStopped

definition Terminal :: "ActorStatus \<Rightarrow> bool" where
  "Terminal s \<longleftrightarrow> s = StatusDone \<or> s = StatusError \<or> s = StatusStopped"

fun ActorStatus_String :: "ActorStatus \<Rightarrow> string" where
  "ActorStatus_String StatusStarting = ''starting''"
| "ActorStatus_String StatusRunning = ''running''"
| "ActorStatus_String StatusDone = ''done''"
| "ActorStatus_String StatusError = ''error''"
| "ActorStatus_String StatusStopped = ''stopped''"

declare Child_def [gomodel] Terminal_def [gomodel]

text \<open>The constants are numbered by \<open>iota\<close>; the order on statuses is that of their codes.\<close>

fun status_code :: "ActorStatus \<Rightarrow> nat" where
  "status_code StatusStarting = 0"
| "status_code StatusRunning = 1"
| "status_code StatusDone = 2"
| "status_code StatusError = 3"
| "status_code StatusStopped = 4"

lemma status_code_inj: "status_code a = status_code b \<Longrightarrow> a = b"
  by (cases a; cases b) auto

instantiation ActorStatus :: linorder
begin

definition less_eq_ActorStatus :: "ActorStatus \<Rightarrow> ActorStatus \<Rightarrow> bool" where
  "less_eq_ActorStatus a b \<longleftrightarrow> status_code a \<le> status_code b"

definition less_ActorStatus :: "ActorStatus \<Rightarrow> ActorStatus \<Rightarrow> bool" where
  "less_ActorStatus a b \<longleftrightarrow> status_code a < status_code b"

instance
  by standard (auto simp: less_eq_ActorStatus_def less_ActorStatus_def intro: status_code_inj)

end

lemma Terminal_iff: "Terminal s \<longleftrightarrow> StatusDone \<le> s"
  by (cases s) (auto simp: Terminal_def less_eq_ActorStatus_def)

lemma not_Terminal [simp]: "\<not> Terminal StatusStarting" "\<not> Terminal StatusRunning"
  by (auto simp: Terminal_def)

lemma Terminal_codes [simp]: "Terminal StatusDone" "Terminal StatusError" "Terminal StatusStopped"
  by (auto simp: Terminal_def)

subsection \<open>Errors\<close>

text \<open>
  The sentinels of \<open>errors.go\<close>, the two wrapping types, and the errors of the standard
  library and of user code that the runtime meets: \<open>NetError t\<close> is a \<open>net.Error\<close> whose
  \<open>Timeout()\<close> is \<open>t\<close>, \<open>OsNotExist\<close> one for which \<open>os.IsNotExist\<close> holds, \<open>WrapError\<close> what \<open>fmt.Errorf\<close> makes of \<open>%w\<close>.
\<close>

datatype error =
    ErrActorStopped
  | ErrAlreadyStarted
  | ErrAlwaysLoopExceeded
  | ErrMailboxFull
  | ObserverError error string
  | CodegenError string string string
  | ContextDeadlineExceeded
  | ContextCanceled
  | OsDeadlineExceeded
  | OsNotExist string
  | NetError bool string
  | WrapError string error string
  | UserError string

fun Error_text :: "error \<Rightarrow> string" where
  "Error_text ErrActorStopped = ''statesman: actor stopped''"
| "Error_text ErrAlreadyStarted = ''statesman: machine already started''"
| "Error_text ErrAlwaysLoopExceeded = ''statesman: always-transition loop limit exceeded''"
| "Error_text ErrMailboxFull = ''statesman: mailbox full''"
| "Error_text (ObserverError cause ty) =
     ''statesman: observer '' @ ty @ '' failed: '' @ Error_text cause"
| "Error_text (CodegenError file path msg) =
     (if path = [] then file @ '': '' @ msg else file @ '': '' @ path @ '': '' @ msg)"
| "Error_text ContextDeadlineExceeded = ''context deadline exceeded''"
| "Error_text ContextCanceled = ''context canceled''"
| "Error_text OsDeadlineExceeded = ''i/o timeout''"
| "Error_text (OsNotExist msg) = msg"
| "Error_text (NetError t msg) = msg"
| "Error_text (WrapError pre e post) = pre @ Error_text e @ post"
| "Error_text (UserError msg) = msg"

fun Unwrap :: "error \<Rightarrow> error option" where
  "Unwrap (ObserverError cause ty) = Some cause"
| "Unwrap (WrapError pre e post) = Some e"
| "Unwrap e = None"

text \<open>\<open>errors.Is\<close> compares along the chain of \<open>Unwrap\<close>s.\<close>

fun errors_Is :: "error \<Rightarrow> error \<Rightarrow> bool" where
  "errors_Is (ObserverError cause ty) target = (ObserverError cause ty = target \<or> errors_Is cause target)"
| "errors_Is (WrapError pre e post) target = (WrapError pre e post = target \<or> errors_Is e target)"
| "errors_Is e target = (e = target)"

text \<open>
  \<open>errors.As\<close> with a \<open>net.Error\<close> target: the first error of the chain with \<open>Timeout\<close> and
  \<open>Temporary\<close> methods, and its \<open>Timeout()\<close>. The two deadline errors of the standard
  library have them as well.
\<close>

fun errors_As_net :: "error \<Rightarrow> bool option" where
  "errors_As_net (NetError t msg) = Some t"
| "errors_As_net ContextDeadlineExceeded = Some True"
| "errors_As_net OsDeadlineExceeded = Some True"
| "errors_As_net (ObserverError cause ty) = errors_As_net cause"
| "errors_As_net (WrapError pre e post) = errors_As_net e"
| "errors_As_net e = None"

definition IsTransient :: "error option \<Rightarrow> bool" where
  "IsTransient err =
     (case err of
        None \<Rightarrow> False
      | Some e \<Rightarrow>
          (if errors_Is e ContextDeadlineExceeded \<or> errors_Is e OsDeadlineExceeded then True
           else (case errors_As_net e of Some t \<Rightarrow> t | None \<Rightarrow> False)))"

declare IsTransient_def [gomodel]

lemma errors_Is_unwrap: "Unwrap e = Some c \<Longrightarrow> errors_Is c target \<Longrightarrow> errors_Is e target"
  by (cases e) auto

lemma errors_Is_leaf_unwrap:
  "Unwrap e = Some c \<Longrightarrow> Unwrap target = None \<Longrightarrow> errors_Is e target \<longleftrightarrow> errors_Is c target"
  by (cases e) auto

lemma errors_As_unwrap: "Unwrap e = Some c \<Longrightarrow> errors_As_net e = errors_As_net c"
  by (cases e) auto

text \<open>Wrapping an error, as the runtime does when an observer fails, never changes its class.\<close>

lemma IsTransient_unwrap: "Unwrap e = Some c \<Longrightarrow> IsTransient (Some e) \<longleftrightarrow> IsTransient (Some c)"
  by (simp add: IsTransient_def errors_Is_leaf_unwrap errors_As_unwrap)

end
