(* ===== verification/Engine.thy ===== *)
theory Engine
  imports Entry_Set Lifecycle
begin

section \<open>The microstep engine: \<open>microstep.go\<close>\<close>

text \<open>
  The generic interpreter: one call of \<open>step\<close> computes a staged microstep on copies of the
  live state, \<open>commit\<close> swaps it in. The action and guard closures that generated code
  injects are parameters of the engine (\<open>applyAction\<close>, \<open>evalGuard\<close>); the zero value of the
  event type, passed for eventless and descriptor-only microsteps, is \<open>None\<close>. Every
  function that computes an entry set takes the bound \<open>k\<close> on its recursion and is \<open>None\<close>
  when the recursion is deeper.
\<close>

datatype ('c, 'b) AppliedEffect =
    EffectNoop
  | EffectAssign 'c
  | EffectSend ActorAddress 'b
  | EffectSpawn ActorAddress

record 'e queuedEvent =
  descriptor :: string
  payload :: "'e option"
  hasPayload :: bool

record ('c, 'b) Microstep =
  msTransitions :: "tref list"
  Exited :: "node list"
  Entered :: "node list"
  PrevActive :: "StateID list"
  NextActive :: "StateID list"
  PrevContext :: 'c
  NextContext :: 'c
  Effects :: "('c, 'b) AppliedEffect list"
  TriggeredByEvent :: bool
  ReachedFinal :: bool
  msCfg :: configuration
  msHist :: history
  internalEnqueue :: "string list"

record ('c, 'e, 'b) engine =
  engDef :: Definition
  engCfg :: configuration
  engCtx :: 'c
  engHist :: history
  internalQueue :: "'e queuedEvent list"
  pendingExternal :: "'e queuedEvent option"
  applyAction :: "int \<Rightarrow> 'c \<Rightarrow> 'e option \<Rightarrow> ('c, 'b) AppliedEffect"
  evalGuard :: "int \<Rightarrow> 'c \<Rightarrow> 'e option \<Rightarrow> bool"
  alwaysLimit :: int
  alwaysRun :: int
  engStatus :: ActorStatus
  errReason :: "error option"
  lastEvt :: "'e option"

definition defaultAlwaysLimit :: int where
  "defaultAlwaysLimit = 100"

definition triggerEvent :: "('c, 'e, 'b) engine \<Rightarrow> 'e option" where
  "triggerEvent e = lastEvt e"

definition newEngine ::
  "Definition \<Rightarrow> 'c \<Rightarrow> (int \<Rightarrow> 'c \<Rightarrow> 'e option \<Rightarrow> ('c, 'b) AppliedEffect)
     \<Rightarrow> (int \<Rightarrow> 'c \<Rightarrow> 'e option \<Rightarrow> bool) \<Rightarrow> int \<Rightarrow> ('c, 'e, 'b) engine" where
  "newEngine d initCtx applyAct evalGrd limit =
     (let limit = (if limit \<le> 0 then defaultAlwaysLimit else limit)
      in \<lparr>engDef = d, engCfg = newConfiguration, engCtx = initCtx, engHist = (\<lambda>_. []),
          internalQueue = [], pendingExternal = None, applyAction = applyAct, evalGuard = evalGrd,
          alwaysLimit = limit, alwaysRun = 0, engStatus = StatusStarting, errReason = None,
          lastEvt = None\<rparr>)"

definition guardPass :: "heap \<Rightarrow> ('c, 'e, 'b) engine \<Rightarrow> 'e option \<Rightarrow> tref \<Rightarrow> bool" where
  "guardPass H e evt t =
     (case Guard (edgeAt H t) of
        None \<Rightarrow> True
      | Some g \<Rightarrow> evalGuard e (GCallsite g) (engCtx e) evt)"

declare defaultAlwaysLimit_def [gomodel] triggerEvent_def [gomodel] newEngine_def [gomodel]
  guardPass_def [gomodel]

subsection \<open>Applying actions\<close>

text \<open>The accumulator is the staged context and the outbox.\<close>

definition foldAction ::
  "('c, 'e, 'b) engine \<Rightarrow> 'e option \<Rightarrow> int \<Rightarrow> 'c \<times> ('c, 'b) AppliedEffect list
     \<Rightarrow> 'c \<times> ('c, 'b) AppliedEffect list" where
  "foldAction e evt callsite st =
     (let eff = applyAction e callsite (fst st) evt
      in case eff of
           EffectAssign c \<Rightarrow> (c, snd st)
         | EffectSend a b \<Rightarrow> (fst st, snd st @ [eff])
         | EffectSpawn a \<Rightarrow> (fst st, snd st @ [eff])
         | EffectNoop \<Rightarrow> st)"

definition runActions ::
  "('c, 'e, 'b) engine \<Rightarrow> 'e option \<Rightarrow> ActionRef list \<Rightarrow> 'c \<times> ('c, 'b) AppliedEffect list
     \<Rightarrow> 'c \<times> ('c, 'b) AppliedEffect list" where
  "runActions e evt as st = fold (\<lambda>a. foldAction e evt (ACallsite a)) as st"

definition recordHistoryInto :: "heap \<Rightarrow> node \<Rightarrow> history \<Rightarrow> configuration \<Rightarrow> history" where
  "recordHistoryInto H s hist c =
     fold (\<lambda>h acc.
         if kind H h \<noteq> StateHistory then acc
         else
           let rec =
             (if HistKind (nodeAt H h) = HistoryDeep
              then filter (\<lambda>n. IsAtomic H n \<and> IsDescendant H n (Some s)) (cfg_all H c)
              else filter (\<lambda>x. cfg_has c x) (kids H s))
           in acc(ID (nodeAt H h) := rec))
       (kids H s) hist"

definition allRegionsFinal :: "heap \<Rightarrow> node \<Rightarrow> configuration \<Rightarrow> bool" where
  "allRegionsFinal H gp c =
     list_all (\<lambda>r. list_ex (\<lambda>n. kind H n = StateFinal \<and> (n = r \<or> IsDescendant H n (Some r)))
                (cfg_all H c))
       (kids H gp)"

definition atomicIDs :: "heap \<Rightarrow> configuration \<Rightarrow> StateID list" where
  "atomicIDs H c = map (\<lambda>n. ID (nodeAt H n)) (cfg_atomic H c)"

definition exitState ::
  "heap \<Rightarrow> ('c, 'e, 'b) engine \<Rightarrow> 'e option \<Rightarrow> node
     \<Rightarrow> configuration \<times> history \<times> 'c \<times> ('c, 'b) AppliedEffect list
     \<Rightarrow> configuration \<times> history \<times> 'c \<times> ('c, 'b) AppliedEffect list" where
  "exitState H e evt s acc =
     (case acc of (c, hist, st) \<Rightarrow>
        (cfg_remove c s, recordHistoryInto H s hist (engCfg e),
         runActions e evt (Exit (nodeAt H s)) st))"

definition doneEvents :: "heap \<Rightarrow> ('c, 'e, 'b) engine \<Rightarrow> node \<Rightarrow> configuration \<Rightarrow> string list \<times> bool" where
  "doneEvents H e s c =
     (if kind H s \<noteq> StateFinal then ([], False)
      else case par H s of
             None \<Rightarrow> ([], True)
           | Some p \<Rightarrow>
               if p = Root (engDef e) then ([], True)
               else ((''done.state.'' @ ID (nodeAt H p)) #
                       (case par H p of
                          None \<Rightarrow> []
                        | Some gp \<Rightarrow>
                            if kind H gp = StateParallel \<and> allRegionsFinal H gp c
                            then [''done.state.'' @ ID (nodeAt H gp)] else []),
                     False))"

definition enterState ::
  "heap \<Rightarrow> ('c, 'e, 'b) engine \<Rightarrow> 'e option \<Rightarrow> node
     \<Rightarrow> configuration \<times> string list \<times> bool \<times> 'c \<times> ('c, 'b) AppliedEffect list
     \<Rightarrow> configuration \<times> string list \<times> bool \<times> 'c \<times> ('c, 'b) AppliedEffect list" where
  "enterState H e evt s acc =
     (case acc of (c, doneStates, reachedFinal, st) \<Rightarrow>
        let c1 = cfg_add c s;
            (ds, rf) = doneEvents H e s c1
        in (c1, doneStates @ ds, reachedFinal \<or> rf, runActions e evt (Entry (nodeAt H s)) st))"

definition apply_microstep ::
  "heap \<Rightarrow> ('c, 'e, 'b) engine \<Rightarrow> node list \<Rightarrow> tref list \<Rightarrow> node list \<Rightarrow> 'e option \<Rightarrow> bool
     \<Rightarrow> ('c, 'e, 'b) engine \<times> ('c, 'b) Microstep" where
  "apply_microstep H e exitSet ts toEnter evt triggered =
     (let (c1, h1, st1) = fold (exitState H e evt) exitSet (engCfg e, engHist e, engCtx e, []);
          st2 = fold (\<lambda>t. runActions e evt (Actions (edgeAt H t))) ts st1;
          entered = orderedEntry H toEnter;
          (c3, doneStates, reachedFinal, ctx3, effs3) =
            fold (enterState H e evt) entered (c1, [], False, st2)
      in (e\<lparr>lastEvt := evt\<rparr>,
          \<lparr>msTransitions = ts, Exited = exitSet, Entered = entered,
           PrevActive = atomicIDs H (engCfg e), NextActive = atomicIDs H c3,
           PrevContext = engCtx e, NextContext = ctx3, Effects = effs3,
           TriggeredByEvent = triggered, ReachedFinal = reachedFinal,
           msCfg = c3, msHist = h1, internalEnqueue = doneStates\<rparr>))"

declare foldAction_def [gomodel] runActions_def [gomodel] recordHistoryInto_def [gomodel]
  allRegionsFinal_def [gomodel] atomicIDs_def [gomodel] exitState_def [gomodel]
  doneEvents_def [gomodel] enterState_def [gomodel] apply_microstep_def [gomodel]

subsection \<open>Steps\<close>

definition engine_start ::
  "heap \<Rightarrow> nat \<Rightarrow> ('c, 'e, 'b) engine \<Rightarrow> (('c, 'e, 'b) engine \<times> ('c, 'b) Microstep) option" where
  "engine_start H k e =
     map_option (\<lambda>E. apply_microstep H e [] [] (fst E) None False)
       (addDescendantStatesToEnter H (engHist e) k (Root (engDef e)) ([], []))"

definition microstepFor ::
  "heap \<Rightarrow> nat \<Rightarrow> ('c, 'e, 'b) engine \<Rightarrow> tref list \<Rightarrow> 'e option \<Rightarrow> bool
     \<Rightarrow> (('c, 'e, 'b) engine \<times> ('c, 'b) Microstep) option" where
  "microstepFor H k e ts evt triggered =
     (let exitSet = computeExitSet H (engCfg e) ts
      in map_option (\<lambda>E. apply_microstep H e exitSet ts (fst E) evt triggered)
           (computeEntrySet H k ts (engHist e)))"

definition offer :: "('e \<Rightarrow> string) \<Rightarrow> 'e \<Rightarrow> ('c, 'e, 'b) engine \<Rightarrow> ('c, 'e, 'b) engine" where
  "offer EventType evt e =
     e\<lparr>pendingExternal := Some \<lparr>descriptor = EventType evt, payload = Some evt, hasPayload = True\<rparr>\<rparr>"

definition offerDescriptor :: "string \<Rightarrow> ('c, 'e, 'b) engine \<Rightarrow> ('c, 'e, 'b) engine" where
  "offerDescriptor desc e =
     e\<lparr>pendingExternal := Some \<lparr>descriptor = desc, payload = None, hasPayload = False\<rparr>\<rparr>"

text \<open>
  The loop over the internal queue: pop events until one enables a transition. The result
  is the remaining queue and, if one matched, the transitions with the event's payload.
\<close>

fun popInternal ::
  "heap \<Rightarrow> ('c, 'e, 'b) engine \<Rightarrow> 'e queuedEvent list
     \<Rightarrow> 'e queuedEvent list \<times> (tref list \<times> 'e option) option" where
  "popInternal H e [] = ([], None)"
| "popInternal H e (qe # q) =
     (let ts = selectTransitions H (engCfg e) (descriptor qe) (guardPass H e (payload qe))
      in if length ts > 0 then (q, Some (ts, payload qe)) else popInternal H e q)"

definition staged ::
  "(('c, 'e, 'b) engine \<times> ('c, 'b) Microstep) option
     \<Rightarrow> (('c, 'e, 'b) engine \<times> ('c, 'b) Microstep option) option" where
  "staged r = map_option (\<lambda>(e, ms). (e, Some ms)) r"

text \<open>\<open>step\<close> returns the staged microstep, or no microstep when the macrostep is quiescent.\<close>

definition engine_step ::
  "heap \<Rightarrow> nat \<Rightarrow> ('c, 'e, 'b) engine \<Rightarrow> (('c, 'e, 'b) engine \<times> ('c, 'b) Microstep option) option" where
  "engine_step H k e =
     (let ts = selectEventlessTransitions H (engCfg e) (guardPass H e None)
      in if length ts > 0 then
           (if alwaysRun e \<ge> alwaysLimit e
            then Some (e\<lparr>engStatus := StatusError, errReason := Some ErrAlwaysLoopExceeded\<rparr>, None)
            else staged (microstepFor H k (e\<lparr>alwaysRun := alwaysRun e + 1\<rparr>) ts None False))
         else
           (case popInternal H e (internalQueue e) of
              (q, Some (its, p)) \<Rightarrow> staged (microstepFor H k (e\<lparr>internalQueue := q\<rparr>) its p True)
            | (q, None) \<Rightarrow>
                (let e1 = e\<lparr>internalQueue := q\<rparr>
                 in case pendingExternal e1 of
                      None \<Rightarrow> Some (e1, None)
                    | Some qe \<Rightarrow>
                        (let e2 = e1\<lparr>pendingExternal := None\<rparr>;
                             xts = selectTransitions H (engCfg e2) (descriptor qe)
                                     (guardPass H e2 (payload qe))
                         in if length xts > 0
                            then staged (microstepFor H k e2 xts (payload qe) True)
                            else Some (e2, None)))))"

definition commit :: "('c, 'b) Microstep \<Rightarrow> ('c, 'e, 'b) engine \<Rightarrow> ('c, 'e, 'b) engine" where
  "commit ms e =
     (let e1 = e\<lparr>engCfg := msCfg ms, engHist := msHist ms, engCtx := NextContext ms,
                 internalQueue := internalQueue e @
                   map (\<lambda>d. \<lparr>descriptor = d, payload = None, hasPayload = False\<rparr>) (internalEnqueue ms)\<rparr>;
          e2 = (if ReachedFinal ms then e1\<lparr>engStatus := StatusDone\<rparr>
                else if engStatus e1 = StatusStarting then e1\<lparr>engStatus := StatusRunning\<rparr>
                else e1)
      in if TriggeredByEvent ms then e2\<lparr>alwaysRun := 0\<rparr> else e2)"

declare engine_start_def [gomodel] microstepFor_def [gomodel] offer_def [gomodel]
  offerDescriptor_def [gomodel] staged_def [gomodel] engine_step_def [gomodel] commit_def [gomodel]

subsection \<open>What a staged microstep contains\<close>

lemma runActions_append: "runActions e evt (as @ bs) st = runActions e evt bs (runActions e evt as st)"
  by (simp add: runActions_def)

lemma runActions_Nil [simp]: "runActions e evt [] st = st"
  by (simp add: runActions_def)

lemma runActions_fold:
  "fold (\<lambda>x. runActions e evt (f x)) xs st = runActions e evt (concat (map f xs)) st"
  by (induction xs arbitrary: st) (auto simp: runActions_append)

lemma exits_fold:
  "fold (exitState H e evt) xs (c, h, st) =
     (fold (\<lambda>s c. cfg_remove c s) xs c, fold (\<lambda>s h. recordHistoryInto H s h (engCfg e)) xs h,
      runActions e evt (concat (map (\<lambda>s. Exit (nodeAt H s)) xs)) st)"
  by (induction xs arbitrary: c h st) (auto simp: exitState_def runActions_append)

lemma enters_fold:
  "fst (fold (enterState H e evt) xs (c, ds, rf, st)) = fold (\<lambda>s c. cfg_add c s) xs c"
  "snd (snd (snd (fold (enterState H e evt) xs (c, ds, rf, st)))) =
     runActions e evt (concat (map (\<lambda>s. Entry (nodeAt H s)) xs)) st"
  by (induction xs arbitrary: c ds rf st)
     (auto simp: enterState_def runActions_append Let_def split: prod.splits)

lemma enters_final:
  "fst (snd (snd (fold (enterState H e evt) xs (c, ds, rf, st)))) \<longleftrightarrow>
     rf \<or> (\<exists>s \<in> set xs. kind H s = StateFinal \<and> (par H s = None \<or> par H s = Some (Root (engDef e))))"
  by (induction xs arbitrary: c ds rf st)
     (auto simp: enterState_def doneEvents_def Let_def split: prod.splits option.splits if_splits)

lemma set_removes: "set (fold (\<lambda>s c. cfg_remove c s) xs c) = set c - set xs"
  by (induction xs arbitrary: c) (auto simp: cfg_remove_def)

lemma set_adds: "set (fold (\<lambda>s c. cfg_add c s) xs c) = set c \<union> set xs"
  by (induction xs arbitrary: c) (auto simp: cfg_add_def)

lemma distinct_removes: "distinct c \<Longrightarrow> distinct (fold (\<lambda>s c. cfg_remove c s) xs c)"
  by (induction xs arbitrary: c) (auto simp: cfg_remove_def)

lemma distinct_adds: "distinct (fold (\<lambda>s c. cfg_add c s) xs c) \<longleftrightarrow> distinct c"
  by (induction xs arbitrary: c) (auto simp: cfg_add_def)

lemma set_orderedEntry [simp]: "set (orderedEntry H S) = set S"
  by (simp add: orderedEntry_def)

lemma apply_engine:
  "fst (apply_microstep H e exs ts S evt trig) = e\<lparr>lastEvt := evt\<rparr>"
  by (simp add: apply_microstep_def Let_def split: prod.splits)

text \<open>The accumulators after the three loops of \<open>apply\<close>.\<close>

definition stagedLoops ::
  "heap \<Rightarrow> ('c, 'e, 'b) engine \<Rightarrow> node list \<Rightarrow> tref list \<Rightarrow> node list \<Rightarrow> 'e option
     \<Rightarrow> configuration \<times> string list \<times> bool \<times> 'c \<times> ('c, 'b) AppliedEffect list" where
  "stagedLoops H e exs ts S evt =
     fold (enterState H e evt) (orderedEntry H S)
       (fold (\<lambda>s c. cfg_remove c s) exs (engCfg e), [], False,
        runActions e evt
          (concat (map (\<lambda>s. Exit (nodeAt H s)) exs) @ concat (map (\<lambda>t. Actions (edgeAt H t)) ts))
          (engCtx e, []))"

lemma apply_staged:
  "snd (apply_microstep H e exs ts S evt trig) =
     (case stagedLoops H e exs ts S evt of
        (c3, doneStates, reachedFinal, ctx3, effs3) \<Rightarrow>
          \<lparr>msTransitions = ts, Exited = exs, Entered = orderedEntry H S,
           PrevActive = atomicIDs H (engCfg e), NextActive = atomicIDs H c3,
           PrevContext = engCtx e, NextContext = ctx3, Effects = effs3,
           TriggeredByEvent = trig, ReachedFinal = reachedFinal,
           msCfg = c3, msHist = fold (\<lambda>s h. recordHistoryInto H s h (engCfg e)) exs (engHist e),
           internalEnqueue = doneStates\<rparr>)"
  by (simp add: apply_microstep_def Let_def exits_fold runActions_fold stagedLoops_def
      runActions_append del: fold_simps split: prod.splits)

lemma apply_parts:
  "msCfg (snd (apply_microstep H e exs ts S evt trig)) = fst (stagedLoops H e exs ts S evt)"
  "(NextContext (snd (apply_microstep H e exs ts S evt trig)),
    Effects (snd (apply_microstep H e exs ts S evt trig))) = snd (snd (snd (stagedLoops H e exs ts S evt)))"
  "ReachedFinal (snd (apply_microstep H e exs ts S evt trig)) = fst (snd (snd (stagedLoops H e exs ts S evt)))"
  "internalEnqueue (snd (apply_microstep H e exs ts S evt trig)) = fst (snd (stagedLoops H e exs ts S evt))"
  "NextActive (snd (apply_microstep H e exs ts S evt trig)) = atomicIDs H (fst (stagedLoops H e exs ts S evt))"
  by (simp_all add: apply_staged split: prod.splits)

lemma apply_lists [simp]:
  "Exited (snd (apply_microstep H e exs ts S evt trig)) = exs"
  "Entered (snd (apply_microstep H e exs ts S evt trig)) = orderedEntry H S"
  "msTransitions (snd (apply_microstep H e exs ts S evt trig)) = ts"
  "TriggeredByEvent (snd (apply_microstep H e exs ts S evt trig)) = trig"
  "PrevContext (snd (apply_microstep H e exs ts S evt trig)) = engCtx e"
  "PrevActive (snd (apply_microstep H e exs ts S evt trig)) = atomicIDs H (engCfg e)"
  "msHist (snd (apply_microstep H e exs ts S evt trig)) =
     fold (\<lambda>s h. recordHistoryInto H s h (engCfg e)) exs (engHist e)"
  by (simp_all add: apply_staged split: prod.splits)

lemma apply_cfg:
  "msCfg (snd (apply_microstep H e exs ts S evt trig)) =
     fold (\<lambda>s c. cfg_add c s) (orderedEntry H S) (fold (\<lambda>s c. cfg_remove c s) exs (engCfg e))"
  by (simp add: apply_parts stagedLoops_def enters_fold del: fold_simps)

lemma apply_cfg_set:
  "set (msCfg (snd (apply_microstep H e exs ts S evt trig))) = (set (engCfg e) - set exs) \<union> set S"
  "distinct (engCfg e) \<Longrightarrow> distinct (msCfg (snd (apply_microstep H e exs ts S evt trig)))"
  by (simp_all add: apply_cfg set_removes set_adds distinct_adds distinct_removes)

lemma apply_actions:
  "(NextContext (snd (apply_microstep H e exs ts S evt trig)),
    Effects (snd (apply_microstep H e exs ts S evt trig))) =
     runActions e evt
       (concat (map (\<lambda>s. Exit (nodeAt H s)) exs) @ concat (map (\<lambda>t. Actions (edgeAt H t)) ts)
          @ concat (map (\<lambda>s. Entry (nodeAt H s)) (orderedEntry H S)))
       (engCtx e, [])"
  by (simp add: apply_parts stagedLoops_def enters_fold runActions_append del: fold_simps)

lemma apply_final:
  "ReachedFinal (snd (apply_microstep H e exs ts S evt trig)) \<longleftrightarrow>
     (\<exists>s \<in> set S. kind H s = StateFinal \<and> (par H s = None \<or> par H s = Some (Root (engDef e))))"
  by (simp add: apply_parts stagedLoops_def enters_final del: fold_simps)

end
