(* ===== verification/Entry_Closure.thy ===== *)
theory Entry_Closure
  imports Entry_Set
begin

section \<open>What the entry set is: a declarative closure\<close>

text \<open>
  The abstract specification of the entry computation. \<open>dflt H s\<close> is the default entry of
  \<open>s\<close>: the initial child of every compound state and all regions of every parallel state
  met on the way down. \<open>entry_closure H g d\<close> is what a transition with domain \<open>d\<close> and
  target \<open>g\<close> enters: the default entry of \<open>g\<close>, the path from \<open>d\<close> to \<open>g\<close>, and the
  default entry of the other regions of the parallel states on that path. The two theorems
  at the end say that the code computes exactly these sets, with a bound on the recursion
  of the number of nodes, when no history state is met.
\<close>

inductive_set dflt :: "heap \<Rightarrow> node \<Rightarrow> node set" for H s where
  self: "s \<in> dflt H s"
| initial: "m \<in> dflt H s \<Longrightarrow> kind H m = StateCompound \<Longrightarrow> Initial (nodeAt H m) = Some i \<Longrightarrow> i \<in> dflt H s"
| region: "m \<in> dflt H s \<Longrightarrow> kind H m = StateParallel \<Longrightarrow> c \<in> set (kids H m) \<Longrightarrow> c \<in> dflt H s"

definition plain :: "heap \<Rightarrow> node \<Rightarrow> bool" where
  "plain H s \<longleftrightarrow> (\<forall>m \<in> dflt H s. kind H m \<noteq> StateHistory)"

definition on_path :: "heap \<Rightarrow> node \<Rightarrow> node \<Rightarrow> node set" where
  "on_path H g d = {a \<in> set (ProperAncestors H g). d \<in> set (ProperAncestors H a)}"

definition side_regions :: "heap \<Rightarrow> node \<Rightarrow> node \<Rightarrow> node set" where
  "side_regions H g d =
     {c. \<exists>a \<in> on_path H g d. kind H a = StateParallel \<and> c \<in> set (kids H a) \<and> g \<notin> below H c}"

definition entry_closure :: "heap \<Rightarrow> node \<Rightarrow> node \<Rightarrow> node set" where
  "entry_closure H g d = dflt H g \<union> on_path H g d \<union> (\<Union>c \<in> side_regions H g d. dflt H c)"

subsection \<open>The default closure\<close>

lemma dflt_below:
  assumes "tree H" and "s < length (nodes H)" and "m \<in> dflt H s"
  shows "m \<in> below H s"
  using assms(3)
proof induction
  case self
  then show ?case using assms(2) by simp
next
  case (initial m i)
  then have "i \<in> below H m"
    using kid_below tree_initial assms(1) below_lt by blast
  then show ?case using below_trans assms(1) initial.IH by blast
next
  case (region m c)
  then have "c \<in> below H m"
    using kid_below assms(1) below_lt by blast
  then show ?case using below_trans assms(1) region.IH by blast
qed

lemma dflt_lt: "tree H \<Longrightarrow> s < length (nodes H) \<Longrightarrow> m \<in> dflt H s \<Longrightarrow> m < length (nodes H)"
  using dflt_below below_lt by blast

lemma dflt_trans: "m \<in> dflt H s \<Longrightarrow> x \<in> dflt H m \<Longrightarrow> x \<in> dflt H s"
  by (rotate_tac, induction rule: dflt.induct) (auto intro: dflt.intros)

lemma dflt_head:
  "x \<in> dflt H s \<Longrightarrow> x = s
     \<or> (\<exists>i. kind H s = StateCompound \<and> Initial (nodeAt H s) = Some i \<and> x \<in> dflt H i)
     \<or> (\<exists>c \<in> set (kids H s). kind H s = StateParallel \<and> x \<in> dflt H c)"
  by (induction rule: dflt.induct) (auto intro: dflt.intros)

lemma dflt_leaf:
  "kind H s \<noteq> StateCompound \<Longrightarrow> kind H s \<noteq> StateParallel \<Longrightarrow> dflt H s = {s}"
  using dflt_head [of _ H s] by (auto intro: dflt.self)

lemma dflt_compound:
  assumes "kind H s = StateCompound"
  shows "dflt H s = insert s (case Initial (nodeAt H s) of None \<Rightarrow> {} | Some i \<Rightarrow> dflt H i)"
proof -
  have "dflt H i \<subseteq> dflt H s" if "Initial (nodeAt H s) = Some i" for i
    using dflt_trans dflt.initial [OF dflt.self assms that] by blast
  moreover have "x = s \<or> (\<exists>i. Initial (nodeAt H s) = Some i \<and> x \<in> dflt H i)" if "x \<in> dflt H s" for x
    using dflt_head [OF that] assms by auto
  ultimately show ?thesis
    using dflt.self [of s H] by (cases "Initial (nodeAt H s)") auto
qed

lemma dflt_parallel:
  assumes "kind H s = StateParallel"
  shows "dflt H s = insert s (\<Union>c \<in> set (kids H s). dflt H c)"
proof -
  have "dflt H c \<subseteq> dflt H s" if "c \<in> set (kids H s)" for c
    using dflt_trans dflt.region [OF dflt.self assms that] by blast
  moreover have "x = s \<or> (\<exists>c \<in> set (kids H s). x \<in> dflt H c)" if "x \<in> dflt H s" for x
    using dflt_head [OF that] assms by auto
  ultimately show ?thesis
    using dflt.self [of s H] by auto
qed

lemma plain_initial:
  "plain H s \<Longrightarrow> kind H s = StateCompound \<Longrightarrow> Initial (nodeAt H s) = Some i \<Longrightarrow> plain H i"
  by (simp add: plain_def dflt_compound)

lemma plain_region:
  "plain H s \<Longrightarrow> kind H s = StateParallel \<Longrightarrow> c \<in> set (kids H s) \<Longrightarrow> plain H c"
  by (simp add: plain_def dflt_parallel)

lemma plain_kind: "plain H s \<Longrightarrow> kind H s \<noteq> StateHistory"
  by (simp add: plain_def dflt.self)

text \<open>The parent of a state reached by default entry was reached first.\<close>

lemma dflt_parent:
  assumes "tree H" and "s < length (nodes H)" and "x \<in> dflt H s" and "x \<noteq> s"
  shows "\<exists>m \<in> dflt H s. par H x = Some m \<and>
           (kind H m = StateCompound \<and> Initial (nodeAt H m) = Some x \<or> kind H m = StateParallel)"
  using assms(3,4)
proof cases
  case self
  then show ?thesis using assms(4) by simp
next
  case (initial m)
  then have "par H x = Some m"
    using tree_kid tree_initial dflt_lt assms(1,2) by meson
  then show ?thesis using initial by blast
next
  case (region m)
  then have "par H x = Some m"
    using tree_kid dflt_lt assms(1,2) by meson
  then show ?thesis using region by blast
qed

subsection \<open>The loops on fresh subtrees\<close>

lemma enterRegions_fresh:
  assumes "tree H" and "p < length (nodes H)"
    and f: "\<And>c X. c \<in> set cs \<Longrightarrow> set (fst E) \<subseteq> set (fst X) \<Longrightarrow> set (fst X) \<inter> below H c = {} \<Longrightarrow>
        \<exists>E'. f c X = Some E' \<and> set (fst E') = set (fst X) \<union> dflt H c \<and>
             (distinct (fst X) \<longrightarrow> distinct (fst E'))"
    and "set cs \<subseteq> set (kids H p)" and "distinct cs"
  shows "\<exists>E'. enterRegions H f cs E = Some E' \<and>
           set (fst E') = set (fst E) \<union> (\<Union>c \<in> {c \<in> set cs. set (fst E) \<inter> below H c = {}}. dflt H c) \<and>
           (distinct (fst E) \<longrightarrow> distinct (fst E'))"
  using assms(3-5)
proof (induction cs arbitrary: E)
  case Nil
  then show ?case by (simp add: enterRegions_def)
next
  case (Cons c cs)
  have c: "c \<in> set (kids H p)" "c < length (nodes H)"
    using Cons.prems(2) tree_kid [OF assms(1,2)] by auto
  have dc: "dflt H c \<subseteq> below H c"
    using dflt_below assms(1) c(2) by blast
  have other: "below H c \<inter> below H x = {}" if "x \<in> set cs" for x
    using siblings_disjoint [OF assms(1,2) c(1)] that Cons.prems(2,3) by auto
  obtain E1 where
    step: "(if \<not> hasDescendantInSet H c (fst E) then f c E else Some E) = Some E1" and
    E1: "set (fst E1) = set (fst E) \<union> (if set (fst E) \<inter> below H c = {} then dflt H c else {})"
      "distinct (fst E) \<longrightarrow> distinct (fst E1)"
  proof (cases "set (fst E) \<inter> below H c = {}")
    case True
    then show ?thesis
      using that Cons.prems(1) [of c E] hasDescendantInSet_iff [OF assms(1) c(2)] by fastforce
  next
    case False
    then show ?thesis
      using that [of E] hasDescendantInSet_iff [OF assms(1) c(2)] by simp
  qed
  have same: "{x \<in> set cs. set (fst E1) \<inter> below H x = {}} = {x \<in> set cs. set (fst E) \<inter> below H x = {}}"
  proof -
    have "set (fst E1) \<inter> below H x = set (fst E) \<inter> below H x" if "x \<in> set cs" for x
      using E1(1) dc other [OF that] by (cases "set (fst E) \<inter> below H c = {}") auto
    then show ?thesis by blast
  qed
  have "\<exists>E'. enterRegions H f cs E1 = Some E' \<and>
      set (fst E') = set (fst E1) \<union> (\<Union>c \<in> {c \<in> set cs. set (fst E1) \<inter> below H c = {}}. dflt H c) \<and>
      (distinct (fst E1) \<longrightarrow> distinct (fst E'))"
    by (rule Cons.IH) (use Cons.prems E1(1) in auto)
  then obtain E' where E': "enterRegions H f cs E1 = Some E'"
    "set (fst E') = set (fst E1) \<union> (\<Union>c \<in> {c \<in> set cs. set (fst E1) \<inter> below H c = {}}. dflt H c)"
    "distinct (fst E1) \<longrightarrow> distinct (fst E')"
    by blast
  have "enterRegions H f (c # cs) E = Some E'"
    using step E'(1) by (simp add: enterRegions_def)
  moreover have "set (fst E') = set (fst E) \<union>
      (\<Union>x \<in> {x \<in> set (c # cs). set (fst E) \<inter> below H x = {}}. dflt H x)"
    using E'(2) [unfolded same] E1(1) by auto
  ultimately show ?case
    using E1(2) E'(3) by blast
qed

lemma initial_loop:
  assumes "tree H" and "s < length (nodes H)" and "Initial (nodeAt H s) = Some i"
  shows "ancestorsLoop H f (ProperAncestors H i) (Some s) E = Some E"
proof -
  have "i < length (nodes H)" "par H i = Some s"
    using tree_kid tree_initial assms by blast+
  then show ?thesis
    using ProperAncestors_child [OF assms(1)] by simp
qed

text \<open>Default entry into a subtree none of whose states has been entered yet.\<close>

lemma addDesc_fresh:
  assumes "tree H"
  shows "s < length (nodes H) \<Longrightarrow> plain H s \<Longrightarrow> set (fst E) \<inter> below H s = {} \<Longrightarrow>
           length (nodes H) - s \<le> k \<Longrightarrow>
           \<exists>E'. addDescendantStatesToEnter H hist k s E = Some E' \<and>
                set (fst E') = set (fst E) \<union> dflt H s \<and>
                (distinct (fst E) \<longrightarrow> distinct (fst E'))"
proof (induction k arbitrary: s E)
  case 0
  then show ?case by simp
next
  case (Suc k)
  let ?f = "addDescendantStatesToEnter H hist k"
  let ?E1 = "(ins s (fst E), snd E)"
  note kid = tree_kid [OF assms Suc.prems(1)]
  have hist: "kind H s \<noteq> StateHistory"
    using Suc.prems(2) by (rule plain_kind)
  have free: "set (fst ?E1) \<inter> below H c = {}" if "c \<in> set (kids H s)" for c
    using Suc.prems(3) below_unfold [OF assms Suc.prems(1)] not_below_kid [OF assms Suc.prems(1) that] that
    by auto
  show ?case
  proof (cases "kind H s")
    case StateCompound
    show ?thesis
    proof (cases "Initial (nodeAt H s)")
      case None
      then show ?thesis
        using StateCompound Suc.prems(3)
        by (auto simp: addDescendantStatesToEnter.simps(2) descendantsBody_def Let_def dflt_compound)
    next
      case (Some i)
      have i: "i \<in> set (kids H s)"
        by (rule tree_initial [OF assms Suc.prems(1) Some])
      then have "length (nodes H) - i \<le> k" "i < length (nodes H)"
        using kid [OF i] Suc.prems(4) by linarith+
      then obtain E' where E': "?f i (ins s (fst E), ins s (snd E)) = Some E'"
        "set (fst E') = insert s (set (fst E)) \<union> dflt H i" "distinct (fst E) \<longrightarrow> distinct (fst E')"
        using Suc.IH [of i "(ins s (fst E), ins s (snd E))"] free [OF i]
          plain_initial [OF Suc.prems(2) StateCompound Some] by auto
      have "addDescendantStatesToEnter H hist (Suc k) s E = Some E'"
        using StateCompound Some E'(1) initial_loop [OF assms Suc.prems(1) Some]
        by (simp add: addDescendantStatesToEnter.simps(2) descendantsBody_def)
      then show ?thesis
        using E' StateCompound Some by (simp add: dflt_compound)
    qed
  next
    case StateParallel
    have "\<exists>E'. enterRegions H ?f (kids H s) ?E1 = Some E' \<and>
        set (fst E') = set (fst ?E1) \<union>
          (\<Union>c \<in> {c \<in> set (kids H s). set (fst ?E1) \<inter> below H c = {}}. dflt H c) \<and>
        (distinct (fst ?E1) \<longrightarrow> distinct (fst E'))"
    proof (rule enterRegions_fresh [OF assms Suc.prems(1)])
      fix c and E0 :: entry_sets
      assume c: "c \<in> set (kids H s)" and "set (fst ?E1) \<subseteq> set (fst E0)" and "set (fst E0) \<inter> below H c = {}"
      then show "\<exists>E'. ?f c E0 = Some E' \<and> set (fst E') = set (fst E0) \<union> dflt H c \<and>
          (distinct (fst E0) \<longrightarrow> distinct (fst E'))"
        using kid [OF c] Suc.prems(4) plain_region [OF Suc.prems(2) StateParallel c]
        by (intro Suc.IH) auto
    qed (use tree_distinct_kids [OF assms Suc.prems(1)] in auto)
    moreover have "{c \<in> set (kids H s). set (fst ?E1) \<inter> below H c = {}} = set (kids H s)"
      using free by auto
    ultimately show ?thesis
      using StateParallel
      by (auto simp: addDescendantStatesToEnter.simps(2) descendantsBody_def Let_def dflt_parallel)
  qed (use hist in \<open>auto simp: addDescendantStatesToEnter.simps(2) descendantsBody_def Let_def dflt_leaf\<close>)
qed


subsection \<open>The walk up to the domain\<close>

definition strictly_below :: "heap \<Rightarrow> node \<Rightarrow> node set" where
  "strictly_below H d = {n. n < length (nodes H) \<and> d \<in> set (ProperAncestors H n)}"

definition plain_sides :: "heap \<Rightarrow> node \<Rightarrow> node \<Rightarrow> bool" where
  "plain_sides H g d \<longleftrightarrow> (\<forall>c \<in> side_regions H g d. plain H c)"

lemma strictly_below_sub: "strictly_below H d \<subseteq> below H d"
  by (auto simp: strictly_below_def below_def)

lemma below_sub_strictly:
  "tree H \<Longrightarrow> d \<in> set (ProperAncestors H g) \<Longrightarrow> below H g \<subseteq> strictly_below H d"
  using ProperAncestors_trans by (fastforce simp: below_def strictly_below_def)

lemma not_own_ancestor: "tree H \<Longrightarrow> n < length (nodes H) \<Longrightarrow> n \<notin> set (ProperAncestors H n)"
  using ProperAncestors_less by blast

lemma ancestor_antisym:
  "tree H \<Longrightarrow> n < length (nodes H) \<Longrightarrow> a \<in> set (ProperAncestors H n) \<Longrightarrow> n \<notin> set (ProperAncestors H a)"
  using ProperAncestors_less [of H n a] ProperAncestors_less [of H a n] by fastforce

lemma ancestor_lt: "tree H \<Longrightarrow> n < length (nodes H) \<Longrightarrow> a \<in> set (ProperAncestors H n) \<Longrightarrow> a < length (nodes H)"
  using ProperAncestors_less by blast

lemma on_path_parent:
  assumes "tree H" and "m < length (nodes H)" and "par H m = Some p"
  shows "on_path H m d = (if d \<in> set (ProperAncestors H p) then insert p (on_path H p d) else {})"
proof -
  have anc: "ProperAncestors H m = p # ProperAncestors H p"
    by (rule ProperAncestors_child [OF assms])
  have "p < length (nodes H)"
    using tree_par [OF assms] by simp
  then have "d \<in> set (ProperAncestors H p)" if "a \<in> set (ProperAncestors H p)" "d \<in> set (ProperAncestors H a)" for a
    using ProperAncestors_trans [OF assms(1)] that by blast
  then show ?thesis
    using anc by (auto simp: on_path_def)
qed

lemma side_regions_parent:
  assumes "tree H" and "m < length (nodes H)" and "par H m = Some p"
    and "d \<in> set (ProperAncestors H p)"
  shows "side_regions H m d = side_regions H p d \<union>
           (if kind H p = StateParallel then set (kids H p) - {m} else {})"
proof -
  have p: "p < length (nodes H)"
    using tree_par [OF assms(1-3)] by simp
  have anc: "ProperAncestors H m = p # ProperAncestors H p"
    by (rule ProperAncestors_child [OF assms(1-3)])
  have up: "m \<in> below H c \<longleftrightarrow> p \<in> below H c" if "a \<in> on_path H p d" "c \<in> set (kids H a)" for a c
  proof -
    have a: "a \<in> set (ProperAncestors H p)" "a < length (nodes H)"
      using that(1) ancestor_lt [OF assms(1) p] by (auto simp: on_path_def)
    have "par H c = Some a"
      using tree_kid [OF assms(1) a(2) that(2)] by simp
    then have "m \<noteq> c"
      using assms(3) a(1) not_own_ancestor [OF assms(1) p] by auto
    then show ?thesis
      using anc p assms(2) by (auto simp: below_def)
  qed
  have own: "m \<in> below H c \<longleftrightarrow> c = m" if "c \<in> set (kids H p)" for c
  proof
    assume "m \<in> below H c"
    moreover have "c \<notin> set (ProperAncestors H m)"
      using anc not_below_kid [OF assms(1) p that] p tree_kid [OF assms(1) p that]
      by (auto simp: below_def)
    ultimately show "c = m"
      by (simp add: below_def)
  qed (simp add: assms(2))
  have path: "on_path H m d = insert p (on_path H p d)"
    using on_path_parent [OF assms(1-3)] assms(4) by simp
  show ?thesis
    unfolding side_regions_def path using up own by auto
qed

text \<open>
  The parent of an entered node: the siblings of the node are the regions still free, and
  entering them by default stays below the parent.
\<close>

lemma free_siblings:
  assumes "tree H" and "p < length (nodes H)" and "m \<in> set (kids H p)" and "d \<in> set (ProperAncestors H p)"
    and "set E \<inter> strictly_below H d \<subseteq> below H m" and "set E \<inter> below H m \<noteq> {}" and "c \<in> set (kids H p)"
  shows "set (ins p E) \<inter> below H c = {} \<longleftrightarrow> c \<noteq> m"
proof (cases "c = m")
  case True
  then show ?thesis using assms(6) by auto
next
  case c: False
  have "below H c \<subseteq> strictly_below H d"
    using below_sub_strictly [OF assms(1)] tree_kid [OF assms(1,2,7)] assms(4)
      ProperAncestors_child [OF assms(1)] by simp
  then have "set E \<inter> below H c \<subseteq> below H m \<inter> below H c"
    using assms(5) by blast
  then show ?thesis
    using siblings_disjoint [OF assms(1-3,7)] c not_below_kid [OF assms(1,2,7)] by auto
qed

lemma enter_siblings:
  assumes "tree H" and "p < length (nodes H)" and "m \<in> set (kids H p)" and k: "length (nodes H) \<le> k"
    and free: "\<And>c. c \<in> set (kids H p) \<Longrightarrow> set (fst E1) \<inter> below H c = {} \<longleftrightarrow> c \<noteq> m"
    and pl: "\<And>c. kind H p = StateParallel \<Longrightarrow> c \<in> set (kids H p) \<Longrightarrow> c \<noteq> m \<Longrightarrow> plain H c"
  shows "\<exists>E2. (if kind H p = StateParallel then enterRegions H (addDescendantStatesToEnter H hist k) (kids H p) E1 else Some E1) = Some E2 \<and>
      set (fst E2) = set (fst E1) \<union> (\<Union>c \<in> (if kind H p = StateParallel then set (kids H p) - {m} else {}). dflt H c) \<and>
      (distinct (fst E1) \<longrightarrow> distinct (fst E2))"
proof (cases "kind H p = StateParallel")
  case True
  have "\<exists>E2. enterRegions H (addDescendantStatesToEnter H hist k) (kids H p) E1 = Some E2 \<and>
      set (fst E2) = set (fst E1) \<union> (\<Union>c \<in> {c \<in> set (kids H p). set (fst E1) \<inter> below H c = {}}. dflt H c) \<and>
      (distinct (fst E1) \<longrightarrow> distinct (fst E2))"
  proof (rule enterRegions_fresh [OF assms(1,2)])
    fix c and X :: entry_sets
    assume c: "c \<in> set (kids H p)" and grow: "set (fst E1) \<subseteq> set (fst X)" and fresh: "set (fst X) \<inter> below H c = {}"
    have "plain H c"
      using free [OF c] grow fresh pl [OF True c] by blast
    then show "\<exists>E'. addDescendantStatesToEnter H hist k c X = Some E' \<and> set (fst E') = set (fst X) \<union> dflt H c \<and>
        (distinct (fst X) \<longrightarrow> distinct (fst E'))"
      using addDesc_fresh [OF assms(1)] tree_kid [OF assms(1,2) c] fresh k by simp
  qed (use tree_distinct_kids [OF assms(1,2)] in auto)
  moreover have "{c \<in> set (kids H p). set (fst E1) \<inter> below H c = {}} = set (kids H p) - {m}"
    using free by auto
  ultimately show ?thesis using True by simp
qed simp

lemma siblings_below:
  assumes "tree H" and "p < length (nodes H)" and "c \<in> set (kids H p)"
  shows "dflt H c \<subseteq> below H p"
  using dflt_below [OF assms(1)] tree_kid [OF assms] kid_below [OF assms] below_trans [OF assms(1)] by blast

lemma ancestorsLoop_path:
  assumes "tree H" and "m < length (nodes H)" and "d \<in> set (ProperAncestors H m)"
    and "set (fst E) \<inter> strictly_below H d \<subseteq> below H m" and "set (fst E) \<inter> below H m \<noteq> {}"
    and "plain_sides H m d" and "length (nodes H) \<le> k"
  shows "\<exists>E'. ancestorsLoop H (addDescendantStatesToEnter H hist k) (ProperAncestors H m) (Some d) E = Some E' \<and>
           set (fst E') = set (fst E) \<union> on_path H m d \<union> (\<Union>c \<in> side_regions H m d. dflt H c) \<and>
           (distinct (fst E) \<longrightarrow> distinct (fst E'))"
  using assms(1,2,3-6)
proof (induction m arbitrary: E rule: tree_induct)
  case root
  then show ?case by (simp add: assms(1))
next
  case (child m p)
  have anc: "ProperAncestors H m = p # ProperAncestors H p"
    by (rule ProperAncestors_child [OF assms(1) child(1,2)])
  have m_kid: "m \<in> set (kids H p)"
    using tree_par [OF assms(1) child(1,2)] by simp
  show ?case
  proof (cases "d = p")
    case True
    then have "on_path H m d = {}"
      using on_path_parent [OF assms(1) child(1,2)] not_own_ancestor [OF assms(1) child(3)] by simp
    then show ?thesis
      using True anc by (simp add: side_regions_def)
  next
    case False
    then have dp: "d \<in> set (ProperAncestors H p)"
      using child.prems(1) anc by simp
    note side = side_regions_parent [OF assms(1) child(1,2) dp]
    let ?E1 = "(ins p (fst E), snd E)"
    let ?new = "if kind H p = StateParallel then set (kids H p) - {m} else {}"
    have "plain H c" if "kind H p = StateParallel" "c \<in> set (kids H p)" "c \<noteq> m" for c
      using child.prems(4) side that by (auto simp: plain_sides_def)
    then obtain E2 where
      E2: "(if kind H p = StateParallel then enterRegions H (addDescendantStatesToEnter H hist k) (kids H p) ?E1 else Some ?E1) = Some E2"
        "set (fst E2) = set (fst ?E1) \<union> (\<Union>c \<in> ?new. dflt H c)" "distinct (fst ?E1) \<longrightarrow> distinct (fst E2)"
      using enter_siblings [OF assms(1) child(3) m_kid assms(7), of ?E1 hist]
        free_siblings [OF assms(1) child(3) m_kid dp child.prems(2,3)]
      unfolding fst_conv by blast
    have "(\<Union>c \<in> ?new. dflt H c) \<subseteq> below H p" "below H m \<subseteq> below H p"
      using siblings_below [OF assms(1) child(3)] kid_below [OF assms(1) child(3) m_kid] below_trans [OF assms(1)]
      by (auto split: if_splits)
    moreover have "set (fst ?E1) \<inter> strictly_below H d \<subseteq> below H p"
      using child.prems(2) child(3) \<open>below H m \<subseteq> below H p\<close> by auto
    ultimately have "set (fst E2) \<inter> strictly_below H d \<subseteq> below H p"
      unfolding E2(2) by blast
    moreover have "set (fst E2) \<inter> below H p \<noteq> {}"
      using E2(2) child(3) by auto
    moreover have "plain_sides H p d"
      using child.prems(4) side by (auto simp: plain_sides_def)
    ultimately have "\<exists>E'. ancestorsLoop H (addDescendantStatesToEnter H hist k) (ProperAncestors H p) (Some d) E2 = Some E' \<and>
        set (fst E') = set (fst E2) \<union> on_path H p d \<union> (\<Union>c \<in> side_regions H p d. dflt H c) \<and>
        (distinct (fst E2) \<longrightarrow> distinct (fst E'))"
      by (intro child.IH dp)
    moreover have "ancestorsLoop H (addDescendantStatesToEnter H hist k) (ProperAncestors H m) (Some d) E =
        ancestorsLoop H (addDescendantStatesToEnter H hist k) (ProperAncestors H p) (Some d) E2"
      using anc False E2(1) by (simp add: Let_def)
    moreover have "on_path H m d = insert p (on_path H p d)"
      using on_path_parent [OF assms(1) child(1,2), of d] dp by simp
    ultimately show ?thesis
      using side E2(2,3) by auto
  qed
qed

subsection \<open>The entry set of one transition\<close>

text \<open>Target and domain of a transition whose target is not a history state.\<close>

lemma enter_target:
  assumes "tree H" and "g < length (nodes H)" and "d \<in> set (ProperAncestors H g)"
    and "plain H g" and "plain_sides H g d"
    and "set (fst E) \<inter> strictly_below H d = {}" and "length (nodes H) \<le> k"
  shows "\<exists>E'. Option.bind (addDescendantStatesToEnter H hist k g E)
                (addAncestorStatesToEnter H hist k g (Some d)) = Some E' \<and>
              set (fst E') = set (fst E) \<union> entry_closure H g d \<and>
              (distinct (fst E) \<longrightarrow> distinct (fst E'))"
proof -
  have sub: "below H g \<subseteq> strictly_below H d"
    by (rule below_sub_strictly [OF assms(1,3)])
  obtain E1 where E1: "addDescendantStatesToEnter H hist k g E = Some E1"
    "set (fst E1) = set (fst E) \<union> dflt H g" "distinct (fst E) \<longrightarrow> distinct (fst E1)"
  proof -
    have "set (fst E) \<inter> below H g = {}" "length (nodes H) - g \<le> k"
      using sub assms(6,7) by auto
    then show ?thesis
      using addDesc_fresh [OF assms(1,2,4), of E k hist] that by blast
  qed
  have "set (fst E1) \<inter> strictly_below H d \<subseteq> below H g"
    using E1(2) assms(6) dflt_below [OF assms(1,2)] by auto
  moreover have "set (fst E1) \<inter> below H g \<noteq> {}"
    using E1(2) assms(2) dflt.self [of g H] by auto
  ultimately obtain E' where
    "ancestorsLoop H (addDescendantStatesToEnter H hist k) (ProperAncestors H g) (Some d) E1 = Some E'"
    "set (fst E') = set (fst E1) \<union> on_path H g d \<union> (\<Union>c \<in> side_regions H g d. dflt H c)"
    "distinct (fst E1) \<longrightarrow> distinct (fst E')"
    using ancestorsLoop_path [OF assms(1-3) _ _ assms(5,7)] by blast
  then show ?thesis
    using E1 by (auto simp: addAncestorStatesToEnter_def entry_closure_def)
qed

subsection \<open>History targets\<close>

text \<open>
  A history target stands for what it restores. When that is one state \<open>c\<close> below the
  history's parent, the transition enters what it would enter with \<open>c\<close> as its target.
\<close>

definition restored :: "heap \<Rightarrow> history \<Rightarrow> node \<Rightarrow> node list" where
  "restored H hist h =
     (if hist (ID (nodeAt H h)) = [] then HistoryTo (nodeAt H h) else hist (ID (nodeAt H h)))"

definition entry_target :: "heap \<Rightarrow> history \<Rightarrow> node \<Rightarrow> node \<Rightarrow> bool" where
  "entry_target H hist g c \<longleftrightarrow>
     (if kind H g = StateHistory
      then restored H hist g = [c] \<and> c < length (nodes H) \<and>
           (case par H g of
              None \<Rightarrow> False
            | Some p \<Rightarrow> kind H p \<noteq> StateParallel \<and> p \<in> set (ProperAncestors H c))
      else c = g)"

lemma on_path_through:
  assumes "tree H" and "c < length (nodes H)" and "p \<in> set (ProperAncestors H c)"
    and "d \<in> set (ProperAncestors H p)"
  shows "on_path H c d = on_path H c p \<union> insert p (on_path H p d)"
proof -
  have "p < length (nodes H)"
    by (rule ancestor_lt [OF assms(1-3)])
  then have "a \<in> set (ProperAncestors H c)" if "a \<in> set (ProperAncestors H p)" for a
    using ProperAncestors_trans [OF assms(1-3)] that by blast
  moreover have "d \<in> set (ProperAncestors H a)" if "a \<in> on_path H c p" for a
    using that ProperAncestors_trans [OF assms(1) _ _ assms(4)] ancestor_lt [OF assms(1,2)]
    by (auto simp: on_path_def)
  moreover have "a = p \<or> a \<in> set (ProperAncestors H p) \<or> p \<in> set (ProperAncestors H a)"
    if "a \<in> set (ProperAncestors H c)" for a
    using ancestors_comparable [OF assms(1,2) that assms(3)] .
  ultimately show ?thesis
    using assms(3,4) by (auto simp: on_path_def)
qed

lemma side_regions_through:
  assumes "tree H" and "c < length (nodes H)" and "p \<in> set (ProperAncestors H c)"
    and "d \<in> set (ProperAncestors H p)" and "kind H p \<noteq> StateParallel"
  shows "side_regions H c d = side_regions H c p \<union> side_regions H p d"
proof -
  have p: "p < length (nodes H)"
    by (rule ancestor_lt [OF assms(1-3)])
  have up: "c \<in> below H k \<longleftrightarrow> p \<in> below H k" if a: "a \<in> on_path H p d" and k: "k \<in> set (kids H a)" for a k
  proof
    have a_up: "a \<in> set (ProperAncestors H p)"
      using a by (simp add: on_path_def)
    have anc: "ProperAncestors H k = a # ProperAncestors H a" "k < length (nodes H)"
      using tree_kid [OF assms(1) ancestor_lt [OF assms(1) p a_up] k] ProperAncestors_child [OF assms(1)] by auto
    have no: "p \<notin> set (ProperAncestors H k)"
      using anc a_up ancestor_antisym [OF assms(1) p a_up] not_own_ancestor [OF assms(1) p] by auto
    show "p \<in> below H k" if "c \<in> below H k"
    proof (cases "k = c")
      case True
      then show ?thesis using no assms(3) by simp
    next
      case False
      then have "k \<in> set (ProperAncestors H c)"
        using that by (simp add: below_def)
      then show ?thesis
        using ancestors_comparable [OF assms(1,2) _ assms(3)] no p by (auto simp: below_def)
    qed
    show "c \<in> below H k" if "p \<in> below H k"
      using that assms(2,3) ProperAncestors_trans [OF assms(1-3)] by (auto simp: below_def)
  qed
  show ?thesis
    unfolding side_regions_def on_path_through [OF assms(1-4)]
    using up assms(5) by auto
qed

lemma closure_through:
  assumes "tree H" and "c < length (nodes H)" and "p \<in> set (ProperAncestors H c)"
    and "d \<in> set (ProperAncestors H p)" and "kind H p \<noteq> StateParallel"
  shows "entry_closure H c d =
           entry_closure H c p \<union> insert p (on_path H p d) \<union> (\<Union>k \<in> side_regions H p d. dflt H k)"
  unfolding entry_closure_def on_path_through [OF assms(1-4)] side_regions_through [OF assms]
  by auto

lemma closure_below:
  assumes wf: "tree H" and c: "c < length (nodes H)" "p \<in> set (ProperAncestors H c)"
  shows "entry_closure H c p \<subseteq> below H p"
proof -
  have "dflt H c \<subseteq> below H p"
    using dflt_below [OF wf c(1)] below_sub_strictly [OF wf c(2)] strictly_below_sub by blast
  moreover have "on_path H c p \<subseteq> below H p"
    using ancestor_lt [OF wf c(1)] by (auto simp: on_path_def below_def)
  moreover have "dflt H e \<subseteq> below H p" if e: "e \<in> side_regions H c p" for e
  proof -
    obtain a where a: "a \<in> set (ProperAncestors H c)" "p \<in> set (ProperAncestors H a)" "e \<in> set (kids H a)"
      using e by (auto simp: side_regions_def on_path_def)
    have al: "a < length (nodes H)"
      by (rule ancestor_lt [OF wf c(1) a(1)])
    have "p \<in> set (ProperAncestors H e)" "e < length (nodes H)"
      using tree_kid [OF wf al a(3)] ProperAncestors_child [OF wf] a(2) by auto
    then show ?thesis
      using dflt_below [OF wf] below_sub_strictly [OF wf] strictly_below_sub by blast
  qed
  ultimately show ?thesis
    unfolding entry_closure_def by blast
qed

lemma enter_history:
  assumes wf: "tree H" and h: "h < length (nodes H)" "kind H h = StateHistory" "par H h = Some p"
    and res: "restored H hist h = [c]" "c < length (nodes H)" "p \<in> set (ProperAncestors H c)"
    and p: "kind H p \<noteq> StateParallel"
    and d: "d \<in> set (ProperAncestors H h)"
    and c: "plain H c" "plain_sides H c d"
    and fresh: "set (fst E) \<inter> strictly_below H d = {}" and k: "length (nodes H) < k"
  shows "\<exists>E'. Option.bind (addDescendantStatesToEnter H hist k h E)
                (addAncestorStatesToEnter H hist k h (Some d)) = Some E' \<and>
              set (fst E') = set (fst E) \<union> entry_closure H c d \<and>
              (distinct (fst E) \<longrightarrow> distinct (fst E'))"
proof -
  obtain k' where k': "k = Suc k'" "length (nodes H) \<le> k'"
    using k by (cases k) auto
  have anc: "ProperAncestors H h = p # ProperAncestors H p"
    by (rule ProperAncestors_child [OF wf h(1,3)])
  have pl: "p < length (nodes H)"
    using tree_par [OF wf h(1,3)] by simp
  have dp: "d = p \<or> d \<in> set (ProperAncestors H p)"
    using d anc by auto
  have sub: "strictly_below H p \<subseteq> strictly_below H d"
    using dp ProperAncestors_trans [OF wf] by (auto simp: strictly_below_def)
  have through: "d \<noteq> p \<Longrightarrow> side_regions H c d = side_regions H c p \<union> side_regions H p d"
    using dp side_regions_through [OF wf res(2,3) _ p] by blast
  then have sides: "plain_sides H c p" "d \<noteq> p \<Longrightarrow> plain_sides H p d"
    using c(2) by (cases "d = p"; auto simp: plain_sides_def)+
  obtain E1 where E1: "Option.bind (addDescendantStatesToEnter H hist k' c E)
      (addAncestorStatesToEnter H hist k' c (Some p)) = Some E1"
    "set (fst E1) = set (fst E) \<union> entry_closure H c p" "distinct (fst E) \<longrightarrow> distinct (fst E1)"
    using enter_target [OF wf res(2,3) c(1) sides(1) _ k'(2), of E hist] sub fresh by blast
  have desc: "addDescendantStatesToEnter H hist k h E = Some E1"
    using E1(1) h(2,3) res(1) k'(1)
    by (simp add: addDescendantStatesToEnter.simps(2) descendantsBody_def restored_def
        addAncestorStatesToEnter_def [abs_def] Let_def bind_assoc [symmetric] split: if_splits)
  show ?thesis
  proof (cases "d = p")
    case True
    then have "addAncestorStatesToEnter H hist k h (Some d) E1 = Some E1"
      using anc by (simp add: addAncestorStatesToEnter_def)
    then show ?thesis
      using desc E1 True by simp
  next
    case False
    then have dp': "d \<in> set (ProperAncestors H p)"
      using dp by simp
    let ?E2 = "(ins p (fst E1), snd E1)"
    have "set (fst ?E2) \<inter> strictly_below H d \<subseteq> below H p"
      using E1(2) fresh pl closure_below [OF wf res(2,3)] by auto
    moreover have "set (fst ?E2) \<inter> below H p \<noteq> {}"
      using pl by auto
    ultimately obtain E' where E': "ancestorsLoop H (addDescendantStatesToEnter H hist k) (ProperAncestors H p) (Some d) ?E2 = Some E'"
      "set (fst E') = set (fst ?E2) \<union> on_path H p d \<union> (\<Union>c \<in> side_regions H p d. dflt H c)"
      "distinct (fst ?E2) \<longrightarrow> distinct (fst E')"
      using ancestorsLoop_path [OF wf pl dp' _ _ sides(2) [OF False], of ?E2 k hist] k by auto
    have "addAncestorStatesToEnter H hist k h (Some d) E1 = Some E'"
      using anc False p E'(1) by (simp add: addAncestorStatesToEnter_def Let_def)
    moreover have "set (fst E') = set (fst E) \<union> entry_closure H c d"
      using E'(2) E1(2) closure_through [OF wf res(2,3) dp' p] by auto
    ultimately show ?thesis
      using desc E1(3) E'(3) by auto
  qed
qed

lemma enter_effective:
  assumes wf: "tree H" and g: "g < length (nodes H)" and t: "entry_target H hist g c"
    and d: "d \<in> set (ProperAncestors H g)"
    and c: "plain H c" "plain_sides H c d"
    and fresh: "set (fst E) \<inter> strictly_below H d = {}" and k: "length (nodes H) < k"
  shows "\<exists>E'. Option.bind (addDescendantStatesToEnter H hist k g E)
                (addAncestorStatesToEnter H hist k g (Some d)) = Some E' \<and>
              set (fst E') = set (fst E) \<union> entry_closure H c d \<and>
              (distinct (fst E) \<longrightarrow> distinct (fst E'))"
proof (cases "kind H g = StateHistory")
  case True
  then obtain p where "restored H hist g = [c]" "c < length (nodes H)" "par H g = Some p"
    "kind H p \<noteq> StateParallel" "p \<in> set (ProperAncestors H c)"
    using t by (auto simp: entry_target_def split: option.splits)
  then show ?thesis
    using enter_history [OF wf g True] d c fresh k by blast
next
  case False
  then have "c = g"
    using t by (simp add: entry_target_def)
  then show ?thesis
    using enter_target [OF wf g d] c fresh k by simp
qed

lemma entry_target_domain:
  assumes wf: "tree H" and g: "g < length (nodes H)" and t: "entry_target H hist g c"
    and d: "d \<in> set (ProperAncestors H g)"
  shows "d \<in> set (ProperAncestors H c) \<and> c < length (nodes H)"
proof (cases "kind H g = StateHistory")
  case True
  then obtain p where p: "c < length (nodes H)" "par H g = Some p" "p \<in> set (ProperAncestors H c)"
    using t by (auto simp: entry_target_def split: option.splits)
  then show ?thesis
    using ProperAncestors_child [OF wf g p(2)] ProperAncestors_trans [OF wf p(1,3)] d by auto
next
  case False
  then show ?thesis
    using t g d by (simp add: entry_target_def)
qed

end
