(* ===== verification/Legality.thy ===== *)
theory Legality
  imports Entry_Closure
begin

section \<open>Legal configurations\<close>

text \<open>
  The invariant a statechart engine has to keep: the root is active, the parent of an
  active state is active, an active compound state has exactly one active child, an active
  parallel state has all its regions active, and a history pseudo-state is never active.
  The theory shows that replacing, below each of a set of pairwise incomparable domains,
  the active states by the entry closure of a target keeps a configuration legal. The
  engine's microstep is such a replacement (\<open>Engine_Legal\<close>).
\<close>

definition ok_node :: "heap \<Rightarrow> node set \<Rightarrow> node \<Rightarrow> bool" where
  "ok_node H C n \<longleftrightarrow>
     kind H n \<noteq> StateHistory
     \<and> (kind H n = StateCompound \<longrightarrow>
          (\<exists>c \<in> set (kids H n). c \<in> C \<and> (\<forall>x \<in> set (kids H n). x \<in> C \<longrightarrow> x = c)))
     \<and> (kind H n = StateParallel \<longrightarrow> set (kids H n) \<subseteq> C)"

definition legal :: "heap \<Rightarrow> node set \<Rightarrow> bool" where
  "legal H C \<longleftrightarrow>
     0 \<in> C
     \<and> (\<forall>n \<in> C. n < length (nodes H))
     \<and> (\<forall>n \<in> C. case par H n of None \<Rightarrow> True | Some p \<Rightarrow> p \<in> C)
     \<and> (\<forall>n \<in> C. ok_node H C n)"

text \<open>What a statechart has beyond the tree: an initial child, and leaves without children. (The
  loader does not reject a final or history state with children.)\<close>

definition shape :: "heap \<Rightarrow> bool" where
  "shape H \<longleftrightarrow>
     list_all (\<lambda>n. (kind H n = StateCompound \<longrightarrow> Initial (nodeAt H n) \<noteq> None)
                 \<and> (kind H n \<noteq> StateCompound \<and> kind H n \<noteq> StateParallel \<longrightarrow> kids H n = []))
       [0..<length (nodes H)]"

lemma shape_initial:
  "shape H \<Longrightarrow> n < length (nodes H) \<Longrightarrow> kind H n = StateCompound \<Longrightarrow>
     \<exists>i. Initial (nodeAt H n) = Some i"
  by (auto simp: shape_def list_all_iff)

lemma shape_leaf:
  "shape H \<Longrightarrow> n < length (nodes H) \<Longrightarrow> c \<in> set (kids H n) \<Longrightarrow>
     kind H n = StateCompound \<or> kind H n = StateParallel"
  by (auto simp: shape_def list_all_iff)

lemma ok_node_local:
  "ok_node H A n \<Longrightarrow> A \<inter> set (kids H n) = B \<inter> set (kids H n) \<Longrightarrow> ok_node H B n"
  unfolding ok_node_def by blast

lemma legal_root: "legal H C \<Longrightarrow> 0 \<in> C"
  by (simp add: legal_def)

lemma legal_lt: "legal H C \<Longrightarrow> n \<in> C \<Longrightarrow> n < length (nodes H)"
  by (simp add: legal_def)

lemma legal_ok: "legal H C \<Longrightarrow> n \<in> C \<Longrightarrow> ok_node H C n"
  by (simp add: legal_def)

lemma legal_par: "legal H C \<Longrightarrow> n \<in> C \<Longrightarrow> par H n = Some p \<Longrightarrow> p \<in> C"
  by (force simp: legal_def split: option.splits)

lemma legal_ancestors:
  assumes "tree H" and "legal H C" and "n \<in> C" and "a \<in> set (ProperAncestors H n)"
  shows "a \<in> C"
proof -
  have "n < length (nodes H)"
    using assms(2,3) by (rule legal_lt)
  with assms(1) show ?thesis
    using assms(3,4)
  proof (induction n rule: tree_induct)
    case root
    then show ?case by (simp add: assms(1))
  next
    case (child n p)
    then show ?case
      using ProperAncestors_child [OF assms(1) child(1,2)] legal_par [OF assms(2) _ child(2)] by auto
  qed
qed

subsection \<open>The default closure is legal inside its subtree\<close>

lemma dflt_ok:
  assumes "tree H" and "shape H" and "s < length (nodes H)" and "plain H s" and "m \<in> dflt H s"
  shows "ok_node H (dflt H s) m"
proof -
  have m: "m < length (nodes H)"
    using dflt_lt assms by blast
  have one: "c = i" if mi: "kind H m = StateCompound" "Initial (nodeAt H m) = Some i"
    and ck: "c \<in> set (kids H m)" and cd: "c \<in> dflt H s" for c i
  proof -
    have c: "par H c = Some m" "m \<in> set (ProperAncestors H c)"
      using tree_kid [OF assms(1) m ck] ProperAncestors_child [OF assms(1)] by auto
    have "c \<noteq> s"
      using dflt_below [OF assms(1,3,5)] c ancestor_antisym [OF assms(1) m]
        not_own_ancestor [OF assms(1)] tree_kid [OF assms(1) m ck]
      by (auto simp: below_def)
    then obtain m' where "par H c = Some m'" and
      "kind H m' = StateCompound \<and> Initial (nodeAt H m') = Some c \<or> kind H m' = StateParallel"
      using dflt_parent [OF assms(1,3) cd] by blast
    then show ?thesis using c(1) mi by auto
  qed
  have "\<exists>c \<in> set (kids H m). c \<in> dflt H s \<and> (\<forall>x \<in> set (kids H m). x \<in> dflt H s \<longrightarrow> x = c)"
    if k: "kind H m = StateCompound"
  proof -
    obtain i where i: "Initial (nodeAt H m) = Some i"
      using shape_initial [OF assms(2) m k] by blast
    have "i \<in> set (kids H m)" "i \<in> dflt H s"
      using tree_initial [OF assms(1) m i] dflt.initial [OF assms(5) k i] by auto
    then show ?thesis
      using one [OF k i] by blast
  qed
  then show ?thesis
    using assms(4,5) by (auto simp: ok_node_def plain_def intro: dflt.region)
qed

subsection \<open>The entry closure, piece by piece\<close>

lemma side_region_cases:
  assumes "c \<in> side_regions H g d"
  obtains a where "a \<in> set (ProperAncestors H g)" and "d \<in> set (ProperAncestors H a)"
    and "kind H a = StateParallel" and "c \<in> set (kids H a)" and "g \<notin> below H c"
  using assms by (auto simp: side_regions_def on_path_def)

definition entry_region :: "heap \<Rightarrow> node \<Rightarrow> node \<Rightarrow> bool" where
  "entry_region H g d \<longleftrightarrow>
     tree H \<and> shape H \<and> g < length (nodes H) \<and> d \<in> set (ProperAncestors H g)
     \<and> plain H g \<and> plain_sides H g d"

lemma entry_regionD:
  assumes "entry_region H g d"
  shows "tree H" and "shape H" and "g < length (nodes H)" and "d \<in> set (ProperAncestors H g)"
    and "plain H g" and "plain_sides H g d"
  using assms by (auto simp: entry_region_def)

lemma region_side:
  assumes R: "entry_region H g d" and c: "c \<in> side_regions H g d"
  obtains a where "a \<in> set (ProperAncestors H g)" "a < length (nodes H)" "d \<in> set (ProperAncestors H a)"
    "kind H a = StateParallel" "c \<in> set (kids H a)" "g \<notin> below H c" "c < length (nodes H)"
    "ProperAncestors H c = a # ProperAncestors H a" "plain H c"
proof -
  note wf = entry_regionD(1) [OF R] and shp = entry_regionD(2) [OF R] and g_lt = entry_regionD(3) [OF R]
    and dom = entry_regionD(4) [OF R]
  obtain a where a: "a \<in> set (ProperAncestors H g)" "d \<in> set (ProperAncestors H a)"
    "kind H a = StateParallel" "c \<in> set (kids H a)" "g \<notin> below H c"
    using c by (rule side_region_cases)
  have a_lt: "a < length (nodes H)"
    by (rule ancestor_lt [OF wf g_lt a(1)])
  have "c < length (nodes H)" "par H c = Some a"
    using tree_kid [OF wf a_lt a(4)] by auto
  moreover have "plain H c"
    using entry_regionD(6) [OF R] c by (simp add: plain_sides_def)
  ultimately show thesis
    using that [OF a(1) a_lt a(2-5)] ProperAncestors_child [OF wf] by blast
qed

lemma side_not_above:
  assumes R: "entry_region H g d" and c: "c \<in> side_regions H g d"
  shows "c \<notin> set (ProperAncestors H g)"
proof -
  have "g \<notin> below H c"
    using R c by (rule region_side)
  then show ?thesis
    using entry_regionD(3) [OF R] by (simp add: below_def)
qed

lemma side_target_disjoint:
  assumes R: "entry_region H g d" and c: "c \<in> side_regions H g d"
  shows "below H c \<inter> below H g = {}"
proof (rule ccontr)
  note wf = entry_regionD(1) [OF R] and shp = entry_regionD(2) [OF R] and g_lt = entry_regionD(3) [OF R]
    and dom = entry_regionD(4) [OF R]
  assume "\<not> ?thesis"
  then obtain x where x: "x \<in> below H c" "x \<in> below H g"
    by blast
  obtain a where a: "a \<in> set (ProperAncestors H g)" "g \<notin> below H c"
    "ProperAncestors H c = a # ProperAncestors H a"
    using R c by (rule region_side)
  have "g \<notin> set (ProperAncestors H c)"
    using a ancestor_antisym [OF wf g_lt a(1)] not_own_ancestor [OF wf g_lt] by auto
  moreover have "c \<notin> set (ProperAncestors H g)" "c \<noteq> g"
    using a(2) g_lt by (auto simp: below_def)
  ultimately show False
    using x ancestors_comparable [OF wf, of x c g] by (auto simp: below_def)
qed

lemma side_above_side:
  assumes R: "entry_region H g d" and u: "u \<in> side_regions H g d" and v: "v \<in> side_regions H g d"
  shows "u \<notin> set (ProperAncestors H v)"
proof
  note wf = entry_regionD(1) [OF R] and shp = entry_regionD(2) [OF R] and g_lt = entry_regionD(3) [OF R]
    and dom = entry_regionD(4) [OF R]
  assume up: "u \<in> set (ProperAncestors H v)"
  obtain a where a: "a \<in> set (ProperAncestors H g)" "ProperAncestors H v = a # ProperAncestors H a"
    using R v by (rule region_side)
  then have "u \<in> set (ProperAncestors H g)"
    using up ProperAncestors_trans [OF wf g_lt a(1)] by auto
  then show False
    using side_not_above [OF R u] by simp
qed

lemma sides_disjoint:
  assumes R: "entry_region H g d" and c: "c \<in> side_regions H g d" and e: "e \<in> side_regions H g d"
    and "c \<noteq> e"
  shows "below H c \<inter> below H e = {}"
proof (rule ccontr)
  assume "\<not> ?thesis"
  then obtain x where x: "x \<in> below H c" "x \<in> below H e"
    by blast
  show False
    using x ancestors_comparable [OF entry_regionD(1) [OF R], of x c e]
      side_above_side [OF R c e] side_above_side [OF R e c] \<open>c \<noteq> e\<close>
    by (auto simp: below_def)
qed

lemma dflt_side_below:
  assumes R: "entry_region H g d" and c: "c \<in> side_regions H g d"
  shows "dflt H c \<subseteq> below H c"
proof -
  have "c < length (nodes H)"
    using R c by (rule region_side)
  then show ?thesis
    using dflt_below [OF entry_regionD(1) [OF R]] by blast
qed

lemma dflt_target_below: "entry_region H g d \<Longrightarrow> dflt H g \<subseteq> below H g"
  using dflt_below [of H g] entry_regionD(1,3) [of H g d] by blast

lemma closure_target:
  assumes R: "entry_region H g d"
  shows "entry_closure H g d \<inter> below H g = dflt H g"
proof -
  note wf = entry_regionD(1) [OF R] and shp = entry_regionD(2) [OF R] and g_lt = entry_regionD(3) [OF R]
    and dom = entry_regionD(4) [OF R]
  have "x \<notin> below H g" if "x \<in> on_path H g d" for x
    using that ancestor_antisym [OF wf g_lt] not_own_ancestor [OF wf g_lt]
    by (auto simp: on_path_def below_def)
  moreover have "dflt H c \<inter> below H g = {}" if "c \<in> side_regions H g d" for c
    using side_target_disjoint [OF R that] dflt_side_below [OF R that] by blast
  ultimately show ?thesis
    using dflt_target_below [OF R] unfolding entry_closure_def by blast
qed

lemma closure_side:
  assumes R: "entry_region H g d" and c: "c \<in> side_regions H g d"
  shows "entry_closure H g d \<inter> below H c = dflt H c"
proof -
  note wf = entry_regionD(1) [OF R] and shp = entry_regionD(2) [OF R] and g_lt = entry_regionD(3) [OF R]
    and dom = entry_regionD(4) [OF R]
  have "x \<notin> below H c" if x: "x \<in> on_path H g d" for x
  proof
    assume "x \<in> below H c"
    then have "x = c \<or> c \<in> set (ProperAncestors H x)"
      by (simp add: below_def)
    moreover have "x \<in> set (ProperAncestors H g)"
      using x by (simp add: on_path_def)
    ultimately show False
      using side_not_above [OF R c] ProperAncestors_trans [OF wf g_lt] by blast
  qed
  moreover have "dflt H g \<inter> below H c = {}"
    using side_target_disjoint [OF R c] dflt_target_below [OF R] by blast
  moreover have "dflt H e \<inter> below H c = {}" if "e \<in> side_regions H g d" "e \<noteq> c" for e
    using sides_disjoint [OF R that(1) c that(2)] dflt_side_below [OF R that(1)] by blast
  ultimately show ?thesis
    using c dflt_side_below [OF R c] unfolding entry_closure_def by blast
qed

lemma closure_strict:
  assumes R: "entry_region H g d"
  shows "entry_closure H g d \<subseteq> strictly_below H d"
proof -
  note wf = entry_regionD(1) [OF R] and shp = entry_regionD(2) [OF R] and g_lt = entry_regionD(3) [OF R]
    and dom = entry_regionD(4) [OF R]
  have "dflt H g \<subseteq> strictly_below H d"
    using dflt_target_below [OF R] below_sub_strictly [OF wf dom] by blast
  moreover have "on_path H g d \<subseteq> strictly_below H d"
    using ancestor_lt [OF wf g_lt] by (auto simp: on_path_def strictly_below_def)
  moreover have "dflt H c \<subseteq> strictly_below H d" if c: "c \<in> side_regions H g d" for c
  proof -
    obtain a where "d \<in> set (ProperAncestors H a)" "ProperAncestors H c = a # ProperAncestors H a"
      using R c by (rule region_side)
    then have "d \<in> set (ProperAncestors H c)"
      by simp
    then show ?thesis
      using dflt_side_below [OF R c] below_sub_strictly [OF wf] by blast
  qed
  ultimately show ?thesis
    unfolding entry_closure_def by blast
qed

text \<open>A state on the way to the target gets the child that leads there.\<close>

lemma path_child:
  assumes R: "entry_region H g d" and anc: "n \<in> set (ProperAncestors H g)"
    and on: "n = d \<or> n \<in> on_path H g d"
  obtains k where "k \<in> set (kids H n)" and "g \<in> below H k" and "k \<in> entry_closure H g d"
proof -
  note wf = entry_regionD(1) [OF R] and shp = entry_regionD(2) [OF R] and g_lt = entry_regionD(3) [OF R]
    and dom = entry_regionD(4) [OF R]
  have n: "n < length (nodes H)"
    by (rule ancestor_lt [OF wf g_lt anc])
  obtain k where k: "k \<in> set (kids H n)" "g \<in> below H k"
    using below_kid_iff [OF wf n g_lt] anc by blast
  have "d = n \<or> d \<in> set (ProperAncestors H n)"
    using on by (auto simp: on_path_def)
  then have "d \<in> set (ProperAncestors H k)"
    using ProperAncestors_child [OF wf] tree_kid [OF wf n k(1)] by auto
  then have "k \<in> entry_closure H g d"
    using k(2) dflt.self [of g H] by (auto simp: entry_closure_def on_path_def below_def)
  with k show thesis by (rule that)
qed

text \<open>When it is a compound state, it gets no other.\<close>

lemma path_child_unique:
  assumes R: "entry_region H g d" and anc: "n \<in> set (ProperAncestors H g)"
    and comp: "kind H n = StateCompound"
    and k: "k \<in> set (kids H n)" "g \<in> below H k"
    and x: "x \<in> set (kids H n)" "x \<in> entry_closure H g d"
  shows "x = k"
proof (rule ccontr)
  note wf = entry_regionD(1) [OF R] and shp = entry_regionD(2) [OF R] and g_lt = entry_regionD(3) [OF R]
    and dom = entry_regionD(4) [OF R]
  assume "x \<noteq> k"
  have n: "n < length (nodes H)"
    by (rule ancestor_lt [OF wf g_lt anc])
  have disj: "below H x \<inter> below H k = {}"
    by (rule siblings_disjoint [OF wf n x(1) k(1) \<open>x \<noteq> k\<close>])
  have xl: "x < length (nodes H)" "ProperAncestors H x = n # ProperAncestors H n"
    using tree_kid [OF wf n x(1)] ProperAncestors_child [OF wf] by auto
  from x(2) consider "x \<in> dflt H g" | "x \<in> on_path H g d"
    | c where "c \<in> side_regions H g d" "x \<in> dflt H c"
    by (auto simp: entry_closure_def)
  then show False
  proof cases
    case 1
    then have "x \<in> below H k"
      using dflt_target_below [OF R] k(2) below_trans [OF wf] by blast
    then show ?thesis using disj xl(1) by (auto simp: below_def)
  next
    case 2
    then have "g \<in> below H x"
      using g_lt by (simp add: below_def on_path_def)
    then show ?thesis using disj k(2) by blast
  next
    case 3
    obtain a where a: "kind H a = StateParallel" "ProperAncestors H c = a # ProperAncestors H a"
      using R 3(1) by (rule region_side)
    have "x \<noteq> c"
      using a comp xl(2) by auto
    moreover have "x \<in> below H c"
      using dflt_side_below [OF R 3(1)] 3(2) by blast
    ultimately have "c \<in> set (ProperAncestors H x)"
      by (simp add: below_def)
    then have "c \<in> set (ProperAncestors H g)"
      using xl(2) anc ProperAncestors_trans [OF wf g_lt anc] by auto
    then show ?thesis
      using side_not_above [OF R 3(1)] by simp
  qed
qed

lemma domain_child:
  assumes R: "entry_region H g d" and comp: "kind H d = StateCompound"
  shows "\<exists>c \<in> set (kids H d). c \<in> entry_closure H g d \<and>
           (\<forall>x \<in> set (kids H d). x \<in> entry_closure H g d \<longrightarrow> x = c)"
proof -
  note dom = entry_regionD(4) [OF R]
  obtain k where k: "k \<in> set (kids H d)" "g \<in> below H k" "k \<in> entry_closure H g d"
    using path_child [OF R dom] by blast
  then show ?thesis
    using path_child_unique [OF R dom comp k(1,2)] by blast
qed

lemma path_ok:
  assumes R: "entry_region H g d" and on: "n \<in> on_path H g d"
  shows "ok_node H (entry_closure H g d) n"
proof -
  note wf = entry_regionD(1) [OF R] and shp = entry_regionD(2) [OF R] and g_lt = entry_regionD(3) [OF R]
    and dom = entry_regionD(4) [OF R]
  have anc: "n \<in> set (ProperAncestors H g)" "d \<in> set (ProperAncestors H n)"
    using on by (auto simp: on_path_def)
  have n: "n < length (nodes H)"
    by (rule ancestor_lt [OF wf g_lt anc(1)])
  obtain k where k: "k \<in> set (kids H n)" "g \<in> below H k" "k \<in> entry_closure H g d"
    using path_child [OF R anc(1)] on by blast
  show ?thesis
  proof (cases "kind H n = StateCompound")
    case True
    have "\<forall>x \<in> set (kids H n). x \<in> entry_closure H g d \<longrightarrow> x = k"
      using path_child_unique [OF R anc(1) True k(1,2)] by blast
    then show ?thesis
      using True k(1,3) unfolding ok_node_def by auto
  next
    case False
    then have par: "kind H n = StateParallel"
      using shape_leaf [OF shp n k(1)] by simp
    have "c \<in> entry_closure H g d" if c: "c \<in> set (kids H n)" for c
    proof (cases "g \<in> below H c")
      case True
      have "d \<in> set (ProperAncestors H c)"
        using ProperAncestors_child [OF wf] tree_kid [OF wf n c] anc(2) by simp
      then show ?thesis
        using True dflt.self [of g H] by (auto simp: entry_closure_def on_path_def below_def)
    next
      case False
      then have "c \<in> side_regions H g d"
        using on par c by (auto simp: side_regions_def)
      then show ?thesis
        using dflt.self [of c H] by (auto simp: entry_closure_def)
    qed
    then show ?thesis
      using par by (auto simp: ok_node_def)
  qed
qed

lemma inner_ok:
  assumes R: "entry_region H g d" and s: "s < length (nodes H)" "plain H s"
    and inter: "entry_closure H g d \<inter> below H s = dflt H s" and n: "n \<in> dflt H s"
  shows "ok_node H (entry_closure H g d) n"
proof (rule ok_node_local)
  note wf = entry_regionD(1) [OF R]
  show "ok_node H (dflt H s) n"
    by (rule dflt_ok [OF wf entry_regionD(2) [OF R] s n])
  have nb: "n \<in> below H s"
    by (rule dflt_below [OF wf s(1) n])
  have "c \<in> below H s" if "c \<in> set (kids H n)" for c
    using below_trans [OF wf kid_below [OF wf below_lt [OF nb] that] nb] .
  then show "dflt H s \<inter> set (kids H n) = entry_closure H g d \<inter> set (kids H n)"
    using inter by blast
qed

lemma closure_ok:
  assumes R: "entry_region H g d" and n: "n \<in> entry_closure H g d"
  shows "ok_node H (entry_closure H g d) n"
proof -
  from n consider "n \<in> dflt H g" | "n \<in> on_path H g d"
    | c where "c \<in> side_regions H g d" "n \<in> dflt H c"
    by (auto simp: entry_closure_def)
  then show ?thesis
  proof cases
    case 1
    then show ?thesis
      using inner_ok [OF R _ _ closure_target [OF R]] entry_regionD [OF R] by blast
  next
    case 2
    then show ?thesis by (rule path_ok [OF R])
  next
    case 3
    have "c < length (nodes H)" "plain H c"
      by (rule region_side [OF R 3(1)], assumption)+
    then show ?thesis
      by (rule inner_ok [OF R _ _ closure_side [OF R 3(1)] 3(2)])
  qed
qed

lemma closure_parent:
  assumes R: "entry_region H g d" and cl: "n \<in> entry_closure H g d" and par: "par H n = Some p"
  shows "p = d \<or> p \<in> entry_closure H g d"
proof -
  note wf = entry_regionD(1) [OF R] and shp = entry_regionD(2) [OF R] and g_lt = entry_regionD(3) [OF R]
    and dom = entry_regionD(4) [OF R]
  have n: "n < length (nodes H)" "d \<in> set (ProperAncestors H n)"
    using closure_strict [OF R] cl by (auto simp: strictly_below_def)
  have anc: "ProperAncestors H n = p # ProperAncestors H p"
    by (rule ProperAncestors_child [OF wf n(1) par])
  have above: "p = d \<or> p \<in> entry_closure H g d" if "p \<in> set (ProperAncestors H g)"
    using n(2) anc that by (auto simp: on_path_def entry_closure_def)
  from cl consider "n = g" | "n \<in> dflt H g" "n \<noteq> g" | "n \<in> on_path H g d"
    | c where "c \<in> side_regions H g d" "n \<in> dflt H c"
    by (auto simp: entry_closure_def)
  then show ?thesis
  proof cases
    case 1
    then show ?thesis using above anc by auto
  next
    case 2
    then have "p \<in> dflt H g"
      using dflt_parent [OF wf g_lt 2] par by auto
    then show ?thesis by (simp add: entry_closure_def)
  next
    case 3
    then have "p \<in> set (ProperAncestors H g)"
      using anc ProperAncestors_trans [OF wf g_lt] by (auto simp: on_path_def)
    then show ?thesis by (rule above)
  next
    case 4
    obtain a where a: "a \<in> set (ProperAncestors H g)" "c < length (nodes H)"
      "ProperAncestors H c = a # ProperAncestors H a"
      using R 4(1) by (rule region_side)
    show ?thesis
    proof (cases "n = c")
      case True
      then show ?thesis using above anc a by auto
    next
      case False
      then have "p \<in> dflt H c"
        using dflt_parent [OF wf a(2) 4(2)] par by auto
      then show ?thesis using 4(1) by (auto simp: entry_closure_def)
    qed
  qed
qed

subsection \<open>Replacing the states below a set of domains\<close>

definition incomparable :: "heap \<Rightarrow> node \<Rightarrow> node \<Rightarrow> bool" where
  "incomparable H d e \<longleftrightarrow>
     d \<noteq> e \<and> d \<notin> set (ProperAncestors H e) \<and> e \<notin> set (ProperAncestors H d)"

lemma incomparable_disjoint:
  "tree H \<Longrightarrow> incomparable H d e \<Longrightarrow> strictly_below H d \<inter> strictly_below H e = {}"
  using ancestors_comparable [of H _ d e] by (fastforce simp: strictly_below_def incomparable_def)

lemma kids_strict:
  assumes "tree H" and "n < length (nodes H)" and "c \<in> set (kids H n)"
  shows "c \<in> strictly_below H d \<longleftrightarrow> n = d \<or> n \<in> strictly_below H d"
  using tree_kid [OF assms] ProperAncestors_child [OF assms(1)] assms(2)
  by (auto simp: strictly_below_def)

text \<open>
  Replacing, below pairwise incomparable active compound states, what is active by entry
  closures of regions below them.
\<close>

definition replaces :: "heap \<Rightarrow> node set \<Rightarrow> (node \<times> node) set \<Rightarrow> node set \<Rightarrow> bool" where
  "replaces H C P C' \<longleftrightarrow>
     (\<forall>d g. (d, g) \<in> P \<longrightarrow> d \<in> C \<and> kind H d = StateCompound \<and> entry_region H g d)
     \<and> (\<forall>d g e h. (d, g) \<in> P \<longrightarrow> (e, h) \<in> P \<longrightarrow> (d, g) \<noteq> (e, h) \<longrightarrow> incomparable H d e)
     \<and> C' = (C - (\<Union>(d, g) \<in> P. strictly_below H d)) \<union> (\<Union>(d, g) \<in> P. entry_closure H g d)"

lemma replacesD:
  assumes "replaces H C P C'"
  shows "(d, g) \<in> P \<Longrightarrow> d \<in> C \<and> kind H d = StateCompound \<and> entry_region H g d"
    and "(d, g) \<in> P \<Longrightarrow> (e, h) \<in> P \<Longrightarrow> (d, g) \<noteq> (e, h) \<Longrightarrow> incomparable H d e"
    and "C' = (C - (\<Union>(d, g) \<in> P. strictly_below H d)) \<union> (\<Union>(d, g) \<in> P. entry_closure H g d)"
  using assms by (simp_all add: replaces_def)

lemma replaces_strict: "replaces H C P C' \<Longrightarrow> (d, g) \<in> P \<Longrightarrow> entry_closure H g d \<subseteq> strictly_below H d"
  using closure_strict replacesD(1) by blast

lemma replaces_inside:
  assumes "tree H" and R: "replaces H C P C'" and dg: "(d, g) \<in> P" and x: "x \<in> strictly_below H d"
  shows "x \<in> C' \<longleftrightarrow> x \<in> entry_closure H g d"
proof -
  have "x \<notin> entry_closure H h e" if eh: "(e, h) \<in> P" "(e, h) \<noteq> (d, g)" for e h
  proof -
    have "incomparable H d e"
      using replacesD(2) [OF R dg eh(1)] eh(2) by blast
    then show ?thesis
      using replaces_strict [OF R eh(1)] x incomparable_disjoint [OF assms(1)] by blast
  qed
  then show ?thesis
    using dg x unfolding replacesD(3) [OF R] by blast
qed

lemma replaces_outside:
  assumes "replaces H C P C'" and "\<And>d g. (d, g) \<in> P \<Longrightarrow> x \<notin> strictly_below H d"
  shows "x \<in> C' \<longleftrightarrow> x \<in> C"
  using assms(2) replaces_strict [OF assms(1)] unfolding replacesD(3) [OF assms(1)] by blast

lemma replaces_domain:
  assumes "tree H" and R: "replaces H C P C'" and dg: "(d, g) \<in> P"
  shows "d \<in> C'"
proof -
  have "d \<notin> strictly_below H e" if eh: "(e, h) \<in> P" for e h
  proof (cases "(d, g) = (e, h)")
    case True
    then show ?thesis
      using not_own_ancestor [OF assms(1)] by (auto simp: strictly_below_def)
  next
    case False
    then have "incomparable H d e"
      by (rule replacesD(2) [OF R dg eh])
    then show ?thesis
      by (auto simp: incomparable_def strictly_below_def)
  qed
  then show ?thesis
    using replaces_outside [OF R, of d] replacesD(1) [OF R dg] by blast
qed

lemma replaces_parent:
  assumes wf: "tree H" and legal: "legal H C" and R: "replaces H C P C'"
    and n: "n \<in> C'" "n < length (nodes H)" and par: "par H n = Some p"
  shows "p \<in> C'"
proof (cases "\<exists>d g. (d, g) \<in> P \<and> n \<in> strictly_below H d")
  case True
  then obtain d g where dg: "(d, g) \<in> P" and "n \<in> strictly_below H d"
    by blast
  then have "n \<in> entry_closure H g d"
    using replaces_inside [OF wf R] n(1) by blast
  moreover have "entry_region H g d"
    using replacesD(1) [OF R dg] by blast
  ultimately have "p = d \<or> p \<in> entry_closure H g d"
    using closure_parent par by blast
  then show ?thesis
    using replaces_domain [OF wf R dg] dg unfolding replacesD(3) [OF R] by blast
next
  case False
  have nC: "n \<in> C"
    using replaces_outside [OF R, of n] False n(1) by blast
  have "p \<notin> strictly_below H d" if "(d, g) \<in> P" for d g
    using False that ProperAncestors_child [OF wf n(2) par] n(2) by (auto simp: strictly_below_def)
  then show ?thesis
    using replaces_outside [OF R, of p] legal_par [OF legal nC par] by blast
qed

lemma replaces_ok_node:
  assumes wf: "tree H" and legal: "legal H C" and R: "replaces H C P C'"
    and n: "n \<in> C'" "n < length (nodes H)"
  shows "ok_node H C' n"
proof -
  note ks = kids_strict [OF wf n(2)] note inside = replaces_inside [OF wf R]
  note P = replacesD(1) [OF R]
  consider (inner) d g where "(d, g) \<in> P" "n \<in> strictly_below H d"
    | (domain) d g where "(d, g) \<in> P" "n = d"
    | (outer) "\<And>d g. (d, g) \<in> P \<Longrightarrow> n \<noteq> d \<and> n \<notin> strictly_below H d"
    by blast
  then show ?thesis
  proof cases
    case inner
    then have "ok_node H (entry_closure H g d) n"
      using closure_ok P inside n(1) by blast
    moreover have "entry_closure H g d \<inter> set (kids H n) = C' \<inter> set (kids H n)"
      using inside [OF inner(1)] ks inner(2) by blast
    ultimately show ?thesis by (rule ok_node_local)
  next
    case domain
    have "x \<in> C' \<longleftrightarrow> x \<in> entry_closure H g d" if "x \<in> set (kids H n)" for x
      using inside [OF domain(1)] ks [OF that] domain(2) by blast
    then show ?thesis
      using domain_child P [OF domain(1)] domain(2) by (simp add: ok_node_def)
  next
    case outer
    have same: "x \<in> C' \<longleftrightarrow> x \<in> C" if "x \<in> set (kids H n)" for x
      using replaces_outside [OF R, of x] ks [OF that] outer by blast
    have "n \<in> C"
      using replaces_outside [OF R, of n] outer n(1) by blast
    then have "ok_node H C n"
      by (rule legal_ok [OF legal])
    then show ?thesis
      by (rule ok_node_local) (use same in blast)
  qed
qed

lemma replace_legal:
  assumes wf: "tree H" and legal: "legal H C"
    and P: "\<And>d g. (d, g) \<in> P \<Longrightarrow> d \<in> C \<and> kind H d = StateCompound \<and> entry_region H g d"
    and inc: "\<And>d g e h. (d, g) \<in> P \<Longrightarrow> (e, h) \<in> P \<Longrightarrow> (d, g) \<noteq> (e, h) \<Longrightarrow> incomparable H d e"
    and C': "C' = (C - (\<Union>(d, g) \<in> P. strictly_below H d)) \<union> (\<Union>(d, g) \<in> P. entry_closure H g d)"
  shows "legal H C'"
proof -
  have R: "replaces H C P C'"
    by (simp add: replaces_def P inc C' del: Pair_inject prod.inject split_paired_All)
  have lt: "n < length (nodes H)" if "n \<in> C'" for n
    using that replaces_strict [OF R] legal_lt [OF legal] unfolding C' by (auto simp: strictly_below_def)
  have "0 \<in> C'"
    using replaces_outside [OF R, of 0] legal_root [OF legal] ProperAncestors_root [OF wf] by (auto simp: strictly_below_def)
  then show ?thesis
    using lt replaces_parent [OF wf legal R] replaces_ok_node [OF wf legal R] by (auto simp: legal_def split: option.splits)
qed

text \<open>The initial configuration: the default closure of the root.\<close>

lemma dflt_root_legal:
  assumes "tree H" and "shape H" and "plain H 0"
  shows "legal H (dflt H 0)"
proof -
  have z: "0 < length (nodes H)"
    by (rule tree_size [OF assms(1)])
  have "p \<in> dflt H 0" if "n \<in> dflt H 0" "par H n = Some p" for n p
    using dflt_parent [OF assms(1) z that(1)] that(2) tree_root_par [OF assms(1)] by (cases "n = 0") auto
  then show ?thesis
    using dflt_ok [OF assms(1,2) z assms(3)] dflt_lt [OF assms(1) z]
    by (auto simp: legal_def dflt.self split: option.splits)
qed

end
