(* ===== verification/Engine_Legal.thy ===== *)
theory Engine_Legal
  imports Engine Legality
begin

section \<open>The engine keeps its configuration legal\<close>

text \<open>
  \<open>sound_chart\<close> collects what a chart must satisfy for the engine to be a statechart
  interpreter: some of it the loader checks, some of it the loader lets through (the
  theory \<open>Engine_Limits\<close> shows charts that load and break the invariant). On a sound
  chart every run of \<open>start\<close>, \<open>offer\<close>, \<open>step\<close> and \<open>commit\<close> stays on legal
  configurations, and the recursion of the entry computation is bounded by the number of
  nodes, so \<open>step\<close> always returns.
\<close>

definition sound_node :: "heap \<Rightarrow> node \<Rightarrow> bool" where
  "sound_node H n \<longleftrightarrow>
     (kind H n = StateParallel \<longrightarrow> list_all (\<lambda>c. kind H c \<noteq> StateHistory) (kids H n))
     \<and> (case Initial (nodeAt H n) of None \<Rightarrow> True | Some i \<Rightarrow> kind H i \<noteq> StateHistory)
     \<and> (kind H n = StateHistory \<longrightarrow>
          (case (par H n, HistoryTo (nodeAt H n)) of
             (Some p, [c]) \<Rightarrow>
               kind H p = StateCompound \<and> kind H c \<noteq> StateHistory \<and> p \<in> set (ProperAncestors H c)
               \<and> (HistKind (nodeAt H n) = HistoryDeep \<longrightarrow>
                    list_all (\<lambda>m. p \<in> set (ProperAncestors H m) \<longrightarrow> kind H m \<noteq> StateParallel)
                      [0..<length (nodes H)])
           | _ \<Rightarrow> False))
     \<and> list_all (\<lambda>t. case Targets (edgeAt H t) of
                       [] \<Rightarrow> True
                     | [g] \<Rightarrow> n \<noteq> 0 \<and> g \<noteq> 0
                     | _ \<Rightarrow> False)
         (node_edges (nodeAt H n))"

definition sound_chart :: "heap \<Rightarrow> bool" where
  "sound_chart H \<longleftrightarrow>
     tree H \<and> shape H \<and> kind H 0 = StateCompound \<and> distinct (map ID (nodes H))
     \<and> list_all (sound_node H) [0..<length (nodes H)]"

lemma sound_chartD:
  assumes "sound_chart H"
  shows "tree H" and "shape H" and "kind H 0 = StateCompound"
    and "n < length (nodes H) \<Longrightarrow> sound_node H n"
    and "m < length (nodes H) \<Longrightarrow> n < length (nodes H) \<Longrightarrow> ID (nodeAt H m) = ID (nodeAt H n) \<longleftrightarrow> m = n"
  using assms nth_eq_iff_index_eq [of "map ID (nodes H)" m n]
  by (auto simp: sound_chart_def list_all_iff nodeAt_def)

lemma sound_region:
  "sound_chart H \<Longrightarrow> n < length (nodes H) \<Longrightarrow> kind H n = StateParallel \<Longrightarrow> c \<in> set (kids H n) \<Longrightarrow>
     kind H c \<noteq> StateHistory"
  using sound_chartD(4) [of H n] by (auto simp: sound_node_def list_all_iff)

lemma sound_initial:
  "sound_chart H \<Longrightarrow> n < length (nodes H) \<Longrightarrow> Initial (nodeAt H n) = Some i \<Longrightarrow> kind H i \<noteq> StateHistory"
  using sound_chartD(4) [of H n] by (auto simp: sound_node_def)

lemma sound_history:
  assumes "sound_chart H" and "h < length (nodes H)" and "kind H h = StateHistory"
  obtains p c where "par H h = Some p" and "HistoryTo (nodeAt H h) = [c]"
    and "kind H p = StateCompound" and "kind H c \<noteq> StateHistory" and "p \<in> set (ProperAncestors H c)"
    and "c < length (nodes H)"
    and "HistKind (nodeAt H h) = HistoryDeep \<Longrightarrow>
           \<forall>m. m < length (nodes H) \<and> p \<in> set (ProperAncestors H m) \<longrightarrow> kind H m \<noteq> StateParallel"
proof -
  have n: "sound_node H h" "tree_node H h"
    using sound_chartD(1,4) [OF assms(1)] assms(2) tree_nodeD by blast+
  obtain p c where pc: "par H h = Some p" "HistoryTo (nodeAt H h) = [c]"
    using n(1) assms(3) by (auto simp: sound_node_def split: option.splits list.splits)
  have "c < length (nodes H)"
    using n(2) pc(2) by (simp add: tree_node_def)
  then show thesis
    using that [OF pc] n(1) pc assms(3) by (auto simp: sound_node_def list_all_iff)
qed

lemma sound_edge:
  assumes "sound_chart H" and "n < length (nodes H)" and "t \<in> set (node_edges (nodeAt H n))"
  shows "Targets (edgeAt H t) = [] \<or>
           (\<exists>g. Targets (edgeAt H t) = [g] \<and> g < length (nodes H) \<and> g \<noteq> 0 \<and> n \<noteq> 0)"
proof -
  have "case Targets (edgeAt H t) of [] \<Rightarrow> True | [g] \<Rightarrow> n \<noteq> 0 \<and> g \<noteq> 0 | _ \<Rightarrow> False"
    using sound_chartD(4) [OF assms(1,2)] assms(3) by (simp only: sound_node_def list_all_iff)
  moreover have "\<forall>g \<in> set (Targets (edgeAt H t)). g < length (nodes H)"
    using tree_edge [OF sound_chartD(1) [OF assms(1)] assms(2,3)] by simp
  ultimately show ?thesis
    by (cases "Targets (edgeAt H t)" rule: remdups_adj.cases) auto
qed

lemma sound_dflt:
  assumes "sound_chart H" and "s < length (nodes H)" and "kind H s \<noteq> StateHistory" and "m \<in> dflt H s"
  shows "kind H m \<noteq> StateHistory"
  using assms(4)
proof cases
  case self
  then show ?thesis using assms(3) by simp
next
  case (initial m')
  then show ?thesis
    using sound_initial [OF assms(1)] dflt_lt [OF sound_chartD(1) [OF assms(1)] assms(2)] by blast
next
  case (region m')
  then show ?thesis
    using sound_region [OF assms(1)] dflt_lt [OF sound_chartD(1) [OF assms(1)] assms(2)] by blast
qed

lemma sound_plain:
  "sound_chart H \<Longrightarrow> s < length (nodes H) \<Longrightarrow> kind H s \<noteq> StateHistory \<Longrightarrow> plain H s"
  using sound_dflt by (auto simp: plain_def)

lemma sound_plain_sides:
  assumes "sound_chart H" and "g < length (nodes H)"
  shows "plain_sides H g d"
  unfolding plain_sides_def
proof
  note wf = sound_chartD(1) [OF assms(1)]
  fix c
  assume "c \<in> side_regions H g d"
  then obtain a where a: "a \<in> set (ProperAncestors H g)" "kind H a = StateParallel" "c \<in> set (kids H a)"
    by (rule side_region_cases)
  have al: "a < length (nodes H)"
    by (rule ancestor_lt [OF wf assms(2) a(1)])
  show "plain H c"
    using sound_plain [OF assms(1)] tree_kid [OF wf al a(3)] sound_region [OF assms(1) al a(2,3)] by blast
qed

subsection \<open>What a transition's target amounts to\<close>

definition hist_ok :: "heap \<Rightarrow> history \<Rightarrow> bool" where
  "hist_ok H hist \<longleftrightarrow>
     (\<forall>h p. h < length (nodes H) \<and> kind H h = StateHistory \<and> par H h = Some p \<longrightarrow>
        hist (ID (nodeAt H h)) = [] \<or>
        (\<exists>c. hist (ID (nodeAt H h)) = [c] \<and> c < length (nodes H) \<and> kind H c \<noteq> StateHistory
             \<and> p \<in> set (ProperAncestors H c)))"

definition resolved :: "heap \<Rightarrow> history \<Rightarrow> node \<Rightarrow> node" where
  "resolved H hist g = (if kind H g = StateHistory then hd (restored H hist g) else g)"

lemma resolved_target:
  assumes "sound_chart H" and "hist_ok H hist" and "g < length (nodes H)"
  shows "entry_target H hist g (resolved H hist g)" and "kind H (resolved H hist g) \<noteq> StateHistory"
proof -
  have "entry_target H hist g (resolved H hist g) \<and> kind H (resolved H hist g) \<noteq> StateHistory"
  proof (cases "kind H g = StateHistory")
    case False
    then show ?thesis by (simp add: entry_target_def resolved_def)
  next
    case True
    obtain p c where p: "par H g = Some p" "HistoryTo (nodeAt H g) = [c]" "kind H p = StateCompound"
      "kind H c \<noteq> StateHistory" "p \<in> set (ProperAncestors H c)" "c < length (nodes H)"
      using sound_history [OF assms(1,3) True] by blast
    have "hist (ID (nodeAt H g)) = [] \<or>
        (\<exists>c. hist (ID (nodeAt H g)) = [c] \<and> c < length (nodes H) \<and> kind H c \<noteq> StateHistory
             \<and> p \<in> set (ProperAncestors H c))"
      using assms(2,3) True p(1) by (simp add: hist_ok_def)
    then show ?thesis
      using p True by (auto simp: entry_target_def resolved_def restored_def)
  qed
  then show "entry_target H hist g (resolved H hist g)" "kind H (resolved H hist g) \<noteq> StateHistory"
    by auto
qed

text \<open>The enabled transitions: each leaves an active state, and no two exit a common state.\<close>

definition enabled_set :: "heap \<Rightarrow> configuration \<Rightarrow> tref list \<Rightarrow> bool" where
  "enabled_set H c ts \<longleftrightarrow>
     distinct ts \<and> exits_disjoint H c ts \<and>
     (\<forall>t \<in> set ts. \<exists>n \<in> set c. t \<in> set (node_edges (nodeAt H n)))"

lemma selectBy_enabled:
  assumes "tree H" and "legal H (set c)"
    and "\<And>s t. at s = Some t \<Longrightarrow> t \<in> set (node_edges (nodeAt H s))"
  shows "enabled_set H c (selectBy H c at)"
proof -
  have "\<exists>n \<in> set c. t \<in> set (node_edges (nodeAt H n))" if t: "t \<in> set (selectBy H c at)" for t
  proof -
    obtain st where st: "st \<in> set (cfg_atomic H c)" "firstMatch at (st # ProperAncestors H st) = Some t"
      using t selectBy_subset [of H c "at"] by blast
    have stc: "st \<in> set c"
      using st(1) by (simp add: set_cfg_atomic)
    obtain us s vs where s: "st # ProperAncestors H st = us @ s # vs" "at s = Some t"
      using firstMatch_Some [OF st(2)] by blast
    have "s \<in> set (st # ProperAncestors H st)"
      unfolding s(1) by simp
    then have "s \<in> set c"
      using stc legal_ancestors [OF assms(1,2) stc] by auto
    then show ?thesis
      using assms(3) [OF s(2)] by blast
  qed
  then show ?thesis
    by (simp add: enabled_set_def selectBy_disjoint selectBy_distinct)
qed

lemma select_enabled:
  assumes "tree H" and "legal H (set c)"
  shows "enabled_set H c (selectTransitions H c event pass)"
    and "enabled_set H c (selectEventlessTransitions H c pass)"
  unfolding selectTransitions_def selectEventlessTransitions_def
  by (rule selectBy_enabled [OF assms], erule matchAtNode_Some)
     (rule selectBy_enabled [OF assms], erule eventlessAtNode_Some)

text \<open>What one enabled transition does: its domain and the state it finally enters.\<close>

definition moves :: "heap \<Rightarrow> history \<Rightarrow> tref list \<Rightarrow> (node \<times> node) set" where
  "moves H hist ts =
     {(d, c). \<exists>t \<in> set ts. \<exists>g. Targets (edgeAt H t) = [g] \<and> getTransitionDomain H t = Some d
                \<and> c = resolved H hist g}"

lemma enabled_edge:
  assumes S: "sound_chart H" and leg: "legal H (set c)" and en: "enabled_set H c ts" and t: "t \<in> set ts"
  shows "Targets (edgeAt H t) = [] \<or>
     (\<exists>g d. Targets (edgeAt H t) = [g] \<and> g < length (nodes H) \<and> getTransitionDomain H t = Some d
        \<and> d \<in> set (ProperAncestors H g) \<and> d \<in> set c \<and> kind H d = StateCompound
        \<and> Source (edgeAt H t) \<in> set (exitSetOf H c t)
        \<and> d \<in> set (ProperAncestors H (Source (edgeAt H t))))"
proof -
  note wf = sound_chartD(1) [OF S]
  obtain n where n: "n \<in> set c" "t \<in> set (node_edges (nodeAt H n))"
    using en t by (auto simp: enabled_set_def)
  have nl: "n < length (nodes H)"
    by (rule legal_lt [OF leg n(1)])
  have src: "Source (edgeAt H t) = n"
    using tree_edge [OF wf nl n(2)] by simp
  show ?thesis
  proof (cases "Targets (edgeAt H t) = []")
    case True
    then show ?thesis by simp
  next
    case False
    then obtain g where g: "Targets (edgeAt H t) = [g]" "g < length (nodes H)" "g \<noteq> 0" "n \<noteq> 0"
      using sound_edge [OF S nl n(2)] by blast
    obtain d where lcca: "findLCCA H (n # [g]) = Some d"
      using findLCCA_exists [OF wf nl g(4), of "[g]"] g by auto
    then have dom: "getTransitionDomain H t = Some d"
      using g(1) src by (simp add: getTransitionDomain_def)
    have anc: "d \<in> set (ProperAncestors H n)" "d \<in> set (ProperAncestors H g)"
      and comp: "kind H d = StateCompound \<or> par H d = None"
      using findLCCA_Some [OF lcca] by auto
    have "kind H d = StateCompound"
      using comp tree_par_None [OF wf ancestor_lt [OF wf nl anc(1)]] sound_chartD(3) [OF S] by auto
    moreover have "Source (edgeAt H t) \<in> set (exitSetOf H c t)"
      using source_in_exitSet [OF wf dom] src n(1) by simp
    ultimately show ?thesis
      using g dom anc legal_ancestors [OF wf leg n(1) anc(1)] src by auto
  qed
qed

lemma enabled_incomparable:
  assumes S: "sound_chart H" and leg: "legal H (set c)" and en: "enabled_set H c ts"
    and t: "t \<in> set ts" "getTransitionDomain H t = Some d"
    and u: "u \<in> set ts" "getTransitionDomain H u = Some e" and ne: "t \<noteq> u"
  shows "incomparable H d e"
proof -
  note wf = sound_chartD(1) [OF S]
  have "Targets (edgeAt H t) \<noteq> []" "Targets (edgeAt H u) \<noteq> []"
    using t(2) u(2) by (auto simp: getTransitionDomain_def)
  then have st: "Source (edgeAt H t) \<in> set (exitSetOf H c t)" "d \<in> set (ProperAncestors H (Source (edgeAt H t)))"
    and su: "Source (edgeAt H u) \<in> set (exitSetOf H c u)" "e \<in> set (ProperAncestors H (Source (edgeAt H u)))"
    using enabled_edge [OF S leg en] t u by force+
  have dis: "set (exitSetOf H c t) \<inter> set (exitSetOf H c u) = {}"
    using en t(1) u(1) ne by (simp add: enabled_set_def exits_disjoint_def)
  have ex: "set (exitSetOf H c t) = {s \<in> set c. d \<in> set (ProperAncestors H s)}"
    "set (exitSetOf H c u) = {s \<in> set c. e \<in> set (ProperAncestors H s)}"
    by (simp_all add: set_exitSetOf t(2) u(2))
  have lt: "Source (edgeAt H t) < length (nodes H)" "Source (edgeAt H u) < length (nodes H)"
    using st(1) su(1) ex legal_lt [OF leg] by auto
  have "d \<notin> set (ProperAncestors H (Source (edgeAt H u)))"
    using dis ex su(1) by auto
  moreover have "e \<notin> set (ProperAncestors H (Source (edgeAt H t)))"
    using dis ex st(1) by auto
  ultimately show ?thesis
    using st(2) su(2) ProperAncestors_trans [OF wf lt(1) st(2)] ProperAncestors_trans [OF wf lt(2) su(2)]
    by (auto simp: incomparable_def)
qed

subsection \<open>The exit and entry sets of an enabled set of transitions\<close>

lemma exit_enabled:
  assumes S: "sound_chart H" and leg: "legal H (set c)" and en: "enabled_set H c ts"
  shows "set (computeExitSet H c ts) = set c \<inter> (\<Union>(d, g) \<in> moves H hist ts. strictly_below H d)"
proof
  show "set (computeExitSet H c ts) \<subseteq> set c \<inter> (\<Union>(d, g) \<in> moves H hist ts. strictly_below H d)"
  proof
    fix s
    assume "s \<in> set (computeExitSet H c ts)"
    then obtain t where t: "t \<in> set ts" "s \<in> set (exitSetOf H c t)"
      by (auto simp: set_computeExitSet)
    then obtain d where d: "getTransitionDomain H t = Some d" "s \<in> set c" "d \<in> set (ProperAncestors H s)"
      by (auto simp: set_exitSetOf split: option.splits)
    have "Targets (edgeAt H t) \<noteq> []"
      using d(1) by (auto simp: getTransitionDomain_def)
    then obtain g where "Targets (edgeAt H t) = [g]"
      using enabled_edge [OF S leg en t(1)] by blast
    then have "(d, resolved H hist g) \<in> moves H hist ts"
      using t(1) d(1) by (auto simp: moves_def)
    then show "s \<in> set c \<inter> (\<Union>(d, g) \<in> moves H hist ts. strictly_below H d)"
      using d(2,3) legal_lt [OF leg d(2)] by (auto simp: strictly_below_def)
  qed
next
  show "set c \<inter> (\<Union>(d, g) \<in> moves H hist ts. strictly_below H d) \<subseteq> set (computeExitSet H c ts)"
    by (auto simp: moves_def set_computeExitSet set_exitSetOf strictly_below_def split: option.splits)
qed

text \<open>One round of the loop of \<open>computeEntrySet\<close>.\<close>

lemma entry_round:
  assumes S: "sound_chart H" and hok: "hist_ok H hist" and t: "Targets (edgeAt H t) = [g]"
    and g: "g < length (nodes H)" and d: "getTransitionDomain H t = Some d" "d \<in> set (ProperAncestors H g)"
    and fresh: "set (fst E) \<inter> strictly_below H d = {}" and k: "length (nodes H) < k"
  shows "\<exists>E'. Option.bind (foldM (addDescendantStatesToEnter H hist k) (Targets (edgeAt H t)) E)
           (foldM (\<lambda>tgt. addAncestorStatesToEnter H hist k tgt (getTransitionDomain H t)) (Targets (edgeAt H t)))
           = Some E' \<and> set (fst E') = set (fst E) \<union> entry_closure H (resolved H hist g) d \<and>
         (distinct (fst E) \<longrightarrow> distinct (fst E'))"
proof -
  note wf = sound_chartD(1) [OF S]
  note tg = resolved_target [OF S hok g]
  have lt: "resolved H hist g < length (nodes H)"
    using entry_target_domain [OF wf g tg(1) d(2)] by simp
  have "\<exists>E'. Option.bind (addDescendantStatesToEnter H hist k g E)
                (addAncestorStatesToEnter H hist k g (Some d)) = Some E' \<and>
              set (fst E') = set (fst E) \<union> entry_closure H (resolved H hist g) d \<and>
              (distinct (fst E) \<longrightarrow> distinct (fst E'))"
    by (rule enter_effective [OF wf g tg(1) d(2) sound_plain [OF S lt tg(2)]
          sound_plain_sides [OF S lt] fresh k])
  then show ?thesis
    by (simp add: t d(1) bind_eq_Some_conv)
qed

lemma entry_region_resolved:
  assumes S: "sound_chart H" and hok: "hist_ok H hist" and g: "g < length (nodes H)"
    and d: "d \<in> set (ProperAncestors H g)"
  shows "entry_region H (resolved H hist g) d"
proof -
  note wf = sound_chartD(1) [OF S]
  note tg = resolved_target [OF S hok g]
  have "d \<in> set (ProperAncestors H (resolved H hist g))" "resolved H hist g < length (nodes H)"
    using entry_target_domain [OF wf g tg(1) d] by auto
  then show ?thesis
    using wf sound_chartD(2) [OF S] sound_plain [OF S _ tg(2)] sound_plain_sides [OF S]
    by (simp add: entry_region_def)
qed

lemma moves_region:
  assumes S: "sound_chart H" and hok: "hist_ok H hist" and leg: "legal H (set c)"
    and en: "enabled_set H c ts" and m: "(d, g) \<in> moves H hist ts"
  shows "d \<in> set c \<and> kind H d = StateCompound \<and> entry_region H g d"
proof -
  obtain t g' where t: "t \<in> set ts" "Targets (edgeAt H t) = [g']" "getTransitionDomain H t = Some d"
    "g = resolved H hist g'"
    using m by (auto simp: moves_def)
  then show ?thesis
    using enabled_edge [OF S leg en t(1)] entry_region_resolved [OF S hok] by auto
qed

lemma moves_incomparable:
  assumes "sound_chart H" and "legal H (set c)" and "enabled_set H c ts"
    and "(d, g) \<in> moves H hist ts" and "(e, h) \<in> moves H hist ts" and "(d, g) \<noteq> (e, h)"
  shows "incomparable H d e"
proof -
  obtain t g' where t: "t \<in> set ts" "getTransitionDomain H t = Some d" "Targets (edgeAt H t) = [g']"
    "g = resolved H hist g'"
    using assms(4) by (auto simp: moves_def)
  obtain u h' where u: "u \<in> set ts" "getTransitionDomain H u = Some e" "Targets (edgeAt H u) = [h']"
    "h = resolved H hist h'"
    using assms(5) by (auto simp: moves_def)
  have "t \<noteq> u"
    using t u assms(6) by auto
  then show ?thesis
    using enabled_incomparable [OF assms(1-3)] t(1,2) u(1,2) by blast
qed

lemma entry_loop:
  assumes S: "sound_chart H" and hok: "hist_ok H hist" and leg: "legal H (set c)"
    and en: "enabled_set H c ts" and sub: "set us \<subseteq> set ts" "distinct us"
    and fresh: "\<And>u d. u \<in> set us \<Longrightarrow> getTransitionDomain H u = Some d \<Longrightarrow> set (fst E) \<inter> strictly_below H d = {}"
    and k: "length (nodes H) < k"
  shows "\<exists>E'. foldM (\<lambda>t E.
           Option.bind (foldM (addDescendantStatesToEnter H hist k) (Targets (edgeAt H t)) E)
             (foldM (\<lambda>tgt. addAncestorStatesToEnter H hist k tgt (getTransitionDomain H t))
                (Targets (edgeAt H t)))) us E = Some E' \<and>
         set (fst E') = set (fst E) \<union> (\<Union>(d, g) \<in> moves H hist us. entry_closure H g d) \<and>
         (distinct (fst E) \<longrightarrow> distinct (fst E'))"
  using sub fresh
proof (induction us arbitrary: E)
  case Nil
  then show ?case by (simp add: moves_def)
next
  case (Cons u us)
  note wf = sound_chartD(1) [OF S]
  have ut: "u \<in> set ts"
    using Cons.prems by simp
  show ?case
  proof (cases "Targets (edgeAt H u) = []")
    case True
    then have "moves H hist (u # us) = moves H hist us"
      by (auto simp: moves_def)
    moreover have "set us \<subseteq> set ts" "distinct us"
      using Cons.prems by auto
    moreover have "set (fst E) \<inter> strictly_below H d = {}"
      if "v \<in> set us" "getTransitionDomain H v = Some d" for v d
      using Cons.prems(3) [of v d] that by simp
    ultimately show ?thesis
      using Cons.IH [of E] True by simp
  next
    case False
    then obtain g d where gd: "Targets (edgeAt H u) = [g]" "g < length (nodes H)"
      "getTransitionDomain H u = Some d" "d \<in> set (ProperAncestors H g)"
      using enabled_edge [OF S leg en ut] by blast
    obtain E1 where E1: "Option.bind (foldM (addDescendantStatesToEnter H hist k) (Targets (edgeAt H u)) E)
           (foldM (\<lambda>tgt. addAncestorStatesToEnter H hist k tgt (getTransitionDomain H u)) (Targets (edgeAt H u)))
           = Some E1" "set (fst E1) = set (fst E) \<union> entry_closure H (resolved H hist g) d"
         "distinct (fst E) \<longrightarrow> distinct (fst E1)"
      using entry_round [OF S hok gd _ k, of E] Cons.prems(3) [of u d] gd(3) by auto
    have "set (fst E1) \<inter> strictly_below H e = {}" if v: "v \<in> set us" "getTransitionDomain H v = Some e" for v e
    proof -
      have "v \<in> set ts" "u \<noteq> v"
        using v(1) Cons.prems by auto
      then have "incomparable H d e"
        using enabled_incomparable [OF S leg en ut gd(3)] v(2) by blast
      then have "strictly_below H d \<inter> strictly_below H e = {}"
        by (rule incomparable_disjoint [OF wf])
      then show ?thesis
        using E1(2) closure_strict [OF entry_region_resolved [OF S hok gd(2,4)]] Cons.prems(3) [of v e] v
        by auto
    qed
    then obtain E' where E': "foldM (\<lambda>t E.
           Option.bind (foldM (addDescendantStatesToEnter H hist k) (Targets (edgeAt H t)) E)
             (foldM (\<lambda>tgt. addAncestorStatesToEnter H hist k tgt (getTransitionDomain H t))
                (Targets (edgeAt H t)))) us E1 = Some E'"
         "set (fst E') = set (fst E1) \<union> (\<Union>(d, g) \<in> moves H hist us. entry_closure H g d)"
         "distinct (fst E1) \<longrightarrow> distinct (fst E')"
      using Cons.IH [of E1] Cons.prems by auto
    have "moves H hist (u # us) = insert (d, resolved H hist g) (moves H hist us)"
      using gd by (auto simp: moves_def)
    then have "set (fst E') = set (fst E) \<union> (\<Union>(d, g) \<in> moves H hist (u # us). entry_closure H g d)"
      using E'(2) E1(2) by auto
    then show ?thesis
      using E1(1,3) E'(1,3) by auto
  qed
qed

lemma entry_enabled:
  assumes "sound_chart H" and "hist_ok H hist" and "legal H (set c)"
    and "enabled_set H c ts" and "length (nodes H) < k"
  shows "\<exists>E. computeEntrySet H k ts hist = Some E \<and>
         set (fst E) = (\<Union>(d, g) \<in> moves H hist ts. entry_closure H g d) \<and> distinct (fst E)"
  using entry_loop [OF assms(1-4) order_refl _ _ assms(5), of "([], [])"] assms(4)
  by (simp add: computeEntrySet_def enabled_set_def)

subsection \<open>What is recorded in the history\<close>

definition recorded :: "heap \<Rightarrow> configuration \<Rightarrow> node \<Rightarrow> node \<Rightarrow> node list" where
  "recorded H c s h =
     (if HistKind (nodeAt H h) = HistoryDeep
      then filter (\<lambda>n. IsAtomic H n \<and> IsDescendant H n (Some s)) (cfg_all H c)
      else filter (cfg_has c) (kids H s))"

lemma record_loop:
  assumes inj: "\<And>m. m \<in> set ks \<Longrightarrow> ID (nodeAt H m) = ID (nodeAt H h) \<longleftrightarrow> m = h"
  shows "fold (\<lambda>h acc. if kind H h \<noteq> StateHistory then acc
           else let rec = (if HistKind (nodeAt H h) = HistoryDeep
              then filter (\<lambda>n. IsAtomic H n \<and> IsDescendant H n (Some s)) (cfg_all H c)
              else filter (\<lambda>x. cfg_has c x) (kids H s))
           in acc(ID (nodeAt H h) := rec)) ks hist (ID (nodeAt H h)) =
         (if h \<in> set ks \<and> kind H h = StateHistory then recorded H c s h else hist (ID (nodeAt H h)))"
  using inj
proof (induction ks arbitrary: hist)
  case Nil
  then show ?case by simp
next
  case (Cons m ks)
  have eq: "ID (nodeAt H h) = ID (nodeAt H m) \<longleftrightarrow> m = h"
    using Cons.prems [of m] by auto
  have IH: "fold (\<lambda>h acc. if kind H h \<noteq> StateHistory then acc
           else let rec = (if HistKind (nodeAt H h) = HistoryDeep
              then filter (\<lambda>n. IsAtomic H n \<and> IsDescendant H n (Some s)) (cfg_all H c)
              else filter (\<lambda>x. cfg_has c x) (kids H s))
           in acc(ID (nodeAt H h) := rec)) ks hist' (ID (nodeAt H h)) =
         (if h \<in> set ks \<and> kind H h = StateHistory then recorded H c s h else hist' (ID (nodeAt H h)))" for hist'
    using Cons.prems by (intro Cons.IH) simp
  show ?case
    by (simp add: IH eq recorded_def Let_def)
qed

lemma recordHistoryInto_at:
  assumes S: "sound_chart H" and s: "s < length (nodes H)" and h: "h < length (nodes H)" "kind H h = StateHistory"
  shows "recordHistoryInto H s hist c (ID (nodeAt H h)) =
           (if par H h = Some s then recorded H c s h else hist (ID (nodeAt H h)))"
proof -
  note wf = sound_chartD(1) [OF S]
  have "m \<in> set (kids H s) \<Longrightarrow> ID (nodeAt H m) = ID (nodeAt H h) \<longleftrightarrow> m = h" for m
    using sound_chartD(5) [OF S _ h(1)] tree_kid [OF wf s] by blast
  moreover have "h \<in> set (kids H s) \<longleftrightarrow> par H h = Some s"
    using tree_kid [OF wf s] tree_par [OF wf h(1)] by auto
  ultimately show ?thesis
    using h(2) record_loop [of "kids H s" H h s c hist] by (simp add: recordHistoryInto_def)
qed

lemma record_exits:
  assumes S: "sound_chart H" and xs: "\<forall>s \<in> set xs. s < length (nodes H)"
    and h: "h < length (nodes H)" "kind H h = StateHistory" "par H h = Some p"
  shows "fold (\<lambda>s h. recordHistoryInto H s h c) xs hist (ID (nodeAt H h)) =
           (if p \<in> set xs then recorded H c p h else hist (ID (nodeAt H h)))"
  using xs
proof (induction xs arbitrary: hist)
  case Nil
  then show ?case by simp
next
  case (Cons s xs)
  then show ?case
    using recordHistoryInto_at [OF S _ h(1,2), of s hist c] h(3) by auto
qed

text \<open>The active child of a compound state is unique.\<close>

lemma active_child:
  assumes "tree H" and "legal H (set c)" and "s \<in> set c" and "kind H s = StateCompound"
  obtains k where "k \<in> set (kids H s)" and "k \<in> set c" and "kind H k \<noteq> StateHistory"
    and "\<And>x. x \<in> set (kids H s) \<Longrightarrow> x \<in> set c \<Longrightarrow> x = k"
    and "\<And>x. x \<in> set c \<Longrightarrow> s \<in> set (ProperAncestors H x) \<Longrightarrow> x \<in> below H k"
proof -
  have s: "s < length (nodes H)"
    by (rule legal_lt [OF assms(2,3)])
  obtain k where k: "k \<in> set (kids H s)" "k \<in> set c" "\<And>x. x \<in> set (kids H s) \<Longrightarrow> x \<in> set c \<Longrightarrow> x = k"
    using legal_ok [OF assms(2,3)] assms(4) unfolding ok_node_def by blast
  have hist: "kind H k \<noteq> StateHistory"
    using legal_ok [OF assms(2) k(2)] by (simp add: ok_node_def)
  have "x \<in> below H k" if x: "x \<in> set c" "s \<in> set (ProperAncestors H x)" for x
  proof -
    obtain k' where k': "k' \<in> set (kids H s)" "x \<in> below H k'"
      using below_kid_iff [OF assms(1) s legal_lt [OF assms(2) x(1)]] x(2) by blast
    then have "k' \<in> set c"
      using legal_ancestors [OF assms(1,2) x(1)] x(1) by (auto simp: below_def)
    then show ?thesis
      using k(3) k' by blast
  qed
  then show thesis
    using k hist by (intro that [of k]) blast+
qed

lemma shallow_record:
  assumes "tree H" and "legal H (set c)" and "s \<in> set c" and "kind H s = StateCompound"
  obtains k where "filter (cfg_has c) (kids H s) = [k]" and "k \<in> set (kids H s)"
    and "kind H k \<noteq> StateHistory"
proof -
  obtain k where k: "k \<in> set (kids H s)" "k \<in> set c" "kind H k \<noteq> StateHistory"
    "\<And>x. x \<in> set (kids H s) \<Longrightarrow> x \<in> set c \<Longrightarrow> x = k"
    using assms by (rule active_child) blast
  have "distinct (filter (cfg_has c) (kids H s))"
    using tree_distinct_kids [OF assms(1) legal_lt [OF assms(2,3)]] by simp
  moreover have "set (filter (cfg_has c) (kids H s)) = {k}"
    unfolding set_filter cfg_has_def using k by blast
  ultimately have "filter (cfg_has c) (kids H s) = [k]"
    by (rule singleton_list)
  then show thesis
    using that k by blast
qed

text \<open>Without parallel states below it, a compound state has one active leaf.\<close>

lemma one_leaf:
  assumes S: "sound_chart H" and leg: "legal H (set c)" and s: "s \<in> set c" "kind H s = StateCompound"
    and np: "\<forall>m. m < length (nodes H) \<and> s \<in> set (ProperAncestors H m) \<longrightarrow> kind H m \<noteq> StateParallel"
  shows "\<exists>!a. a \<in> set c \<and> IsAtomic H a \<and> s \<in> set (ProperAncestors H a)"
  using s np
proof (induction "length (nodes H) - s" arbitrary: s rule: less_induct)
  case less
  note wf = sound_chartD(1) [OF S]
  have sl: "s < length (nodes H)"
    by (rule legal_lt [OF leg less.prems(1)])
  obtain k where k: "k \<in> set (kids H s)" "k \<in> set c" "kind H k \<noteq> StateHistory"
    "\<And>x. x \<in> set c \<Longrightarrow> s \<in> set (ProperAncestors H x) \<Longrightarrow> x \<in> below H k"
    using wf leg less.prems(1,2) by (rule active_child) blast
  have kl: "k < length (nodes H)" "s < k" and sk: "ProperAncestors H k = s # ProperAncestors H s"
    using tree_kid [OF wf sl k(1)] ProperAncestors_child [OF wf] by auto
  have up: "s \<in> set (ProperAncestors H x)" if "x < length (nodes H)" "k \<in> set (ProperAncestors H x)" for x
    using ProperAncestors_trans [OF wf that] sk by simp
  have "kind H k \<noteq> StateParallel"
    using less.prems(3) kl sk by auto
  show ?case
  proof (cases "kind H k = StateCompound")
    case True
    have "\<exists>!a. a \<in> set c \<and> IsAtomic H a \<and> k \<in> set (ProperAncestors H a)"
      using kl sl k(2) True up less.prems(3) by (intro less.hyps) auto
    moreover have "k \<in> set (ProperAncestors H a) \<longleftrightarrow> s \<in> set (ProperAncestors H a)"
      if "a \<in> set c" "IsAtomic H a" for a
      using up legal_lt [OF leg that(1)] k(4) [OF that(1)] True that(2) by (auto simp: below_def IsAtomic_def)
    ultimately show ?thesis by blast
  next
    case False
    then have atom: "IsAtomic H k"
      using \<open>kind H k \<noteq> StateParallel\<close> k(3) by (cases "kind H k") (auto simp: IsAtomic_def)
    have leaf: "kids H k = []"
      using sound_chartD(2) [OF S] kl(1) False \<open>kind H k \<noteq> StateParallel\<close>
      by (simp add: shape_def list_all_iff)
    then have "below H k = {k}"
      using below_unfold [OF wf kl(1)] by simp
    then have "x = k" if "x \<in> set c" "s \<in> set (ProperAncestors H x)" for x
      using k(4) [OF that] by simp
    moreover have "s \<in> set (ProperAncestors H k)"
      using sk by simp
    ultimately show ?thesis
      using k(2) atom by blast
  qed
qed

lemma deep_record:
  assumes S: "sound_chart H" and leg: "legal H (set c)" and c: "distinct c" and s: "s \<in> set c" "kind H s = StateCompound"
    and np: "\<forall>m. m < length (nodes H) \<and> s \<in> set (ProperAncestors H m) \<longrightarrow> kind H m \<noteq> StateParallel"
  obtains a where "filter (\<lambda>n. IsAtomic H n \<and> IsDescendant H n (Some s)) (cfg_all H c) = [a]"
    and "a \<in> set c" and "s \<in> set (ProperAncestors H a)"
proof -
  let ?f = "filter (\<lambda>n. IsAtomic H n \<and> IsDescendant H n (Some s)) (cfg_all H c)"
  obtain a where a: "a \<in> set c" "s \<in> set (ProperAncestors H a)" "IsAtomic H a"
    "\<And>b. b \<in> set c \<Longrightarrow> IsAtomic H b \<Longrightarrow> s \<in> set (ProperAncestors H b) \<Longrightarrow> b = a"
    using one_leaf [OF S leg s np] by blast
  have "distinct ?f"
    using c by simp
  moreover have "set ?f = {a}"
    unfolding set_filter set_cfg_all IsDescendant_Some using a by blast
  ultimately have "?f = [a]"
    by (rule singleton_list)
  then show thesis
    using that a by blast
qed

lemma hist_ok_record:
  assumes S: "sound_chart H" and hok: "hist_ok H hist" and leg: "legal H (set c)" and c: "distinct c"
    and xs: "set xs \<subseteq> set c"
  shows "hist_ok H (fold (\<lambda>s h. recordHistoryInto H s h c) xs hist)"
  unfolding hist_ok_def
proof (intro allI impI, elim conjE)
  note wf = sound_chartD(1) [OF S]
  fix h p
  assume h: "h < length (nodes H)" "kind H h = StateHistory" and p: "par H h = Some p"
  have xl: "\<forall>s \<in> set xs. s < length (nodes H)"
    using xs legal_lt [OF leg] by blast
  let ?v = "fold (\<lambda>s h. recordHistoryInto H s h c) xs hist (ID (nodeAt H h))"
  let ?good = "\<lambda>v. \<exists>c. v = [c] \<and> c < length (nodes H) \<and> kind H c \<noteq> StateHistory \<and> p \<in> set (ProperAncestors H c)"
  have v: "?v = (if p \<in> set xs then recorded H c p h else hist (ID (nodeAt H h)))"
    by (rule record_exits [OF S xl h p])
  show "?v = [] \<or> ?good ?v"
  proof (cases "p \<in> set xs")
    case False
    then show ?thesis
      using v hok h p by (simp add: hist_ok_def)
  next
    case True
    then have pc: "p \<in> set c"
      using xs by blast
    have comp: "kind H p = StateCompound"
      and np: "HistKind (nodeAt H h) = HistoryDeep \<Longrightarrow>
        \<forall>m. m < length (nodes H) \<and> p \<in> set (ProperAncestors H m) \<longrightarrow> kind H m \<noteq> StateParallel"
      using sound_history [OF S h] p by (metis option.inject)+
    have pl: "p < length (nodes H)"
      by (rule legal_lt [OF leg pc])
    have "?good (recorded H c p h)"
    proof (cases "HistKind (nodeAt H h) = HistoryDeep")
      case True
      obtain a where a: "filter (\<lambda>n. IsAtomic H n \<and> IsDescendant H n (Some p)) (cfg_all H c) = [a]"
        "a \<in> set c" "p \<in> set (ProperAncestors H a)"
        using deep_record [OF S leg c pc comp np [OF True]] by blast
      have "kind H a \<noteq> StateHistory"
        using legal_ok [OF leg a(2)] by (simp add: ok_node_def)
      then show ?thesis
        using a legal_lt [OF leg a(2)] True by (simp add: recorded_def)
    next
      case False
      obtain k where k: "filter (cfg_has c) (kids H p) = [k]" "k \<in> set (kids H p)" "kind H k \<noteq> StateHistory"
        using wf leg pc comp by (rule shallow_record)
      have "k < length (nodes H)" "p \<in> set (ProperAncestors H k)"
        using tree_kid [OF wf pl k(2)] ProperAncestors_child [OF wf] by auto
      then show ?thesis
        using k False by (simp add: recorded_def)
    qed
    then show ?thesis
      using v True by simp
  qed
qed

subsection \<open>The invariant of the engine\<close>

definition engine_ok :: "heap \<Rightarrow> ('c, 'e, 'b) engine \<Rightarrow> bool" where
  "engine_ok H e \<longleftrightarrow>
     Root (engDef e) = 0 \<and> legal H (set (engCfg e)) \<and> distinct (engCfg e) \<and> hist_ok H (engHist e)"

text \<open>What \<open>newEngine\<close> builds: nothing active, nothing recorded.\<close>

definition engine_new :: "('c, 'e, 'b) engine \<Rightarrow> bool" where
  "engine_new e \<longleftrightarrow> Root (engDef e) = 0 \<and> engCfg e = [] \<and> engHist e = (\<lambda>_. [])"

definition staged_ok :: "heap \<Rightarrow> ('c, 'b) Microstep \<Rightarrow> bool" where
  "staged_ok H ms \<longleftrightarrow> legal H (set (msCfg ms)) \<and> distinct (msCfg ms) \<and> hist_ok H (msHist ms)"

lemma commit_cfg [simp]:
  "engCfg (commit ms e) = msCfg ms" "engHist (commit ms e) = msHist ms"
  "engDef (commit ms e) = engDef e" "engCtx (commit ms e) = NextContext ms"
  by (simp_all add: commit_def Let_def)

lemma commit_ok: "staged_ok H ms \<Longrightarrow> Root (engDef e) = 0 \<Longrightarrow> engine_ok H (commit ms e)"
  by (simp add: engine_ok_def staged_ok_def)

lemma microstepFor_ok:
  assumes S: "sound_chart H" and ok: "engine_ok H e" and en: "enabled_set H (engCfg e) ts"
    and k: "length (nodes H) < k"
  obtains e' ms where "microstepFor H k e ts evt trig = Some (e', ms)" and "e' = e\<lparr>lastEvt := evt\<rparr>"
    and "staged_ok H ms"
proof -
  note wf = sound_chartD(1) [OF S]
  have leg: "legal H (set (engCfg e))" and dis: "distinct (engCfg e)" and hok: "hist_ok H (engHist e)"
    using ok by (auto simp: engine_ok_def)
  obtain E where E: "computeEntrySet H k ts (engHist e) = Some E"
    "set (fst E) = (\<Union>(d, g) \<in> moves H (engHist e) ts. entry_closure H g d)"
    using entry_enabled [OF S hok leg en k] by blast
  let ?ap = "apply_microstep H e (computeExitSet H (engCfg e) ts) ts (fst E) evt trig"
  have ex: "set (computeExitSet H (engCfg e) ts) =
      set (engCfg e) \<inter> (\<Union>(d, g) \<in> moves H (engHist e) ts. strictly_below H d)"
    by (rule exit_enabled [OF S leg en])
  have "legal H (set (msCfg (snd ?ap)))"
  proof (rule replace_legal [OF wf leg])
    show "d \<in> set (engCfg e) \<and> kind H d = StateCompound \<and> entry_region H g d"
      if "(d, g) \<in> moves H (engHist e) ts" for d g
      by (rule moves_region [OF S hok leg en that])
    show "incomparable H d d'"
      if "(d, g) \<in> moves H (engHist e) ts" "(d', g') \<in> moves H (engHist e) ts" "(d, g) \<noteq> (d', g')"
      for d g d' g'
      by (rule moves_incomparable [OF S leg en that])
    show "set (msCfg (snd ?ap)) =
        (set (engCfg e) - (\<Union>(d, g) \<in> moves H (engHist e) ts. strictly_below H d))
        \<union> (\<Union>(d, g) \<in> moves H (engHist e) ts. entry_closure H g d)"
      unfolding apply_cfg_set ex E(2) by blast
  qed
  moreover have "hist_ok H (msHist (snd ?ap))"
    unfolding apply_lists by (rule hist_ok_record [OF S hok leg dis]) (simp add: ex)
  ultimately have "staged_ok H (snd ?ap)"
    using apply_cfg_set(2) [OF dis] by (simp add: staged_ok_def)
  moreover have "microstepFor H k e ts evt trig = Some (fst ?ap, snd ?ap)"
    using E(1) by (simp add: microstepFor_def)
  ultimately show thesis
    using that apply_engine [of H e "computeExitSet H (engCfg e) ts" ts "fst E" evt trig] by blast
qed

lemma engine_ok_frame:
  "engCfg e' = engCfg e \<Longrightarrow> engHist e' = engHist e \<Longrightarrow> engDef e' = engDef e \<Longrightarrow>
     engine_ok H e' \<longleftrightarrow> engine_ok H e"
  by (simp add: engine_ok_def)

lemma popInternal_Some:
  "popInternal H e q = (q', Some (ts, p)) \<Longrightarrow>
     \<exists>qe. ts = selectTransitions H (engCfg e) (descriptor qe) (guardPass H e (payload qe))
          \<and> qe \<in> set q \<and> p = payload qe \<and> ts \<noteq> []"
  by (induction q) (auto simp: Let_def split: if_splits)

definition step_ok :: "heap \<Rightarrow> ('c, 'e, 'b) engine \<Rightarrow> ('c, 'e, 'b) engine \<times> ('c, 'b) Microstep option \<Rightarrow> bool" where
  "step_ok H e r \<longleftrightarrow>
     engine_ok H (fst r) \<and> engDef (fst r) = engDef e \<and> engCfg (fst r) = engCfg e \<and> engHist (fst r) = engHist e
     \<and> engCtx (fst r) = engCtx e
     \<and> (case snd r of None \<Rightarrow> True | Some ms \<Rightarrow> staged_ok H ms)"

lemma staged_step_ok:
  assumes S: "sound_chart H" and ok: "engine_ok H e" and k: "length (nodes H) < k"
    and same: "engCfg e1 = engCfg e" "engHist e1 = engHist e" "engDef e1 = engDef e" "engCtx e1 = engCtx e"
    and en: "enabled_set H (engCfg e) ts"
  shows "\<exists>r. staged (microstepFor H k e1 ts evt trig) = Some r \<and> step_ok H e r"
proof -
  have ok1: "engine_ok H e1" and en1: "enabled_set H (engCfg e1) ts"
    using ok en same by (simp_all add: engine_ok_def)
  obtain e' ms where r: "microstepFor H k e1 ts evt trig = Some (e', ms)" "e' = e1\<lparr>lastEvt := evt\<rparr>"
    "staged_ok H ms"
    using S ok1 en1 k by (rule microstepFor_ok)
  have "engine_ok H e'"
    using ok1 r(2) by (simp add: engine_ok_def)
  then show ?thesis
    using r same by (simp add: staged_def step_ok_def)
qed

lemma engine_step_ok:
  assumes S: "sound_chart H" and ok: "engine_ok H e" and k: "length (nodes H) < k"
  shows "\<exists>r. engine_step H k e = Some r \<and> step_ok H e r"
proof -
  have leg: "legal H (set (engCfg e))"
    using ok by (simp add: engine_ok_def)
  note en = select_enabled [OF sound_chartD(1) [OF S] leg]
  note go = staged_step_ok [OF S ok k]
  let ?ts = "selectEventlessTransitions H (engCfg e) (guardPass H e None)"
  show ?thesis
  proof (cases "length ?ts > 0")
    case True
    have "step_ok H e (e\<lparr>engStatus := StatusError, errReason := Some ErrAlwaysLoopExceeded\<rparr>, None)"
      using ok by (simp add: step_ok_def engine_ok_def)
    then show ?thesis
      using True go [of "e\<lparr>alwaysRun := alwaysRun e + 1\<rparr>", OF _ _ _ _ en(2)]
      by (simp add: engine_step_def Let_def)
  next
    case quiet: False
    obtain q r where pop: "popInternal H e (internalQueue e) = (q, r)"
      by fastforce
    show ?thesis
    proof (cases r)
      case (Some tp)
      obtain ts p where tp: "tp = (ts, p)"
        by fastforce
      have "enabled_set H (engCfg e) ts"
        using popInternal_Some pop Some tp en(1) by blast
      then show ?thesis
        using go [of "e\<lparr>internalQueue := q\<rparr>" ts p True] quiet pop Some tp
        by (simp add: engine_step_def Let_def)
    next
      case None
      have frame: "step_ok H e (e\<lparr>internalQueue := q, pendingExternal := pe\<rparr>, None)"
        "step_ok H e (e\<lparr>internalQueue := q\<rparr>, None)" for pe
        using ok by (simp_all add: step_ok_def engine_ok_def)
      show ?thesis
      proof (cases "pendingExternal e")
        case None
        then show ?thesis
          using quiet pop \<open>r = None\<close> frame by (simp add: engine_step_def Let_def)
      next
        case (Some qe)
        then show ?thesis
          using quiet pop \<open>r = None\<close> frame
            go [of "e\<lparr>internalQueue := q, pendingExternal := None\<rparr>", OF _ _ _ _ en(1)]
          by (simp add: engine_step_def Let_def)
      qed
    qed
  qed
qed

lemma engine_start_ok:
  assumes S: "sound_chart H" and new: "engine_new e" and k: "length (nodes H) < k"
  shows "\<exists>e' ms. engine_start H k e = Some (e', ms) \<and> staged_ok H ms \<and> engDef e' = engDef e
           \<and> set (msCfg ms) = dflt H 0"
proof -
  note wf = sound_chartD(1) [OF S]
  have z: "0 < length (nodes H)"
    by (rule tree_size [OF wf])
  have pl: "plain H 0"
    using sound_plain [OF S z] sound_chartD(3) [OF S] by simp
  obtain E where E: "addDescendantStatesToEnter H (\<lambda>_. []) k 0 ([], []) = Some E"
    "set (fst E) = dflt H 0"
    using addDesc_fresh [OF wf z pl, of "([], [])" k "\<lambda>_. []"] k by auto
  have "legal H (dflt H 0)"
    by (rule dflt_root_legal [OF wf sound_chartD(2) [OF S] pl])
  moreover have "hist_ok H (\<lambda>_. [])"
    by (simp add: hist_ok_def)
  moreover have "msHist (snd (apply_microstep H e [] [] (fst E) None False)) = (\<lambda>_. [])"
    using new by (simp add: engine_new_def)
  ultimately have "staged_ok H (snd (apply_microstep H e [] [] (fst E) None False))"
    using E(2) new apply_cfg_set(1) [of H e "[]" "[]" "fst E" None False]
      apply_cfg_set(2) [of e H "[]" "[]" "fst E" None False]
    by (simp add: staged_ok_def engine_new_def)
  then show ?thesis
    using E new apply_cfg_set(1) [of H e "[]" "[]" "fst E" None False]
      apply_engine [of H e "[]" "[]" "fst E" None False]
    by (cases "apply_microstep H e [] [] (fst E) None False")
       (auto simp: engine_start_def engine_new_def)
qed

end
