(* ===== verification/Samples.thy ===== *)
theory Samples
  imports Engine
begin

section \<open>Concrete charts\<close>

text \<open>
  Charts on which the theorems are applied and on which the limits of the engine show.
  \<open>demo\<close> is the tree of \<open>transition_test.go\<close> with a history state, transitions and a
  final state; \<open>player\<close> is \<open>diagram/testdata/player.machine.json\<close> as the loader builds
  it.
\<close>

definition state :: "nat \<Rightarrow> string \<Rightarrow> StateKind \<Rightarrow> node option \<Rightarrow> node list \<Rightarrow> node option \<Rightarrow> tref list \<Rightarrow> StateNode" where
  "state n i k p cs ini ts =
     \<lparr>ID = i, Key = i, Kind = k, Parent = p, Children = cs, Initial = ini,
      HistKind = HistoryShallow, HistoryTo = [], Entry = [], Exit = [], Invokes = [],
      Transitions = ts, DocOrder = n\<rparr>"

definition edge :: "node \<Rightarrow> string \<Rightarrow> node list \<Rightarrow> nat \<Rightarrow> Transition" where
  "edge s ev gs n =
     \<lparr>Source = s, Event = ev, Guard = None, Targets = gs, Actions = [], TDocOrder = n,
      IsAfter = False, TDelay = \<lparr>Millis = 0, Symbol = []\<rparr>\<rparr>"

definition demo :: heap where
  "demo = \<lparr>nodes =
     [state 0 [] StateCompound None [1, 5, 12] (Some 1) [],
      state 1 ''s1'' StateCompound (Some 0) [2, 3, 4] (Some 2) [2],
      state 2 ''s1.a'' StateAtomic (Some 1) [] None [0],
      state 3 ''s1.b'' StateAtomic (Some 1) [] None [1],
      (state 4 ''s1.h'' StateHistory (Some 1) [] None [])\<lparr>HistoryTo := [2]\<rparr>,
      state 5 ''p'' StateParallel (Some 0) [6, 9] None [3],
      state 6 ''p.r1'' StateCompound (Some 5) [7, 8] (Some 7) [],
      state 7 ''p.r1.a'' StateAtomic (Some 6) [] None [4],
      state 8 ''p.r1.b'' StateAtomic (Some 6) [] None [],
      state 9 ''p.r2'' StateCompound (Some 5) [10, 11] (Some 10) [],
      state 10 ''p.r2.a'' StateAtomic (Some 9) [] None [5],
      state 11 ''p.r2.b'' StateAtomic (Some 9) [] None [],
      state 12 ''s2'' StateFinal (Some 0) [] None []],
     edges =
     [edge 2 ''E'' [3] 0, edge 3 ''FIN'' [12] 1, edge 1 ''GO'' [5] 2,
      edge 5 ''BACK'' [4] 3, edge 7 ''X'' [8] 4, edge 10 ''X'' [11] 5]\<rparr>"

definition quiet_engine :: "heap \<Rightarrow> (unit, string, unit) engine" where
  "quiet_engine H =
     newEngine (NewDefinition H ''demo'' 0 0 0) () (\<lambda>_ _ _. EffectNoop) (\<lambda>_ _ _. True) 0"

definition started :: "heap \<Rightarrow> nat \<Rightarrow> ('c, 'e, 'b) engine \<Rightarrow> ('c, 'e, 'b) engine" where
  "started H k e = (case engine_start H k e of None \<Rightarrow> e | Some (e', ms) \<Rightarrow> commit ms e')"

definition stepped :: "heap \<Rightarrow> nat \<Rightarrow> ('c, 'e, 'b) engine \<Rightarrow> ('c, 'e, 'b) engine" where
  "stepped H k e =
     (case engine_step H k e of
        None \<Rightarrow> e | Some (e', None) \<Rightarrow> e' | Some (e', Some ms) \<Rightarrow> commit ms e')"

definition send :: "heap \<Rightarrow> nat \<Rightarrow> string \<Rightarrow> ('c, string, 'b) engine \<Rightarrow> ('c, string, 'b) engine" where
  "send H k ev e = stepped H k (offer (\<lambda>s. s) ev e)"

end
