(* ===== verification/Engine_Run.thy ===== *)
theory Engine_Run
  imports Engine_Legal Samples
begin

section \<open>Runs of the engine\<close>

text \<open>
  The engine as a state machine: what the actor loop does with it, in any order. A staged
  microstep is committed or, when an observer aborts, dropped. The theory holds the
  properties of single steps and of whole runs.
\<close>

inductive engine_run :: "heap \<Rightarrow> nat \<Rightarrow> ('e \<Rightarrow> string) \<Rightarrow> ('c, 'e, 'b) engine \<Rightarrow> ('c, 'e, 'b) engine \<Rightarrow> bool"
  for H k EventType e0 where
  boot: "engine_start H k e0 = Some (e', ms) \<Longrightarrow> engine_run H k EventType e0 (commit ms e')"
| offer: "engine_run H k EventType e0 e \<Longrightarrow> engine_run H k EventType e0 (offer EventType evt e)"
| descriptor: "engine_run H k EventType e0 e \<Longrightarrow> engine_run H k EventType e0 (offerDescriptor d e)"
| quiet: "engine_run H k EventType e0 e \<Longrightarrow> engine_step H k e = Some (e', None) \<Longrightarrow>
            engine_run H k EventType e0 e'"
| commit: "engine_run H k EventType e0 e \<Longrightarrow> engine_step H k e = Some (e', Some ms) \<Longrightarrow>
            engine_run H k EventType e0 (commit ms e')"
| abort: "engine_run H k EventType e0 e \<Longrightarrow> engine_step H k e = Some (e', Some ms) \<Longrightarrow>
            engine_run H k EventType e0 e'"

lemma run_stepped:
  assumes "engine_run H k ET e0 e"
  shows "engine_run H k ET e0 (stepped H k e)"
proof (cases "engine_step H k e")
  case None
  then show ?thesis using assms by (simp add: stepped_def)
next
  case (Some r)
  obtain e' m where "r = (e', m)"
    by fastforce
  then show ?thesis
    using Some assms by (cases m) (auto simp: stepped_def intro: engine_run.quiet engine_run.commit)
qed

lemma run_started: "engine_start H k e0 \<noteq> None \<Longrightarrow> engine_run H k ET e0 (started H k e0)"
  by (cases "engine_start H k e0") (auto simp: started_def intro: engine_run.boot)

lemma run_send: "engine_run H k (\<lambda>s. s) e0 e \<Longrightarrow> engine_run H k (\<lambda>s. s) e0 (send H k ev e)"
  unfolding send_def by (rule run_stepped) (rule engine_run.offer)

lemma offer_frame [simp]:
  "engCfg (offer ET evt e) = engCfg e" "engHist (offer ET evt e) = engHist e" "engDef (offer ET evt e) = engDef e"
  "engCfg (offerDescriptor d e) = engCfg e" "engHist (offerDescriptor d e) = engHist e"
  "engDef (offerDescriptor d e) = engDef e"
  by (simp_all add: offer_def offerDescriptor_def)

lemma run_ok:
  assumes S: "sound_chart H" and new: "engine_new e0" and k: "length (nodes H) < k"
    and run: "engine_run H k ET e0 e"
  shows "engine_ok H e"
  using run
proof induction
  case (boot e' ms)
  have "staged_ok H ms \<and> engDef e' = engDef e0"
    using engine_start_ok [OF S new k] boot by auto
  then show ?case
    using new by (intro commit_ok) (auto simp: engine_new_def)
next
  case (offer e evt)
  then show ?case by (simp add: engine_ok_def)
next
  case (descriptor e d)
  then show ?case by (simp add: engine_ok_def)
next
  case (quiet e e')
  then show ?case
    using engine_step_ok [OF S quiet.IH k] by (auto simp: step_ok_def)
next
  case (commit e e' ms)
  then have "staged_ok H ms" "engine_ok H e'"
    using engine_step_ok [OF S commit.IH k] by (auto simp: step_ok_def)
  then show ?case
    by (intro commit_ok) (auto simp: engine_ok_def)
next
  case (abort e e' ms)
  then show ?case
    using engine_step_ok [OF S abort.IH k] by (auto simp: step_ok_def)
qed

lemma quiet_engine_new: "engine_new (quiet_engine H)"
  by (simp add: engine_new_def quiet_engine_def newEngine_def NewDefinition_def newConfiguration_def)

lemma demo_sound: "sound_chart demo"
  by code_simp

lemma demo_size: "length (nodes demo) < 14"
  by code_simp

lemma demo_run: "engine_run demo 14 (\<lambda>s. s) (quiet_engine demo) (started demo 14 (quiet_engine demo))"
  by (rule run_started) code_simp

text \<open>
  C1. On a sound chart, whatever sequence of offered events, steps, commits and aborted
  microsteps follows the start, the active configuration is legal: root active, every
  active compound state with exactly one active child, every active parallel state with
  all its regions, no history state active.
\<close>

theorem reachable_legal:
  assumes "sound_chart H" and "engine_new e0" and "length (nodes H) < k"
    and "engine_run H k EventType e0 e"
  shows "legal H (set (engCfg e)) \<and> distinct (engCfg e)"
  using run_ok [OF assms] by (simp add: engine_ok_def)

theorem reachable_legal_witness:
  "\<exists>e. engine_run demo 14 (\<lambda>s. s) (quiet_engine demo) e \<and> engCfg e = [0, 1, 3] \<and>
       legal demo (set (engCfg e)) \<and> distinct (engCfg e)"
proof -
  let ?e = "send demo 14 ''BACK'' (send demo 14 ''GO'' (send demo 14 ''E'' (started demo 14 (quiet_engine demo))))"
  have run: "engine_run demo 14 (\<lambda>s. s) (quiet_engine demo) ?e"
    by (intro run_send demo_run)
  moreover have "engCfg ?e = [0, 1, 3]"
    by code_simp
  ultimately show ?thesis
    using reachable_legal [OF demo_sound quiet_engine_new demo_size run] by blast
qed

text \<open>
  C2. On a sound chart the mutual recursion of the entry computation is no deeper than the
  number of nodes: with that bound, starting the engine and every step of every run
  returns a result, and a step leaves the live configuration, history and context
  untouched (only \<open>commit\<close> writes them).
\<close>

theorem step_returns:
  assumes "sound_chart H" and "engine_new e0" and "length (nodes H) < k"
    and "engine_run H k EventType e0 e"
  shows "engine_start H k e0 \<noteq> None \<and>
         (\<exists>e' m. engine_step H k e = Some (e', m) \<and>
           engCfg e' = engCfg e \<and> engHist e' = engHist e \<and> engCtx e' = engCtx e)"
  using engine_start_ok [OF assms(1-3)] engine_step_ok [OF assms(1) run_ok [OF assms] assms(3)]
  by (auto simp: step_ok_def)

theorem step_returns_witness:
  "\<exists>e' m. engine_step demo 14 (started demo 14 (quiet_engine demo)) = Some (e', m) \<and> engCfg e' = [0, 1, 2]"
proof -
  have "engCfg (started demo 14 (quiet_engine demo)) = [0, 1, 2]"
    by code_simp
  then show ?thesis
    using step_returns [OF demo_sound quiet_engine_new demo_size demo_run] by auto
qed

subsection \<open>What is selected\<close>

lemma resolveConflicts_sorted:
  "sorted (map f (filtered @ ts)) \<Longrightarrow> sorted (map f (resolveConflicts H c ts filtered))"
proof (induction ts arbitrary: filtered)
  case Nil
  then show ?case by simp
next
  case (Cons t1 ts)
  have "sorted (map f (filtered @ ts))"
    using Cons.prems by (auto simp: sorted_append)
  moreover have "sorted (map f ((filter P filtered @ [t1]) @ ts))" for P
    using Cons.prems by (auto simp: sorted_append sorted_filter)
  ultimately show ?case
    using Cons.IH by (auto simp del: append_assoc split: option.splits)
qed

lemma selectBy_sorted:
  "sorted (map (\<lambda>t. (doc H (Source (edgeAt H t)), TDocOrder (edgeAt H t))) (selectBy H c at))"
  unfolding selectBy_def removeConflictingTransitions_def
  by (rule resolveConflicts_sorted) simp

lemma matchAtNode_exact:
  assumes "matchAtNode H s event pass = Some t" and "u \<in> set (node_edges (nodeAt H s))"
    and "\<not> Eventless (edgeAt H u)" and "Event (edgeAt H u) = event" and "pass u"
  shows "Event (edgeAt H t) = event"
proof (cases "find (\<lambda>t. \<not> Eventless (edgeAt H t) \<and> Event (edgeAt H t) = event \<and> pass t) (node_edges (nodeAt H s))")
  case None
  then show ?thesis
    using assms(2-5) by (auto simp: find_None_iff)
next
  case (Some v)
  then have "v = t"
    using assms(1) by (simp add: matchAtNode_def nodeEvented_set Let_def)
  then show ?thesis
    using Some by (auto simp: find_Some_iff)
qed

text \<open>What a selected transition \<open>t\<close> is: offered by the innermost offering node above \<open>leaf\<close>.\<close>

definition offered_at :: "heap \<Rightarrow> string \<Rightarrow> (tref \<Rightarrow> bool) \<Rightarrow> tref \<Rightarrow> node \<Rightarrow> bool" where
  "offered_at H event pass t s \<longleftrightarrow>
     t \<in> set (node_edges (nodeAt H s)) \<and> pass t \<and> \<not> Eventless (edgeAt H t) \<and>
     (if list_ex (\<lambda>u. \<not> Eventless (edgeAt H u) \<and> Event (edgeAt H u) = event \<and> pass u) (node_edges (nodeAt H s))
      then Event (edgeAt H t) = event else Event (edgeAt H t) = ''*'')"

lemma matchAtNode_offered: "matchAtNode H s event pass = Some t \<Longrightarrow> offered_at H event pass t s"
proof -
  assume t: "matchAtNode H s event pass = Some t"
  have "Event (edgeAt H t) = event"
    if "list_ex (\<lambda>u. \<not> Eventless (edgeAt H u) \<and> Event (edgeAt H u) = event \<and> pass u) (node_edges (nodeAt H s))"
    using that matchAtNode_exact [OF t] unfolding list_ex_iff by blast
  moreover have "Event (edgeAt H t) = ''*''"
    if "\<not> list_ex (\<lambda>u. \<not> Eventless (edgeAt H u) \<and> Event (edgeAt H u) = event \<and> pass u) (node_edges (nodeAt H s))"
    using that matchAtNode_Some [OF t] unfolding list_ex_iff by blast
  ultimately show ?thesis
    unfolding offered_at_def using matchAtNode_Some(1-3) [OF t] by presburger
qed

lemma matchAtNode_none_offered:
  "matchAtNode H s event pass = None \<longleftrightarrow> (\<forall>t. \<not> offered_at H event pass t s)"
proof
  assume "matchAtNode H s event pass = None"
  then have "\<forall>t \<in> set (node_edges (nodeAt H s)). \<not> Eventless (edgeAt H t) \<and> pass t \<longrightarrow>
      Event (edgeAt H t) \<noteq> event \<and> Event (edgeAt H t) \<noteq> ''*''"
    by (auto simp: matchAtNode_def Let_def nodeEvented_set find_None_iff split: option.splits)
  then show "\<forall>t. \<not> offered_at H event pass t s"
    unfolding offered_at_def by (metis (mono_tags, lifting))
next
  assume "\<forall>t. \<not> offered_at H event pass t s"
  then show "matchAtNode H s event pass = None"
    using matchAtNode_offered by (cases "matchAtNode H s event pass") blast+
qed


subsection \<open>What a microstep does\<close>

lemma microstepFor_Some:
  assumes "microstepFor H k e ts evt trig = Some (e', ms)"
  obtains E where "computeEntrySet H k ts (engHist e) = Some E"
    and "ms = snd (apply_microstep H e (computeExitSet H (engCfg e) ts) ts (fst E) evt trig)"
    and "e' = e\<lparr>lastEvt := evt\<rparr>"
proof -
  obtain E where E: "computeEntrySet H k ts (engHist e) = Some E"
    "(e', ms) = apply_microstep H e (computeExitSet H (engCfg e) ts) ts (fst E) evt trig"
    using assms by (auto simp: microstepFor_def)
  then show thesis
    using that apply_engine [of H e "computeExitSet H (engCfg e) ts" ts "fst E" evt trig]
    by (metis fst_conv snd_conv)
qed

text \<open>
  C6. A microstep leaves states in reverse document order, so children before parents, enters
  them in document order, so parents before children, and runs its actions in the order:
  exit actions, transition actions, entry actions. The staged context and the outbox are
  exactly the result of folding that one sequence.
\<close>

theorem microstep_order:
  assumes "microstepFor H k e ts evt trig = Some (e', ms)"
  shows "sorted (rev (map (doc H) (Exited ms))) \<and> distinct (Exited ms) \<and>
    sorted (map (doc H) (Entered ms)) \<and>
    (NextContext ms, Effects ms) =
      runActions e evt
        (concat (map (\<lambda>s. Exit (nodeAt H s)) (Exited ms))
           @ concat (map (\<lambda>t. Actions (edgeAt H t)) (msTransitions ms))
           @ concat (map (\<lambda>s. Entry (nodeAt H s)) (Entered ms)))
        (engCtx e, [])"
proof -
  obtain E :: entry_sets where "ms = snd (apply_microstep H e (computeExitSet H (engCfg e) ts) ts (fst E) evt trig)"
    using assms by (rule microstepFor_Some) blast
  then show ?thesis
    by (simp only: apply_lists apply_actions sorted_computeExitSet distinct_computeExitSet)
       (simp add: orderedEntry_def)
qed

theorem microstep_order_witness:
  "\<exists>e' ms. microstepFor demo 14 (started demo 14 (quiet_engine demo)) [2] None True = Some (e', ms) \<and>
     Exited ms = [2, 1] \<and> Entered ms = [5, 6, 7, 9, 10] \<and> sorted (map (doc demo) (Entered ms))"
proof -
  let ?r = "microstepFor demo 14 (started demo 14 (quiet_engine demo)) [2] None True"
  have "map_option (\<lambda>r. (Exited (snd r), Entered (snd r))) ?r = Some ([2, 1], [5, 6, 7, 9, 10])"
    by code_simp
  then obtain e' ms where "?r = Some (e', ms)" "Exited ms = [2, 1]" "Entered ms = [5, 6, 7, 9, 10]"
    by auto
  then show ?thesis
    using microstep_order by blast
qed

lemma targetless_entry:
  "\<forall>t \<in> set ts. Internal (edgeAt H t) \<Longrightarrow> computeEntrySet H k ts hist = Some ([], [])"
proof -
  have "foldM (\<lambda>t E. Option.bind (foldM (addDescendantStatesToEnter H hist k) (Targets (edgeAt H t)) E)
           (foldM (\<lambda>tgt. addAncestorStatesToEnter H hist k tgt (getTransitionDomain H t)) (Targets (edgeAt H t))))
        ts E = Some E" if "\<forall>t \<in> set ts. Internal (edgeAt H t)" for E
    using that by (induction ts arbitrary: E) (auto simp: Internal_def)
  then show "\<forall>t \<in> set ts. Internal (edgeAt H t) \<Longrightarrow> computeEntrySet H k ts hist = Some ([], [])"
    by (simp add: computeEntrySet_def)
qed

text \<open>
  Transitions without a target are internal on every chart: the microstep exits and enters
  nothing, changes neither the configuration nor the history, and runs only the
  transitions' own actions.
\<close>

theorem targetless_is_internal:
  assumes "list_all (\<lambda>t. Internal (edgeAt H t)) ts"
  shows "\<exists>ms. microstepFor H k e ts evt trig = Some (e\<lparr>lastEvt := evt\<rparr>, ms) \<and>
           Exited ms = [] \<and> Entered ms = [] \<and> msCfg ms = engCfg e \<and> msHist ms = engHist e \<and>
           (NextContext ms, Effects ms) =
             runActions e evt (concat (map (\<lambda>t. Actions (edgeAt H t)) ts)) (engCtx e, [])"
proof -
  have int: "\<forall>t \<in> set ts. Internal (edgeAt H t)"
    using assms by (simp add: list_all_iff)
  have "set (computeExitSet H (engCfg e) ts) = {}"
    using int by (auto simp: set_computeExitSet exitSetOf_internal)
  then have ex: "computeExitSet H (engCfg e) ts = []"
    by simp
  let ?ap = "apply_microstep H e [] ts [] evt trig"
  have "microstepFor H k e ts evt trig = Some (fst ?ap, snd ?ap)"
    using targetless_entry [OF int] ex by (simp add: microstepFor_def)
  moreover have "msCfg (snd ?ap) = engCfg e"
    by (simp add: apply_cfg orderedEntry_def)
  moreover have "(NextContext (snd ?ap), Effects (snd ?ap)) =
      runActions e evt (concat (map (\<lambda>t. Actions (edgeAt H t)) ts)) (engCtx e, [])"
    unfolding apply_actions by (simp add: orderedEntry_def)
  ultimately show ?thesis
    by (simp add: apply_engine orderedEntry_def)
qed

theorem targetless_is_internal_witness:
  "\<exists>ms. microstepFor
      \<lparr>nodes = [state 0 [] StateCompound None [1] (Some 1) [0], state 1 ''a'' StateAtomic (Some 0) [] None []],
       edges = [edge 0 ''E'' [] 0]\<rparr> 3 ((quiet_engine demo)\<lparr>engCfg := [0, 1]\<rparr>) [0] None True
      = Some ((quiet_engine demo)\<lparr>engCfg := [0, 1], lastEvt := None\<rparr>, ms) \<and> msCfg ms = [0, 1]"
  using targetless_is_internal [of "\<lparr>nodes = [state 0 [] StateCompound None [1] (Some 1) [0],
      state 1 ''a'' StateAtomic (Some 0) [] None []], edges = [edge 0 ''E'' [] 0]\<rparr>" "[0]" 3
      "(quiet_engine demo)\<lparr>engCfg := [0, 1]\<rparr>" None True]
  by (auto simp: Internal_def edgeAt_def edge_def)

end
