(* ===== verification/Engine_History.thy ===== *)
theory Engine_History
  imports Engine_Run
begin

section \<open>Entering, leaving and coming back\<close>

text \<open>
  The entry computation refines the declarative closure, and history brings back what was
  active: what \<open>recordHistoryInto\<close> stores on exit is what \<open>addDescendantStatesToEnter\<close>
  enters when the history state is targeted later.
\<close>

text \<open>
  C7. On a sound chart in a legal configuration, the set of states the selected transitions
  enter is the union, over the transitions, of the declarative entry closure of the
  target (a history target replaced by what it restores): the default descendants of the
  target, the path down to it, and the default descendants of the regions beside that path.
\<close>

theorem entry_set_is_closure:
  assumes "sound_chart H" and "engine_ok H e" and "length (nodes H) < k"
  shows "\<exists>E. computeEntrySet H k (selectTransitions H (engCfg e) event pass) (engHist e) = Some E \<and>
           set (fst E) = (\<Union>(d, g) \<in> moves H (engHist e) (selectTransitions H (engCfg e) event pass).
                            entry_closure H g d) \<and> distinct (fst E)"
proof -
  have "legal H (set (engCfg e))" "hist_ok H (engHist e)"
    using assms(2) by (auto simp: engine_ok_def)
  then show ?thesis
    by (intro entry_enabled [OF assms(1) _ _ select_enabled(1) [OF sound_chartD(1) [OF assms(1)]] assms(3)])
qed

theorem entry_set_is_closure_witness:
  "\<exists>e :: (unit, string, unit) engine. \<exists>E. engCfg e = [0, 1, 2] \<and>
     computeEntrySet demo 14 (selectTransitions demo [0, 1, 2] ''GO'' (\<lambda>_. True)) (engHist e) = Some E \<and>
     fst E = [5, 6, 7, 9, 10] \<and>
     set (fst E) = (\<Union>(d, g) \<in> moves demo (engHist e) (selectTransitions demo [0, 1, 2] ''GO'' (\<lambda>_. True)).
                         entry_closure demo g d)"
proof -
  let ?e = "started demo 14 (quiet_engine demo)"
  have cfg: "engCfg ?e = [0, 1, 2]"
    by code_simp
  have ok: "engine_ok demo ?e"
    by (rule run_ok [OF demo_sound quiet_engine_new demo_size demo_run])
  have "map_option fst (computeEntrySet demo 14 (selectTransitions demo [0, 1, 2] ''GO'' (\<lambda>_. True)) (engHist ?e))
      = Some [5, 6, 7, 9, 10]"
    by code_simp
  then show ?thesis
    using entry_set_is_closure [OF demo_sound ok demo_size, of "''GO''" "\<lambda>_. True"] cfg
    by (intro exI [of _ ?e]) auto
qed

subsection \<open>History\<close>

lemma microstep_record:
  assumes S: "sound_chart H" and ok: "engine_ok H e" and ms: "microstepFor H k e ts evt trig = Some (e', ms)"
    and p: "p \<in> set (Exited ms)" and h: "h \<in> set (kids H p)" "kind H h = StateHistory"
  shows "msHist ms (ID (nodeAt H h)) = recorded H (engCfg e) p h"
    and "p \<in> set (engCfg e)" and "h < length (nodes H)" and "par H h = Some p"
proof -
  note wf = sound_chartD(1) [OF S]
  have leg: "legal H (set (engCfg e))"
    using ok by (simp add: engine_ok_def)
  obtain E :: entry_sets where E: "ms = snd (apply_microstep H e (computeExitSet H (engCfg e) ts) ts (fst E) evt trig)"
    using ms by (rule microstepFor_Some) blast
  have exs: "Exited ms = computeExitSet H (engCfg e) ts"
    and hist: "msHist ms = fold (\<lambda>s h. recordHistoryInto H s h (engCfg e)) (computeExitSet H (engCfg e) ts) (engHist e)"
    unfolding E apply_lists by auto
  show pc: "p \<in> set (engCfg e)"
    using p exs computeExitSet_active by auto
  have pl: "p < length (nodes H)"
    by (rule legal_lt [OF leg pc])
  show hl: "h < length (nodes H)" and hp: "par H h = Some p"
    using tree_kid [OF wf pl h(1)] by auto
  have "\<forall>s \<in> set (computeExitSet H (engCfg e) ts). s < length (nodes H)"
    using computeExitSet_active legal_lt [OF leg] by blast
  then show "msHist ms (ID (nodeAt H h)) = recorded H (engCfg e) p h"
    using record_exits [OF S _ hl h(2) hp] p exs hist by simp
qed

lemma restored_entry:
  assumes S: "sound_chart H" and h: "h < length (nodes H)" "kind H h = StateHistory" "par H h = Some p"
    and r: "hist (ID (nodeAt H h)) = [c]" "c < length (nodes H)" "kind H c \<noteq> StateHistory"
      "p \<in> set (ProperAncestors H c)"
    and k: "length (nodes H) < k"
  shows "\<exists>E. addDescendantStatesToEnter H hist k h ([], []) = Some E \<and> set (fst E) = entry_closure H c p"
proof -
  note wf = sound_chartD(1) [OF S]
  have comp: "kind H p = StateCompound"
    using sound_history [OF S h(1,2)] h(3) by (metis option.inject)
  obtain E where E: "Option.bind (addDescendantStatesToEnter H hist k h ([], []))
       (addAncestorStatesToEnter H hist k h (Some p)) = Some E" "set (fst E) = entry_closure H c p"
    using enter_history [OF wf h _ r(2,4) _ _ sound_plain [OF S r(2,3)] sound_plain_sides [OF S r(2)] _ k,
        of hist p "([], [])"] r(1) comp ProperAncestors_child [OF wf h(1,3)]
    by (auto simp: restored_def)
  moreover have "addAncestorStatesToEnter H hist k h (Some p) E' = Some E'" for E'
    using ProperAncestors_child [OF wf h(1,3)] by (simp add: addAncestorStatesToEnter_def)
  ultimately show ?thesis
    by (auto simp: bind_eq_Some_conv)
qed

text \<open>
  C8. Shallow history: when a microstep exits a state that has a shallow history child, it
  records the one child that was active, and targeting the history state afterwards enters
  that child and its default descendants, and nothing else below the state.
\<close>

theorem shallow_history_restores:
  assumes "sound_chart H" and "engine_ok H e" and "microstepFor H k e ts evt trig = Some (e', ms)"
    and "p \<in> set (Exited ms)" and "h \<in> set (kids H p)" and "kind H h = StateHistory"
    and "HistKind (nodeAt H h) = HistoryShallow" and "length (nodes H) < k"
  shows "\<exists>c E. c \<in> set (kids H p) \<and> c \<in> set (engCfg e) \<and> engHist (commit ms e') (ID (nodeAt H h)) = [c] \<and>
           addDescendantStatesToEnter H (engHist (commit ms e')) k h ([], []) = Some E \<and>
           set (fst E) = dflt H c"
proof -
  note wf = sound_chartD(1) [OF assms(1)]
  note rec = microstep_record [OF assms(1-6)]
  have leg: "legal H (set (engCfg e))"
    using assms(2) by (simp add: engine_ok_def)
  have comp: "kind H p = StateCompound"
    using sound_history [OF assms(1) rec(3) assms(6)] rec(4) by (metis option.inject)
  have pl: "p < length (nodes H)"
    by (rule legal_lt [OF leg rec(2)])
  obtain c where c: "filter (cfg_has (engCfg e)) (kids H p) = [c]" "c \<in> set (kids H p)" "kind H c \<noteq> StateHistory"
    using wf leg rec(2) comp by (rule shallow_record)
  have "c \<in> set (filter (cfg_has (engCfg e)) (kids H p))"
    unfolding c(1) by simp
  then have act: "c \<in> set (engCfg e)"
    by (simp add: cfg_has_def)
  have cl: "c < length (nodes H)" "ProperAncestors H c = p # ProperAncestors H p"
    using tree_kid [OF wf pl c(2)] ProperAncestors_child [OF wf] by auto
  have hist: "msHist ms (ID (nodeAt H h)) = [c]"
    using rec(1) c(1) assms(7) by (simp add: recorded_def)
  obtain E where E: "addDescendantStatesToEnter H (msHist ms) k h ([], []) = Some E"
    "set (fst E) = entry_closure H c p"
    using restored_entry [where hist = "msHist ms", OF assms(1) rec(3) assms(6) rec(4) hist cl(1) c(3) _ assms(8)] cl(2)
    by auto
  have "on_path H c p = {}"
    using cl ancestor_antisym [OF wf pl] not_own_ancestor [OF wf pl] by (auto simp: on_path_def)
  then have "entry_closure H c p = dflt H c"
    by (simp add: entry_closure_def side_regions_def)
  then show ?thesis
    using c(2) act hist E by auto
qed

lemma demo_shallow_step:
  "\<exists>e' ms. microstepFor demo 14 (send demo 14 ''E'' (started demo 14 (quiet_engine demo))) [2] None True
      = Some (e', ms) \<and> Exited ms = [3, 1]"
proof -
  have "map_option (\<lambda>r. Exited (snd r)) (microstepFor demo 14
      (send demo 14 ''E'' (started demo 14 (quiet_engine demo))) [2] None True) = Some [3, 1]"
    by code_simp
  then show ?thesis by auto
qed

theorem shallow_history_restores_witness:
  "\<exists>e' ms c E. microstepFor demo 14 (send demo 14 ''E'' (started demo 14 (quiet_engine demo))) [2] None True
      = Some (e', ms) \<and>
     addDescendantStatesToEnter demo (engHist (commit ms e')) 14 4 ([], []) = Some E \<and>
     c \<in> set (engCfg (send demo 14 ''E'' (started demo 14 (quiet_engine demo)))) \<and> set (fst E) = dflt demo c"
proof -
  let ?e = "send demo 14 ''E'' (started demo 14 (quiet_engine demo))"
  have ok: "engine_ok demo ?e"
    by (rule run_ok [OF demo_sound quiet_engine_new demo_size run_send [OF demo_run]])
  obtain e' ms where ms: "microstepFor demo 14 ?e [2] None True = Some (e', ms)" "Exited ms = [3, 1]"
    using demo_shallow_step by blast
  have k: "4 \<in> set (kids demo 1)" and h: "kind demo 4 = StateHistory" "HistKind (nodeAt demo 4) = HistoryShallow"
    by code_simp+
  have "1 \<in> set (Exited ms)"
    using ms(2) by simp
  then show ?thesis
    using shallow_history_restores [OF demo_sound ok ms(1) _ k h demo_size] ms(1) by blast
qed

text \<open>Below a compound state without parallel states, the active nodes are one leaf and its path.\<close>

lemma active_below:
  assumes S: "sound_chart H" and leg: "legal H (set C)" and pC: "p \<in> set C" and comp: "kind H p = StateCompound"
    and np: "\<forall>m. m < length (nodes H) \<and> p \<in> set (ProperAncestors H m) \<longrightarrow> kind H m \<noteq> StateParallel"
    and a: "a \<in> set C" "IsAtomic H a" "p \<in> set (ProperAncestors H a)"
  shows "insert a (on_path H a p) = {x \<in> set C. p \<in> set (ProperAncestors H x)}"
proof -
  note wf = sound_chartD(1) [OF S]
  have leaf: "x = a \<or> x \<in> set (ProperAncestors H a)"
    if x: "x \<in> set C" "p \<in> set (ProperAncestors H x)" for x
  proof (cases "IsAtomic H x")
    case True
    then show ?thesis
      using one_leaf [OF S leg pC comp np] x a by blast
  next
    case False
    have xl: "x < length (nodes H)"
      by (rule legal_lt [OF leg x(1)])
    have up: "p \<in> set (ProperAncestors H m)" if "m < length (nodes H)" "x \<in> set (ProperAncestors H m)" for m
      using ProperAncestors_trans [OF wf that] x(2) by blast
    have "kind H x = StateCompound"
      using False np xl x legal_ok [OF leg x(1)] by (cases "kind H x") (auto simp: IsAtomic_def ok_node_def)
    then obtain b where "b \<in> set C" "IsAtomic H b" "x \<in> set (ProperAncestors H b)"
      using one_leaf [OF S leg x(1)] np up by blast
    moreover have "b = a"
      using one_leaf [OF S leg pC comp np] a up legal_lt [OF leg] calculation by blast
    ultimately show ?thesis by blast
  qed
  then show ?thesis
    using a(1,3) legal_ancestors [OF wf leg a(1)] by (auto simp: on_path_def)
qed

text \<open>
  C9. Deep history over a state without parallel states below it: after exiting, targeting
  the history state enters exactly the descendants that were active when it was exited.
\<close>

theorem deep_history_restores:
  assumes "sound_chart H" and "engine_ok H e" and "microstepFor H k e ts evt trig = Some (e', ms)"
    and "p \<in> set (Exited ms)" and "h \<in> set (kids H p)" and "kind H h = StateHistory"
    and "HistKind (nodeAt H h) = HistoryDeep" and "length (nodes H) < k"
  shows "\<exists>E. addDescendantStatesToEnter H (engHist (commit ms e')) k h ([], []) = Some E \<and>
           set (fst E) = {x \<in> set (engCfg e). p \<in> set (ProperAncestors H x)}"
proof -
  note S = assms(1) note wf = sound_chartD(1) [OF S]
  note rec = microstep_record [OF assms(1-6)]
  have leg: "legal H (set (engCfg e))" and dis: "distinct (engCfg e)"
    using assms(2) by (auto simp: engine_ok_def)
  have comp: "kind H p = StateCompound"
    and np: "\<forall>m. m < length (nodes H) \<and> p \<in> set (ProperAncestors H m) \<longrightarrow> kind H m \<noteq> StateParallel"
    using sound_history [OF S rec(3) assms(6)] rec(4) assms(7) by (metis option.inject)+
  obtain a where a: "filter (\<lambda>n. IsAtomic H n \<and> IsDescendant H n (Some p)) (cfg_all H (engCfg e)) = [a]"
    "a \<in> set (engCfg e)" "p \<in> set (ProperAncestors H a)"
    using deep_record [OF S leg dis rec(2) comp np] by blast
  have "a \<in> set (filter (\<lambda>n. IsAtomic H n \<and> IsDescendant H n (Some p)) (cfg_all H (engCfg e)))"
    unfolding a(1) by simp
  then have atom: "IsAtomic H a"
    by simp
  have al: "a < length (nodes H)"
    by (rule legal_lt [OF leg a(2)])
  have hist: "msHist ms (ID (nodeAt H h)) = [a]"
    using rec(1) a(1) assms(7) by (simp add: recorded_def)
  obtain E where E: "addDescendantStatesToEnter H (msHist ms) k h ([], []) = Some E"
    "set (fst E) = entry_closure H a p"
    using restored_entry [where hist = "msHist ms", OF S rec(3) assms(6) rec(4) hist al _ a(3) assms(8)] atom
    by (auto simp: IsAtomic_def)
  have sides: "side_regions H a p = {}"
    using np ancestor_lt [OF wf al] by (auto simp: side_regions_def on_path_def)
  have "dflt H a = {a}"
    using atom by (intro dflt_leaf) (auto simp: IsAtomic_def)
  then have closure: "entry_closure H a p = insert a (on_path H a p)"
    using sides by (simp add: entry_closure_def)
  have "entry_closure H a p = {x \<in> set (engCfg e). p \<in> set (ProperAncestors H x)}"
    unfolding closure using active_below [OF S leg rec(2) comp np a(2) atom a(3)] by simp
  then show ?thesis
    using E by simp
qed

definition demo_deep :: heap where
  "demo_deep = demo\<lparr>nodes := (nodes demo)[4 := (nodes demo ! 4)\<lparr>HistKind := HistoryDeep\<rparr>]\<rparr>"

theorem deep_history_restores_witness:
  "\<exists>e' ms E. microstepFor demo_deep 14 (send demo_deep 14 ''E'' (started demo_deep 14 (quiet_engine demo_deep)))
      [2] None True = Some (e', ms) \<and>
     addDescendantStatesToEnter demo_deep (engHist (commit ms e')) 14 4 ([], []) = Some E \<and> set (fst E) = {3}"
proof -
  let ?e = "send demo_deep 14 ''E'' (started demo_deep 14 (quiet_engine demo_deep))"
  have S: "sound_chart demo_deep" and len: "length (nodes demo_deep) < 14"
    by code_simp+
  have run: "engine_run demo_deep 14 (\<lambda>s. s) (quiet_engine demo_deep) (started demo_deep 14 (quiet_engine demo_deep))"
    by (rule run_started) code_simp
  have ok: "engine_ok demo_deep ?e"
    by (rule run_ok [OF S quiet_engine_new len run_send [OF run]])
  have "map_option (\<lambda>r. Exited (snd r)) (microstepFor demo_deep 14 ?e [2] None True) = Some [3, 1]"
    by code_simp
  then obtain e' ms where ms: "microstepFor demo_deep 14 ?e [2] None True = Some (e', ms)" "Exited ms = [3, 1]"
    by auto
  have k: "4 \<in> set (kids demo_deep 1)" and h: "kind demo_deep 4 = StateHistory"
    "HistKind (nodeAt demo_deep 4) = HistoryDeep"
    by code_simp+
  have "1 \<in> set (Exited ms)"
    using ms(2) by simp
  moreover have "{x \<in> set (engCfg ?e). 1 \<in> set (ProperAncestors demo_deep x)} = {3}"
    by code_simp
  ultimately show ?thesis
    using deep_history_restores [OF S ok ms(1) _ k h len] ms(1) by auto
qed

end
