(* ===== verification/Timers.thy ===== *)
theory Timers
  imports Prelude "HOL-Library.Word" "HOL-Library.Multiset"
begin

section \<open>Clocks and timer services: \<open>time.go\<close>, \<open>statesmantest/clock.go\<close>, \<open>stall.go\<close>\<close>

text \<open>
  A Go interface value is a record of operations on the world it lives in. The interface
  \<open>TimerService\<close> (with the \<open>Clock\<close> it is read against and the \<open>Timer\<close> handles it returns)
  is the record type below; what its users rely on is the locale \<open>timer_service\<close>, which
  both implementations of the repository satisfy: the virtual service of the test kit and
  the in-process service over \<open>time.AfterFunc\<close>. Times and durations are integers counting
  nanoseconds, times from the Unix epoch. A callback is a value \<open>'f\<close>; whoever advances the
  time decides what firing it means.
\<close>

type_synonym time = int
type_synonym duration = int

definition Millisecond :: duration where
  "Millisecond = 1000000"

text \<open>The zero \<open>time.Time\<close>, January 1 of year 1.\<close>

definition zeroTime :: time where
  "zeroTime = - 62135596800 * 1000000000"

record ('w, 'f) TimerService =
  Now :: "'w \<Rightarrow> time"
  Schedule :: "time \<Rightarrow> 'f \<Rightarrow> 'w \<Rightarrow> 'w \<times> nat"
  Cancel :: "nat \<Rightarrow> 'w \<Rightarrow> 'w \<times> bool"
  Deadline :: "nat \<Rightarrow> 'w \<Rightarrow> time"

text \<open>
  What the users of the interface rely on. \<open>armed w t = Some at\<close> says that timer \<open>t\<close> was
  scheduled for \<open>at\<close> and has neither fired nor been cancelled; \<open>used w\<close> are the handles
  returned so far.
\<close>

locale timer_service =
  fixes TS :: "('w, 'f) TimerService"
    and armed :: "'w \<Rightarrow> nat \<rightharpoonup> time"
    and used :: "'w \<Rightarrow> nat set"
  assumes used_armed: "dom (armed w) \<subseteq> used w"
    and schedule_fresh: "Schedule TS at f w = (w', t) \<Longrightarrow> t \<notin> used w \<and> used w' = insert t (used w)"
    and schedule_armed: "Schedule TS at f w = (w', t) \<Longrightarrow> armed w' = (armed w)(t \<mapsto> at)"
    and schedule_now: "Schedule TS at f w = (w', t) \<Longrightarrow> Now TS w' = Now TS w"
    and cancel_result: "Cancel TS t w = (w', b) \<Longrightarrow> b \<longleftrightarrow> armed w t \<noteq> None"
    and cancel_armed: "Cancel TS t w = (w', b) \<Longrightarrow> armed w' = (armed w)(t := None) \<and> used w' = used w"
    and cancel_now: "Cancel TS t w = (w', b) \<Longrightarrow> Now TS w' = Now TS w"
    and deadline: "armed w t = Some at \<Longrightarrow> Deadline TS t w = at"
begin

lemma cancel_schedule:
  assumes "Schedule TS at f w = (w1, t)" and "Cancel TS t w1 = (w2, b)"
  shows "b \<and> armed w2 = armed w"
proof -
  have "armed w t = None"
    using used_armed [of w] schedule_fresh [OF assms(1)] by blast
  then show ?thesis
    using schedule_armed [OF assms(1)] cancel_result [OF assms(2)] cancel_armed [OF assms(2)]
    by (simp add: fun_upd_idem)
qed

lemma cancel_twice:
  "Cancel TS t w = (w1, b) \<Longrightarrow> Cancel TS t w1 = (w2, c) \<Longrightarrow> \<not> c \<and> armed w2 = armed w1"
  using cancel_result [of t w1 w2 c] cancel_armed [of t w1 w2 c] cancel_armed [of t w w1 b] by auto

text \<open>Cancelling a list of handles, as the actor does when states exit.\<close>

lemma cancel_step:
  "armed (fst (Cancel TS t w)) = (armed w)(t := None)"
  "used (fst (Cancel TS t w)) = used w"
  "Now TS (fst (Cancel TS t w)) = Now TS w"
  using cancel_armed [of t w] cancel_now [of t w] by (metis prod.collapse)+

lemma cancel_all:
  "armed (fold (\<lambda>t w. fst (Cancel TS t w)) ts w) = (\<lambda>t. if t \<in> set ts then None else armed w t)"
  by (induction ts arbitrary: w) (auto simp: cancel_step fun_eq_iff)

lemma cancel_all_frame:
  "used (fold (\<lambda>t w. fst (Cancel TS t w)) ts w) = used w"
  "Now TS (fold (\<lambda>t w. fst (Cancel TS t w)) ts w) = Now TS w"
  by (induction ts arbitrary: w) (auto simp: cancel_step)

end

subsection \<open>The virtual service\<close>

record ManualClock =
  now :: time

definition NewManualClock :: "time \<Rightarrow> ManualClock" where
  "NewManualClock start = (let start = (if start = zeroTime then 0 else start) in \<lparr>now = start\<rparr>)"

definition ManualClock_Now :: "ManualClock \<Rightarrow> time" where
  "ManualClock_Now c = now c"

definition ManualClock_set :: "time \<Rightarrow> ManualClock \<Rightarrow> ManualClock" where
  "ManualClock_set t c = c\<lparr>now := t\<rparr>"

record 'f manualTimer =
  mtDeadline :: time
  fire :: 'f
  cancelled :: bool
  fired :: bool

record 'f ManualTimerService =
  clock :: ManualClock
  timers :: "'f manualTimer list"

definition NewManualTimerService :: "ManualClock \<Rightarrow> 'f ManualTimerService" where
  "NewManualTimerService c = \<lparr>clock = c, timers = []\<rparr>"

text \<open>A timer is a pointer: its handle is its position in \<open>timers\<close>, which only grows.\<close>

definition manual_Schedule :: "time \<Rightarrow> 'f \<Rightarrow> 'f ManualTimerService \<Rightarrow> 'f ManualTimerService \<times> nat" where
  "manual_Schedule at f s =
     (let t = \<lparr>mtDeadline = at, fire = f, cancelled = False, fired = False\<rparr>
      in (s\<lparr>timers := timers s @ [t]\<rparr>, length (timers s)))"

definition markFiredIfDue :: "time \<Rightarrow> 'f manualTimer \<Rightarrow> 'f manualTimer \<times> bool" where
  "markFiredIfDue nw t =
     (if cancelled t \<or> fired t \<or> mtDeadline t > nw then (t, False) else (t\<lparr>fired := True\<rparr>, True))"

definition manualTimer_Cancel :: "'f manualTimer \<Rightarrow> 'f manualTimer \<times> bool" where
  "manualTimer_Cancel t =
     (if fired t \<or> cancelled t then (t, False) else (t\<lparr>cancelled := True\<rparr>, True))"

definition manual_Cancel :: "nat \<Rightarrow> 'f ManualTimerService \<Rightarrow> 'f ManualTimerService \<times> bool" where
  "manual_Cancel i s =
     (if i < length (timers s)
      then (let (t, b) = manualTimer_Cancel (timers s ! i) in (s\<lparr>timers := (timers s)[i := t]\<rparr>, b))
      else (s, False))"

definition manual_Deadline :: "nat \<Rightarrow> 'f ManualTimerService \<Rightarrow> time" where
  "manual_Deadline i s = (if i < length (timers s) then mtDeadline (timers s ! i) else 0)"

text \<open>
  \<open>Advance\<close>: mark what is due, in arming order, sort the due timers stably by deadline, and
  return their callbacks in the order in which they are called, with the service unlocked.
\<close>

definition Advance :: "duration \<Rightarrow> 'f ManualTimerService \<Rightarrow> 'f ManualTimerService \<times> 'f list" where
  "Advance d s =
     (let nw = ManualClock_Now (clock s) + d;
          s1 = s\<lparr>clock := ManualClock_set nw (clock s)\<rparr>;
          marked = map (markFiredIfDue nw) (timers s1);
          due = map fst (filter snd marked)
      in (s1\<lparr>timers := map fst marked\<rparr>, map fire (sort_key mtDeadline due)))"

definition manualService :: "('f ManualTimerService, 'f) TimerService" where
  "manualService =
     \<lparr>Now = (\<lambda>s. ManualClock_Now (clock s)), Schedule = manual_Schedule, Cancel = manual_Cancel,
      Deadline = manual_Deadline\<rparr>"

declare NewManualClock_def [gomodel] ManualClock_Now_def [gomodel] ManualClock_set_def [gomodel]
  NewManualTimerService_def [gomodel] manual_Schedule_def [gomodel] markFiredIfDue_def [gomodel]
  manualTimer_Cancel_def [gomodel] manual_Cancel_def [gomodel] manual_Deadline_def [gomodel]
  Advance_def [gomodel]

definition manual_live :: "'f manualTimer \<Rightarrow> bool" where
  "manual_live t \<longleftrightarrow> \<not> cancelled t \<and> \<not> fired t"

definition manual_armed :: "'f ManualTimerService \<Rightarrow> nat \<rightharpoonup> time" where
  "manual_armed s i =
     (if i < length (timers s) \<and> manual_live (timers s ! i) then Some (mtDeadline (timers s ! i)) else None)"

interpretation manual: timer_service manualService manual_armed "\<lambda>s. {..<length (timers s)}"
proof
  fix w w' :: "'f ManualTimerService" and at f t b
  show "dom (manual_armed w) \<subseteq> {..<length (timers w)}"
    by (auto simp: manual_armed_def split: if_splits)
  show "Schedule manualService at f w = (w', t) \<Longrightarrow>
      t \<notin> {..<length (timers w)} \<and> {..<length (timers w')} = insert t {..<length (timers w)}"
    by (auto simp: manualService_def manual_Schedule_def Let_def)
  show "Schedule manualService at f w = (w', t) \<Longrightarrow> manual_armed w' = (manual_armed w)(t \<mapsto> at)"
    by (auto simp: manualService_def manual_Schedule_def Let_def manual_armed_def manual_live_def
        nth_append fun_eq_iff less_Suc_eq split: if_splits)
  show "Schedule manualService at f w = (w', t) \<Longrightarrow> Now manualService w' = Now manualService w"
    by (auto simp: manualService_def manual_Schedule_def Let_def)
  show "Cancel manualService t w = (w', b) \<Longrightarrow> b \<longleftrightarrow> manual_armed w t \<noteq> None"
    by (auto simp: manualService_def manual_Cancel_def manualTimer_Cancel_def Let_def
        manual_armed_def manual_live_def split: if_splits)
  show "Cancel manualService t w = (w', b) \<Longrightarrow>
      manual_armed w' = (manual_armed w)(t := None) \<and> {..<length (timers w')} = {..<length (timers w)}"
    by (auto simp: manualService_def manual_Cancel_def manualTimer_Cancel_def Let_def
        manual_armed_def manual_live_def nth_list_update fun_eq_iff split: if_splits)
  show "Cancel manualService t w = (w', b) \<Longrightarrow> Now manualService w' = Now manualService w"
    by (auto simp: manualService_def manual_Cancel_def manualTimer_Cancel_def Let_def split: if_splits)
  show "manual_armed w t = Some at \<Longrightarrow> Deadline manualService t w = at"
    by (auto simp: manualService_def manual_Deadline_def manual_armed_def split: if_splits)
qed

subsection \<open>The in-process service\<close>

text \<open>
  The default service over \<open>time.AfterFunc\<close> with the wall clock. The runtime of the language
  keeps the armed functions: each is due at an instant and can be stopped until it has
  started. A deadline in the past is scheduled for now.
\<close>

record 'f inProcTimer =
  ipDeadline :: time
  ipDue :: time
  ipFire :: 'f
  ipStopped :: bool
  ipStarted :: bool

record 'f process =
  wall :: time
  afterFuncs :: "'f inProcTimer list"

definition inproc_Schedule :: "time \<Rightarrow> 'f \<Rightarrow> 'f process \<Rightarrow> 'f process \<times> nat" where
  "inproc_Schedule at f s =
     (let d = at - wall s;
          d = (if d < 0 then 0 else d);
          t = \<lparr>ipDeadline = at, ipDue = wall s + d, ipFire = f, ipStopped = False, ipStarted = False\<rparr>
      in (s\<lparr>afterFuncs := afterFuncs s @ [t]\<rparr>, length (afterFuncs s)))"

definition inproc_Cancel :: "nat \<Rightarrow> 'f process \<Rightarrow> 'f process \<times> bool" where
  "inproc_Cancel i s =
     (if i < length (afterFuncs s) \<and> \<not> ipStopped (afterFuncs s ! i) \<and> \<not> ipStarted (afterFuncs s ! i)
      then (s\<lparr>afterFuncs := (afterFuncs s)[i := (afterFuncs s ! i)\<lparr>ipStopped := True\<rparr>]\<rparr>, True)
      else (s, False))"

definition inproc_Deadline :: "nat \<Rightarrow> 'f process \<Rightarrow> time" where
  "inproc_Deadline i s = (if i < length (afterFuncs s) then ipDeadline (afterFuncs s ! i) else 0)"

definition inprocService :: "('f process, 'f) TimerService" where
  "inprocService =
     \<lparr>Now = wall, Schedule = inproc_Schedule, Cancel = inproc_Cancel, Deadline = inproc_Deadline\<rparr>"

declare inproc_Schedule_def [gomodel] inproc_Cancel_def [gomodel] inproc_Deadline_def [gomodel]

definition inproc_armed :: "'f process \<Rightarrow> nat \<rightharpoonup> time" where
  "inproc_armed s i =
     (if i < length (afterFuncs s) \<and> \<not> ipStopped (afterFuncs s ! i) \<and> \<not> ipStarted (afterFuncs s ! i)
      then Some (ipDeadline (afterFuncs s ! i)) else None)"

interpretation inproc: timer_service inprocService inproc_armed "\<lambda>s. {..<length (afterFuncs s)}"
proof
  fix w w' :: "'f process" and at f t b
  show "dom (inproc_armed w) \<subseteq> {..<length (afterFuncs w)}"
    by (auto simp: inproc_armed_def split: if_splits)
  show "Schedule inprocService at f w = (w', t) \<Longrightarrow>
      t \<notin> {..<length (afterFuncs w)} \<and> {..<length (afterFuncs w')} = insert t {..<length (afterFuncs w)}"
    by (auto simp: inprocService_def inproc_Schedule_def Let_def)
  show "Schedule inprocService at f w = (w', t) \<Longrightarrow> inproc_armed w' = (inproc_armed w)(t \<mapsto> at)"
    by (auto simp: inprocService_def inproc_Schedule_def Let_def inproc_armed_def
        nth_append fun_eq_iff less_Suc_eq split: if_splits)
  show "Schedule inprocService at f w = (w', t) \<Longrightarrow> Now inprocService w' = Now inprocService w"
    by (auto simp: inprocService_def inproc_Schedule_def Let_def)
  show "Cancel inprocService t w = (w', b) \<Longrightarrow> b \<longleftrightarrow> inproc_armed w t \<noteq> None"
    by (auto simp: inprocService_def inproc_Cancel_def inproc_armed_def split: if_splits)
  show "Cancel inprocService t w = (w', b) \<Longrightarrow>
      inproc_armed w' = (inproc_armed w)(t := None) \<and> {..<length (afterFuncs w')} = {..<length (afterFuncs w)}"
    by (auto simp: inprocService_def inproc_Cancel_def inproc_armed_def nth_list_update fun_eq_iff
        split: if_splits)
  show "Cancel inprocService t w = (w', b) \<Longrightarrow> Now inprocService w' = Now inprocService w"
    by (auto simp: inprocService_def inproc_Cancel_def split: if_splits)
  show "inproc_armed w t = Some at \<Longrightarrow> Deadline inprocService t w = at"
    by (auto simp: inprocService_def inproc_Deadline_def inproc_armed_def split: if_splits)
qed

subsection \<open>Firing\<close>

lemma advance_due:
  "map fst (filter snd (map (markFiredIfDue nw) ts)) =
     map (fired_update (\<lambda>_. True)) (filter (\<lambda>t. manual_live t \<and> mtDeadline t \<le> nw) ts)"
  by (induction ts) (auto simp: markFiredIfDue_def manual_live_def)

lemma advance_timers:
  "timers (fst (Advance d s)) = map (\<lambda>t. fst (markFiredIfDue (now (clock s) + d) t)) (timers s)"
  "now (clock (fst (Advance d s))) = now (clock s) + d"
  by (simp_all add: Advance_def Let_def ManualClock_Now_def ManualClock_set_def comp_def)

lemma insort_map:
  "(\<And>x. f (g x) = f x) \<Longrightarrow> insort_key f (g x) (map g xs) = map g (insort_key f x xs)"
  by (induction xs) auto

lemma sort_key_map: "(\<And>x. f (g x) = f x) \<Longrightarrow> sort_key f (map g xs) = map g (sort_key f xs)"
  by (induction xs) (auto simp: insort_map)

lemma advance_fires:
  "snd (Advance d s) =
     map fire (sort_key mtDeadline
       (filter (\<lambda>t. manual_live t \<and> mtDeadline t \<le> now (clock s) + d) (timers s)))"
  unfolding Advance_def Let_def ManualClock_Now_def ManualClock_set_def
  by (simp add: advance_due [simplified] sort_key_map comp_def)

text \<open>
  C15. Advancing the virtual clock fires exactly the armed timers that are due, each once, by
  deadline and in the order of arming among equal deadlines; they are no longer armed
  afterwards, every other timer is untouched, and advancing again by nothing fires nothing.
\<close>

theorem advance_fires_due:
  "case Advance d s of (s', fs) \<Rightarrow>
     fs = map fire (sort_key mtDeadline
            (filter (\<lambda>t. manual_live t \<and> mtDeadline t \<le> now (clock s) + d) (timers s)))
     \<and> manual_armed s' =
         (\<lambda>i. case manual_armed s i of None \<Rightarrow> None
              | Some at \<Rightarrow> if at \<le> now (clock s) + d then None else Some at)
     \<and> now (clock s') = now (clock s) + d
     \<and> snd (Advance 0 s') = []"
proof -
  obtain s' fs where adv: "Advance d s = (s', fs)"
    by fastforce
  have ts: "timers s' = map (\<lambda>t. fst (markFiredIfDue (now (clock s) + d) t)) (timers s)"
    "now (clock s') = now (clock s) + d"
    using advance_timers [of d s] adv by auto
  have "manual_armed s' i = (case manual_armed s i of None \<Rightarrow> None
              | Some at \<Rightarrow> if at \<le> now (clock s) + d then None else Some at)" for i
    by (auto simp: manual_armed_def ts manual_live_def markFiredIfDue_def)
  moreover have "filter (\<lambda>t. manual_live t \<and> mtDeadline t \<le> now (clock s') + 0) (timers s') = []"
    by (auto simp: ts filter_empty_conv manual_live_def markFiredIfDue_def)
  then have "snd (Advance 0 s') = []"
    unfolding advance_fires by simp
  ultimately show ?thesis
    using advance_fires [of d s] adv ts(2) by auto
qed

lemma sort_key_split:
  fixes f :: "'a \<Rightarrow> 'k::linorder"
  shows "sort_key f xs = sort_key f (filter (\<lambda>x. f x \<le> a) xs) @ sort_key f (filter (\<lambda>x. \<not> f x \<le> a) xs)"
proof (rule properties_for_sort_key)
  show "mset (sort_key f (filter (\<lambda>x. f x \<le> a) xs) @ sort_key f (filter (\<lambda>x. \<not> f x \<le> a) xs)) = mset xs"
    by (simp add: multiset_partition [symmetric])
  show "filter (\<lambda>x. f k = f x) (sort_key f (filter (\<lambda>x. f x \<le> a) xs) @ sort_key f (filter (\<lambda>x. \<not> f x \<le> a) xs))
      = filter (\<lambda>x. f k = f x) xs" for k
  proof -
    have le: "f k \<le> a \<Longrightarrow> filter (\<lambda>x. f x \<le> a \<and> f x = f k) xs = filter (\<lambda>x. f x = f k) xs"
      "f k \<le> a \<Longrightarrow> filter (\<lambda>x. \<not> f x \<le> a \<and> f x = f k) xs = []"
      "\<not> f k \<le> a \<Longrightarrow> filter (\<lambda>x. f x \<le> a \<and> f x = f k) xs = []"
      "\<not> f k \<le> a \<Longrightarrow> filter (\<lambda>x. \<not> f x \<le> a \<and> f x = f k) xs = filter (\<lambda>x. f x = f k) xs"
      by (auto simp: filter_empty_conv intro!: filter_cong)
    show ?thesis
      unfolding eq_commute [of "f k"] using le
      by (cases "f k \<le> a") (simp_all add: sort_key_stable)
  qed
  show "sorted (map f (sort_key f (filter (\<lambda>x. f x \<le> a) xs) @ sort_key f (filter (\<lambda>x. \<not> f x \<le> a) xs)))"
    by (auto simp: sorted_append)
qed

text \<open>
  Time may be advanced in pieces: as long as the callbacks themselves do not touch the
  service, advancing by \<open>d\<close> and then by \<open>e\<close> fires the same callbacks in the same order as
  advancing by \<open>d + e\<close> at once, and arms the same timers.
\<close>

theorem advance_split:
  assumes "0 \<le> d" and "0 \<le> e"
  shows "snd (Advance (d + e) s) = snd (Advance d s) @ snd (Advance e (fst (Advance d s)))
         \<and> manual_armed (fst (Advance (d + e) s)) = manual_armed (fst (Advance e (fst (Advance d s))))"
proof -
  let ?n = "now (clock s)" and ?s = "fst (Advance d s)"
  let ?live = "filter (\<lambda>t. manual_live t \<and> mtDeadline t \<le> ?n + (d + e)) (timers s)"
  have early: "filter (\<lambda>t. mtDeadline t \<le> ?n + d) ?live =
      filter (\<lambda>t. manual_live t \<and> mtDeadline t \<le> ?n + d) (timers s)"
    using assms by (auto intro!: filter_cong)
  have late: "filter (\<lambda>t. manual_live t \<and> mtDeadline t \<le> now (clock ?s) + e) (timers ?s) =
      filter (\<lambda>t. \<not> mtDeadline t \<le> ?n + d) ?live"
  proof -
    have "filter (\<lambda>t. manual_live t \<and> mtDeadline t \<le> ?n + d + e) (map (\<lambda>t. fst (markFiredIfDue (?n + d) t)) ts)
        = filter (\<lambda>t. \<not> mtDeadline t \<le> ?n + d) (filter (\<lambda>t. manual_live t \<and> mtDeadline t \<le> ?n + (d + e)) ts)" for ts
      by (induction ts) (auto simp: markFiredIfDue_def manual_live_def algebra_simps)
    then show ?thesis
      by (simp add: advance_timers)
  qed
  have fires: "snd (Advance (d + e) s) = snd (Advance d s) @ snd (Advance e ?s)"
    unfolding advance_fires late
    by (subst sort_key_split [of mtDeadline ?live "?n + d"]) (simp only: early map_append)
  have "manual_armed (fst (Advance (d + e) s)) i = manual_armed (fst (Advance e ?s)) i" for i
    using assms by (auto simp: manual_armed_def advance_timers manual_live_def markFiredIfDue_def)
  then show ?thesis
    using fires by blast
qed

text \<open>Three timers, two of them due within the first step.\<close>

theorem advance_split_witness:
  "let s = fst (manual_Schedule 30 ''c'' (fst (manual_Schedule 5 ''b'' (fst (manual_Schedule 7 ''a''
             (NewManualTimerService (NewManualClock 0)))))))
   in snd (Advance 40 s) = snd (Advance 10 s) @ snd (Advance 30 (fst (Advance 10 s)))
      \<and> snd (Advance 10 s) = [''b'', ''a'']"
proof -
  let ?s = "fst (manual_Schedule 30 ''c'' (fst (manual_Schedule 5 ''b'' (fst (manual_Schedule 7 ''a''
             (NewManualTimerService (NewManualClock 0)))))))"
  have "snd (Advance (10 + 30) ?s) = snd (Advance 10 ?s) @ snd (Advance 30 (fst (Advance 10 ?s)))"
    using advance_split [of 10 30 ?s] by simp
  moreover have "snd (Advance 10 ?s) = [''b'', ''a'']"
    by code_simp
  ultimately show ?thesis
    unfolding Let_def by simp
qed

end
