(* ===== verification/Stall.thy ===== *)
theory Stall
  imports Timers Lifecycle
begin

section \<open>Snapshots and the stall watchdog: \<open>snapshot.go\<close>, \<open>stall.go\<close>\<close>

text \<open>
  The immutable view an actor publishes, the type of a transition observer as a function on
  the world it acts on, and \<open>StallObserver\<close>, which wraps one observer with a watchdog on a
  timer service.
\<close>

record ScheduledTimer =
  stStateID :: StateID
  stDescriptor :: string
  stDeadline :: time

record ChildRef =
  crAddress :: ActorAddress
  crTypeName :: string

record 'c Snapshot =
  MachineID :: string
  Address :: ActorAddress
  ActiveStates :: "StateID list"
  Context :: 'c
  PendingAfter :: "ScheduledTimer list"
  SnChildren :: "ChildRef list"
  Status :: ActorStatus
  ErrorReason :: "error option"
  Version :: int
  InvokeRestarts :: "string \<rightharpoonup> int"

type_synonym ('w, 'c, 'e) observer = "'c Snapshot \<Rightarrow> 'c Snapshot \<Rightarrow> 'e option \<Rightarrow> 'w \<Rightarrow> 'w \<times> error option"

record StallReport =
  srObserver :: string
  srHeld :: duration
  srVersion :: int

record ('w, 'c, 'e) StallObserver =
  soName :: string
  soThreshold :: duration
  soInner :: "('w, 'c, 'e) observer"

text \<open>
  The watchdog's callback is the report it makes (\<open>OnStall\<close> is called with it when it fires).
\<close>

definition StallObserver_OnTransition ::
  "('w, StallReport) TimerService \<Rightarrow> ('w, 'c, 'e) StallObserver \<Rightarrow> ('w, 'c, 'e) observer" where
  "StallObserver_OnTransition TS s before after evt w =
     (let report = \<lparr>srObserver = soName s, srHeld = soThreshold s, srVersion = Version after\<rparr>;
          (w1, timer) = Schedule TS (Now TS w + soThreshold s) report w;
          (w2, err) = soInner s before after evt w1;
          (w3, stopped) = Cancel TS timer w2
      in (w3, err))"

declare StallObserver_OnTransition_def [gomodel]

context timer_service begin

text \<open>
  Whatever the inner observer does with the timers, wrapping it leaves exactly its timers:
  the watchdog is gone, and the inner result is passed on.
\<close>

lemma watchdog_disarmed:
  assumes "Schedule TS at f w = (w1, t)" and "inner w1 = (w2, err)" and "Cancel TS t w2 = (w3, b)"
  shows "armed w3 = (armed w2)(t := None) \<and> t \<notin> used w \<and> (b \<longleftrightarrow> armed w2 t \<noteq> None)"
  using schedule_fresh [OF assms(1)] cancel_armed [OF assms(3)] cancel_result [OF assms(3)] by simp

lemma watchdog_neutral:
  assumes "Schedule TS at f w = (w1, t)" and "armed w2 = armed w1" and "Cancel TS t w2 = (w3, b)"
  shows "armed w3 = armed w \<and> b"
proof -
  have "armed w t = None"
    using used_armed [of w] schedule_fresh [OF assms(1)] by blast
  then show ?thesis
    using schedule_armed [OF assms(1)] assms(2) cancel_armed [OF assms(3)] cancel_result [OF assms(3)]
    by (simp add: fun_upd_idem)
qed

end



end
