(* ===== verification/Machine.thy ===== *)
theory Machine
  imports Stall Engine "HOL-Library.AList"
begin

section \<open>The actor: \<open>machine.go\<close>, \<open>actors.go\<close>, \<open>subscribe.go\<close>\<close>

text \<open>
  A \<open>Machine\<close> before \<open>Start\<close> is a configuration; after it, one goroutine owns the state of
  the record \<open>actor\<close>. Everything outside that goroutine (clock, timer service, observers,
  runners, children) acts on a world \<open>'w\<close> that the definitions thread through. Go maps are
  association lists without repeated keys; where Go ranges over a map in random order the
  model takes the order of the list, and the properties speak of sets and multisets. A
  channel is the list of what is in it. The fields after \<open>world\<close> are ghosts: the contexts
  made by \<open>context.WithCancel\<close> and the snapshots stored so far.
\<close>

definition defaultMailboxCap :: int where
  "defaultMailboxCap = 256"

definition defaultSubscriberBuffer :: int where
  "defaultSubscriberBuffer = 16"

record ('w) machineConfig =
  cfgClock :: "('w \<Rightarrow> time) option"
  cfgTimers :: "('w, ScheduledTimer) TimerService option"
  cfgAlwaysLimit :: int
  cfgMailboxCap :: int
  cfgDelays :: "string \<Rightarrow> duration"

datatype ('w) Option =
    WithClock "'w \<Rightarrow> time"
  | WithTimerService "('w, ScheduledTimer) TimerService"
  | WithAlwaysLimit int
  | WithMailboxCap int
  | WithDelays "string \<Rightarrow> duration"

fun applyOption :: "'w Option \<Rightarrow> 'w machineConfig \<Rightarrow> 'w machineConfig" where
  "applyOption (WithClock c) m = m\<lparr>cfgClock := Some c\<rparr>"
| "applyOption (WithTimerService ts) m = m\<lparr>cfgTimers := Some ts\<rparr>"
| "applyOption (WithAlwaysLimit n) m = m\<lparr>cfgAlwaysLimit := n\<rparr>"
| "applyOption (WithMailboxCap n) m = m\<lparr>cfgMailboxCap := n\<rparr>"
| "applyOption (WithDelays d) m = m\<lparr>cfgDelays := d\<rparr>"

record 'w ActorObserver =
  OnActorStart :: "ActorAddress \<Rightarrow> 'w \<Rightarrow> 'w"
  OnActorStop :: "ActorAddress \<Rightarrow> error option \<Rightarrow> 'w \<Rightarrow> 'w"

record 'w TimerObserver =
  OnTimerScheduled :: "ScheduledTimer \<Rightarrow> 'w \<Rightarrow> 'w"
  OnTimerFired :: "ScheduledTimer \<Rightarrow> 'w \<Rightarrow> 'w"

text \<open>What \<open>AddObserver\<close> finds when it type-asserts its argument.\<close>

record ('w, 'c, 'e) anyObserver =
  asTransition :: "('w, 'c, 'e) observer option"
  asActor :: "'w ActorObserver option"
  asTimer :: "'w TimerObserver option"

text \<open>
  A runner gets the handle of the child's context, the parent context and the address; it
  returns its control surface and the events it emitted before returning.
\<close>

record ('w, 'b) RunningInvoke =
  riCancel :: "('w \<Rightarrow> 'w) option"
  riDeliver :: "('b \<Rightarrow> 'w \<Rightarrow> 'w) option"

type_synonym ('w, 'c, 'e, 'b) InvokeRunner =
  "nat \<Rightarrow> 'c \<Rightarrow> ActorAddress \<Rightarrow> 'w \<Rightarrow> 'w \<times> ('w, 'b) RunningInvoke \<times> 'e list"

record ('w, 'b) runningChild =
  rcId :: string
  rcAddress :: ActorAddress
  rcCtx :: nat
  rcCancel :: "('w \<Rightarrow> 'w) option"
  rcDeliver :: "('b \<Rightarrow> 'w \<Rightarrow> 'w) option"

record 'c subscriber =
  subId :: nat
  subBuffer :: int
  subCh :: "'c Snapshot list"
  subClosed :: bool

record ('w, 'c, 'e, 'b) Machine =
  mDef :: Definition
  initCtx :: 'c
  mApplyAction :: "int \<Rightarrow> 'c \<Rightarrow> 'e option \<Rightarrow> ('c, 'b) AppliedEffect"
  mEvalGuard :: "int \<Rightarrow> 'c \<Rightarrow> 'e option \<Rightarrow> bool"
  mClock :: "'w \<Rightarrow> time"
  mTimers :: "('w, ScheduledTimer) TimerService"
  mAlwaysLimit :: int
  mMailboxCap :: int
  mDelays :: "string \<Rightarrow> duration"
  mEventType :: "'e \<Rightarrow> string"
  transitionObs :: "('w, 'c, 'e) observer list"
  actorObs :: "'w ActorObserver list"
  timerObs :: "'w TimerObserver list"
  preSubs :: "'c subscriber list"
  runners :: "string \<rightharpoonup> ('w, 'c, 'e, 'b) InvokeRunner"

datatype 'e inboxItem =
    Event 'e string
  | Descriptor string
  | Ack nat
  | DrainClose

record armedTimer =
  atTimer :: nat
  atDescriptor :: string
  atDeadline :: time
  atState :: node

record ('w, 'c, 'e, 'b) actor =
  conf :: "('w, 'c, 'e, 'b) Machine"
  addr :: ActorAddress
  eng :: "('c, 'e, 'b) engine"
  snap :: "'c Snapshot"
  mailbox :: "'e inboxItem list"
  loopCancelled :: bool
  isDone :: bool
  version :: int
  localSubs :: "'c subscriber list"
  armed :: "(node \<times> armedTimer list) list"
  children :: "(string \<times> ('w, 'b) runningChild) list"
  invokeSpawns :: "(string \<times> int) list"
  world :: 'w
  nextCtx :: nat
  cancelledCtxs :: "nat list"
  acks :: "(nat \<times> bool) list"
  closedSubs :: "'c subscriber list"
  stored :: "'c Snapshot list"

subsection \<open>Before \<open>Start\<close>\<close>

definition NewMachine ::
  "('w \<Rightarrow> time) \<Rightarrow> (('w \<Rightarrow> time) \<Rightarrow> ('w, ScheduledTimer) TimerService) \<Rightarrow> ('e \<Rightarrow> string)
     \<Rightarrow> Definition \<Rightarrow> 'c \<Rightarrow> (int \<Rightarrow> 'c \<Rightarrow> 'e option \<Rightarrow> ('c, 'b) AppliedEffect)
     \<Rightarrow> (int \<Rightarrow> 'c \<Rightarrow> 'e option \<Rightarrow> bool) \<Rightarrow> 'w Option list \<Rightarrow> ('w, 'c, 'e, 'b) Machine" where
  "NewMachine wallClock newInProcess evType d ctx act grd opts =
     (let mc = fold applyOption opts
                 \<lparr>cfgClock = None, cfgTimers = None, cfgAlwaysLimit = defaultAlwaysLimit,
                  cfgMailboxCap = defaultMailboxCap, cfgDelays = (\<lambda>_. 0)\<rparr>;
          clk = (case cfgClock mc of None \<Rightarrow> wallClock | Some c \<Rightarrow> c);
          ts = (case cfgTimers mc of None \<Rightarrow> newInProcess clk | Some s \<Rightarrow> s)
      in \<lparr>mDef = d, initCtx = ctx, mApplyAction = act, mEvalGuard = grd, mClock = clk, mTimers = ts,
          mAlwaysLimit = cfgAlwaysLimit mc, mMailboxCap = cfgMailboxCap mc, mDelays = cfgDelays mc,
          mEventType = evType, transitionObs = [], actorObs = [], timerObs = [], preSubs = [],
          runners = Map.empty\<rparr>)"

definition AddObserver :: "('w, 'c, 'e) anyObserver \<Rightarrow> ('w, 'c, 'e, 'b) Machine \<Rightarrow> ('w, 'c, 'e, 'b) Machine" where
  "AddObserver ob m =
     (let m = (case asTransition ob of Some to \<Rightarrow> m\<lparr>transitionObs := transitionObs m @ [to]\<rparr> | None \<Rightarrow> m);
          m = (case asActor ob of Some ao \<Rightarrow> m\<lparr>actorObs := actorObs m @ [ao]\<rparr> | None \<Rightarrow> m);
          m = (case asTimer ob of Some tob \<Rightarrow> m\<lparr>timerObs := timerObs m @ [tob]\<rparr> | None \<Rightarrow> m)
      in m)"

definition RegisterInvoke ::
  "string \<Rightarrow> ('w, 'c, 'e, 'b) InvokeRunner \<Rightarrow> ('w, 'c, 'e, 'b) Machine \<Rightarrow> ('w, 'c, 'e, 'b) Machine" where
  "RegisterInvoke i r m = m\<lparr>runners := (runners m)(i \<mapsto> r)\<rparr>"

definition SetInitialContext :: "'c \<Rightarrow> ('w, 'c, 'e, 'b) Machine \<Rightarrow> ('w, 'c, 'e, 'b) Machine" where
  "SetInitialContext ctx m = m\<lparr>initCtx := ctx\<rparr>"

text \<open>\<open>WithBuffer n\<close> is kept only when positive; the default is 16.\<close>

definition applyBuffer :: "int list \<Rightarrow> int" where
  "applyBuffer opts = fold (\<lambda>n b. if n > 0 then n else b) opts defaultSubscriberBuffer"

definition newSubscriber :: "nat \<Rightarrow> int list \<Rightarrow> 'c subscriber" where
  "newSubscriber i opts = \<lparr>subId = i, subBuffer = applyBuffer opts, subCh = [], subClosed = False\<rparr>"

definition Subscribe_before :: "'c subscriber \<Rightarrow> ('w, 'c, 'e, 'b) Machine \<Rightarrow> ('w, 'c, 'e, 'b) Machine" where
  "Subscribe_before s m = m\<lparr>preSubs := preSubs m @ [s]\<rparr>"

definition initialSnapshot :: "ActorAddress \<Rightarrow> ('w, 'c, 'e, 'b) Machine \<Rightarrow> 'c Snapshot" where
  "initialSnapshot a m =
     \<lparr>MachineID = DefID (mDef m), Address = a, ActiveStates = [], Context = initCtx m, PendingAfter = [],
      SnChildren = [], Status = StatusStarting, ErrorReason = None, Version = 0, InvokeRestarts = Map.empty\<rparr>"

text \<open>\<open>Snapshot()\<close> before \<open>Start\<close> has no address yet.\<close>

definition Snapshot_before :: "('w, 'c, 'e, 'b) Machine \<Rightarrow> 'c Snapshot" where
  "Snapshot_before m = initialSnapshot [] m"

definition Start :: "string \<Rightarrow> ('w, 'c, 'e, 'b) Machine \<Rightarrow> 'w \<Rightarrow> ('w, 'c, 'e, 'b) actor" where
  "Start address m w =
     (let a = ''/'' @ address
      in \<lparr>conf = m, addr = a,
          eng = newEngine (mDef m) (initCtx m) (mApplyAction m) (mEvalGuard m) (mAlwaysLimit m),
          snap = initialSnapshot a m, mailbox = [], loopCancelled = False, isDone = False, version = 0,
          localSubs = preSubs m, armed = [], children = [], invokeSpawns = [],
          world = fold (\<lambda>ao. OnActorStart ao a) (actorObs m) w,
          nextCtx = 0, cancelledCtxs = [], acks = [], closedSubs = [], stored = [initialSnapshot a m]\<rparr>)"

declare defaultMailboxCap_def [gomodel] defaultSubscriberBuffer_def [gomodel] NewMachine_def [gomodel]
  AddObserver_def [gomodel] RegisterInvoke_def [gomodel] SetInitialContext_def [gomodel] applyBuffer_def [gomodel]
  newSubscriber_def [gomodel] Subscribe_before_def [gomodel] initialSnapshot_def [gomodel]
  Snapshot_before_def [gomodel] Start_def [gomodel]

subsection \<open>Publishing\<close>

text \<open>\<open>m.snap.Store\<close>.\<close>

definition storeSnap :: "'c Snapshot \<Rightarrow> ('w, 'c, 'e, 'b) actor \<Rightarrow> ('w, 'c, 'e, 'b) actor" where
  "storeSnap s a = a\<lparr>snap := s, stored := stored a @ [s]\<rparr>"

definition notifySubs :: "'c Snapshot \<Rightarrow> ('w, 'c, 'e, 'b) actor \<Rightarrow> ('w, 'c, 'e, 'b) actor" where
  "notifySubs s a = a\<lparr>localSubs := map (\<lambda>sub. sub\<lparr>subCh := subCh sub @ [s]\<rparr>) (localSubs a)\<rparr>"

definition publishObserverAbort ::
  "'c Snapshot \<Rightarrow> error \<Rightarrow> ('w, 'c, 'e, 'b) actor \<Rightarrow> ('w, 'c, 'e, 'b) actor" where
  "publishObserverAbort before cause a =
     (let fail = before\<lparr>Status := StatusError, ErrorReason := Some (ObserverError cause ''transition'')\<rparr>;
          a = a\<lparr>version := version a + 1\<rparr>;
          fail = fail\<lparr>Version := version a\<rparr>
      in notifySubs fail (storeSnap fail a))"

definition publishTerminalError :: "error option \<Rightarrow> ('w, 'c, 'e, 'b) actor \<Rightarrow> ('w, 'c, 'e, 'b) actor" where
  "publishTerminalError reason a =
     (let cur = (snap a)\<lparr>Status := StatusError, ErrorReason := reason\<rparr>;
          a = a\<lparr>version := version a + 1\<rparr>;
          cur = cur\<lparr>Version := version a\<rparr>
      in notifySubs cur (storeSnap cur a))"

declare storeSnap_def [gomodel] notifySubs_def [gomodel] publishObserverAbort_def [gomodel]
  publishTerminalError_def [gomodel]

subsection \<open>Timers\<close>

text \<open>\<open>time.Duration(d.Millis) * time.Millisecond\<close> multiplies 64-bit integers.\<close>

definition wrap64 :: "int \<Rightarrow> int" where
  "wrap64 i = sint (word_of_int i :: 64 word)"

definition resolveDelay :: "(string \<Rightarrow> duration) \<Rightarrow> Delay \<Rightarrow> duration" where
  "resolveDelay ds d = (if Symbol d \<noteq> [] then ds (Symbol d) else wrap64 (Millis d * Millisecond))"

definition afterEdges :: "heap \<Rightarrow> node \<Rightarrow> tref list" where
  "afterEdges H n = filter (\<lambda>t. IsAfter (edgeAt H t)) (Transitions (nodeAt H n))"

definition plannedTimer :: "heap \<Rightarrow> ('w, 'c, 'e, 'b) Machine \<Rightarrow> time \<Rightarrow> node \<Rightarrow> tref \<Rightarrow> ScheduledTimer" where
  "plannedTimer H m nw n t =
     \<lparr>stStateID = ID (nodeAt H n), stDescriptor = Transition.Event (edgeAt H t),
      stDeadline = nw + resolveDelay (mDelays m) (TDelay (edgeAt H t))\<rparr>"

definition armedRecord :: "heap \<Rightarrow> node \<times> armedTimer list \<Rightarrow> ScheduledTimer list" where
  "armedRecord H p =
     map (\<lambda>x. \<lparr>stStateID = ID (nodeAt H (fst p)), stDescriptor = atDescriptor x, stDeadline = atDeadline x\<rparr>) (snd p)"

definition plannedPending ::
  "heap \<Rightarrow> ('c, 'b) Microstep \<Rightarrow> ('w, 'c, 'e, 'b) actor \<Rightarrow> ScheduledTimer list" where
  "plannedPending H ms a =
     (let nw = mClock (conf a) (world a)
      in concat (map (armedRecord H) (filter (\<lambda>p. fst p \<notin> set (Exited ms)) (armed a)))
         @ concat (map (\<lambda>n. map (plannedTimer H (conf a) nw n) (afterEdges H n)) (Entered ms)))"

definition appendArmed :: "node \<Rightarrow> armedTimer \<Rightarrow> (node \<times> armedTimer list) list \<Rightarrow> (node \<times> armedTimer list) list" where
  "appendArmed n x al = AList.update n ((case map_of al n of None \<Rightarrow> [] | Some xs \<Rightarrow> xs) @ [x]) al"

definition armOne ::
  "heap \<Rightarrow> time \<Rightarrow> node \<Rightarrow> tref \<Rightarrow> ('w, 'c, 'e, 'b) actor \<Rightarrow> ('w, 'c, 'e, 'b) actor" where
  "armOne H nw n t a =
     (let st = plannedTimer H (conf a) nw n t;
          (w1, tm) = Schedule (mTimers (conf a)) (stDeadline st) st (world a);
          x = \<lparr>atTimer = tm, atDescriptor = stDescriptor st, atDeadline = stDeadline st, atState = n\<rparr>
      in a\<lparr>armed := appendArmed n x (armed a),
           world := fold (\<lambda>ob. OnTimerScheduled ob st) (timerObs (conf a)) w1\<rparr>)"

definition armAfterTimers :: "heap \<Rightarrow> node list \<Rightarrow> ('w, 'c, 'e, 'b) actor \<Rightarrow> ('w, 'c, 'e, 'b) actor" where
  "armAfterTimers H entered a =
     (let nw = mClock (conf a) (world a)
      in fold (\<lambda>n a. fold (armOne H nw n) (afterEdges H n) a) entered a)"

definition cancelHandles :: "('w, ScheduledTimer) TimerService \<Rightarrow> armedTimer list \<Rightarrow> 'w \<Rightarrow> 'w" where
  "cancelHandles TS xs w = fold (\<lambda>t w. fst (Cancel TS t w)) (map atTimer xs) w"

definition cancelState :: "node \<Rightarrow> ('w, 'c, 'e, 'b) actor \<Rightarrow> ('w, 'c, 'e, 'b) actor" where
  "cancelState n a =
     a\<lparr>world := cancelHandles (mTimers (conf a)) (case map_of (armed a) n of None \<Rightarrow> [] | Some xs \<Rightarrow> xs) (world a),
       armed := AList.delete n (armed a)\<rparr>"

definition cancelAfterTimers :: "node list \<Rightarrow> ('w, 'c, 'e, 'b) actor \<Rightarrow> ('w, 'c, 'e, 'b) actor" where
  "cancelAfterTimers exited a = fold cancelState exited a"

declare wrap64_def [gomodel] resolveDelay_def [gomodel] afterEdges_def [gomodel] plannedTimer_def [gomodel]
  armedRecord_def [gomodel] plannedPending_def [gomodel] appendArmed_def [gomodel] armOne_def [gomodel]
  armAfterTimers_def [gomodel] cancelHandles_def [gomodel] cancelState_def [gomodel] cancelAfterTimers_def [gomodel]

subsection \<open>Children\<close>

definition childByAddress :: "ActorAddress \<Rightarrow> (string \<times> ('w, 'b) runningChild) list \<Rightarrow> ('w, 'b) runningChild option" where
  "childByAddress ad cs = find (\<lambda>ch. rcAddress ch = ad) (map snd cs)"

definition deliverTo :: "('w, 'b) runningChild option \<Rightarrow> 'b \<Rightarrow> 'w \<Rightarrow> 'w" where
  "deliverTo ch ev w =
     (case ch of None \<Rightarrow> w | Some c \<Rightarrow> (case rcDeliver c of None \<Rightarrow> w | Some f \<Rightarrow> f ev w))"

definition drainEffect :: "('c, 'b) AppliedEffect \<Rightarrow> ('w, 'c, 'e, 'b) actor \<Rightarrow> ('w, 'c, 'e, 'b) actor" where
  "drainEffect eff a =
     (case eff of
        EffectSend target ev \<Rightarrow>
          (let ch = map_of (children a) target;
               ch = (case ch of None \<Rightarrow> childByAddress target (children a) | Some c \<Rightarrow> Some c)
           in a\<lparr>world := deliverTo ch ev (world a)\<rparr>)
      | _ \<Rightarrow> a)"

definition drainOutbox :: "('c, 'b) Microstep \<Rightarrow> ('w, 'c, 'e, 'b) actor \<Rightarrow> ('w, 'c, 'e, 'b) actor" where
  "drainOutbox ms a = fold drainEffect (Effects ms) a"

text \<open>The number of spawns beyond the first, for the invokes that have restarted.\<close>

definition restartsSnapshot :: "(string \<times> int) list \<Rightarrow> (string \<rightharpoonup> int)" where
  "restartsSnapshot spawns = map_of (map (\<lambda>(i, n). (i, n - 1)) (filter (\<lambda>(i, n). \<not> n \<le> 1) spawns))"

definition stopChild :: "('w, 'b) runningChild \<Rightarrow> ('w, 'c, 'e, 'b) actor \<Rightarrow> ('w, 'c, 'e, 'b) actor" where
  "stopChild ch a =
     a\<lparr>cancelledCtxs := cancelledCtxs a @ [rcCtx ch],
       world := (case rcCancel ch of None \<Rightarrow> world a | Some f \<Rightarrow> f (world a))\<rparr>"

text \<open>The first loop of \<open>reconcileInvokes\<close>: the ids wanted by the active states, each once.\<close>

definition desiredInvokes :: "heap \<Rightarrow> configuration \<Rightarrow> string list" where
  "desiredInvokes H c =
     fold (\<lambda>n acc. fold (\<lambda>iv. ins (IvID iv)) (Invokes (nodeAt H n)) acc) (cfg_all H c) []"

definition stopUndesired :: "string list \<Rightarrow> ('w, 'c, 'e, 'b) actor \<Rightarrow> ('w, 'c, 'e, 'b) actor" where
  "stopUndesired desired a =
     (let a' = fold (\<lambda>(i, ch) a. if i \<in> set desired then a else stopChild ch a) (children a) a
      in a'\<lparr>children := filter (\<lambda>(i, ch). i \<in> set desired) (children a)\<rparr>)"

text \<open>
  A runner that emits on the actor goroutine sends into the mailbox that only this goroutine
  empties: when it is full, the send never returns and neither does the loop.
\<close>

definition emitSync :: "'e \<Rightarrow> ('w, 'c, 'e, 'b) actor \<Rightarrow> ('w, 'c, 'e, 'b) actor option" where
  "emitSync e a =
     (if int (length (mailbox a)) < mMailboxCap (conf a)
      then Some (a\<lparr>mailbox := mailbox a @ [inboxItem.Event e (mEventType (conf a) e)]\<rparr>)
      else None)"

definition spawnInvoke :: "string \<Rightarrow> ('w, 'c, 'e, 'b) actor \<Rightarrow> ('w, 'c, 'e, 'b) actor option" where
  "spawnInvoke i a =
     (if map_of (children a) i \<noteq> None then Some a
      else case runners (conf a) i of
             None \<Rightarrow> Some a
           | Some runner \<Rightarrow>
               (let ad = Child (addr a) i;
                    (w', ri, emits) = runner (nextCtx a) (engCtx (eng a)) ad (world a);
                    a1 = a\<lparr>world := w', nextCtx := nextCtx a + 1\<rparr>
                in map_option
                     (\<lambda>a2. a2\<lparr>children := AList.update i
                               \<lparr>rcId = i, rcAddress = ad, rcCtx = nextCtx a, rcCancel = riCancel ri,
                                rcDeliver = riDeliver ri\<rparr> (children a2),
                             invokeSpawns := AList.update i
                               ((case map_of (invokeSpawns a2) i of None \<Rightarrow> 0 | Some n \<Rightarrow> n) + 1) (invokeSpawns a2)\<rparr>)
                     (foldM emitSync emits a1)))"

definition reconcileInvokes :: "heap \<Rightarrow> ('w, 'c, 'e, 'b) actor \<Rightarrow> ('w, 'c, 'e, 'b) actor option" where
  "reconcileInvokes H a =
     (let desired = desiredInvokes H (engCfg (eng a))
      in foldM spawnInvoke desired (stopUndesired desired a))"

declare childByAddress_def [gomodel] deliverTo_def [gomodel] drainEffect_def [gomodel] drainOutbox_def [gomodel]
  restartsSnapshot_def [gomodel] stopChild_def [gomodel] desiredInvokes_def [gomodel] stopUndesired_def [gomodel]
  emitSync_def [gomodel] spawnInvoke_def [gomodel] reconcileInvokes_def [gomodel]

subsection \<open>One microstep\<close>

text \<open>The observers in order, until one returns an error.\<close>

fun runObservers ::
  "('w, 'c, 'e) observer list \<Rightarrow> 'c Snapshot \<Rightarrow> 'c Snapshot \<Rightarrow> 'e option \<Rightarrow> 'w \<Rightarrow> 'w \<times> error option" where
  "runObservers [] before after evt w = (w, None)"
| "runObservers (ob # obs) before after evt w =
     (case ob before after evt w of
        (w', None) \<Rightarrow> runObservers obs before after evt w'
      | (w', Some err) \<Rightarrow> (w', Some err))"

definition afterSnapshot ::
  "heap \<Rightarrow> ('c, 'b) Microstep \<Rightarrow> ('w, 'c, 'e, 'b) actor \<Rightarrow> 'c Snapshot" where
  "afterSnapshot H ms a =
     \<lparr>MachineID = DefID (mDef (conf a)), Address = addr a, ActiveStates = NextActive ms,
      Context = NextContext ms, PendingAfter = plannedPending H ms a, SnChildren = [],
      Status = (if ReachedFinal ms then StatusDone else StatusRunning), ErrorReason = None,
      Version = version a + 1, InvokeRestarts = restartsSnapshot (invokeSpawns a)\<rparr>"

definition execMicrostep ::
  "heap \<Rightarrow> ('c, 'b) Microstep \<Rightarrow> ('w, 'c, 'e, 'b) actor \<Rightarrow> ('w, 'c, 'e, 'b) actor \<times> bool" where
  "execMicrostep H ms a =
     (let before = snap a;
          after = afterSnapshot H ms a;
          evt = triggerEvent (eng a);
          (w', err) = runObservers (transitionObs (conf a)) before after evt (world a);
          a = a\<lparr>world := w'\<rparr>
      in case err of
           Some cause \<Rightarrow> (publishObserverAbort before cause a, False)
         | None \<Rightarrow>
             (let a = a\<lparr>eng := commit ms (eng a), version := version a + 1\<rparr>;
                  a = storeSnap after a;
                  a = cancelAfterTimers (Exited ms) a;
                  a = armAfterTimers H (Entered ms) a;
                  a = drainOutbox ms a
              in (notifySubs after a, True)))"

text \<open>
  \<open>runMacrostep\<close> loops until the engine is quiescent: \<open>None\<close> when it never is (or when the
  entry recursion of the engine is deeper than \<open>k\<close>).
\<close>

partial_function (option) runMacrostep ::
  "heap \<Rightarrow> nat \<Rightarrow> ('w, 'c, 'e, 'b) actor \<Rightarrow> (('w, 'c, 'e, 'b) actor \<times> bool) option" where
  "runMacrostep H k a =
     (case engine_step H k (eng a) of
        None \<Rightarrow> None
      | Some (e', m) \<Rightarrow>
          (let a = a\<lparr>eng := e'\<rparr>
           in case m of
                None \<Rightarrow>
                  (if engStatus e' = StatusError then Some (publishTerminalError (errReason e') a, False)
                   else Some (a, True))
              | Some ms \<Rightarrow>
                  (let (a', ok) = execMicrostep H ms a
                   in if \<not> ok then Some (a', False)
                      else if Terminal (engStatus (eng a')) then Some (a', False)
                      else runMacrostep H k a')))"

declare runMacrostep.simps [code]

declare afterSnapshot_def [gomodel] execMicrostep_def [gomodel]

subsection \<open>Shutdown and the loop\<close>

definition stopTimers :: "('w, 'c, 'e, 'b) actor \<Rightarrow> ('w, 'c, 'e, 'b) actor" where
  "stopTimers a =
     a\<lparr>world := fold (\<lambda>p w. cancelHandles (mTimers (conf a)) (snd p) w) (armed a) (world a), armed := []\<rparr>"

definition closeSubs :: "('w, 'c, 'e, 'b) actor \<Rightarrow> ('w, 'c, 'e, 'b) actor" where
  "closeSubs a =
     a\<lparr>closedSubs := closedSubs a @ map (\<lambda>s. s\<lparr>subClosed := True\<rparr>) (localSubs a), localSubs := []\<rparr>"

definition shutdown :: "('w, 'c, 'e, 'b) actor \<Rightarrow> ('w, 'c, 'e, 'b) actor" where
  "shutdown a =
     (let a = a\<lparr>loopCancelled := True\<rparr>;
          a = (fold (\<lambda>p. stopChild (snd p)) (children a) a)\<lparr>children := []\<rparr>;
          a = stopTimers a;
          a = (if \<not> Terminal (Status (snap a)) then
                 (let a = a\<lparr>version := version a + 1\<rparr>;
                      s = (snap a)\<lparr>Status := StatusStopped, Version := version a\<rparr>
                  in notifySubs s (storeSnap s a))
               else a);
          reason = (if Status (snap a) = StatusError then ErrorReason (snap a) else None);
          a = a\<lparr>world := fold (\<lambda>ao. OnActorStop ao (addr a) reason) (actorObs (conf a)) (world a)\<rparr>
      in (closeSubs a)\<lparr>isDone := True\<rparr>)"

definition offerItem :: "'e inboxItem \<Rightarrow> ('w, 'c, 'e, 'b) actor \<Rightarrow> ('w, 'c, 'e, 'b) actor" where
  "offerItem it a =
     (case it of
        inboxItem.Event evt d \<Rightarrow> a\<lparr>eng := offer (mEventType (conf a)) evt (eng a)\<rparr>
      | Descriptor d \<Rightarrow> a\<lparr>eng := offerDescriptor d (eng a)\<rparr>
      | _ \<Rightarrow> a)"

text \<open>
  \<open>drainAndClose\<close> works off what is in the mailbox; nothing is spawned on the way, so the
  mailbox shrinks with every item and the recursion is on it.
\<close>

fun drainAndClose :: "heap \<Rightarrow> nat \<Rightarrow> 'e inboxItem list \<Rightarrow> ('w, 'c, 'e, 'b) actor \<Rightarrow> ('w, 'c, 'e, 'b) actor option" where
  "drainAndClose H k [] a = Some (shutdown (a\<lparr>mailbox := []\<rparr>))"
| "drainAndClose H k (it # rest) a =
     (let a = a\<lparr>mailbox := rest\<rparr>
      in case it of
           Ack i \<Rightarrow> drainAndClose H k rest (a\<lparr>acks := acks a @ [(i, True)]\<rparr>)
         | DrainClose \<Rightarrow> drainAndClose H k rest a
         | _ \<Rightarrow>
             (case runMacrostep H k (offerItem it a) of
                None \<Rightarrow> None
              | Some (a', ok) \<Rightarrow> if \<not> ok then Some (shutdown a') else drainAndClose H k rest a'))"

text \<open>The head of \<open>loop\<close>: the initial entry and the first macrostep.\<close>

definition bootLoop :: "heap \<Rightarrow> nat \<Rightarrow> ('w, 'c, 'e, 'b) actor \<Rightarrow> ('w, 'c, 'e, 'b) actor option" where
  "bootLoop H k a =
     (case engine_start H k (eng a) of
        None \<Rightarrow> None
      | Some (e', ms) \<Rightarrow>
          (let (a1, ok) = execMicrostep H ms (a\<lparr>eng := e'\<rparr>)
           in if \<not> ok \<or> Terminal (engStatus (eng a1)) then Some (shutdown a1)
              else case runMacrostep H k a1 of
                     None \<Rightarrow> None
                   | Some (a2, ok) \<Rightarrow> if \<not> ok then Some (shutdown a2) else reconcileInvokes H a2))"

text \<open>One iteration that receives the item at the head of the mailbox.\<close>

definition handleItem :: "heap \<Rightarrow> nat \<Rightarrow> ('w, 'c, 'e, 'b) actor \<Rightarrow> ('w, 'c, 'e, 'b) actor option" where
  "handleItem H k a =
     (case mailbox a of
        [] \<Rightarrow> Some a
      | it # rest \<Rightarrow>
          (let a = a\<lparr>mailbox := rest\<rparr>
           in case it of
                Ack i \<Rightarrow> Some (a\<lparr>acks := acks a @ [(i, rest = [])]\<rparr>)
              | DrainClose \<Rightarrow> drainAndClose H k rest a
              | _ \<Rightarrow>
                  (case runMacrostep H k (offerItem it a) of
                     None \<Rightarrow> None
                   | Some (a', ok) \<Rightarrow> if \<not> ok then Some (shutdown a') else reconcileInvokes H a')))"

definition removeSub :: "nat \<Rightarrow> ('w, 'c, 'e, 'b) actor \<Rightarrow> ('w, 'c, 'e, 'b) actor" where
  "removeSub i a =
     a\<lparr>closedSubs := closedSubs a @ map (\<lambda>s. s\<lparr>subClosed := True\<rparr>) (filter (\<lambda>s. subId s = i) (localSubs a)),
       localSubs := filter (\<lambda>s. subId s \<noteq> i) (localSubs a)\<rparr>"

definition addSub :: "'c subscriber \<Rightarrow> ('w, 'c, 'e, 'b) actor \<Rightarrow> ('w, 'c, 'e, 'b) actor" where
  "addSub s a = a\<lparr>localSubs := localSubs a @ [s]\<rparr>"

declare stopTimers_def [gomodel] closeSubs_def [gomodel] shutdown_def [gomodel] offerItem_def [gomodel]
  bootLoop_def [gomodel] handleItem_def [gomodel] removeSub_def [gomodel] addSub_def [gomodel]

subsection \<open>The callers' side\<close>

text \<open>
  \<open>TrySend\<close> on a started machine, and \<open>Send\<close>, which waits for room: \<open>None\<close> while it
  waits.
\<close>

definition TrySend :: "'e \<Rightarrow> ('w, 'c, 'e, 'b) actor \<Rightarrow> ('w, 'c, 'e, 'b) actor \<times> error option" where
  "TrySend evt a =
     (if isDone a then (a, Some ErrActorStopped)
      else if int (length (mailbox a)) < mMailboxCap (conf a)
      then (a\<lparr>mailbox := mailbox a @ [inboxItem.Event evt (mEventType (conf a) evt)]\<rparr>, None)
      else (a, Some ErrMailboxFull))"

definition Send :: "'e \<Rightarrow> ('w, 'c, 'e, 'b) actor \<Rightarrow> (('w, 'c, 'e, 'b) actor \<times> error option) option" where
  "Send evt a =
     (if isDone a then Some (a, Some ErrActorStopped)
      else if int (length (mailbox a)) < mMailboxCap (conf a)
      then Some (a\<lparr>mailbox := mailbox a @ [inboxItem.Event evt (mEventType (conf a) evt)]\<rparr>, None)
      else None)"

text \<open>
  \<open>select\<close> between the mailbox and the \<open>done\<close> channel, as a timer's callback, a child's
  \<open>emit\<close>, the settle ping and the drain sentinel do it: the list of the outcomes Go may
  choose, empty while the sender waits. A stopped actor may still take the item; nobody reads
  it.
\<close>

definition post :: "'e inboxItem \<Rightarrow> ('w, 'c, 'e, 'b) actor \<Rightarrow> ('w, 'c, 'e, 'b) actor list" where
  "post it a = (if int (length (mailbox a)) < mMailboxCap (conf a) then [a\<lparr>mailbox := mailbox a @ [it]\<rparr>] else [])"

definition enqueue :: "'e inboxItem \<Rightarrow> ('w, 'c, 'e, 'b) actor \<Rightarrow> ('w, 'c, 'e, 'b) actor list" where
  "enqueue it a = post it a @ (if isDone a then [a] else [])"

definition fireTimer :: "ScheduledTimer \<Rightarrow> ('w, 'c, 'e, 'b) actor \<Rightarrow> ('w, 'c, 'e, 'b) actor list" where
  "fireTimer st a =
     map (\<lambda>a. a\<lparr>world := fold (\<lambda>ob. OnTimerFired ob st) (timerObs (conf a)) (world a)\<rparr>)
       (enqueue (Descriptor (stDescriptor st)) a)"

declare TrySend_def [gomodel] Send_def [gomodel] post_def [gomodel] enqueue_def [gomodel] fireTimer_def [gomodel]

end
