(* ===== verification/Machine_Facts.thy ===== *)
theory Machine_Facts
  imports Machine
begin

section \<open>What each part of the actor touches\<close>

text \<open>
  Frame lemmas of the pieces of the loop, as simplification rules, and the induction rule
  for \<open>runMacrostep\<close> that the invariants use.
\<close>

lemma storeSnap_frame [simp]:
  "conf (storeSnap s a) = conf a" "addr (storeSnap s a) = addr a" "eng (storeSnap s a) = eng a"
  "snap (storeSnap s a) = s" "mailbox (storeSnap s a) = mailbox a" "version (storeSnap s a) = version a"
  "localSubs (storeSnap s a) = localSubs a" "armed (storeSnap s a) = armed a" "children (storeSnap s a) = children a"
  "invokeSpawns (storeSnap s a) = invokeSpawns a" "world (storeSnap s a) = world a"
  "isDone (storeSnap s a) = isDone a" "closedSubs (storeSnap s a) = closedSubs a" "stored (storeSnap s a) = stored a @ [s]"
  "cancelledCtxs (storeSnap s a) = cancelledCtxs a" "nextCtx (storeSnap s a) = nextCtx a"
  "loopCancelled (storeSnap s a) = loopCancelled a" "acks (storeSnap s a) = acks a"
  by (simp_all add: storeSnap_def)

lemma notifySubs_frame [simp]:
  "conf (notifySubs s a) = conf a" "addr (notifySubs s a) = addr a" "eng (notifySubs s a) = eng a"
  "snap (notifySubs s a) = snap a" "mailbox (notifySubs s a) = mailbox a" "version (notifySubs s a) = version a"
  "armed (notifySubs s a) = armed a" "children (notifySubs s a) = children a"
  "invokeSpawns (notifySubs s a) = invokeSpawns a" "world (notifySubs s a) = world a"
  "isDone (notifySubs s a) = isDone a" "closedSubs (notifySubs s a) = closedSubs a" "stored (notifySubs s a) = stored a"
  "cancelledCtxs (notifySubs s a) = cancelledCtxs a" "nextCtx (notifySubs s a) = nextCtx a"
  "localSubs (notifySubs s a) = map (\<lambda>sub. sub\<lparr>subCh := subCh sub @ [s]\<rparr>) (localSubs a)"
  "loopCancelled (notifySubs s a) = loopCancelled a" "acks (notifySubs s a) = acks a"
  by (simp_all add: notifySubs_def)

text \<open>The parts that only touch the timers, the world, or the children.\<close>

definition same_public :: "('w, 'c, 'e, 'b) actor \<Rightarrow> ('w, 'c, 'e, 'b) actor \<Rightarrow> bool" where
  "same_public a b \<longleftrightarrow>
     conf b = conf a \<and> addr b = addr a \<and> snap b = snap a \<and> version b = version a \<and> stored b = stored a
     \<and> localSubs b = localSubs a \<and> closedSubs b = closedSubs a \<and> isDone b = isDone a
     \<and> loopCancelled b = loopCancelled a \<and> acks b = acks a"

lemma same_public_refl [simp]: "same_public a a"
  by (simp add: same_public_def)

lemma same_public_trans: "same_public a b \<Longrightarrow> same_public b c \<Longrightarrow> same_public a c"
  by (simp add: same_public_def)

lemma same_public_fold:
  "(\<And>x b. x \<in> set xs \<Longrightarrow> same_public b (f x b)) \<Longrightarrow> same_public a (fold f xs a)"
proof (induction xs arbitrary: a)
  case Nil
  then show ?case by simp
next
  case (Cons x xs)
  have "same_public (f x a) (fold f xs (f x a))"
    using Cons by simp
  then show ?case
    using Cons.prems [of x a] same_public_trans by simp
qed

definition same_work :: "('w, 'c, 'e, 'b) actor \<Rightarrow> ('w, 'c, 'e, 'b) actor \<Rightarrow> bool" where
  "same_work a b \<longleftrightarrow>
     same_public a b \<and> eng b = eng a \<and> mailbox b = mailbox a \<and> children b = children a
     \<and> invokeSpawns b = invokeSpawns a \<and> nextCtx b = nextCtx a \<and> cancelledCtxs b = cancelledCtxs a"

lemma same_work_refl [simp]: "same_work a a"
  by (simp add: same_work_def)

lemma same_work_trans: "same_work a b \<Longrightarrow> same_work b c \<Longrightarrow> same_work a c"
  by (auto simp: same_work_def intro: same_public_trans)

lemma same_work_fold:
  "(\<And>x b. x \<in> set xs \<Longrightarrow> same_work b (f x b)) \<Longrightarrow> same_work a (fold f xs a)"
proof (induction xs arbitrary: a)
  case Nil
  then show ?case by simp
next
  case (Cons x xs)
  have "same_work (f x a) (fold f xs (f x a))"
    using Cons by simp
  then show ?case
    using Cons.prems [of x a] same_work_trans by simp
qed

lemma armOne_work: "same_work a (armOne H nw n t a)"
  by (simp add: armOne_def same_work_def same_public_def Let_def split: prod.splits)

lemma armAfterTimers_work: "same_work a (armAfterTimers H ns a)"
  unfolding armAfterTimers_def Let_def by (intro same_work_fold armOne_work)

lemma cancelAfterTimers_work: "same_work a (cancelAfterTimers ns a)"
  unfolding cancelAfterTimers_def
  by (rule same_work_fold) (simp add: cancelState_def same_work_def same_public_def)

lemma drainEffect_armed [simp]: "armed (drainEffect eff b) = armed b"
  by (simp add: drainEffect_def Let_def split: AppliedEffect.splits)

lemma drainOutbox_work: "same_work a (drainOutbox ms a) \<and> armed (drainOutbox ms a) = armed a"
proof
  show "same_work a (drainOutbox ms a)"
    unfolding drainOutbox_def
    by (rule same_work_fold)
       (simp add: drainEffect_def same_work_def same_public_def Let_def split: AppliedEffect.splits)
  have "armed (fold drainEffect es a) = armed a" for es
    by (induction es arbitrary: a) auto
  then show "armed (drainOutbox ms a) = armed a"
    by (simp add: drainOutbox_def)
qed

lemma emitSync_public: "emitSync e a = Some b \<Longrightarrow> same_public a b \<and> eng b = eng a \<and> armed b = armed a
    \<and> children b = children a \<and> invokeSpawns b = invokeSpawns a \<and> (\<exists>x. mailbox b = mailbox a @ [x])
    \<and> int (length (mailbox b)) \<le> mMailboxCap (conf a) \<and> cancelledCtxs b = cancelledCtxs a \<and> nextCtx b = nextCtx a"
  by (auto simp: emitSync_def same_public_def split: if_splits)

lemma emitAll:
  assumes "foldM emitSync es a = Some b"
  shows "same_public a b \<and> eng b = eng a \<and> armed b = armed a \<and> children b = children a
     \<and> invokeSpawns b = invokeSpawns a \<and> cancelledCtxs b = cancelledCtxs a \<and> nextCtx b = nextCtx a
     \<and> mailbox b = mailbox a @ map (\<lambda>e. inboxItem.Event e (mEventType (conf a) e)) es
     \<and> (int (length (mailbox a)) \<le> mMailboxCap (conf a) \<longrightarrow> int (length (mailbox b)) \<le> mMailboxCap (conf a))"
  using assms
proof (induction es arbitrary: a)
  case Nil
  then show ?case by simp
next
  case (Cons e es)
  obtain a1 where a1: "emitSync e a = Some a1" "foldM emitSync es a1 = Some b"
    using Cons.prems by (auto simp: bind_eq_Some_conv)
  have "mailbox a1 = mailbox a @ [inboxItem.Event e (mEventType (conf a) e)]"
    using a1(1) by (auto simp: emitSync_def split: if_splits)
  then show ?case
    using Cons.IH [OF a1(2)] emitSync_public [OF a1(1)] by (auto simp: same_public_def)
qed

subsection \<open>The microstep and the macrostep\<close>

lemma execMicrostep_ok:
  assumes "execMicrostep H ms a = (b, True)"
  obtains w' c where "runObservers (transitionObs (conf a)) (snap a) (afterSnapshot H ms a)
        (triggerEvent (eng a)) (world a) = (w', None)"
    and "c = armAfterTimers H (Entered ms) (cancelAfterTimers (Exited ms)
               (storeSnap (afterSnapshot H ms a)
                 (a\<lparr>world := w', eng := commit ms (eng a), version := version a + 1\<rparr>)))"
    and "b = notifySubs (afterSnapshot H ms a) (drainOutbox ms c)"
proof -
  obtain w' err where "runObservers (transitionObs (conf a)) (snap a) (afterSnapshot H ms a)
        (triggerEvent (eng a)) (world a) = (w', err)"
    by fastforce
  with assms that show thesis
    by (cases err) (auto simp: execMicrostep_def Let_def)
qed

lemma execMicrostep_abort:
  assumes "execMicrostep H ms a = (b, False)"
  obtains w' cause where "runObservers (transitionObs (conf a)) (snap a) (afterSnapshot H ms a)
        (triggerEvent (eng a)) (world a) = (w', Some cause)"
    and "b = publishObserverAbort (snap a) cause (a\<lparr>world := w'\<rparr>)"
proof -
  obtain w' err where "runObservers (transitionObs (conf a)) (snap a) (afterSnapshot H ms a)
        (triggerEvent (eng a)) (world a) = (w', err)"
    by fastforce
  with assms that show thesis
    by (cases err) (auto simp: execMicrostep_def Let_def)
qed

text \<open>What a committed microstep leaves behind.\<close>

lemma exec_result:
  assumes "execMicrostep H ms a = (b, True)"
  shows "conf b = conf a" and "addr b = addr a" and "eng b = commit ms (eng a)"
    and "snap b = afterSnapshot H ms a" and "version b = version a + 1"
    and "stored b = stored a @ [afterSnapshot H ms a]"
    and "localSubs b = map (\<lambda>s. s\<lparr>subCh := subCh s @ [afterSnapshot H ms a]\<rparr>) (localSubs a)"
    and "closedSubs b = closedSubs a" and "mailbox b = mailbox a" and "children b = children a"
    and "invokeSpawns b = invokeSpawns a" and "isDone b = isDone a" and "loopCancelled b = loopCancelled a"
    and "cancelledCtxs b = cancelledCtxs a" and "nextCtx b = nextCtx a" and "acks b = acks a"
proof -
  obtain w' c where c: "c = armAfterTimers H (Entered ms) (cancelAfterTimers (Exited ms)
               (storeSnap (afterSnapshot H ms a)
                 (a\<lparr>world := w', eng := commit ms (eng a), version := version a + 1\<rparr>)))"
    "b = notifySubs (afterSnapshot H ms a) (drainOutbox ms c)"
    using assms by (rule execMicrostep_ok) blast
  let ?s = "storeSnap (afterSnapshot H ms a) (a\<lparr>world := w', eng := commit ms (eng a), version := version a + 1\<rparr>)"
  have "same_work ?s (drainOutbox ms c)"
    using cancelAfterTimers_work [of ?s "Exited ms"] drainOutbox_work [of c ms]
      armAfterTimers_work [of "cancelAfterTimers (Exited ms) ?s" H "Entered ms"]
    unfolding c(1) by (meson same_work_trans)
  then show "conf b = conf a" and "addr b = addr a" and "eng b = commit ms (eng a)"
    and "snap b = afterSnapshot H ms a" and "version b = version a + 1"
    and "stored b = stored a @ [afterSnapshot H ms a]"
    and "localSubs b = map (\<lambda>s. s\<lparr>subCh := subCh s @ [afterSnapshot H ms a]\<rparr>) (localSubs a)"
    and "closedSubs b = closedSubs a" and "mailbox b = mailbox a" and "children b = children a"
    and "invokeSpawns b = invokeSpawns a" and "isDone b = isDone a" and "loopCancelled b = loopCancelled a"
    and "cancelledCtxs b = cancelledCtxs a" and "nextCtx b = nextCtx a" and "acks b = acks a"
    unfolding c(2) by (simp_all add: same_work_def same_public_def)
qed

lemma abort_result:
  assumes "execMicrostep H ms a = (b, False)"
  obtains cause fail where "fail = (snap a)\<lparr>Status := StatusError,
      ErrorReason := Some (ObserverError cause ''transition''), Version := version a + 1\<rparr>"
    and "conf b = conf a" and "addr b = addr a" and "eng b = eng a" and "snap b = fail"
    and "version b = version a + 1" and "stored b = stored a @ [fail]"
    and "localSubs b = map (\<lambda>s. s\<lparr>subCh := subCh s @ [fail]\<rparr>) (localSubs a)"
    and "closedSubs b = closedSubs a" and "mailbox b = mailbox a" and "children b = children a"
    and "invokeSpawns b = invokeSpawns a" and "isDone b = isDone a" and "armed b = armed a"
    and "loopCancelled b = loopCancelled a" and "acks b = acks a"
    and "cancelledCtxs b = cancelledCtxs a" and "nextCtx b = nextCtx a"
proof -
  obtain w' cause where "b = publishObserverAbort (snap a) cause (a\<lparr>world := w'\<rparr>)"
    using assms by (rule execMicrostep_abort) blast
  then show thesis
    using that [OF refl, of cause] by (simp add: publishObserverAbort_def Let_def)
qed

lemma runMacrostep_rule [consumes 2, case_names next_step quiet limit final abort]:
  assumes run: "runMacrostep H k a = Some (a', ok)" and start: "I a"
    and step: "\<And>a e' ms a1. I a \<Longrightarrow> engine_step H k (eng a) = Some (e', Some ms) \<Longrightarrow>
        execMicrostep H ms (a\<lparr>eng := e'\<rparr>) = (a1, True) \<Longrightarrow> \<not> Terminal (engStatus (eng a1)) \<Longrightarrow> I a1"
    and quiet: "\<And>a e'. I a \<Longrightarrow> engine_step H k (eng a) = Some (e', None) \<Longrightarrow> engStatus e' \<noteq> StatusError \<Longrightarrow>
        Q (a\<lparr>eng := e'\<rparr>) True"
    and limit: "\<And>a e'. I a \<Longrightarrow> engine_step H k (eng a) = Some (e', None) \<Longrightarrow> engStatus e' = StatusError \<Longrightarrow>
        Q (publishTerminalError (errReason e') (a\<lparr>eng := e'\<rparr>)) False"
    and final: "\<And>a e' ms a1. I a \<Longrightarrow> engine_step H k (eng a) = Some (e', Some ms) \<Longrightarrow>
        execMicrostep H ms (a\<lparr>eng := e'\<rparr>) = (a1, True) \<Longrightarrow> Terminal (engStatus (eng a1)) \<Longrightarrow> Q a1 False"
    and abort: "\<And>a e' ms a1. I a \<Longrightarrow> engine_step H k (eng a) = Some (e', Some ms) \<Longrightarrow>
        execMicrostep H ms (a\<lparr>eng := e'\<rparr>) = (a1, False) \<Longrightarrow> Q a1 False"
  shows "Q a' ok"
proof -
  let ?P = "\<lambda>H' k' x r. H' = H \<longrightarrow> k' = k \<longrightarrow> I x \<longrightarrow> Q (fst r) (snd r)"
  have "?P H k a (a', ok)"
  proof (rule runMacrostep.raw_induct [where P = ?P, OF _ run], intro impI, hypsubst_thin)
    fix runM :: "heap \<Rightarrow> nat \<Rightarrow> ('a, 'b, 'c, 'd) actor \<Rightarrow> (('a, 'b, 'c, 'd) actor \<times> bool) option"
      and x :: "('a, 'b, 'c, 'd) actor" and r
    assume IH: "\<And>H' k' a y. runM H' k' a = Some y \<Longrightarrow> ?P H' k' a y"
      and body: "(case engine_step H k (eng x) of None \<Rightarrow> None
         | Some (e', m) \<Rightarrow>
             let a = x\<lparr>eng := e'\<rparr>
             in case m of None \<Rightarrow>
                  if engStatus e' = StatusError then Some (publishTerminalError (errReason e') a, False)
                  else Some (a, True)
                | Some ms \<Rightarrow>
                    let (a', ok) = execMicrostep H ms a
                    in if \<not> ok then Some (a', False)
                       else if Terminal (engStatus (eng a')) then Some (a', False) else runM H k a') = Some r"
      and inv: "I x"
    obtain e' m where es: "engine_step H k (eng x) = Some (e', m)"
      using body by (auto split: option.splits prod.splits)
    show "Q (fst r) (snd r)"
    proof (cases m)
      case None
      then show ?thesis
        using body es quiet [OF inv, of e'] limit [OF inv, of e'] by (auto simp: Let_def split: if_splits)
    next
      case (Some ms)
      obtain a1 b where ex: "execMicrostep H ms (x\<lparr>eng := e'\<rparr>) = (a1, b)"
        by fastforce
      consider "\<not> b" | "b" "Terminal (engStatus (eng a1))" | "b" "\<not> Terminal (engStatus (eng a1))"
        by blast
      then show ?thesis
      proof cases
        case 1
        then show ?thesis
          using body es Some ex abort [OF inv] by (auto simp: Let_def)
      next
        case 2
        then show ?thesis
          using body es Some ex final [OF inv] by (auto simp: Let_def)
      next
        case 3
        then have "runM H k a1 = Some r"
          using body es Some ex by (simp add: Let_def)
        moreover have "I a1"
          using step [OF inv, of e' ms a1] es Some ex 3 by simp
        ultimately show ?thesis
          using IH by simp
      qed
    qed
  qed
  then show ?thesis
    using start by simp
qed

end
