(* ===== verification/Machine_Run.thy ===== *)
theory Machine_Run
  imports Machine_Facts
begin

section \<open>Runs of the actor\<close>

text \<open>
  The goroutine interleaved with its environment: callers that send, subscribe and close,
  timers that fire, and the world moving on. The invariant is about what the actor
  publishes: consecutive versions, statuses that only move forward, nothing after a
  terminal snapshot, and subscribers that miss nothing.
\<close>

inductive actor_step :: "heap \<Rightarrow> nat \<Rightarrow> ('w, 'c, 'e, 'b) actor \<Rightarrow> ('w, 'c, 'e, 'b) actor \<Rightarrow> bool"
  for H k where
  handle: "\<not> isDone a \<Longrightarrow> handleItem H k a = Some a' \<Longrightarrow> actor_step H k a a'"
| cancel: "\<not> isDone a \<Longrightarrow> loopCancelled a \<Longrightarrow> actor_step H k a (shutdown a)"
| close: "actor_step H k a (a\<lparr>loopCancelled := True\<rparr>)"
| send: "Send evt a = Some (a', err) \<Longrightarrow> actor_step H k a a'"
| try_send: "TrySend evt a = (a', err) \<Longrightarrow> actor_step H k a a'"
| enqueue: "a' \<in> set (enqueue it a) \<Longrightarrow> actor_step H k a a'"
| fire: "a' \<in> set (fireTimer st a) \<Longrightarrow> actor_step H k a a'"
| subscribe: "\<not> isDone a \<Longrightarrow> subCh s = [] \<Longrightarrow> actor_step H k a (addSub s a)"
| unsubscribe: "\<not> isDone a \<Longrightarrow> actor_step H k a (removeSub i a)"
| world: "actor_step H k a (a\<lparr>world := w\<rparr>)"

inductive actor_run :: "heap \<Rightarrow> nat \<Rightarrow> ('w, 'c, 'e, 'b) actor \<Rightarrow> ('w, 'c, 'e, 'b) actor \<Rightarrow> bool"
  for H k a0 where
  boot: "bootLoop H k (a0\<lparr>mailbox := q\<rparr>) = Some a \<Longrightarrow> actor_run H k a0 a"
| step: "actor_run H k a0 a \<Longrightarrow> actor_step H k a a' \<Longrightarrow> actor_run H k a0 a'"

subsection \<open>Children leave the published state alone\<close>

lemma spawnInvoke_public:
  assumes "spawnInvoke i a = Some b"
  shows "same_public a b \<and> eng b = eng a \<and> armed b = armed a \<and> (\<exists>new. mailbox b = mailbox a @ new)
         \<and> (int (length (mailbox a)) \<le> mMailboxCap (conf a) \<longrightarrow> int (length (mailbox b)) \<le> mMailboxCap (conf a))"
proof (cases "map_of (children a) i \<noteq> None \<or> runners (conf a) i = None")
  case True
  then show ?thesis
    using assms by (auto simp: spawnInvoke_def same_public_def split: option.splits if_splits)
next
  case False
  then obtain runner w' ri emits where r: "runners (conf a) i = Some runner"
    "runner (nextCtx a) (engCtx (eng a)) (Child (addr a) i) (world a) = (w', ri, emits)" "map_of (children a) i = None"
    by (cases "runners (conf a) i") (auto, metis prod_cases3)
  then obtain a2 where a2: "foldM emitSync emits (a\<lparr>world := w', nextCtx := nextCtx a + 1\<rparr>) = Some a2"
    "conf b = conf a2 \<and> addr b = addr a2 \<and> snap b = snap a2 \<and> version b = version a2 \<and> stored b = stored a2
     \<and> localSubs b = localSubs a2 \<and> closedSubs b = closedSubs a2 \<and> isDone b = isDone a2 \<and> acks b = acks a2
     \<and> loopCancelled b = loopCancelled a2 \<and> eng b = eng a2 \<and> armed b = armed a2 \<and> mailbox b = mailbox a2"
    using assms by (auto simp: spawnInvoke_def Let_def)
  show ?thesis
    using emitAll [OF a2(1)] a2(2) by (auto simp: same_public_def)
qed

lemma foldM_spawn_public:
  "foldM spawnInvoke is a = Some b \<Longrightarrow>
     same_public a b \<and> eng b = eng a \<and> armed b = armed a \<and> (\<exists>new. mailbox b = mailbox a @ new)
     \<and> (int (length (mailbox a)) \<le> mMailboxCap (conf a) \<longrightarrow> int (length (mailbox b)) \<le> mMailboxCap (conf a))"
proof (induction "is" arbitrary: a)
  case Nil
  then show ?case by simp
next
  case (Cons i "is")
  obtain c where c: "spawnInvoke i a = Some c" "foldM spawnInvoke is c = Some b"
    using Cons.prems by (auto simp: bind_eq_Some_conv)
  have "conf c = conf a"
    using spawnInvoke_public [OF c(1)] by (simp add: same_public_def)
  then show ?case
    using spawnInvoke_public [OF c(1)] Cons.IH [OF c(2)] by (auto intro: same_public_trans)
qed

lemma stopUndesired_public:
  "same_public a (stopUndesired ds a)" "eng (stopUndesired ds a) = eng a" "armed (stopUndesired ds a) = armed a"
  "mailbox (stopUndesired ds a) = mailbox a" "invokeSpawns (stopUndesired ds a) = invokeSpawns a"
  "nextCtx (stopUndesired ds a) = nextCtx a"
proof -
  have "same_public a (fold (\<lambda>(i, ch) a. if i \<in> set ds then a else stopChild ch a) cs a) \<and>
        eng (fold (\<lambda>(i, ch) a. if i \<in> set ds then a else stopChild ch a) cs a) = eng a \<and>
        armed (fold (\<lambda>(i, ch) a. if i \<in> set ds then a else stopChild ch a) cs a) = armed a \<and>
        mailbox (fold (\<lambda>(i, ch) a. if i \<in> set ds then a else stopChild ch a) cs a) = mailbox a \<and>
        invokeSpawns (fold (\<lambda>(i, ch) a. if i \<in> set ds then a else stopChild ch a) cs a) = invokeSpawns a \<and>
        nextCtx (fold (\<lambda>(i, ch) a. if i \<in> set ds then a else stopChild ch a) cs a) = nextCtx a" for cs
    by (induction cs arbitrary: a) (auto simp: stopChild_def same_public_def split: prod.splits)
  then show "same_public a (stopUndesired ds a)" "eng (stopUndesired ds a) = eng a"
    "armed (stopUndesired ds a) = armed a" "mailbox (stopUndesired ds a) = mailbox a"
    "invokeSpawns (stopUndesired ds a) = invokeSpawns a" "nextCtx (stopUndesired ds a) = nextCtx a"
    by (simp_all add: stopUndesired_def Let_def same_public_def)
qed

lemma reconcile_public:
  assumes "reconcileInvokes H a = Some b"
  shows "same_public a b" and "eng b = eng a" and "armed b = armed a" and "\<exists>new. mailbox b = mailbox a @ new"
    and "int (length (mailbox a)) \<le> mMailboxCap (conf a) \<Longrightarrow> int (length (mailbox b)) \<le> mMailboxCap (conf a)"
proof -
  let ?d = "desiredInvokes H (engCfg (eng a))"
  have f: "foldM spawnInvoke ?d (stopUndesired ?d a) = Some b"
    using assms by (simp add: reconcileInvokes_def Let_def)
  have s: "same_public a (stopUndesired ?d a)"
    by (rule stopUndesired_public)
  then have "conf (stopUndesired ?d a) = conf a"
    by (simp add: same_public_def)
  then show "same_public a b" "eng b = eng a" "armed b = armed a" "\<exists>new. mailbox b = mailbox a @ new"
    "int (length (mailbox a)) \<le> mMailboxCap (conf a) \<Longrightarrow> int (length (mailbox b)) \<le> mMailboxCap (conf a)"
    using foldM_spawn_public [OF f] same_public_trans [OF s] by (auto simp: stopUndesired_public)
qed

subsection \<open>The invariant of what is published\<close>

definition pub_ok :: "('w, 'c, 'e, 'b) actor \<Rightarrow> bool" where
  "pub_ok a \<longleftrightarrow>
     stored a \<noteq> [] \<and> last (stored a) = snap a
     \<and> map Version (stored a) = map int [0..<length (stored a)]
     \<and> version a = int (length (stored a)) - 1
     \<and> list_all (\<lambda>s. \<not> Terminal (Status s)) (butlast (stored a))
     \<and> sorted (map Status (stored a))
     \<and> list_all (\<lambda>s. ErrorReason s \<noteq> None \<longleftrightarrow> Status s = StatusError) (stored a)
     \<and> list_all (\<lambda>s. suffix (subCh s) (stored a)) (localSubs a)
     \<and> list_all (\<lambda>s. sublist (subCh s) (stored a)) (closedSubs a)"

lemma same_public_pub: "same_public a b \<Longrightarrow> pub_ok b \<longleftrightarrow> pub_ok a"
  by (simp add: same_public_def pub_ok_def)

lemma pub_frame [simp]:
  "pub_ok (a\<lparr>eng := e\<rparr>) = pub_ok a" "pub_ok (a\<lparr>mailbox := q\<rparr>) = pub_ok a" "pub_ok (a\<lparr>world := w\<rparr>) = pub_ok a"
  "pub_ok (a\<lparr>acks := ks\<rparr>) = pub_ok a" "pub_ok (a\<lparr>loopCancelled := c\<rparr>) = pub_ok a"
  "pub_ok (a\<lparr>isDone := d\<rparr>) = pub_ok a" "pub_ok (a\<lparr>children := cs\<rparr>) = pub_ok a"
  by (simp_all add: pub_ok_def)

lemma Running_le: "\<not> Terminal s \<Longrightarrow> t \<noteq> StatusStarting \<Longrightarrow> s \<le> t"
  by (cases s; cases t) (auto simp: less_eq_ActorStatus_def)

lemma pub_store:
  assumes "pub_ok a" and "\<not> Terminal (Status (snap a))"
    and "Version s = version a + 1" and "Status s \<noteq> StatusStarting"
    and "ErrorReason s \<noteq> None \<longleftrightarrow> Status s = StatusError"
    and "stored b = stored a @ [s]" and "snap b = s" and "version b = version a + 1"
    and "localSubs b = map (\<lambda>x. x\<lparr>subCh := subCh x @ [s]\<rparr>) (localSubs a)" and "closedSubs b = closedSubs a"
  shows "pub_ok b"
proof -
  have ne: "stored a \<noteq> []" and last: "last (stored a) = snap a"
    using assms(1) by (auto simp: pub_ok_def)
  have split: "stored a = butlast (stored a) @ [snap a]"
    using ne last append_butlast_last_id by metis
  have old: "\<not> Terminal (Status x)" if "x \<in> set (stored a)" for x
  proof -
    have "x \<in> set (butlast (stored a)) \<or> x = snap a"
      using that by (subst (asm) split) auto
    then show ?thesis
      using assms(1,2) by (auto simp: pub_ok_def list_all_iff)
  qed
  have "sublist (subCh x) (stored a @ [s])" if "x \<in> set (closedSubs a)" for x
  proof -
    obtain ps ss where "stored a = ps @ subCh x @ ss"
      using assms(1) \<open>x \<in> set (closedSubs a)\<close> by (auto simp: pub_ok_def list_all_iff sublist_def)
    then have "stored a @ [s] = ps @ subCh x @ (ss @ [s])"
      by simp
    then show ?thesis
      unfolding sublist_def by blast
  qed
  moreover have "suffix (subCh x @ [s]) (stored a @ [s])" if "x \<in> set (localSubs a)" for x
    using assms(1) that by (auto simp: pub_ok_def list_all_iff)
  moreover have "sorted (map Status (stored a @ [s]))"
    using assms(1,4) old Running_le by (auto simp: pub_ok_def sorted_append)
  ultimately show ?thesis
    using assms old ne unfolding pub_ok_def by (simp add: list_all_iff)
qed

definition live :: "('w, 'c, 'e, 'b) actor \<Rightarrow> bool" where
  "live a \<longleftrightarrow> pub_ok a \<and> \<not> Terminal (Status (snap a)) \<and> \<not> Terminal (engStatus (eng a))"

lemma engine_step_status:
  assumes "engine_step H k e = Some (e', m)" and "\<not> Terminal (engStatus e)"
  shows "(engStatus e' = engStatus e) \<or>
         (m = None \<and> engStatus e' = StatusError \<and> errReason e' = Some ErrAlwaysLoopExceeded)"
proof -
  have go: "engStatus x = engStatus e1"
    if "staged (microstepFor H k e1 ts p trig) = Some (x, y)" for e1 :: "('a, 'b, 'c) engine" and ts p trig x y
  proof -
    obtain ms where "microstepFor H k e1 ts p trig = Some (x, ms)"
      using \<open>staged (microstepFor H k e1 ts p trig) = Some (x, y)\<close>
      by (cases "microstepFor H k e1 ts p trig") (auto simp: staged_def)
    then obtain S where "apply_microstep H e1 (computeExitSet H (engCfg e1) ts) ts S p trig = (x, ms)"
      by (auto simp: microstepFor_def)
    then have "x = e1\<lparr>lastEvt := p\<rparr>"
      by (metis apply_engine fst_conv)
    then show ?thesis by simp
  qed
  show ?thesis
    using assms(1) go
    by (auto simp: engine_step_def Let_def split: if_splits prod.splits option.splits)
qed

lemma exec_live:
  assumes "live a" and "execMicrostep H ms a = (b, ok)"
  shows "pub_ok b" and "ok \<Longrightarrow> \<not> Terminal (engStatus (eng b)) \<Longrightarrow> live b"
    and "isDone b = isDone a"
    and "ok \<Longrightarrow> Terminal (engStatus (eng b)) \<Longrightarrow> Terminal (Status (snap b))"
    and "\<not> ok \<Longrightarrow> Terminal (Status (snap b))"
proof -
  have a: "pub_ok a" "\<not> Terminal (Status (snap a))" "\<not> Terminal (engStatus (eng a))"
    using assms(1) by (auto simp: live_def)
  have st: "engStatus (commit ms (eng a)) = (if ReachedFinal ms then StatusDone
      else if engStatus (eng a) = StatusStarting then StatusRunning else engStatus (eng a))"
    by (auto simp: commit_def Let_def)
  consider "ok = True" | "ok = False"
    by blast
  then have "pub_ok b \<and> (ok \<longrightarrow> \<not> Terminal (engStatus (eng b)) \<longrightarrow> live b) \<and> isDone b = isDone a
      \<and> (ok \<longrightarrow> Terminal (engStatus (eng b)) \<longrightarrow> Terminal (Status (snap b))) \<and> (\<not> ok \<longrightarrow> Terminal (Status (snap b)))"
  proof cases
    case 1
    note r = exec_result [OF assms(2) [unfolded 1]]
    have "pub_ok b"
      by (rule pub_store [OF a(1,2) _ _ _ r(6,4,5,7,8)]) (simp_all add: afterSnapshot_def)
    then show ?thesis
      using 1 r(3,4,12) st a(3) by (auto simp: live_def afterSnapshot_def)
  next
    case 2
    obtain cause fail where f: "fail = (snap a)\<lparr>Status := StatusError,
      ErrorReason := Some (ObserverError cause ''transition''), Version := version a + 1\<rparr>"
      and r: "snap b = fail" "version b = version a + 1" "stored b = stored a @ [fail]"
        "localSubs b = map (\<lambda>s. s\<lparr>subCh := subCh s @ [fail]\<rparr>) (localSubs a)" "closedSubs b = closedSubs a"
        "isDone b = isDone a"
      using assms(2) [unfolded 2] by (rule abort_result) blast
    have "pub_ok b"
      by (rule pub_store [OF a(1,2) _ _ _ r(3,1,2,4,5)]) (simp_all add: f)
    then show ?thesis
      using 2 r f by simp
  qed
  then show "pub_ok b" and "ok \<Longrightarrow> \<not> Terminal (engStatus (eng b)) \<Longrightarrow> live b" and "isDone b = isDone a"
    and "ok \<Longrightarrow> Terminal (engStatus (eng b)) \<Longrightarrow> Terminal (Status (snap b))"
    and "\<not> ok \<Longrightarrow> Terminal (Status (snap b))"
    by auto
qed

lemma live_eng: "live (a\<lparr>eng := e'\<rparr>) \<longleftrightarrow> pub_ok a \<and> \<not> Terminal (Status (snap a)) \<and> \<not> Terminal (engStatus e')"
  by (simp add: live_def pub_ok_def)

lemma limit_live:
  assumes a: "pub_ok a" "\<not> Terminal (Status (snap a))" and "reason \<noteq> None"
  shows "pub_ok (publishTerminalError reason a)" and "Terminal (Status (snap (publishTerminalError reason a)))"
    and "isDone (publishTerminalError reason a) = isDone a"
proof -
  show "pub_ok (publishTerminalError reason a)"
    by (rule pub_store [OF a, of "(snap a)\<lparr>Status := StatusError, ErrorReason := reason, Version := version a + 1\<rparr>"])
       (use assms(3) in \<open>simp_all add: publishTerminalError_def Let_def\<close>)
  show "Terminal (Status (snap (publishTerminalError reason a)))"
    "isDone (publishTerminalError reason a) = isDone a"
    by (simp_all add: publishTerminalError_def Let_def)
qed

lemma macro_live:
  assumes "runMacrostep H k a = Some (b, ok)" and "live a \<and> \<not> isDone a"
  shows "pub_ok b \<and> \<not> isDone b \<and> (if ok then live b else Terminal (Status (snap b)))"
  using assms
proof (induction rule: runMacrostep_rule)
  case (next_step a e' ms a1)
  then have "live (a\<lparr>eng := e'\<rparr>)"
    using engine_step_status [OF next_step(2)] by (auto simp: live_eng live_def)
  then show ?case
    using exec_live [OF _ next_step(3)] next_step by auto
next
  case (quiet a e')
  then show ?case
    using engine_step_status [OF quiet(2)] by (auto simp: live_eng) (auto simp: live_def pub_ok_def)
next
  case (limit a e')
  then have st: "\<not> Terminal (engStatus (eng a))" "live a"
    by (auto simp: live_def)
  then have "errReason e' \<noteq> None"
    using engine_step_status [OF limit(2)] limit(3) by auto
  then show ?case
    using limit_live [of "a\<lparr>eng := e'\<rparr>" "errReason e'"] st(2) limit(1) by (simp add: live_def)
next
  case (final a e' ms a1)
  then have "live (a\<lparr>eng := e'\<rparr>)"
    using engine_step_status [OF final(2)] by (auto simp: live_eng live_def)
  then show ?case
    using exec_live [OF _ final(3)] final by auto
next
  case (abort a e' ms a1)
  then have "live (a\<lparr>eng := e'\<rparr>)"
    using engine_step_status [OF abort(2)] by (auto simp: live_eng live_def)
  then show ?case
    using exec_live [OF _ abort(3)] abort by auto
qed

subsection \<open>Shutdown\<close>

lemma stopChildren_public:
  "same_public a (fold (\<lambda>p. stopChild (snd p)) cs a)"
  "armed (fold (\<lambda>p. stopChild (snd p)) cs a) = armed a"
  "cancelledCtxs (fold (\<lambda>p. stopChild (snd p)) cs a) = cancelledCtxs a @ map (\<lambda>p. rcCtx (snd p)) cs"
proof -
  have "same_public a (fold (\<lambda>p. stopChild (snd p)) cs a)
      \<and> armed (fold (\<lambda>p. stopChild (snd p)) cs a) = armed a
      \<and> cancelledCtxs (fold (\<lambda>p. stopChild (snd p)) cs a) = cancelledCtxs a @ map (\<lambda>p. rcCtx (snd p)) cs"
    by (induction cs arbitrary: a) (auto simp: stopChild_def same_public_def)
  then show "same_public a (fold (\<lambda>p. stopChild (snd p)) cs a)"
    "armed (fold (\<lambda>p. stopChild (snd p)) cs a) = armed a"
    "cancelledCtxs (fold (\<lambda>p. stopChild (snd p)) cs a) = cancelledCtxs a @ map (\<lambda>p. rcCtx (snd p)) cs"
    by auto
qed

lemma shutdown_ok:
  assumes "pub_ok a"
  shows "pub_ok (shutdown a)" and "isDone (shutdown a)" and "Terminal (Status (snap (shutdown a)))"
    and "localSubs (shutdown a) = []" and "children (shutdown a) = []" and "armed (shutdown a) = []"
    and "cancelledCtxs (shutdown a) = cancelledCtxs a @ map (\<lambda>p. rcCtx (snd p)) (children a)"
    and "conf (shutdown a) = conf a"
    and "Terminal (Status (snap a)) \<Longrightarrow> snap (shutdown a) = snap a \<and> stored (shutdown a) = stored a"
    and "list_all subClosed (closedSubs a) \<Longrightarrow> list_all subClosed (closedSubs (shutdown a))"
proof -
  let ?b = "stopTimers ((fold (\<lambda>p. stopChild (snd p)) (children a) (a\<lparr>loopCancelled := True\<rparr>))\<lparr>children := []\<rparr>)"
  let ?s = "(snap ?b)\<lparr>Status := StatusStopped, Version := version ?b + 1\<rparr>"
  have c: "same_public (a\<lparr>loopCancelled := True\<rparr>) (fold (\<lambda>p. stopChild (snd p)) (children a) (a\<lparr>loopCancelled := True\<rparr>))"
    by (rule stopChildren_public)
  have b: "pub_ok ?b" "snap ?b = snap a" "version ?b = version a" "stored ?b = stored a"
    "localSubs ?b = localSubs a" "closedSubs ?b = closedSubs a" "conf ?b = conf a" "armed ?b = []" "children ?b = []"
    "cancelledCtxs ?b = cancelledCtxs a @ map (\<lambda>p. rcCtx (snd p)) (children a)"
    using assms same_public_pub [OF c] c
    by (auto simp: stopTimers_def same_public_def pub_ok_def stopChildren_public)
  define d where "d = (if \<not> Terminal (Status (snap ?b)) then notifySubs ?s (storeSnap ?s (?b\<lparr>version := version ?b + 1\<rparr>)) else ?b)"
  have d: "pub_ok d" "Terminal (Status (snap d))" "armed d = []" "children d = []" "conf d = conf a"
    "cancelledCtxs d = cancelledCtxs a @ map (\<lambda>p. rcCtx (snd p)) (children a)"
    "Terminal (Status (snap a)) \<Longrightarrow> snap d = snap a \<and> stored d = stored a" "closedSubs d = closedSubs a"
  proof -
    have "ErrorReason (snap a) = None" if "\<not> Terminal (Status (snap a))"
      using assms that last_in_set [of "stored a"] unfolding pub_ok_def list_all_iff
      by (metis Terminal_codes(2) option.exhaust option.distinct(1))
    then have "pub_ok d"
      unfolding d_def using b by (auto intro!: pub_store [of ?b ?s])
    then show "pub_ok d" "Terminal (Status (snap d))" "armed d = []" "children d = []" "conf d = conf a"
      "cancelledCtxs d = cancelledCtxs a @ map (\<lambda>p. rcCtx (snd p)) (children a)"
      "Terminal (Status (snap a)) \<Longrightarrow> snap d = snap a \<and> stored d = stored a" "closedSubs d = closedSubs a"
      using b by (auto simp: d_def)
  qed
  have sh: "shutdown a = (closeSubs (d\<lparr>world := fold (\<lambda>ao. OnActorStop ao (addr d)
      (if Status (snap d) = StatusError then ErrorReason (snap d) else None)) (actorObs (conf d)) (world d)\<rparr>))\<lparr>isDone := True\<rparr>"
    unfolding d_def by (simp add: shutdown_def Let_def)
  have sub: "sublist (subCh x) (stored d)" if "x \<in> set (localSubs d)" for x
    using d(1) that suffix_imp_sublist by (auto simp: pub_ok_def list_all_iff)
  have "pub_ok (closeSubs d)"
    using d(1) sub by (auto simp: pub_ok_def closeSubs_def list_all_iff)
  then show "pub_ok (shutdown a)"
    unfolding sh by (simp add: closeSubs_def pub_ok_def)
  show "isDone (shutdown a)" "Terminal (Status (snap (shutdown a)))" "localSubs (shutdown a) = []"
    "children (shutdown a) = []" "armed (shutdown a) = []"
    "cancelledCtxs (shutdown a) = cancelledCtxs a @ map (\<lambda>p. rcCtx (snd p)) (children a)"
    "conf (shutdown a) = conf a"
    "Terminal (Status (snap a)) \<Longrightarrow> snap (shutdown a) = snap a \<and> stored (shutdown a) = stored a"
    "list_all subClosed (closedSubs a) \<Longrightarrow> list_all subClosed (closedSubs (shutdown a))"
    unfolding sh using d by (auto simp: closeSubs_def list_all_iff)
qed

subsection \<open>The invariant of the loop\<close>

definition run_ok :: "('w, 'c, 'e, 'b) actor \<Rightarrow> bool" where
  "run_ok a \<longleftrightarrow>
     pub_ok a \<and>
     (if isDone a
      then Terminal (Status (snap a)) \<and> localSubs a = [] \<and> children a = [] \<and> armed a = []
      else live a)"

lemma run_ok_shutdown: "pub_ok a \<Longrightarrow> run_ok (shutdown a)"
  using shutdown_ok [of a] by (simp add: run_ok_def)

lemma offerItem_frame [simp]:
  "conf (offerItem it a) = conf a" "snap (offerItem it a) = snap a" "isDone (offerItem it a) = isDone a"
  "pub_ok (offerItem it a) = pub_ok a" "engStatus (eng (offerItem it a)) = engStatus (eng a)"
  "mailbox (offerItem it a) = mailbox a" "children (offerItem it a) = children a" "armed (offerItem it a) = armed a"
  by (cases it; simp add: offerItem_def offer_def offerDescriptor_def)+

lemma live_frame [simp]:
  "live (a\<lparr>mailbox := q\<rparr>) = live a" "live (a\<lparr>world := w\<rparr>) = live a" "live (a\<lparr>acks := ks\<rparr>) = live a"
  "live (a\<lparr>loopCancelled := c\<rparr>) = live a" "live (offerItem it a) = live a"
  by (simp_all add: live_def)

lemma macro_then_reconcile:
  assumes "live a" and "\<not> isDone a" and "runMacrostep H k a = Some (b, ok)"
    and "(if \<not> ok then Some (shutdown b) else reconcileInvokes H b) = Some c"
  shows "run_ok c"
proof (cases ok)
  case False
  then show ?thesis
    using assms macro_live [OF assms(3)] run_ok_shutdown by auto
next
  case True
  then have "live b" "\<not> isDone b" "reconcileInvokes H b = Some c"
    using assms macro_live [OF assms(3)] by auto
  then show ?thesis
    using reconcile_public(1,2) [of H b c] same_public_pub [of b c]
    by (simp add: run_ok_def live_def same_public_def)
qed

lemma boot_ok:
  assumes "live a" and "\<not> isDone a" and "bootLoop H k a = Some c"
  shows "run_ok c"
proof -
  obtain e' ms where st: "engine_start H k (eng a) = Some (e', ms)"
    using assms(3) by (auto simp: bootLoop_def split: option.splits)
  obtain S where "apply_microstep H (eng a) [] [] S None False = (e', ms)"
    using st by (auto simp: engine_start_def)
  then have "engStatus e' = engStatus (eng a)"
    using apply_engine [of H "eng a" "[]" "[]" S None False] by simp
  then have l: "live (a\<lparr>eng := e'\<rparr>)"
    using assms(1) by (simp add: live_eng live_def)
  obtain a1 ok where ex: "execMicrostep H ms (a\<lparr>eng := e'\<rparr>) = (a1, ok)"
    by fastforce
  note r = exec_live [OF l ex]
  show ?thesis
  proof (cases "\<not> ok \<or> Terminal (engStatus (eng a1))")
    case True
    then have "c = shutdown a1"
      using assms(3) st ex by (simp add: bootLoop_def)
    then show ?thesis
      using run_ok_shutdown r(1) by simp
  next
    case False
    then obtain b ok2 where "runMacrostep H k a1 = Some (b, ok2)"
      "(if \<not> ok2 then Some (shutdown b) else reconcileInvokes H b) = Some c"
      using assms(3) st ex by (auto simp: bootLoop_def split: option.splits prod.splits)
    then show ?thesis
      using macro_then_reconcile [of a1] r(2,3) False assms(2) by auto
  qed
qed

lemma drain_ok:
  "drainAndClose H k q a = Some c \<Longrightarrow> live a \<Longrightarrow> \<not> isDone a \<Longrightarrow> run_ok c \<and> isDone c"
proof (induction q arbitrary: a)
  case Nil
  then show ?case
    using shutdown_ok(2) [of "a\<lparr>mailbox := []\<rparr>"] run_ok_shutdown [of "a\<lparr>mailbox := []\<rparr>"] by (auto simp: live_def)
next
  case (Cons it q)
  have step: "run_ok c \<and> isDone c"
    if run: "(case runMacrostep H k (offerItem it (a\<lparr>mailbox := q\<rparr>)) of None \<Rightarrow> None
       | Some (a', ok) \<Rightarrow> if \<not> ok then Some (shutdown a') else drainAndClose H k q a') = Some c"
  proof -
    obtain b ok where b: "runMacrostep H k (offerItem it (a\<lparr>mailbox := q\<rparr>)) = Some (b, ok)"
      "(if \<not> ok then Some (shutdown b) else drainAndClose H k q b) = Some c"
      using run by (auto split: option.splits prod.splits)
    have "pub_ok b \<and> \<not> isDone b \<and> (if ok then live b else Terminal (Status (snap b)))"
      using Cons.prems by (intro macro_live [OF b(1)]) simp
    then show ?thesis
      using b(2) Cons.IH [of b] shutdown_ok(2) [of b] run_ok_shutdown [of b] by (cases ok) auto
  qed
  show ?case
    using Cons.prems step Cons.IH by (cases it) (auto simp: Let_def)
qed

lemma handle_ok:
  assumes "run_ok a" and "\<not> isDone a" and "handleItem H k a = Some c"
  shows "run_ok c"
proof -
  have l: "live a"
    using assms(1,2) by (simp add: run_ok_def)
  show ?thesis
  proof (cases "mailbox a")
    case Nil
    then show ?thesis
      using assms by (simp add: handleItem_def)
  next
    case (Cons it rest)
    show ?thesis
    proof (cases it)
      case (Ack i)
      then show ?thesis
        using assms(2,3) Cons l by (auto simp: handleItem_def run_ok_def live_def Let_def)
    next
      case DrainClose
      then show ?thesis
        using assms(2,3) Cons l drain_ok [of H k rest "a\<lparr>mailbox := rest\<rparr>" c] by (simp add: handleItem_def Let_def)
    next
      case (Event e d)
      then obtain b ok where "runMacrostep H k (offerItem it (a\<lparr>mailbox := rest\<rparr>)) = Some (b, ok)"
        "(if \<not> ok then Some (shutdown b) else reconcileInvokes H b) = Some c"
        using assms(3) Cons by (auto simp: handleItem_def Let_def split: option.splits prod.splits)
      then show ?thesis
        using macro_then_reconcile [of "offerItem it (a\<lparr>mailbox := rest\<rparr>)"] l assms(2) by simp
    next
      case (Descriptor d)
      then obtain b ok where "runMacrostep H k (offerItem it (a\<lparr>mailbox := rest\<rparr>)) = Some (b, ok)"
        "(if \<not> ok then Some (shutdown b) else reconcileInvokes H b) = Some c"
        using assms(3) Cons by (auto simp: handleItem_def Let_def split: option.splits prod.splits)
      then show ?thesis
        using macro_then_reconcile [of "offerItem it (a\<lparr>mailbox := rest\<rparr>)"] l assms(2) by simp
    qed
  qed
qed

lemma step_run_ok:
  assumes "actor_step H k a b" and "run_ok a"
  shows "run_ok b"
  using assms
proof cases
  case handle
  then show ?thesis using handle_ok assms(2) by blast
next
  case cancel
  then show ?thesis
    using assms(2) run_ok_shutdown [of a] unfolding cancel(1) by (simp add: run_ok_def)
next
  case (send evt err)
  then show ?thesis
    using assms(2) by (auto simp: Send_def run_ok_def split: if_splits)
next
  case (try_send evt err)
  then show ?thesis
    using assms(2) by (auto simp: TrySend_def run_ok_def split: if_splits)
next
  case (enqueue it)
  then show ?thesis
    using assms(2) by (auto simp: enqueue_def post_def run_ok_def split: if_splits)
next
  case (fire st)
  then show ?thesis
    using assms(2) by (auto simp: fireTimer_def enqueue_def post_def run_ok_def split: if_splits)
next
  case (subscribe s)
  then show ?thesis
    using assms(2) by (auto simp: addSub_def run_ok_def live_def pub_ok_def)
next
  case (unsubscribe i)
  then show ?thesis
    using assms(2)
    by (auto simp: removeSub_def run_ok_def live_def pub_ok_def list_all_iff suffix_imp_sublist)
qed (use assms(2) in \<open>auto simp: run_ok_def\<close>)

lemma start_live:
  "list_all (\<lambda>s. subCh s = []) (preSubs m) \<Longrightarrow> live (Start ad m w) \<and> \<not> isDone (Start ad m w)"
  by (simp add: Start_def live_def pub_ok_def initialSnapshot_def newEngine_def Let_def list_all_iff)

lemma run_run_ok:
  assumes "list_all (\<lambda>s. subCh s = []) (preSubs m)" and "actor_run H k (Start ad m w) a"
  shows "run_ok a"
  using assms(2)
proof induction
  case (boot q a)
  then show ?case
    using boot_ok [of "(Start ad m w)\<lparr>mailbox := q\<rparr>"] start_live [OF assms(1)] by simp
next
  case (step a a')
  then show ?case using step_run_ok by blast
qed

end
