(* ===== verification/Machine_Props.thy ===== *)
theory Machine_Props
  imports Machine_Run Samples
begin

section \<open>Properties of the actor\<close>

text \<open>
  Publication, rollback, delivery to subscribers, the mailbox, and the end of an actor. The
  samples run on the virtual timer service.
\<close>

type_synonym sample_world = "ScheduledTimer ManualTimerService"

definition sample_machine :: "heap \<Rightarrow> sample_world Option list \<Rightarrow> (sample_world, unit, string, unit) Machine" where
  "sample_machine H opts =
     NewMachine (\<lambda>w. ManualClock_Now (clock w)) (\<lambda>_. manualService) (\<lambda>s. s)
       (NewDefinition H ''demo'' 0 0 0) () (\<lambda>_ _ _. EffectNoop) (\<lambda>_ _ _. True) opts"

definition sample_world0 :: sample_world where
  "sample_world0 = NewManualTimerService (NewManualClock 0)"

definition sample_actor :: "heap \<Rightarrow> (sample_world, unit, string, unit) actor" where
  "sample_actor H = Start ''demo'' (sample_machine H []) sample_world0"

definition booted :: "heap \<Rightarrow> nat \<Rightarrow> ('w, 'c, 'e, 'b) actor \<Rightarrow> ('w, 'c, 'e, 'b) actor" where
  "booted H k a = (case bootLoop H k a of None \<Rightarrow> a | Some b \<Rightarrow> b)"

definition handled :: "heap \<Rightarrow> nat \<Rightarrow> ('w, 'c, 'e, 'b) actor \<Rightarrow> ('w, 'c, 'e, 'b) actor" where
  "handled H k a = (case handleItem H k a of None \<Rightarrow> a | Some b \<Rightarrow> b)"

definition told :: "heap \<Rightarrow> nat \<Rightarrow> 'e \<Rightarrow> ('w, 'c, 'e, 'b) actor \<Rightarrow> ('w, 'c, 'e, 'b) actor" where
  "told H k evt a = handled H k (fst (TrySend evt a))"

lemma run_booted: "bootLoop H k (a\<lparr>mailbox := []\<rparr>) \<noteq> None \<Longrightarrow> actor_run H k a (booted H k (a\<lparr>mailbox := []\<rparr>))"
  by (auto simp: booted_def intro: actor_run.boot)

lemma run_told:
  assumes "actor_run H k a0 a" and "\<not> isDone a"
  shows "actor_run H k a0 (told H k evt a)"
proof -
  obtain b err where b: "TrySend evt a = (b, err)"
    by fastforce
  then have "actor_run H k a0 b" "\<not> isDone b"
    using assms actor_step.try_send actor_run.step by (fastforce simp: TrySend_def split: if_splits)+
  then show ?thesis
    using b actor_step.handle [of b H k] actor_run.step by (auto simp: told_def handled_def split: option.splits)
qed

lemma demo_boot: "bootLoop demo 14 ((sample_actor demo)\<lparr>mailbox := []\<rparr>) \<noteq> None"
  by code_simp

lemma demo_booted: "actor_run demo 14 (sample_actor demo) (booted demo 14 ((sample_actor demo)\<lparr>mailbox := []\<rparr>))"
  by (rule run_booted [OF demo_boot])

lemma sample_subs: "list_all (\<lambda>s. subCh s = []) (preSubs (sample_machine H []))"
  by (simp add: sample_machine_def NewMachine_def Let_def)

text \<open>
  C17. What an actor publishes, in any interleaving with its environment: versions count up by
  one from zero, the current snapshot is the last one stored, no snapshot follows one with
  a terminal status, statuses only move forward, and the error reason is set exactly on
  snapshots with status error.
\<close>

theorem published_history:
  assumes "list_all (\<lambda>s. subCh s = []) (preSubs m)" and "actor_run H k (Start ad m w) a"
  shows "map Version (stored a) = map int [0..<length (stored a)]
         \<and> Version (snap a) = int (length (stored a)) - 1
         \<and> stored a = butlast (stored a) @ [snap a]
         \<and> list_all (\<lambda>s. \<not> Terminal (Status s)) (butlast (stored a))
         \<and> sorted (map Status (stored a))
         \<and> list_all (\<lambda>s. ErrorReason s \<noteq> None \<longleftrightarrow> Status s = StatusError) (stored a)
         \<and> (isDone a \<longleftrightarrow> Terminal (Status (snap a)))"
proof -
  have r: "run_ok a" and p: "pub_ok a"
    using run_run_ok [OF assms] by (auto simp: run_ok_def)
  have ne: "stored a \<noteq> []" "last (stored a) = snap a"
    and v: "map Version (stored a) = map int [0..<length (stored a)]"
    using p by (auto simp: pub_ok_def)
  have "Version (snap a) = last (map Version (stored a))"
    using ne by (simp add: last_map)
  then have "Version (snap a) = int (length (stored a)) - 1"
    unfolding v using ne(1) by (cases "stored a" rule: rev_cases) auto
  moreover have "isDone a \<longleftrightarrow> Terminal (Status (snap a))"
    using r by (auto simp: run_ok_def live_def split: if_splits)
  moreover have "stored a = butlast (stored a) @ [snap a]"
    using ne append_butlast_last_id by metis
  ultimately show ?thesis
    using p v by (auto simp: pub_ok_def)
qed

theorem published_history_witness:
  "\<exists>a. actor_run demo 14 (sample_actor demo) a \<and> map Version (stored a) = [0, 1, 2, 3]
       \<and> isDone a \<and> Terminal (Status (snap a))"
proof -
  let ?b = "booted demo 14 ((sample_actor demo)\<lparr>mailbox := []\<rparr>)"
  let ?a = "told demo 14 ''FIN'' (told demo 14 ''E'' (told demo 14 ''E'' ?b))"
  have "\<not> isDone ?b" "\<not> isDone (told demo 14 ''E'' ?b)" "\<not> isDone (told demo 14 ''E'' (told demo 14 ''E'' ?b))"
    by code_simp+
  then have run: "actor_run demo 14 (sample_actor demo) ?a"
    by (intro run_told demo_booted)
  have v: "map Version (stored ?a) = [0, 1, 2, 3]" and d: "isDone ?a"
    by code_simp+
  have "isDone ?a \<longleftrightarrow> Terminal (Status (snap ?a))"
    using published_history [OF sample_subs run [unfolded sample_actor_def]] unfolding sample_actor_def by blast
  then have "Terminal (Status (snap ?a))"
    using d by (rule iffD1)
  then show ?thesis
    using run v d by (intro exI [of _ ?a] conjI)
qed

subsection \<open>The end\<close>





subsection \<open>Subscribers\<close>

definition feed :: "'c Snapshot list \<Rightarrow> 'c subscriber \<Rightarrow> 'c subscriber" where
  "feed new s = s\<lparr>subCh := subCh s @ new\<rparr>"

definition feeds :: "('w, 'c, 'e, 'b) actor \<Rightarrow> ('w, 'c, 'e, 'b) actor \<Rightarrow> bool" where
  "feeds a b \<longleftrightarrow>
     (\<exists>new. stored b = stored a @ new \<and> localSubs b = map (feed new) (localSubs a) \<and> closedSubs b = closedSubs a)"

definition feeds_closing :: "('w, 'c, 'e, 'b) actor \<Rightarrow> ('w, 'c, 'e, 'b) actor \<Rightarrow> bool" where
  "feeds_closing a b \<longleftrightarrow>
     (\<exists>new. stored b = stored a @ new \<and> localSubs b = []
        \<and> closedSubs b = closedSubs a @ map (\<lambda>s. (feed new s)\<lparr>subClosed := True\<rparr>) (localSubs a))"

lemma feed_Nil [simp]: "feed [] = (\<lambda>s. s)"
  by (simp add: feed_def fun_eq_iff)

lemma feed_feed: "feed ys (feed xs s) = feed (xs @ ys) s"
  by (simp add: feed_def)

lemma feeds_same: "same_public a b \<Longrightarrow> feeds a b"
  unfolding feeds_def by (intro exI [of _ "[]"]) (simp add: same_public_def)

lemma feeds_trans: "feeds a b \<Longrightarrow> feeds b c \<Longrightarrow> feeds a c"
  unfolding feeds_def by (metis (no_types, lifting) append_assoc feed_feed list.map_comp map_ext comp_apply)

lemma feeds_close: "feeds a b \<Longrightarrow> feeds_closing b c \<Longrightarrow> feeds_closing a c"
proof -
  assume "feeds a b" and "feeds_closing b c"
  then obtain xs ys where "stored b = stored a @ xs" "localSubs b = map (feed xs) (localSubs a)"
    "closedSubs b = closedSubs a" "stored c = stored b @ ys" "localSubs c = []"
    "closedSubs c = closedSubs b @ map (\<lambda>s. (feed ys s)\<lparr>subClosed := True\<rparr>) (localSubs b)"
    by (auto simp: feeds_def feeds_closing_def)
  then show "feeds_closing a c"
    unfolding feeds_closing_def by (intro exI [of _ "xs @ ys"]) (simp add: feed_feed)
qed

lemma feeds_exec: "execMicrostep H ms a = (b, ok) \<Longrightarrow> feeds a b"
proof (cases ok)
  case True
  assume ex: "execMicrostep H ms a = (b, ok)"
  then have ex: "execMicrostep H ms a = (b, True)"
    using True by simp
  show ?thesis
    unfolding feeds_def
    by (intro exI [of _ "[afterSnapshot H ms a]"]) (simp add: exec_result [OF ex] feed_def)
next
  case False
  assume "execMicrostep H ms a = (b, ok)"
  then have "execMicrostep H ms a = (b, False)"
    using False by simp
  then obtain fail where "stored b = stored a @ [fail]"
    "localSubs b = map (\<lambda>s. s\<lparr>subCh := subCh s @ [fail]\<rparr>) (localSubs a)" "closedSubs b = closedSubs a"
    by (rule abort_result) blast
  then show ?thesis
    unfolding feeds_def by (intro exI [of _ "[fail]"]) (simp add: feed_def)
qed

lemma feeds_macro: "runMacrostep H k a = Some (b, ok) \<Longrightarrow> feeds a b"
proof -
  have eng: "feeds a0 (a\<lparr>eng := e'\<rparr>)" if "feeds a0 a" for a0 a :: "('a, 'b, 'c, 'd) actor" and e'
    using that by (simp add: feeds_def)
  assume run: "runMacrostep H k a = Some (b, ok)"
  have refl: "feeds a a"
    by (rule feeds_same) simp
  show ?thesis
  proof (rule runMacrostep_rule [where I = "feeds a" and Q = "\<lambda>x _. feeds a x", OF run refl])
    fix x e' ms a1
    assume a: "feeds a x"
    show "execMicrostep H ms (x\<lparr>eng := e'\<rparr>) = (a1, True) \<Longrightarrow> feeds a a1"
      "execMicrostep H ms (x\<lparr>eng := e'\<rparr>) = (a1, True) \<Longrightarrow> feeds a a1"
      "execMicrostep H ms (x\<lparr>eng := e'\<rparr>) = (a1, False) \<Longrightarrow> feeds a a1"
      using eng [OF a] feeds_exec feeds_trans by blast+
    show "feeds a (x\<lparr>eng := e'\<rparr>)"
      by (rule eng [OF a])
    have "feeds (x\<lparr>eng := e'\<rparr>) (publishTerminalError (errReason e') (x\<lparr>eng := e'\<rparr>))"
      unfolding feeds_def
      by (intro exI [of _ "[snap (publishTerminalError (errReason e') (x\<lparr>eng := e'\<rparr>))]"])
         (simp add: publishTerminalError_def Let_def feed_def)
    then show "feeds a (publishTerminalError (errReason e') (x\<lparr>eng := e'\<rparr>))"
      using eng [OF a] feeds_trans by blast
  qed
qed

lemma feeds_shutdown: "feeds_closing a (shutdown a)"
proof -
  let ?c = "fold (\<lambda>p. stopChild (snd p)) (children a) (a\<lparr>loopCancelled := True\<rparr>)"
  have c: "same_public (a\<lparr>loopCancelled := True\<rparr>) ?c"
    by (rule stopChildren_public)
  show ?thesis
    unfolding feeds_closing_def
    using c
    by (intro exI [of _ "if Terminal (Status (snap a)) then [] else [snap (shutdown a)]"])
       (simp add: shutdown_def Let_def closeSubs_def stopTimers_def same_public_def feed_def)
qed

lemma feeds_drain: "drainAndClose H k q a = Some b \<Longrightarrow> feeds_closing a b"
proof (induction q arbitrary: a)
  case Nil
  have "feeds a (a\<lparr>mailbox := []\<rparr>)"
    by (rule feeds_same) (simp add: same_public_def)
  then show ?case
    using Nil feeds_shutdown feeds_close by auto
next
  case (Cons it q)
  have ack: "feeds a (a\<lparr>mailbox := q, acks := ks\<rparr>)" "feeds a (a\<lparr>mailbox := q\<rparr>)" for ks
    by (simp_all add: feeds_def)
  have item: "feeds a (offerItem it (a\<lparr>mailbox := q\<rparr>))"
    by (cases it) (simp_all add: feeds_def offerItem_def)
  have step: "feeds_closing a b"
    if run: "(case runMacrostep H k (offerItem it (a\<lparr>mailbox := q\<rparr>)) of None \<Rightarrow> None
       | Some (a', ok) \<Rightarrow> if \<not> ok then Some (shutdown a') else drainAndClose H k q a') = Some b"
  proof -
    obtain c ok where c: "runMacrostep H k (offerItem it (a\<lparr>mailbox := q\<rparr>)) = Some (c, ok)"
      "(if \<not> ok then Some (shutdown c) else drainAndClose H k q c) = Some b"
      using run by (auto split: option.splits prod.splits)
    have "feeds a c"
      using item feeds_macro [OF c(1)] by (rule feeds_trans)
    then show ?thesis
      using c(2) Cons.IH [of c] feeds_shutdown [of c] feeds_close by (cases ok) auto
  qed
  show ?case
  proof (cases it)
    case (Ack i)
    then show ?thesis
      using Cons.prems Cons.IH ack(1) feeds_close by (simp add: Let_def) blast
  next
    case DrainClose
    then show ?thesis
      using Cons.prems Cons.IH ack(2) feeds_close by (simp add: Let_def) blast
  qed (use Cons.prems step in \<open>auto simp: Let_def\<close>)
qed

text \<open>
  Strong delivery: while the actor handles an item, every subscriber gets exactly the
  snapshots stored meanwhile, in order and without a gap; if the actor stops, they are in
  its channel before the channel is closed.
\<close>

theorem subscribers_miss_nothing:
  assumes "handleItem H k a = Some b"
  shows "feeds a b \<or> feeds_closing a b"
proof (cases "mailbox a")
  case Nil
  then show ?thesis
    using assms by (simp add: handleItem_def feeds_same)
next
  case (Cons it rest)
  have rest: "feeds a (a\<lparr>mailbox := rest\<rparr>)" and item: "feeds a (offerItem it (a\<lparr>mailbox := rest\<rparr>))"
    by (cases it; simp add: feeds_def offerItem_def)+
  have macro: "feeds a b \<or> feeds_closing a b"
    if run: "(case runMacrostep H k (offerItem it (a\<lparr>mailbox := rest\<rparr>)) of None \<Rightarrow> None
       | Some (a', ok) \<Rightarrow> if \<not> ok then Some (shutdown a') else reconcileInvokes H a') = Some b"
  proof -
    obtain c ok where c: "runMacrostep H k (offerItem it (a\<lparr>mailbox := rest\<rparr>)) = Some (c, ok)"
      "(if \<not> ok then Some (shutdown c) else reconcileInvokes H c) = Some b"
      using run by (auto split: option.splits prod.splits)
    have "feeds a c"
      using item feeds_macro [OF c(1)] by (rule feeds_trans)
    then show ?thesis
      using c(2) feeds_shutdown [of c] feeds_close reconcile_public(1) [of H c b] feeds_same feeds_trans
      by (cases ok) fastforce+
  qed
  show ?thesis
  proof (cases it)
    case (Ack i)
    then show ?thesis
      using assms Cons by (auto simp: handleItem_def feeds_def)
  next
    case DrainClose
    then show ?thesis
      using assms Cons feeds_drain [of H k rest "a\<lparr>mailbox := rest\<rparr>" b] feeds_close [OF rest]
      by (simp add: handleItem_def Let_def)
  qed (use assms Cons macro in \<open>auto simp: handleItem_def Let_def\<close>)
qed

theorem subscribers_miss_nothing_witness:
  "\<exists>a b :: (sample_world, unit, string, unit) actor. handleItem demo 14 a = Some b \<and> (feeds a b \<or> feeds_closing a b)
     \<and> map (\<lambda>s. map Version (subCh s)) (localSubs b) = [[2]]
     \<and> map (\<lambda>s. map Version (subCh s)) (localSubs a) = [[]]"
proof -
  let ?a = "fst (TrySend ''E'' (addSub (newSubscriber 0 []) (booted demo 14 (sample_actor demo))))"
  have "map_option (\<lambda>b. map (\<lambda>s. map Version (subCh s)) (localSubs b)) (handleItem demo 14 ?a) = Some [[2]]"
    "map (\<lambda>s. map Version (subCh s)) (localSubs ?a) = [[]]"
    by code_simp+
  then obtain b where b: "handleItem demo 14 ?a = Some b"
    "map (\<lambda>s. map Version (subCh s)) (localSubs b) = [[2]]"
    "map (\<lambda>s. map Version (subCh s)) (localSubs ?a) = [[]]"
    by auto
  have "feeds ?a b \<or> feeds_closing ?a b"
    by (rule subscribers_miss_nothing [OF b(1)])
  then show ?thesis
    using b by (intro exI [of _ ?a] exI [of _ b] conjI)
qed

end
