(* ===== verification/Engine_Macro.thy ===== *)
theory Engine_Macro
  imports Engine_Run
begin

section \<open>Macrosteps: priorities, the always limit and completion\<close>

text \<open>
  The order in which \<open>step\<close> serves its three sources of transitions, the bound on runs of
  eventless microsteps, and when a machine is done.
\<close>

subsection \<open>Priorities\<close>

lemma popInternal_cases:
  "popInternal H e q =
     (case dropWhile (\<lambda>qe. selectTransitions H (engCfg e) (descriptor qe) (guardPass H e (payload qe)) = []) q of
        [] \<Rightarrow> ([], None)
      | qe # rest \<Rightarrow>
          (rest, Some (selectTransitions H (engCfg e) (descriptor qe) (guardPass H e (payload qe)), payload qe)))"
  by (induction q) (auto simp: Let_def)

text \<open>Which transitions the next microstep takes, with its event, and what is left in the queues.\<close>

datatype ('e) choice =
    TakeEventless "tref list"
  | TakeInternal "tref list" "'e option" "'e queuedEvent list"
  | TakeExternal "tref list" "'e option"
  | TakeNothing

definition nextChoice :: "heap \<Rightarrow> ('c, 'e, 'b) engine \<Rightarrow> 'e choice" where
  "nextChoice H e =
     (let enabled = (\<lambda>qe. selectTransitions H (engCfg e) (descriptor qe) (guardPass H e (payload qe)));
          always = selectEventlessTransitions H (engCfg e) (guardPass H e None)
      in if always \<noteq> [] then TakeEventless always
         else case dropWhile (\<lambda>qe. enabled qe = []) (internalQueue e) of
                qe # rest \<Rightarrow> TakeInternal (enabled qe) (payload qe) rest
              | [] \<Rightarrow> (case pendingExternal e of
                          None \<Rightarrow> TakeNothing
                        | Some qe \<Rightarrow> if enabled qe = [] then TakeNothing
                                     else TakeExternal (enabled qe) (payload qe)))"

text \<open>
  C10. The priority of \<open>step\<close>: eventless transitions first, and while they are enabled neither
  queue is touched; then the oldest internal event that enables something, dropping those
  before it; then the pending external event, which is consumed whether or not it enables
  anything; otherwise the macrostep is quiescent with an empty internal queue.
\<close>

theorem step_priority:
  "engine_step H k e =
     (case nextChoice H e of
        TakeEventless ts \<Rightarrow>
          if alwaysRun e \<ge> alwaysLimit e
          then Some (e\<lparr>engStatus := StatusError, errReason := Some ErrAlwaysLoopExceeded\<rparr>, None)
          else staged (microstepFor H k (e\<lparr>alwaysRun := alwaysRun e + 1\<rparr>) ts None False)
      | TakeInternal ts p rest \<Rightarrow> staged (microstepFor H k (e\<lparr>internalQueue := rest\<rparr>) ts p True)
      | TakeExternal ts p \<Rightarrow>
          staged (microstepFor H k (e\<lparr>internalQueue := [], pendingExternal := None\<rparr>) ts p True)
      | TakeNothing \<Rightarrow> Some (e\<lparr>internalQueue := [], pendingExternal := None\<rparr>, None))"
proof -
  have frame: "guardPass H (e\<lparr>internalQueue := q, pendingExternal := p\<rparr>) x = guardPass H e x"
    "guardPass H (e\<lparr>internalQueue := q\<rparr>) x = guardPass H e x" for q p x
    by (auto simp: fun_eq_iff guardPass_def split: option.splits)
  have none: "pendingExternal e = None \<Longrightarrow> e\<lparr>internalQueue := [], pendingExternal := None\<rparr> = e\<lparr>internalQueue := []\<rparr>"
    by (cases e) simp
  let ?d = "dropWhile (\<lambda>qe. selectTransitions H (engCfg e) (descriptor qe) (guardPass H e (payload qe)) = [])
              (internalQueue e)"
  note simps = engine_step_def nextChoice_def popInternal_cases Let_def
  show ?thesis
  proof (cases ?d)
    case (Cons qe rest)
    then show ?thesis by (simp add: simps)
  next
    case Nil
    show ?thesis
    proof (cases "pendingExternal e")
      case None
      then show ?thesis
        using Nil none by (simp add: simps del: dropWhile_eq_Nil_conv)
    next
      case (Some qe)
      then show ?thesis
        using Nil frame by (simp add: simps del: dropWhile_eq_Nil_conv)
    qed
  qed
qed

subsection \<open>The always limit\<close>

lemma microstepFor_frame:
  assumes "microstepFor H k e ts evt trig = Some (e', ms)"
  shows "alwaysRun e' = alwaysRun e" and "alwaysLimit e' = alwaysLimit e" and "TriggeredByEvent ms = trig"
    and "engStatus e' = engStatus e" and "internalQueue e' = internalQueue e" and "engDef e' = engDef e"
    and "msTransitions ms = ts"
proof -
  obtain E :: entry_sets where "ms = snd (apply_microstep H e (computeExitSet H (engCfg e) ts) ts (fst E) evt trig)"
    "e' = e\<lparr>lastEvt := evt\<rparr>"
    using assms by (rule microstepFor_Some) blast
  then show "alwaysRun e' = alwaysRun e" and "alwaysLimit e' = alwaysLimit e" and "TriggeredByEvent ms = trig"
    and "engStatus e' = engStatus e" and "internalQueue e' = internalQueue e" and "engDef e' = engDef e"
    and "msTransitions ms = ts"
    by simp_all
qed

lemma staged_Some: "staged r = Some (e', m) \<longleftrightarrow> (\<exists>ms. r = Some (e', ms) \<and> m = Some ms)"
  by (cases r) (auto simp: staged_def)

lemma staged_counts:
  "staged (microstepFor H k e ts evt trig) = Some (e', m) \<Longrightarrow>
     \<exists>ms. m = Some ms \<and> TriggeredByEvent ms = trig \<and> alwaysRun e' = alwaysRun e \<and> alwaysLimit e' = alwaysLimit e"
  using microstepFor_frame [of H k e ts evt trig e'] by (auto simp: staged_Some)

lemma step_counts:
  assumes "engine_step H k e = Some (e', m)"
  shows "alwaysLimit e' = alwaysLimit e"
    and "case m of
           None \<Rightarrow> alwaysRun e' = alwaysRun e
         | Some ms \<Rightarrow> if TriggeredByEvent ms then alwaysRun e' = alwaysRun e
                      else alwaysRun e' = alwaysRun e + 1 \<and> alwaysRun e < alwaysLimit e"
  using assms unfolding step_priority
  by (auto dest!: staged_counts split: choice.splits if_splits)

lemma commit_counts [simp]:
  "alwaysLimit (commit ms e) = alwaysLimit e"
  "alwaysRun (commit ms e) = (if TriggeredByEvent ms then 0 else alwaysRun e)"
  by (simp_all add: commit_def Let_def)

lemma offer_counts [simp]:
  "alwaysLimit (offer ET evt e) = alwaysLimit e" "alwaysRun (offer ET evt e) = alwaysRun e"
  "alwaysLimit (offerDescriptor d e) = alwaysLimit e" "alwaysRun (offerDescriptor d e) = alwaysRun e"
  by (simp_all add: offer_def offerDescriptor_def)

lemma start_counts:
  "engine_start H k e = Some (e', ms) \<Longrightarrow>
     alwaysLimit e' = alwaysLimit e \<and> alwaysRun e' = alwaysRun e \<and> \<not> TriggeredByEvent ms"
proof -
  assume "engine_start H k e = Some (e', ms)"
  then obtain S where "apply_microstep H e [] [] S None False = (e', ms)"
    by (auto simp: engine_start_def)
  then have "e' = e\<lparr>lastEvt := None\<rparr>" and "\<not> TriggeredByEvent ms"
    using apply_engine [of H e "[]" "[]" S None False] apply_lists(4) [of H e "[]" "[]" S None False]
    by (metis fst_conv, metis snd_conv)
  then show ?thesis by simp
qed


text \<open>Two states that lead to each other without an event.\<close>

definition pingpong :: heap where
  "pingpong = \<lparr>nodes =
     [state 0 [] StateCompound None [1, 2] (Some 1) [],
      state 1 ''ping'' StateAtomic (Some 0) [] None [0],
      state 2 ''pong'' StateAtomic (Some 0) [] None [1]],
     edges = [edge 1 [] [2] 0, edge 2 [] [1] 1]\<rparr>"

definition pingpong_engine :: "(unit, string, unit) engine" where
  "pingpong_engine =
     newEngine (NewDefinition pingpong ''pp'' 0 0 0) () (\<lambda>_ _ _. EffectNoop) (\<lambda>_ _ _. True) 3"


subsection \<open>Completion\<close>

text \<open>
  C13. The machine completes exactly when a microstep enters a final state at the top level: the
  staged microstep says so if and only if it enters a final state that is the root or a
  child of the root, and committing then sets the status to done; otherwise the first
  commit makes a starting machine running and no commit changes another status.
\<close>

theorem completion_iff_top_final:
  assumes "microstepFor H k e ts evt trig = Some (e', ms)"
  shows "(ReachedFinal ms \<longleftrightarrow>
           list_ex (\<lambda>s. kind H s = StateFinal \<and> (par H s = None \<or> par H s = Some (Root (engDef e)))) (Entered ms)) \<and>
         engStatus (commit ms e') =
           (if ReachedFinal ms then StatusDone
            else if engStatus e = StatusStarting then StatusRunning else engStatus e)"
proof -
  obtain E :: entry_sets where E: "ms = snd (apply_microstep H e (computeExitSet H (engCfg e) ts) ts (fst E) evt trig)"
    "e' = e\<lparr>lastEvt := evt\<rparr>"
    using assms by (rule microstepFor_Some) blast
  have "ReachedFinal ms \<longleftrightarrow>
           list_ex (\<lambda>s. kind H s = StateFinal \<and> (par H s = None \<or> par H s = Some (Root (engDef e)))) (Entered ms)"
    unfolding E(1) apply_final apply_lists list_ex_iff by simp
  moreover have "engStatus e' = engStatus e"
    by (simp add: E(2))
  ultimately show ?thesis
    by (auto simp: commit_def Let_def)
qed

theorem completion_iff_top_final_witness:
  "\<exists>e' ms. microstepFor demo 14 ((quiet_engine demo)\<lparr>engCfg := [0, 1, 3], engStatus := StatusRunning\<rparr>) [1] None True
       = Some (e', ms) \<and> Entered ms = [12] \<and> engStatus (commit ms e') = StatusDone"
proof -
  let ?r = "microstepFor demo 14 ((quiet_engine demo)\<lparr>engCfg := [0, 1, 3], engStatus := StatusRunning\<rparr>) [1] None True"
  have "map_option (\<lambda>r. Entered (snd r)) ?r = Some [12]"
    by code_simp
  then obtain e' ms where r: "?r = Some (e', ms)" "Entered ms = [12]"
    by auto
  have "kind demo 12 = StateFinal" "par demo 12 = Some (Root (engDef ((quiet_engine demo)\<lparr>engCfg := [0, 1, 3], engStatus := StatusRunning\<rparr>)))"
    by code_simp+
  then show ?thesis
    using completion_iff_top_final [OF r(1)] r by auto
qed

end
