(* ===== verification/Machine_Macro.thy ===== *)
theory Machine_Macro
  imports Machine_Props Engine_Macro
begin

section \<open>When a macrostep ends\<close>

text \<open>
  The loop of \<open>runMacrostep\<close> (\<open>machine.go\<close>) from the outside: the microsteps it takes, told
  apart by whether an event or an eventless transition caused them. The eventless ones are
  bounded by \<open>alwaysLimit\<close>; the internal events are not.
\<close>

subsection \<open>The microsteps of a macrostep\<close>

text \<open>For each of the first \<open>n\<close> microsteps, whether an event triggered it.\<close>

fun macro_trace :: "heap \<Rightarrow> nat \<Rightarrow> nat \<Rightarrow> ('w, 'c, 'e, 'b) actor \<Rightarrow> bool list" where
  "macro_trace H k 0 a = []"
| "macro_trace H k (Suc n) a =
     (case engine_step H k (eng a) of
        Some (e', Some ms) \<Rightarrow>
          (let (a', ok) = execMicrostep H ms (a\<lparr>eng := e'\<rparr>)
           in TriggeredByEvent ms # (if ok \<and> \<not> Terminal (engStatus (eng a')) then macro_trace H k n a' else []))
      | _ \<Rightarrow> [])"

lemma step_commits:
  assumes "sound_chart H" and "length (nodes H) < k" and "engine_ok H e"
  obtains e' m where "engine_step H k e = Some (e', m)" and "\<And>ms. m = Some ms \<Longrightarrow> engine_ok H (commit ms e')"
proof -
  obtain e' m where step: "engine_step H k e = Some (e', m)" "step_ok H e (e', m)"
    using engine_step_ok [OF assms(1,3,2)] by auto
  then show thesis
    by (intro that [of e' m] commit_ok) (auto simp: step_ok_def engine_ok_def)
qed

text \<open>A macrostep whose microsteps end returns.\<close>

lemma ended_trace_returns:
  assumes "sound_chart H" and "length (nodes H) < k"
  shows "engine_ok H (eng a) \<Longrightarrow> length (macro_trace H k n a) < n \<Longrightarrow> runMacrostep H k a \<noteq> None"
proof (induction n arbitrary: a)
  case (Suc n)
  obtain e' m where step: "engine_step H k (eng a) = Some (e', m)"
    "\<And>ms. m = Some ms \<Longrightarrow> engine_ok H (commit ms e')"
    using step_commits [OF assms Suc.prems(1)] by blast
  show ?case
  proof (cases m)
    case None
    then show ?thesis
      using step(1) by (subst runMacrostep.simps) (auto simp: Let_def)
  next
    case (Some ms)
    obtain a' ok where ex: "execMicrostep H ms (a\<lparr>eng := e'\<rparr>) = (a', ok)"
      by fastforce
    show ?thesis
    proof (cases "ok \<and> \<not> Terminal (engStatus (eng a'))")
      case True
      then have "eng a' = commit ms e'"
        using exec_result(3) [of H ms "a\<lparr>eng := e'\<rparr>" a'] ex by simp
      then have "runMacrostep H k a' \<noteq> None"
        using Suc step Some ex True by (intro Suc.IH) simp_all
      then show ?thesis
        using step(1) Some ex True by (subst runMacrostep.simps) simp
    next
      case False
      then show ?thesis
        using step(1) Some ex by (subst runMacrostep.simps) auto
    qed
  qed
qed simp

text \<open>Between two events at most \<open>alwaysLimit\<close> eventless microsteps fit.\<close>

lemma trace_budget:
  assumes "0 \<le> alwaysRun (eng a)" and "alwaysRun (eng a) \<le> alwaysLimit (eng a)"
  shows "int (length (macro_trace H k n a)) \<le>
           (alwaysLimit (eng a) + 1) * int (length (filter id (macro_trace H k n a)))
           + alwaysLimit (eng a) - alwaysRun (eng a)"
  using assms
proof (induction n arbitrary: a)
  case (Suc n)
  show ?case
  proof (cases "\<exists>e' ms. engine_step H k (eng a) = Some (e', Some ms)")
    case True
    then obtain e' ms where step: "engine_step H k (eng a) = Some (e', Some ms)"
      by blast
    note cnt = step_counts [OF step]
    obtain a' ok where ex: "execMicrostep H ms (a\<lparr>eng := e'\<rparr>) = (a', ok)"
      by fastforce
    show ?thesis
    proof (cases "ok \<and> \<not> Terminal (engStatus (eng a'))")
      case go: True
      then have "eng a' = commit ms e'"
        using exec_result(3) [of H ms "a\<lparr>eng := e'\<rparr>" a'] ex by simp
      then have l: "alwaysLimit (eng a') = alwaysLimit (eng a)"
        "alwaysRun (eng a') = (if TriggeredByEvent ms then 0 else alwaysRun (eng a) + 1)"
        "\<not> TriggeredByEvent ms \<Longrightarrow> alwaysRun (eng a) < alwaysLimit (eng a)"
        using cnt by (auto split: if_splits)
      then show ?thesis
        using Suc.IH [of a'] Suc.prems step ex go by (cases "TriggeredByEvent ms") (auto simp: algebra_simps)
    next
      case False
      then have "macro_trace H k (Suc n) a = [TriggeredByEvent ms]"
        using step ex by auto
      then show ?thesis
        using Suc.prems cnt by (auto simp: algebra_simps split: if_splits)
    qed
  next
    case False
    then have "macro_trace H k (Suc n) a = []"
      by (auto split: option.splits)
    then show ?thesis
      using Suc.prems by simp
  qed
qed simp

subsection \<open>A machine that never gets out of its first macrostep\<close>

text \<open>\<open>p\<close> completes as soon as it is entered, and its completion enters it again.\<close>

definition spin :: heap where
  "spin = \<lparr>nodes =
     [state 0 [] StateCompound None [1] (Some 1) [],
      state 1 ''p'' StateCompound (Some 0) [2] (Some 2) [0],
      state 2 ''p.f'' StateFinal (Some 1) [] None []],
     edges = [edge 1 ''done.state.p'' [1] 0]\<rparr>"

definition spinning :: "(unit, string, unit) engine \<Rightarrow> bool" where
  "spinning e \<longleftrightarrow>
     Root (engDef e) = 0 \<and> engCfg e = [0, 1, 2] \<and> pendingExternal e = None
     \<and> internalQueue e = [\<lparr>descriptor = ''done.state.p'', payload = None, hasPayload = False\<rparr>]
     \<and> engStatus e = StatusRunning"

lemma spinning_step:
  assumes "spinning e"
  shows "\<exists>e' ms. engine_step spin 4 e = Some (e', Some ms) \<and> spinning (commit ms e')"
proof -
  define g where "g = engine_step spin 4 e"
  obtain i ix ac gc x h f gd n r l er where e:
    "e = \<lparr>engDef = \<lparr>DefID = i, Root = 0, index = ix, ActionCount = ac, GuardCount = gc\<rparr>,
          engCfg = [0, 1, 2], engCtx = x, engHist = h,
          internalQueue = [\<lparr>descriptor = ''done.state.p'', payload = None, hasPayload = False\<rparr>],
          pendingExternal = None, applyAction = f, evalGuard = gd, alwaysLimit = n, alwaysRun = r,
          engStatus = StatusRunning, errReason = er, lastEvt = l\<rparr>"
    using assms by (cases e, cases "engDef e") (auto simp: spinning_def)
  have "case g of Some (e', Some ms) \<Rightarrow> True | _ \<Rightarrow> False"
    unfolding g_def e by code_simp
  then obtain e' ms where g: "g = Some (e', Some ms)"
    by (auto split: option.splits)
  then have c: "commit ms e' = stepped spin 4 e"
    by (simp add: stepped_def g_def)
  have "engCfg (stepped spin 4 e) = [0, 1, 2]" "pendingExternal (stepped spin 4 e) = None"
    "engStatus (stepped spin 4 e) = StatusRunning" "Root (engDef (stepped spin 4 e)) = 0"
    "internalQueue (stepped spin 4 e) = [\<lparr>descriptor = ''done.state.p'', payload = None, hasPayload = False\<rparr>]"
    unfolding e by code_simp+
  then have "spinning (commit ms e')"
    by (simp only: spinning_def c simp_thms)
  then show ?thesis
    using g by (auto simp: g_def)
qed

lemma spinning_never_ends:
  fixes a :: "('w, unit, string, unit) actor"
  assumes "spinning (eng a)" and "transitionObs (conf a) = []"
  shows "runMacrostep spin 4 a = None"
proof (rule ccontr)
  assume "runMacrostep spin 4 a \<noteq> None"
  then obtain b ok where run: "runMacrostep spin 4 a = Some (b, ok)"
    by auto
  have go: "\<exists>ms. m = Some ms \<and> spinning (commit ms e') \<and> engStatus (commit ms e') = StatusRunning"
    if "spinning e" "engine_step spin 4 e = Some (e', m)" for e e' m
    using spinning_step [OF that(1)] that(2) by (auto simp: spinning_def)
  have exec: "\<exists>a1. execMicrostep spin ms x = (a1, True)" if "transitionObs (conf x) = []"
    for ms and x :: "('w, unit, string, unit) actor"
    using that by (auto simp: execMicrostep_def Let_def)
  show False
    using run
  proof (rule runMacrostep_rule [where I = "\<lambda>x. spinning (eng x) \<and> transitionObs (conf x) = []" and Q = "\<lambda>_ _. False"])
    show "spinning (eng a) \<and> transitionObs (conf a) = []"
      using assms by simp
  next
    fix x a1 :: "('w, unit, string, unit) actor" and e' ms
    assume "spinning (eng x) \<and> transitionObs (conf x) = []" and "engine_step spin 4 (eng x) = Some (e', Some ms)"
      and "execMicrostep spin ms (x\<lparr>eng := e'\<rparr>) = (a1, True)"
    then show "spinning (eng a1) \<and> transitionObs (conf a1) = []"
      using go exec_result(1,3) [of spin ms "x\<lparr>eng := e'\<rparr>" a1] by fastforce
  next
    fix x a1 :: "('w, unit, string, unit) actor" and e' ms
    assume "spinning (eng x) \<and> transitionObs (conf x) = []" and "engine_step spin 4 (eng x) = Some (e', Some ms)"
      and "execMicrostep spin ms (x\<lparr>eng := e'\<rparr>) = (a1, True)" and "Terminal (engStatus (eng a1))"
    then show False
      using go exec_result(3) [of spin ms "x\<lparr>eng := e'\<rparr>" a1] by fastforce
  next
    fix x a1 :: "('w, unit, string, unit) actor" and e' ms
    assume "spinning (eng x) \<and> transitionObs (conf x) = []" and "engine_step spin 4 (eng x) = Some (e', Some ms)"
      and "execMicrostep spin ms (x\<lparr>eng := e'\<rparr>) = (a1, False)"
    then show False
      using exec [of "x\<lparr>eng := e'\<rparr>" ms] by simp
  qed (use go in blast)+
qed

text \<open>
  C12. On a sound chart the eventless microsteps of a macrostep are bounded, so a macrostep that
  does not return takes internal events without end: for every number there is a prefix of it
  with more event-triggered microsteps than that. Such machines exist and nothing stops them: one
  whose only state completes on entry and is entered again by its completion event never leaves
  the first macrostep, so its goroutine never looks at the cancellation that \<open>Close\<close> asks for.
\<close>

theorem macrostep_spins_on_events:
  assumes "sound_chart H" and "length (nodes H) < k" and "engine_ok H (eng a)"
    and "0 \<le> alwaysRun (eng a)" and "alwaysRun (eng a) \<le> alwaysLimit (eng a)"
  shows "(runMacrostep H k a = None \<longrightarrow> (\<forall>n. \<exists>m. n < length (filter id (macro_trace H k m a))))
         \<and> sound_chart spin \<and> bootLoop spin 4 (sample_actor spin) = None"
proof -
  let ?l = "alwaysLimit (eng a)"
  have long: "n < length (filter id (macro_trace H k m a))" if "runMacrostep H k a = None" "m = nat ((?l + 1) * (int n + 1))"
    for n m
  proof (rule ccontr)
    let ?t = "int (length (filter id (macro_trace H k m a)))"
    assume "\<not> n < length (filter id (macro_trace H k m a))"
    then have "(?l + 1) * ?t \<le> (?l + 1) * int n"
      using assms(4,5) by (intro mult_left_mono) simp_all
    moreover have "int m \<le> (?l + 1) * ?t + ?l - alwaysRun (eng a)"
      using trace_budget [OF assms(4,5), of H k m] ended_trace_returns [OF assms(1,2,3), of m] that(1)
      by (smt (verit) not_less of_nat_le_iff)
    moreover have "int m = (?l + 1) * int n + ?l + 1"
      using that(2) assms(4,5) by (simp add: algebra_simps)
    ultimately show False
      using assms(4) by simp
  qed
  have boot: "bootLoop spin 4 (sample_actor spin) = None"
  proof -
    have "case engine_start spin 4 (eng (sample_actor spin)) of None \<Rightarrow> False | Some (e', ms) \<Rightarrow> spinning (commit ms e')"
      by code_simp
    then obtain e' ms where st: "engine_start spin 4 (eng (sample_actor spin)) = Some (e', ms)"
      "spinning (commit ms e')"
      by (auto split: option.splits)
    have none: "transitionObs (conf (sample_actor spin)) = []"
      by (simp add: sample_actor_def Start_def sample_machine_def NewMachine_def Let_def)
    then obtain b where b: "execMicrostep spin ms ((sample_actor spin)\<lparr>eng := e'\<rparr>) = (b, True)"
      by (auto simp: execMicrostep_def Let_def)
    then have "eng b = commit ms e'" "conf b = conf (sample_actor spin)"
      using exec_result(1,3) [OF b] by simp_all
    then have "runMacrostep spin 4 b = None" "\<not> Terminal (engStatus (eng b))"
      using spinning_never_ends [of b] st(2) none by (simp_all add: spinning_def)
    then show ?thesis
      using st(1) b by (simp add: bootLoop_def Let_def)
  qed
  have "sound_chart spin"
    by code_simp
  then show ?thesis
    using long boot by blast
qed

text \<open>The spinning machine, just after its initial entry, is such a macrostep.\<close>

definition spin_actor :: "(sample_world, unit, string, unit) actor" where
  "spin_actor = (sample_actor spin)\<lparr>eng := started spin 4 (eng (sample_actor spin))\<rparr>"

theorem macrostep_spins_on_events_witness:
  "\<exists>m. 1000 < length (filter id (macro_trace spin 4 m spin_actor))"
proof -
  have S: "sound_chart spin" and k: "length (nodes spin) < 4"
    by code_simp+
  have new: "engine_new (eng (sample_actor spin))"
    by (simp add: engine_new_def sample_actor_def Start_def sample_machine_def NewMachine_def Let_def newEngine_def
        NewDefinition_def newConfiguration_def)
  have "engine_ok spin (started spin 4 (eng (sample_actor spin)))"
    by (rule run_ok [OF S new k run_started]) code_simp
  then have ok: "engine_ok spin (eng spin_actor)"
    by (simp add: spin_actor_def)
  have "spinning (eng spin_actor)" and run: "0 \<le> alwaysRun (eng spin_actor)" "alwaysRun (eng spin_actor) \<le> alwaysLimit (eng spin_actor)"
    by code_simp+
  moreover have "transitionObs (conf spin_actor) = []"
    by (simp add: spin_actor_def sample_actor_def Start_def sample_machine_def NewMachine_def Let_def)
  ultimately have "runMacrostep spin 4 spin_actor = None"
    by (intro spinning_never_ends)
  then show ?thesis
    using macrostep_spins_on_events [OF S k ok run] by blast
qed

end
