(* ===== verification/Channels.thy ===== *)
theory Channels
  imports Prelude
begin

section \<open>Channels\<close>

text \<open>
  The contract of a buffered Go channel, which the mailbox of an actor, the queue of a subscriber
  and the receive channel of a callback share: first in, first out, and a send waits when as many
  values are inside as the capacity allows.
\<close>

datatype 'a traffic = Sent 'a | Received 'a

fun sent :: "'a traffic list \<Rightarrow> 'a list" where
  "sent [] = []"
| "sent (Sent x # ts) = x # sent ts"
| "sent (Received x # ts) = sent ts"

fun received :: "'a traffic list \<Rightarrow> 'a list" where
  "received [] = []"
| "received (Sent x # ts) = received ts"
| "received (Received x # ts) = x # received ts"

text \<open>What happens at a channel in a run; \<open>None\<close> when it cannot happen.\<close>

fun carries :: "('a \<Rightarrow> 's \<Rightarrow> 's option) \<Rightarrow> ('s \<Rightarrow> ('a \<times> 's) option) \<Rightarrow> 'a traffic list \<Rightarrow> 's \<Rightarrow> 's option" where
  "carries put get [] s = Some s"
| "carries put get (Sent x # ts) s = (case put x s of None \<Rightarrow> None | Some s' \<Rightarrow> carries put get ts s')"
| "carries put get (Received x # ts) s =
     (case get s of None \<Rightarrow> None | Some (y, s') \<Rightarrow> if y = x then carries put get ts s' else None)"

locale channel =
  fixes content :: "'s \<Rightarrow> 'a list" and cap :: "'s \<Rightarrow> int"
    and put :: "'a \<Rightarrow> 's \<Rightarrow> 's option" and get :: "'s \<Rightarrow> ('a \<times> 's) option"
  assumes put_content: "put x s = Some s' \<Longrightarrow> content s' = content s @ [x]"
    and put_cap: "put x s = Some s' \<Longrightarrow> cap s' = cap s"
    and put_waits: "put x s = None \<longleftrightarrow> cap s \<le> int (length (content s))"
    and get_content: "get s = Some (x, s') \<Longrightarrow> content s = x # content s'"
    and get_cap: "get s = Some (x, s') \<Longrightarrow> cap s' = cap s"
    and get_waits: "get s = None \<longleftrightarrow> content s = []"
begin

lemma put_bounded: "put x s = Some s' \<Longrightarrow> int (length (content s')) \<le> cap s'"
  using put_content [of x s s'] put_cap [of x s s'] put_waits [of x s] by auto

lemma get_bounded: "get s = Some (x, s') \<Longrightarrow> int (length (content s)) \<le> cap s \<Longrightarrow> int (length (content s')) \<le> cap s'"
  using get_content [of s x s'] get_cap [of s x s'] by simp

text \<open>What comes out is what was inside and what was sent, in order, and the rest is inside.\<close>

lemma fifo: "carries put get ts s = Some s' \<Longrightarrow> content s @ sent ts = received ts @ content s'"
proof (induction ts arbitrary: s)
  case (Cons t ts)
  then show ?case
    using put_content get_content by (cases t) (fastforce split: option.splits if_splits prod.splits)+
qed simp

lemma stays_bounded:
  "carries put get ts s = Some s' \<Longrightarrow> int (length (content s)) \<le> cap s \<Longrightarrow>
     int (length (content s')) \<le> cap s' \<and> cap s' = cap s"
proof (induction ts arbitrary: s)
  case (Cons t ts)
  then show ?case
    using put_bounded put_cap get_bounded get_cap
    by (cases t) (fastforce split: option.splits if_splits prod.splits)+
qed simp

text \<open>A channel that has room is never both unable to give and unable to take.\<close>

lemma never_both_wait: "0 < cap s \<Longrightarrow> put x s \<noteq> None \<or> get s \<noteq> None"
  using put_waits [of x s] get_waits [of s] by auto

end

end
