(* ===== verification/Machine_Handle.thy ===== *)
theory Machine_Handle
  imports Machine_Props
begin

section \<open>The handle: the methods of \<open>Machine\<close> as their callers see them\<close>

text \<open>
  A caller holds one \<open>*Machine\<close> before and after \<open>Start\<close>; every method first asks in which
  of the two it is. Methods that wait are split where they wait: a call in progress is a
  value of \<open>call\<close>, and \<open>call_step\<close> lists what the \<open>select\<close> it stands at may do next, the
  empty list when it has to wait. \<open>ctx\<close> is what \<open>ctx.Err()\<close> returns, \<open>None\<close> while the
  context is alive.
\<close>

datatype ('w, 'c, 'e, 'b) handle =
    Unstarted "('w, 'c, 'e, 'b) Machine"
  | Started "('w, 'c, 'e, 'b) actor"

definition stopped :: "('w, 'c, 'e, 'b) actor \<Rightarrow> bool" where
  "stopped a = isDone a"

fun handle_Start :: "string \<Rightarrow> 'w \<Rightarrow> ('w, 'c, 'e, 'b) handle \<Rightarrow> ('w, 'c, 'e, 'b) handle \<times> error option" where
  "handle_Start address w (Unstarted m) = (Started (Start address m w), None)"
| "handle_Start address w (Started a) = (Started a, Some ErrAlreadyStarted)"

fun handle_AddObserver :: "('w, 'c, 'e) anyObserver \<Rightarrow> ('w, 'c, 'e, 'b) handle \<Rightarrow> ('w, 'c, 'e, 'b) handle" where
  "handle_AddObserver ob (Unstarted m) = Unstarted (AddObserver ob m)"
| "handle_AddObserver ob (Started a) = Started a"

fun handle_RegisterInvoke ::
  "string \<Rightarrow> ('w, 'c, 'e, 'b) InvokeRunner \<Rightarrow> ('w, 'c, 'e, 'b) handle \<Rightarrow> ('w, 'c, 'e, 'b) handle" where
  "handle_RegisterInvoke i r (Unstarted m) = Unstarted (RegisterInvoke i r m)"
| "handle_RegisterInvoke i r (Started a) = Started a"

fun handle_SetInitialContext :: "'c \<Rightarrow> ('w, 'c, 'e, 'b) handle \<Rightarrow> ('w, 'c, 'e, 'b) handle" where
  "handle_SetInitialContext c (Unstarted m) = Unstarted (SetInitialContext c m)"
| "handle_SetInitialContext c (Started a) = Started a"

fun handle_Snapshot :: "('w, 'c, 'e, 'b) handle \<Rightarrow> 'c Snapshot" where
  "handle_Snapshot (Unstarted m) = Snapshot_before m"
| "handle_Snapshot (Started a) = snap a"

fun handle_Address :: "('w, 'c, 'e, 'b) handle \<Rightarrow> ActorAddress" where
  "handle_Address (Unstarted m) = []"
| "handle_Address (Started a) = addr a"

fun handle_Definition :: "('w, 'c, 'e, 'b) handle \<Rightarrow> Definition" where
  "handle_Definition (Unstarted m) = mDef m"
| "handle_Definition (Started a) = mDef (conf a)"

fun handle_TrySend :: "'e \<Rightarrow> ('w, 'c, 'e, 'b) handle \<Rightarrow> ('w, 'c, 'e, 'b) handle \<times> error option" where
  "handle_TrySend evt (Unstarted m) = (Unstarted m, Some ErrActorStopped)"
| "handle_TrySend evt (Started a) = (let (a', err) = TrySend evt a in (Started a', err))"

text \<open>The outcomes of \<open>Send\<close>; when several are ready, \<open>select\<close> takes any of them.\<close>

fun handle_Send ::
  "error option \<Rightarrow> 'e \<Rightarrow> ('w, 'c, 'e, 'b) handle \<Rightarrow> (('w, 'c, 'e, 'b) handle \<times> error option) list" where
  "handle_Send ctx evt (Unstarted m) = [(Unstarted m, Some ErrActorStopped)]"
| "handle_Send ctx evt (Started a) =
     (if stopped a then [(Started a, Some ErrActorStopped)]
      else (case ctx of None \<Rightarrow> [] | Some e \<Rightarrow> [(Started a, Some e)])
           @ (case Send evt a of None \<Rightarrow> [] | Some (a', err) \<Rightarrow> [(Started a', err)]))"

text \<open>The subscription channel is unbuffered: the loop takes the subscriber or has ended.\<close>

fun handle_Subscribe :: "'c subscriber \<Rightarrow> ('w, 'c, 'e, 'b) handle \<Rightarrow> ('w, 'c, 'e, 'b) handle" where
  "handle_Subscribe s (Unstarted m) = Unstarted (Subscribe_before s m)"
| "handle_Subscribe s (Started a) = Started (if isDone a then a else addSub s a)"

subsection \<open>Calls that wait\<close>

datatype call =
    Closing "error option"
  | DrainPosting
  | DrainWaiting
  | PingPosting
  | PingWaiting nat
  | Returned "error option"

definition loopCancel :: "('w, 'c, 'e, 'b) actor \<Rightarrow> ('w, 'c, 'e, 'b) actor" where
  "loopCancel a = a\<lparr>loopCancelled := True\<rparr>"

text \<open>\<open>hardClose\<close>, and \<open>Close\<close> on a started machine, cancel the loop and wait for its end.\<close>

definition hardClose :: "error option \<Rightarrow> ('w, 'c, 'e, 'b) actor \<Rightarrow> ('w, 'c, 'e, 'b) actor \<times> call" where
  "hardClose cause a = (loopCancel a, Closing cause)"

fun handle_Close :: "('w, 'c, 'e, 'b) handle \<Rightarrow> ('w, 'c, 'e, 'b) handle \<times> call" where
  "handle_Close (Unstarted m) = (Unstarted m, Returned None)"
| "handle_Close (Started a) = (let (a', c) = hardClose None a in (Started a', c))"

fun handle_CloseAfterDrain :: "('w, 'c, 'e, 'b) handle \<Rightarrow> call" where
  "handle_CloseAfterDrain (Unstarted m) = Returned None"
| "handle_CloseAfterDrain (Started a) = (if stopped a then Returned None else DrainPosting)"

fun handle_Settle :: "('w, 'c, 'e, 'b) handle \<Rightarrow> call" where
  "handle_Settle (Unstarted m) = Returned (Some ErrActorStopped)"
| "handle_Settle (Started a) = PingPosting"

text \<open>A new acknowledgement channel: one that is neither in the mailbox nor answered.\<close>

fun ackOf :: "'e inboxItem \<Rightarrow> nat list" where
  "ackOf (Ack i) = [i]"
| "ackOf _ = []"

definition freshAck :: "('w, 'c, 'e, 'b) actor \<Rightarrow> nat" where
  "freshAck a = Suc (foldr max (concat (map ackOf (mailbox a)) @ map fst (acks a)) 0)"

definition whenDone :: "('w, 'c, 'e, 'b) actor \<Rightarrow> (('w, 'c, 'e, 'b) actor \<times> call) list" where
  "whenDone a = (if isDone a then [(a, Returned None)] else [])"

fun call_step ::
  "error option \<Rightarrow> call \<Rightarrow> ('w, 'c, 'e, 'b) actor \<Rightarrow> (('w, 'c, 'e, 'b) actor \<times> call) list" where
  "call_step ctx (Closing cause) a = (if isDone a then [(a, Returned cause)] else [])"
| "call_step ctx DrainPosting a =
     map (\<lambda>a'. (a', DrainWaiting)) (post DrainClose a) @ whenDone a
     @ (case ctx of None \<Rightarrow> [] | Some e \<Rightarrow> [hardClose (Some e) a])"
| "call_step ctx DrainWaiting a =
     whenDone a @ (case ctx of None \<Rightarrow> [] | Some e \<Rightarrow> [hardClose (Some e) a])"
| "call_step ctx PingPosting a =
     whenDone a @ (case ctx of None \<Rightarrow> [] | Some e \<Rightarrow> [(a, Returned (Some e))])
     @ map (\<lambda>a'. (a', PingWaiting (freshAck a))) (post (Ack (freshAck a)) a)"
| "call_step ctx (PingWaiting i) a =
     (case map_of (acks a) i of None \<Rightarrow> [] | Some idle \<Rightarrow> [(a, if idle then Returned None else PingPosting)])
     @ whenDone a @ (case ctx of None \<Rightarrow> [] | Some e \<Rightarrow> [(a, Returned (Some e))])"
| "call_step ctx (Returned r) a = []"

declare stopped_def [gomodel] loopCancel_def [gomodel] hardClose_def [gomodel] freshAck_def [gomodel]
  whenDone_def [gomodel]

text \<open>A call in progress, interleaved with the loop and with everybody else.\<close>

inductive call_run ::
  "heap \<Rightarrow> nat \<Rightarrow> ('w, 'c, 'e, 'b) actor \<times> call \<Rightarrow> ('w, 'c, 'e, 'b) actor \<times> call \<Rightarrow> bool"
  for H k s where
  call_begin: "call_run H k s s"
| others: "call_run H k s (a, c) \<Longrightarrow> actor_step H k a a' \<Longrightarrow> call_run H k s (a', c)"
| own: "call_run H k s (a, c) \<Longrightarrow> (a', c') \<in> set (call_step ctx c a) \<Longrightarrow> call_run H k s (a', c')"

subsection \<open>What the loop does to the acknowledgements\<close>

definition keeps :: "('w, 'c, 'e, 'b) actor \<Rightarrow> ('w, 'c, 'e, 'b) actor \<Rightarrow> bool" where
  "keeps a b \<longleftrightarrow> conf b = conf a \<and> addr b = addr a \<and> acks b = acks a"

lemma keeps_trans: "keeps a b \<Longrightarrow> keeps b c \<Longrightarrow> keeps a c"
  by (simp add: keeps_def)

lemma keeps_public: "same_public a b \<Longrightarrow> keeps a b"
  by (simp add: keeps_def same_public_def)

lemma keeps_offer: "keeps a (offerItem it a)"
  by (cases it) (simp_all add: keeps_def offerItem_def)

lemma keeps_exec: "execMicrostep H ms a = (b, ok) \<Longrightarrow> keeps a b"
proof (cases ok)
  case True
  assume "execMicrostep H ms a = (b, ok)"
  then show ?thesis
    using True exec_result [of H ms a b] by (simp add: keeps_def)
next
  case False
  assume "execMicrostep H ms a = (b, ok)"
  then have "execMicrostep H ms a = (b, False)"
    using False by simp
  then show ?thesis
    by (rule abort_result) (simp add: keeps_def)
qed

lemma keeps_macro: "runMacrostep H k a = Some (b, ok) \<Longrightarrow> keeps a b"
proof -
  assume run: "runMacrostep H k a = Some (b, ok)"
  have refl: "keeps a a"
    by (simp add: keeps_def)
  show ?thesis
  proof (rule runMacrostep_rule [where I = "keeps a" and Q = "\<lambda>x _. keeps a x", OF run refl])
    fix x e' ms a1
    assume a: "keeps a x"
    then have e: "keeps a (x\<lparr>eng := e'\<rparr>)"
      by (simp add: keeps_def)
    show "execMicrostep H ms (x\<lparr>eng := e'\<rparr>) = (a1, True) \<Longrightarrow> keeps a a1"
      "execMicrostep H ms (x\<lparr>eng := e'\<rparr>) = (a1, True) \<Longrightarrow> keeps a a1"
      "execMicrostep H ms (x\<lparr>eng := e'\<rparr>) = (a1, False) \<Longrightarrow> keeps a a1"
      using e keeps_exec keeps_trans by blast+
    show "keeps a (x\<lparr>eng := e'\<rparr>)"
      by (rule e)
    show "keeps a (publishTerminalError (errReason e') (x\<lparr>eng := e'\<rparr>))"
      using e by (simp add: keeps_def publishTerminalError_def Let_def)
  qed
qed

lemma shutdown_keeps: "keeps a (shutdown a)" "isDone (shutdown a)"
proof -
  let ?c = "fold (\<lambda>p. stopChild (snd p)) (children a) (a\<lparr>loopCancelled := True\<rparr>)"
  have "same_public (a\<lparr>loopCancelled := True\<rparr>) ?c"
    by (rule stopChildren_public)
  then show "keeps a (shutdown a)" "isDone (shutdown a)"
    by (simp_all add: keeps_def shutdown_def Let_def closeSubs_def stopTimers_def same_public_def)
qed

lemma keeps_reconcile: "reconcileInvokes H a = Some b \<Longrightarrow> keeps a b"
  by (rule keeps_public) (rule reconcile_public)

lemma keeps_macro_then:
  assumes "runMacrostep H k (offerItem it a) = Some (c, ok)"
    and "(if \<not> ok then Some (shutdown c) else reconcileInvokes H c) = Some b"
  shows "keeps a b"
  using keeps_offer [of a it] keeps_macro [OF assms(1)] shutdown_keeps(1) [of c] keeps_reconcile [of H c b] assms(2)
  by (cases ok) (auto intro: keeps_trans)

lemma drain_conf: "drainAndClose H k q a = Some b \<Longrightarrow> isDone b \<and> conf b = conf a \<and> addr b = addr a"
proof (induction q arbitrary: a)
  case Nil
  then show ?case
    using shutdown_keeps [of "a\<lparr>mailbox := []\<rparr>"] by (auto simp: keeps_def)
next
  case (Cons it q)
  have step: "isDone b \<and> conf b = conf a \<and> addr b = addr a"
    if run: "(case runMacrostep H k (offerItem it (a\<lparr>mailbox := q\<rparr>)) of None \<Rightarrow> None
       | Some (a', ok) \<Rightarrow> if \<not> ok then Some (shutdown a') else drainAndClose H k q a') = Some b"
  proof -
    obtain c ok where c: "runMacrostep H k (offerItem it (a\<lparr>mailbox := q\<rparr>)) = Some (c, ok)"
      "(if \<not> ok then Some (shutdown c) else drainAndClose H k q c) = Some b"
      using run by (auto split: option.splits prod.splits)
    then show ?thesis
      using Cons.IH [of c] shutdown_keeps [of c] keeps_macro [OF c(1)] keeps_offer [of "a\<lparr>mailbox := q\<rparr>" it]
      by (cases ok) (auto simp: keeps_def)
  qed
  show ?case
    using Cons.prems step Cons.IH by (cases it) (auto simp: Let_def)
qed

text \<open>An acknowledgement says \<open>True\<close> only when the mailbox is empty at that moment.\<close>

lemma handle_acks:
  assumes "handleItem H k a = Some b"
  shows "conf b = conf a" and "addr b = addr a"
    and "(i, True) \<in> set (acks b) \<Longrightarrow> (i, True) \<in> set (acks a) \<or> mailbox b = [] \<or> isDone b"
proof -
  have "conf b = conf a \<and> addr b = addr a
    \<and> ((i, True) \<in> set (acks b) \<longrightarrow> (i, True) \<in> set (acks a) \<or> mailbox b = [] \<or> isDone b)"
  proof (cases "mailbox a")
    case Nil
    then show ?thesis
      using assms by (simp add: handleItem_def)
  next
    case (Cons it rest)
    have macro: ?thesis
      if run: "(case runMacrostep H k (offerItem it (a\<lparr>mailbox := rest\<rparr>)) of None \<Rightarrow> None
       | Some (a', ok) \<Rightarrow> if \<not> ok then Some (shutdown a') else reconcileInvokes H a') = Some b"
    proof -
      obtain c ok where "runMacrostep H k (offerItem it (a\<lparr>mailbox := rest\<rparr>)) = Some (c, ok)"
        "(if \<not> ok then Some (shutdown c) else reconcileInvokes H c) = Some b"
        using run by (auto split: option.splits prod.splits)
      then have "keeps (a\<lparr>mailbox := rest\<rparr>) b"
        by (rule keeps_macro_then)
      then show ?thesis
        by (simp add: keeps_def)
    qed
    show ?thesis
    proof (cases it)
      case (Ack j)
      then show ?thesis
        using assms Cons by (auto simp: handleItem_def)
    next
      case DrainClose
      then show ?thesis
        using assms Cons drain_conf [of H k rest "a\<lparr>mailbox := rest\<rparr>" b] by (simp add: handleItem_def)
    qed (use assms Cons macro in \<open>auto simp: handleItem_def Let_def\<close>)
  qed
  then show "conf b = conf a" and "addr b = addr a"
    and "(i, True) \<in> set (acks b) \<Longrightarrow> (i, True) \<in> set (acks a) \<or> mailbox b = [] \<or> isDone b"
    by auto
qed

lemma step_acks:
  assumes "actor_step H k a b"
  shows "conf b = conf a \<and> addr b = addr a \<and> (isDone a \<longrightarrow> isDone b)
    \<and> ((i, True) \<in> set (acks b) \<longrightarrow> (i, True) \<in> set (acks a) \<or> mailbox b = [] \<or> isDone b)"
  using assms
proof cases
  case handle
  then show ?thesis
    using handle_acks [OF handle(2)] by simp
next
  case cancel
  then show ?thesis
    using shutdown_keeps [of a] by (simp add: keeps_def)
qed (auto simp: Send_def TrySend_def enqueue_def post_def fireTimer_def addSub_def removeSub_def split: if_splits)

subsection \<open>Waiting calls\<close>

lemma fold_max_le: "foldr max ns (0::nat) < m \<Longrightarrow> n \<in> set ns \<Longrightarrow> n < m"
  by (induction ns) auto

lemma freshAck_fresh: "(freshAck a, b) \<notin> set (acks a)" "map_of (acks a) (freshAck a) = None"
proof -
  have less: "i < freshAck a" if "i \<in> fst ` set (acks a)" for i
    by (rule fold_max_le [of "concat (map ackOf (mailbox a)) @ map fst (acks a)"]) (use that in \<open>auto simp: freshAck_def\<close>)
  then show "(freshAck a, b) \<notin> set (acks a)"
    by force
  show "map_of (acks a) (freshAck a) = None"
    using less by (force simp: map_of_eq_None_iff)
qed

lemma call_step_actor:
  assumes "(b, c') \<in> set (call_step ctx c a)"
  shows "actor_step H k a b \<or> b = a" and "acks b = acks a" and "isDone b = isDone a"
proof -
  have en: "actor_step H k a x" if "x \<in> set (post it a)" for x it
    by (rule actor_step.enqueue [where it = it]) (use that in \<open>simp add: enqueue_def\<close>)
  show "actor_step H k a b \<or> b = a"
    using assms by (cases c) (auto simp: hardClose_def loopCancel_def whenDone_def intro: actor_step.close en
        split: option.splits if_splits)
  show "acks b = acks a" "isDone b = isDone a"
    using assms by (cases c; auto simp: hardClose_def loopCancel_def whenDone_def post_def split: option.splits if_splits)+
qed

text \<open>At some moment between \<open>a\<close> and \<open>b\<close> nothing was waiting in the mailbox, or the actor had ended.\<close>

definition idle_between :: "heap \<Rightarrow> nat \<Rightarrow> ('w, 'c, 'e, 'b) actor \<Rightarrow> ('w, 'c, 'e, 'b) actor \<Rightarrow> bool" where
  "idle_between H k a b \<longleftrightarrow>
     (\<exists>m. (actor_step H k)\<^sup>*\<^sup>* a m \<and> (actor_step H k)\<^sup>*\<^sup>* m b \<and> (mailbox m = [] \<or> isDone m))"

lemma idle_between_step: "idle_between H k a b \<Longrightarrow> (actor_step H k)\<^sup>*\<^sup>* b c \<Longrightarrow> idle_between H k a c"
  unfolding idle_between_def by (meson rtranclp_trans)

lemma idle_now: "(actor_step H k)\<^sup>*\<^sup>* a b \<Longrightarrow> mailbox b = [] \<or> isDone b \<Longrightarrow> idle_between H k a b"
  unfolding idle_between_def by blast

definition settling :: "heap \<Rightarrow> nat \<Rightarrow> ('w, 'c, 'e, 'b) actor \<Rightarrow> ('w, 'c, 'e, 'b) actor \<times> call \<Rightarrow> bool" where
  "settling H k a s =
     (case s of (b, c) \<Rightarrow>
        (actor_step H k)\<^sup>*\<^sup>* a b \<and>
        (case c of
           PingPosting \<Rightarrow> True
         | PingWaiting i \<Rightarrow> (i, True) \<in> set (acks b) \<longrightarrow> idle_between H k a b
         | Returned None \<Rightarrow> idle_between H k a b
         | Returned (Some e) \<Rightarrow> True
         | _ \<Rightarrow> False))"

lemma settling_run:
  assumes "call_run H k (a, PingPosting) s"
  shows "settling H k a s"
  using assms
proof induction
  case call_begin
  then show ?case by (simp add: settling_def)
next
  case (others b c b')
  have path: "(actor_step H k)\<^sup>*\<^sup>* a b" "(actor_step H k)\<^sup>*\<^sup>* a b'" "(actor_step H k)\<^sup>*\<^sup>* b b'"
    using others.IH others.hyps(2) by (auto simp: settling_def intro: rtranclp.rtrancl_into_rtrancl)
  have "idle_between H k a b'" if "(i, True) \<in> set (acks b')" "(i, True) \<in> set (acks b) \<longrightarrow> idle_between H k a b" for i
    using that step_acks [OF others.hyps(2), of i] idle_between_step [OF _ path(3)] idle_now [OF path(2)] by blast
  moreover have "idle_between H k a b \<Longrightarrow> idle_between H k a b'"
    using path(3) by (rule idle_between_step [rotated])
  ultimately show ?case
    using others.IH path(2) by (auto simp: settling_def split: call.splits option.splits)
next
  case (own b c b' c' ctx)
  have path: "(actor_step H k)\<^sup>*\<^sup>* a b" "(actor_step H k)\<^sup>*\<^sup>* a b'"
    using own.IH call_step_actor(1) [OF own.hyps(2), of H k]
    by (auto simp: settling_def intro: rtranclp.rtrancl_into_rtrancl)
  have same: "acks b' = acks b" "isDone b' = isDone b"
    using call_step_actor(2,3) [OF own.hyps(2)] .
  have posted: "(freshAck b, True) \<notin> set (acks b')"
    using freshAck_fresh(1) [of b True] same by simp
  show ?case
  proof (cases c)
    case PingPosting
    then show ?thesis
      using own.hyps(2) path posted idle_now [OF path(2)]
      by (auto simp: settling_def whenDone_def split: option.splits if_splits)
  next
    case (PingWaiting i)
    then show ?thesis
      using own.IH own.hyps(2) path idle_now [OF path(2)] map_of_SomeD [of "acks b" i True]
      by (auto simp: settling_def whenDone_def split: option.splits if_splits)
  qed (use own.IH own.hyps(2) in \<open>auto simp: settling_def\<close>)
qed

definition closing :: "('w, 'c, 'e, 'b) actor \<times> call \<Rightarrow> bool" where
  "closing s =
     (case s of (b, c) \<Rightarrow>
        (case c of Returned r \<Rightarrow> isDone b | PingPosting \<Rightarrow> False | PingWaiting i \<Rightarrow> False | _ \<Rightarrow> True))"

lemma closing_run:
  assumes "call_run H k (a, c) s" and "c = DrainPosting \<or> c = Closing r"
  shows "closing s"
  using assms(1)
proof induction
  case call_begin
  then show ?case using assms(2) by (auto simp: closing_def)
next
  case (others b c b')
  then show ?case
    using step_acks [OF others.hyps(2)] by (auto simp: closing_def split: call.splits)
next
  case (own b c b' c' ctx)
  then show ?case
    using call_step_actor(3) [OF own.hyps(2)]
    by (cases c) (auto simp: closing_def whenDone_def hardClose_def split: option.splits if_splits)
qed

text \<open>
  C27. The waiting methods wait long enough: whatever the loop and other callers do meanwhile, when
  \<open>Settle\<close> returns without an error there was a moment during the call at which the mailbox
  was empty or the actor had ended, and \<open>Close\<close> and \<open>CloseAfterDrain\<close> return, with or without
  an error, only when the actor has ended.
\<close>

theorem waiting_calls:
  assumes "call_run H k (a, c) (b, Returned r)"
  shows "(c = PingPosting \<and> r = None \<longrightarrow>
            (\<exists>m. (actor_step H k)\<^sup>*\<^sup>* a m \<and> (actor_step H k)\<^sup>*\<^sup>* m b \<and> (mailbox m = [] \<or> isDone m)))
         \<and> (c = DrainPosting \<or> c = Closing r' \<longrightarrow> isDone b)"
  using settling_run [of H k a "(b, Returned r)"] closing_run [OF assms, of r'] assms
  by (auto simp: settling_def idle_between_def closing_def)

text \<open>A caller settles the demo actor after sending it an event.\<close>

theorem waiting_calls_witness:
  "\<exists>a b :: (sample_world, unit, string, unit) actor.
     call_run demo 14 (a, PingPosting) (b, Returned None) \<and> length (mailbox a) = 1 \<and> mailbox b = []
     \<and> (\<exists>m. (actor_step demo 14)\<^sup>*\<^sup>* a m \<and> (mailbox m = [] \<or> isDone m))"
proof -
  let ?a = "fst (TrySend ''E'' (booted demo 14 (sample_actor demo)))"
  let ?p = "hd (post (Ack (freshAck ?a)) ?a)"
  let ?h = "handled demo 14 (handled demo 14 ?p)"
  have go: "(?p, PingWaiting (freshAck ?a)) \<in> set (call_step None PingPosting ?a)"
  proof -
    have "post (Ack (freshAck ?a)) ?a \<noteq> []"
      by code_simp
    then have "?p \<in> set (post (Ack (freshAck ?a)) ?a)"
      by (rule hd_in_set)
    then show ?thesis
      by simp
  qed
  have loop: "\<not> isDone ?p" "handleItem demo 14 ?p \<noteq> None" "\<not> isDone (handled demo 14 ?p)"
    "handleItem demo 14 (handled demo 14 ?p) \<noteq> None"
    by code_simp+
  have ack: "map_of (acks ?h) (freshAck ?a) = Some True" and m: "length (mailbox ?a) = 1" "mailbox ?h = []"
    by code_simp+
  have step: "actor_step demo 14 x (handled demo 14 x)" if "\<not> isDone x" "handleItem demo 14 x \<noteq> None"
    for x :: "(sample_world, unit, string, unit) actor"
    using that by (auto simp: handled_def intro: actor_step.handle)
  have ret: "(?h, Returned None) \<in> set (call_step None (PingWaiting (freshAck ?a)) ?h)"
    using ack by simp
  have "call_run demo 14 (?a, PingPosting) (?p, PingWaiting (freshAck ?a))"
    by (rule own [OF call_begin go])
  then have "call_run demo 14 (?a, PingPosting) (handled demo 14 ?p, PingWaiting (freshAck ?a))"
    by (rule others) (rule step [OF loop(1,2)])
  then have "call_run demo 14 (?a, PingPosting) (?h, PingWaiting (freshAck ?a))"
    by (rule others) (rule step [OF loop(3,4)])
  then have run: "call_run demo 14 (?a, PingPosting) (?h, Returned None)"
    using ret by (rule own)
  then show ?thesis
    using waiting_calls [OF run] m by (intro exI [of _ ?a] exI [of _ ?h]) blast
qed

subsection \<open>Errors of the methods\<close>

datatype ('w, 'c, 'e, 'b) api =
    CallStart string 'w
  | CallAddObserver "('w, 'c, 'e) anyObserver"
  | CallRegisterInvoke string "('w, 'c, 'e, 'b) InvokeRunner"
  | CallSetInitialContext 'c
  | CallSubscribe "'c subscriber"
  | CallTrySend 'e
  | CallSend "error option" 'e

fun api_call :: "('w, 'c, 'e, 'b) api \<Rightarrow> ('w, 'c, 'e, 'b) handle \<Rightarrow> (('w, 'c, 'e, 'b) handle \<times> error option) list" where
  "api_call (CallStart address w) h = [handle_Start address w h]"
| "api_call (CallAddObserver ob) h = [(handle_AddObserver ob h, None)]"
| "api_call (CallRegisterInvoke i r) h = [(handle_RegisterInvoke i r h, None)]"
| "api_call (CallSetInitialContext c) h = [(handle_SetInitialContext c h, None)]"
| "api_call (CallSubscribe s) h = [(handle_Subscribe s h, None)]"
| "api_call (CallTrySend evt) h = [handle_TrySend evt h]"
| "api_call (CallSend ctx evt) h = handle_Send ctx evt h"

text \<open>The handle of an actor that differs from \<open>a\<close> in new mail and new subscribers only.\<close>

definition grows :: "('w, 'c, 'e, 'b) actor \<Rightarrow> ('w, 'c, 'e, 'b) handle \<Rightarrow> bool" where
  "grows a h \<longleftrightarrow> (\<exists>q ss. h = Started (a\<lparr>mailbox := mailbox a @ q, localSubs := localSubs a @ ss\<rparr>))"

lemma grows_intros [simp, intro]:
  "grows a (Started a)" "grows a (Started (a\<lparr>mailbox := mailbox a @ [it]\<rparr>))" "grows a (Started (addSub s a))"
proof -
  show "grows a (Started a)"
    unfolding grows_def by (intro exI [of _ "[]"]) simp
  show "grows a (Started (a\<lparr>mailbox := mailbox a @ [it]\<rparr>))"
    unfolding grows_def by (intro exI [of _ "[it]"] exI [of _ "[]"]) simp
  show "grows a (Started (addSub s a))"
    unfolding grows_def by (intro exI [of _ "[]"] exI [of _ "[s]"]) (simp add: addSub_def)
qed


end
