(* ===== verification/Machine_Subscribers.thy ===== *)
theory Machine_Subscribers
  imports Channels Machine_Handle
begin

section \<open>Subscribers: bounded queues and their goroutines\<close>

text \<open>
  \<open>Machine\<close> gives a subscriber everything published while it is subscribed. Here is how that
  gets there (\<open>notifySubs\<close>, \<open>removeSub\<close>, \<open>startDrain\<close> of \<open>machine.go\<close>, the select of its loop
  and the end of its shutdown): a channel per subscriber with the buffer asked for, on which the
  actor waits when it is full, and a goroutine that calls the function. The listener is any type
  \<open>'x\<close> of snapshots. Ghosts: what was put into the channel and what the function was called with.
\<close>

subsection \<open>The mailbox is a channel\<close>

definition mailbox_put :: "'e inboxItem \<Rightarrow> ('w, 'c, 'e, 'b) actor \<Rightarrow> ('w, 'c, 'e, 'b) actor option" where
  "mailbox_put it a = (case post it a of [] \<Rightarrow> None | a' # as \<Rightarrow> Some a')"

definition mailbox_get :: "('w, 'c, 'e, 'b) actor \<Rightarrow> ('e inboxItem \<times> ('w, 'c, 'e, 'b) actor) option" where
  "mailbox_get a = (case mailbox a of [] \<Rightarrow> None | it # its \<Rightarrow> Some (it, a\<lparr>mailbox := its\<rparr>))"

interpretation mailbox: channel mailbox "\<lambda>a. mMailboxCap (conf a)" mailbox_put mailbox_get
  by unfold_locales (auto simp: mailbox_put_def mailbox_get_def post_def split: list.splits if_splits)

subsection \<open>The state of a delivery\<close>

datatype 'x phase = Reading | InCall 'x | Leaving | Draining | Ended

record 'x delivery =
  dBuffer :: int
  dQueue :: "'x list"
  dClosed :: bool
  dCancelled :: bool
  dPhase :: "'x phase"
  dSent :: "'x list"
  dSeen :: "'x list"

definition newDelivery :: "int list \<Rightarrow> 'x delivery" where
  "newDelivery opts =
     \<lparr>dBuffer = applyBuffer opts, dQueue = [], dClosed = False, dCancelled = False, dPhase = Reading,
      dSent = [], dSeen = []\<rparr>"

definition queue_put :: "'x \<Rightarrow> 'x delivery \<Rightarrow> 'x delivery option" where
  "queue_put x d =
     (if int (length (dQueue d)) < dBuffer d then Some (d\<lparr>dQueue := dQueue d @ [x], dSent := dSent d @ [x]\<rparr>)
      else None)"

definition queue_get :: "'x delivery \<Rightarrow> ('x \<times> 'x delivery) option" where
  "queue_get d = (case dQueue d of [] \<Rightarrow> None | x # xs \<Rightarrow> Some (x, d\<lparr>dQueue := xs\<rparr>))"

interpretation queue: channel dQueue dBuffer queue_put queue_get
  by unfold_locales (auto simp: queue_put_def queue_get_def split: list.splits if_splits)

subsection \<open>The goroutine of \<open>startDrain\<close>\<close>

text \<open>
  \<open>Take\<close> is a receive in the first select or in the last loop, \<open>CallReturns\<close> the end of a call
  of the function, \<open>SeeCancel\<close> the second case of the first select.
\<close>

datatype drainMove = Take | CallReturns | SeeCancel

fun drain_step :: "drainMove \<Rightarrow> 'x delivery \<Rightarrow> 'x delivery option" where
  "drain_step Take d =
     (case (dPhase d, queue_get d) of
        (Reading, Some (x, d)) \<Rightarrow> Some (d\<lparr>dPhase := InCall x, dSeen := dSeen d @ [x]\<rparr>)
      | (Draining, Some (x, d)) \<Rightarrow> Some d
      | (p, None) \<Rightarrow> if dClosed d \<and> (p = Reading \<or> p = Draining) then Some (d\<lparr>dPhase := Ended\<rparr>) else None
      | _ \<Rightarrow> None)"
| "drain_step CallReturns d = (case dPhase d of InCall x \<Rightarrow> Some (d\<lparr>dPhase := Reading\<rparr>) | _ \<Rightarrow> None)"
| "drain_step SeeCancel d = (if dPhase d = Reading \<and> dCancelled d then Some (d\<lparr>dPhase := Leaving\<rparr>) else None)"

subsection \<open>The actor's side\<close>

text \<open>
  Where the actor is: at the select of its loop, busy with an item, in \<open>notifySubs\<close> with the
  subscribers still to be served, or past its shutdown.
\<close>

datatype 'x loopAt = AtSelect | Busy | Notifying 'x "nat list" | Over

record 'x feed =
  deliveries :: "nat \<Rightarrow> 'x delivery option"
  subs :: "nat list"
  loopAt :: "'x loopAt"
  toldTo :: "nat \<Rightarrow> 'x list"

text \<open>\<open>toldTo\<close> is a ghost: what \<open>Machine\<close> says the subscriber gets.\<close>

datatype 'x move =
    PickUp
  | Publish 'x
  | Push
  | BackToSelect
  | CloseAll
  | NewSub nat "int list"
  | CancelSub nat
  | Unsubscribe nat
  | SeeDone nat
  | Drain nat drainMove

definition onDelivery :: "nat \<Rightarrow> ('x delivery \<Rightarrow> 'x delivery option) \<Rightarrow> 'x feed \<Rightarrow> 'x feed option" where
  "onDelivery i f s =
     (case deliveries s i of
        None \<Rightarrow> None
      | Some d \<Rightarrow> map_option (\<lambda>d. s\<lparr>deliveries := (deliveries s)(i \<mapsto> d)\<rparr>) (f d))"

definition closeDelivery :: "'x delivery \<Rightarrow> 'x delivery" where
  "closeDelivery d = d\<lparr>dClosed := True\<rparr>"

fun feed_step :: "'x move \<Rightarrow> 'x feed \<Rightarrow> 'x feed option" where
  "feed_step PickUp s = (if loopAt s = AtSelect then Some (s\<lparr>loopAt := Busy\<rparr>) else None)"
| "feed_step (Publish x) s =
     (if loopAt s = Busy
      then Some (s\<lparr>loopAt := Notifying x (subs s), toldTo := (\<lambda>i. if i \<in> set (subs s) then toldTo s i @ [x] else toldTo s i)\<rparr>)
      else None)"
| "feed_step Push s =
     (case loopAt s of
        Notifying x [] \<Rightarrow> Some (s\<lparr>loopAt := Busy\<rparr>)
      | Notifying x (i # is) \<Rightarrow> map_option (\<lambda>s. s\<lparr>loopAt := Notifying x is\<rparr>) (onDelivery i (queue_put x) s)
      | _ \<Rightarrow> None)"
| "feed_step BackToSelect s = (if loopAt s = Busy then Some (s\<lparr>loopAt := AtSelect\<rparr>) else None)"
| "feed_step CloseAll s =
     (if loopAt s = Busy
      then Some (s\<lparr>deliveries := (\<lambda>i. if i \<in> set (subs s) then map_option closeDelivery (deliveries s i) else deliveries s i),
                   subs := [], loopAt := Over\<rparr>)
      else None)"
| "feed_step (NewSub i opts) s =
     (if loopAt s = AtSelect \<and> deliveries s i = None
      then Some (s\<lparr>deliveries := (deliveries s)(i \<mapsto> newDelivery opts), subs := subs s @ [i]\<rparr>)
      else None)"
| "feed_step (CancelSub i) s = onDelivery i (\<lambda>d. Some (d\<lparr>dCancelled := True\<rparr>)) s"
| "feed_step (Unsubscribe i) s =
     (if loopAt s = AtSelect
      then map_option (\<lambda>s. s\<lparr>subs := remove1 i (subs s)\<rparr>)
             (onDelivery i (\<lambda>d. if dPhase d = Leaving then Some (closeDelivery (d\<lparr>dPhase := Draining\<rparr>)) else None) s)
      else None)"
| "feed_step (SeeDone i) s =
     (if loopAt s = Over
      then onDelivery i (\<lambda>d. if dPhase d = Leaving then Some (d\<lparr>dPhase := Draining\<rparr>) else None) s
      else None)"
| "feed_step (Drain i m) s = onDelivery i (drain_step m) s"

fun feed_run :: "'x move list \<Rightarrow> 'x feed \<Rightarrow> 'x feed option" where
  "feed_run [] s = Some s"
| "feed_run (m # ms) s = (case feed_step m s of None \<Rightarrow> None | Some s' \<Rightarrow> feed_run ms s')"

text \<open>\<open>Start\<close> with the listeners queued before it; the actor boots.\<close>

definition feed_start :: "int list list \<Rightarrow> 'x feed" where
  "feed_start pre =
     \<lparr>deliveries = (\<lambda>i. if i < length pre then Some (newDelivery (pre ! i)) else None),
      subs = [0..<length pre], loopAt = Busy, toldTo = (\<lambda>_. [])\<rparr>"

declare newDelivery_def [gomodel] queue_put_def [gomodel] queue_get_def [gomodel] onDelivery_def [gomodel]
  closeDelivery_def [gomodel] feed_start_def [gomodel]

subsection \<open>What every delivery keeps\<close>

definition delivery_ok :: "'x delivery \<Rightarrow> bool" where
  "delivery_ok d \<longleftrightarrow>
     0 < dBuffer d \<and> int (length (dQueue d)) \<le> dBuffer d
     \<and> (dPhase d = Leaving \<or> dPhase d = Draining \<longrightarrow> dCancelled d)
     \<and> (dPhase d = Ended \<longrightarrow> dQueue d = [])
     \<and> (\<exists>lost. dSent d = dSeen d @ lost @ dQueue d
          \<and> (lost \<noteq> [] \<longrightarrow> dCancelled d \<and> (dPhase d = Draining \<or> dPhase d = Ended)))"

text \<open>A delivery that the actor serves is open, and its goroutine has not been let go.\<close>

definition served :: "'x delivery \<Rightarrow> bool" where
  "served d \<longleftrightarrow> \<not> dClosed d \<and> dPhase d \<noteq> Draining \<and> dPhase d \<noteq> Ended"

fun waiting :: "'x loopAt \<Rightarrow> nat \<Rightarrow> 'x list" where
  "waiting (Notifying x is) i = (if i \<in> set is then [x] else [])"
| "waiting _ i = []"

definition feed_ok :: "'x feed \<Rightarrow> bool" where
  "feed_ok s \<longleftrightarrow>
     distinct (subs s)
     \<and> (\<forall>i \<in> set (subs s). \<exists>d. deliveries s i = Some d \<and> served d)
     \<and> (\<forall>i. case deliveries s i of None \<Rightarrow> toldTo s i = [] | Some d \<Rightarrow> delivery_ok d \<and> toldTo s i = dSent d @ waiting (loopAt s) i)
     \<and> (\<forall>x is. loopAt s = Notifying x is \<longrightarrow> distinct is \<and> set is \<subseteq> set (subs s))
     \<and> (loopAt s = Over \<longrightarrow> subs s = [])"

lemma feed_okD:
  assumes "feed_ok s"
  shows "distinct (subs s)" and "\<And>i. i \<in> set (subs s) \<Longrightarrow> \<exists>d. deliveries s i = Some d \<and> served d"
    and "\<And>i. deliveries s i = None \<Longrightarrow> toldTo s i = []"
    and "\<And>i d. deliveries s i = Some d \<Longrightarrow> delivery_ok d \<and> toldTo s i = dSent d @ waiting (loopAt s) i"
    and "\<And>x is. loopAt s = Notifying x is \<Longrightarrow> distinct is \<and> set is \<subseteq> set (subs s)"
    and "loopAt s = Over \<Longrightarrow> subs s = []"
proof -
  have each: "case deliveries s i of None \<Rightarrow> toldTo s i = []
      | Some d \<Rightarrow> delivery_ok d \<and> toldTo s i = dSent d @ waiting (loopAt s) i" for i
    using assms unfolding feed_ok_def by blast
  show "toldTo s i = []" if "deliveries s i = None" for i
    using each [of i] that by simp
  show "delivery_ok d \<and> toldTo s i = dSent d @ waiting (loopAt s) i" if "deliveries s i = Some d" for i d
    using each [of i] that by simp
  show "distinct (subs s)" "\<And>i. i \<in> set (subs s) \<Longrightarrow> \<exists>d. deliveries s i = Some d \<and> served d"
    "\<And>x is. loopAt s = Notifying x is \<Longrightarrow> distinct is \<and> set is \<subseteq> set (subs s)" "loopAt s = Over \<Longrightarrow> subs s = []"
    using assms unfolding feed_ok_def by blast+
qed

lemma new_delivery_ok [simp]: "delivery_ok (newDelivery opts)" "served (newDelivery opts)" "dSent (newDelivery opts) = []"
proof -
  have "0 < b \<Longrightarrow> 0 < fold (\<lambda>n b. if n > 0 then n else b) opts b" for b :: int
    by (induction opts arbitrary: b) simp_all
  from this [of 16] show "delivery_ok (newDelivery opts)" "served (newDelivery opts)" "dSent (newDelivery opts) = []"
    by (simp_all add: newDelivery_def delivery_ok_def served_def applyBuffer_def defaultSubscriberBuffer_def)
qed

lemma drain_step_ok:
  assumes "delivery_ok d" and "drain_step m d = Some d'"
  shows "delivery_ok d'" and "dSent d' = dSent d" and "served d \<Longrightarrow> served d'"
  using assms
  by (cases m; cases "dPhase d"; cases "dQueue d"; auto simp: delivery_ok_def served_def queue_get_def split: if_splits)+

lemma put_ok:
  assumes "delivery_ok d" and "served d" and "queue_put x d = Some d'"
  shows "delivery_ok d'" and "served d'" and "dSent d' = dSent d @ [x]"
  using assms by (auto simp: queue_put_def delivery_ok_def served_def split: if_splits)

lemma feed_okI:
  assumes "distinct (subs s)" and "\<And>i. i \<in> set (subs s) \<Longrightarrow> \<exists>d. deliveries s i = Some d \<and> served d"
    and "\<And>i. deliveries s i = None \<Longrightarrow> toldTo s i = []"
    and "\<And>i d. deliveries s i = Some d \<Longrightarrow> delivery_ok d \<and> toldTo s i = dSent d @ waiting (loopAt s) i"
    and "\<And>x is. loopAt s = Notifying x is \<Longrightarrow> distinct is \<and> set is \<subseteq> set (subs s)"
    and "loopAt s = Over \<Longrightarrow> subs s = []"
  shows "feed_ok s"
  unfolding feed_ok_def
proof (intro conjI allI ballI impI)
  fix i
  show "case deliveries s i of None \<Rightarrow> toldTo s i = []
      | Some d \<Rightarrow> delivery_ok d \<and> toldTo s i = dSent d @ waiting (loopAt s) i"
    using assms(3,4) by (cases "deliveries s i") simp_all
qed (use assms(1,2,5,6) in blast)+

text \<open>A step at one delivery that sends nothing.\<close>

lemma on_delivery_ok:
  assumes "feed_ok s" and "onDelivery i f s = Some s'"
    and "\<And>d d'. delivery_ok d \<Longrightarrow> f d = Some d' \<Longrightarrow> delivery_ok d' \<and> dSent d' = dSent d \<and> (i \<in> set (subs s) \<longrightarrow> served d \<longrightarrow> served d')"
  shows "feed_ok s'" and "loopAt s' = loopAt s" and "subs s' = subs s" and "toldTo s' = toldTo s"
proof -
  obtain d d' where d: "deliveries s i = Some d" "f d = Some d'" "s' = s\<lparr>deliveries := (deliveries s)(i \<mapsto> d')\<rparr>"
    using assms(2) by (auto simp: onDelivery_def split: option.splits)
  note ok = feed_okD [OF assms(1)]
  have new: "delivery_ok d' \<and> dSent d' = dSent d \<and> (i \<in> set (subs s) \<longrightarrow> served d \<longrightarrow> served d')"
    using assms(3) ok(4) [OF d(1)] d(2) by blast
  show "loopAt s' = loopAt s" "subs s' = subs s" "toldTo s' = toldTo s"
    by (simp_all add: d(3))
  show "feed_ok s'"
  proof (rule feed_okI)
    fix j
    assume "j \<in> set (subs s')"
    then show "\<exists>d. deliveries s' j = Some d \<and> served d"
      using ok(2) [of j] new d by (auto simp: d(3))
  next
    fix j e
    assume "deliveries s' j = Some e"
    then show "delivery_ok e \<and> toldTo s' j = dSent e @ waiting (loopAt s') j"
      using ok(4) [of j] new d by (auto simp: d(3) split: if_splits)
  qed (use ok(1,3,5,6) in \<open>auto simp: d(3) split: if_splits\<close>)
qed

lemma between_ok: "feed_ok s \<Longrightarrow> loopAt s \<in> {AtSelect, Busy} \<Longrightarrow> l \<in> {AtSelect, Busy} \<Longrightarrow> feed_ok (s\<lparr>loopAt := l\<rparr>)"
  by (rule feed_okI) (use feed_okD(1-4) [of s] in auto)

lemma publish_ok:
  assumes "feed_ok s" and "feed_step (Publish x) s = Some s'"
  shows "feed_ok s'"
proof -
  note ok = feed_okD [OF assms(1)]
  have s': "loopAt s = Busy" "s' = s\<lparr>loopAt := Notifying x (subs s), toldTo := (\<lambda>i. if i \<in> set (subs s) then toldTo s i @ [x] else toldTo s i)\<rparr>"
    using assms(2) by (auto split: if_splits)
  show ?thesis
  proof (rule feed_okI)
    fix i
    assume "deliveries s' i = None"
    then show "toldTo s' i = []"
      using ok(2,3) [of i] by (auto simp: s'(2))
  next
    fix i d
    assume "deliveries s' i = Some d"
    then show "delivery_ok d \<and> toldTo s' i = dSent d @ waiting (loopAt s') i"
      using ok(4) [of i d] by (simp add: s')
  qed (use ok(1,2) in \<open>auto simp: s'(2)\<close>)
qed

lemma push_ok:
  assumes "feed_ok s" and "feed_step Push s = Some s'"
  shows "feed_ok s'"
proof -
  note ok = feed_okD [OF assms(1)]
  obtain x "is" where at: "loopAt s = Notifying x is"
    using assms(2) by (auto split: loopAt.splits)
  show ?thesis
  proof (cases "is")
    case Nil
    then have s': "s' = s\<lparr>loopAt := Busy\<rparr>"
      using assms(2) at by simp
    show ?thesis
      by (rule feed_okI) (use ok(1-4) at Nil in \<open>auto simp: s'\<close>)
  next
    case (Cons i js)
    then obtain d d' where d: "deliveries s i = Some d" "queue_put x d = Some d'"
      "s' = s\<lparr>deliveries := (deliveries s)(i \<mapsto> d'), loopAt := Notifying x js\<rparr>"
      using assms(2) at by (auto simp: onDelivery_def split: option.splits)
    have i: "i \<in> set (subs s)" "i \<notin> set js" "distinct js" "set js \<subseteq> set (subs s)"
      using ok(5) [OF at] Cons by auto
    note put = put_ok [OF _ _ d(2)]
    show ?thesis
    proof (rule feed_okI)
      fix j
      assume "j \<in> set (subs s')"
      then show "\<exists>d. deliveries s' j = Some d \<and> served d"
        using ok(2) [of j] put(2) ok(4) [OF d(1)] d(1) by (auto simp: d(3))
    next
      fix j e
      assume "deliveries s' j = Some e"
      then show "delivery_ok e \<and> toldTo s' j = dSent e @ waiting (loopAt s') j"
        using ok(4) [of j] ok(4) [OF d(1)] ok(2) [OF i(1)] put(1,3) d(1) i(2) at Cons
        by (auto simp: d(3) split: if_splits)
    qed (use ok(1,3) i in \<open>auto simp: d(3) split: if_splits\<close>)
  qed
qed

lemma close_ok: "delivery_ok d \<Longrightarrow> delivery_ok (closeDelivery d) \<and> dSent (closeDelivery d) = dSent d"
  by (simp add: closeDelivery_def delivery_ok_def)

lemma feed_step_ok:
  assumes "feed_ok s" and "feed_step m s = Some s'"
  shows "feed_ok s'"
proof (cases m)
  case (Publish x)
  then show ?thesis
    using publish_ok [OF assms(1), of x s'] assms(2) by (simp only: simp_thms)
next
  case Push
  then show ?thesis
    using push_ok [OF assms(1), of s'] assms(2) by (simp only: simp_thms)
next
  case CloseAll
  then have s': "loopAt s = Busy" "s' = s\<lparr>deliveries := (\<lambda>i. if i \<in> set (subs s) then map_option closeDelivery (deliveries s i) else deliveries s i),
      subs := [], loopAt := Over\<rparr>"
    using assms(2) by (auto split: if_splits)
  note ok = feed_okD(3,4) [OF assms(1)]
  show ?thesis
  proof (rule feed_okI)
    fix i
    assume "deliveries s' i = None"
    then show "toldTo s' i = []"
      using ok(1) [of i] by (simp add: s' split: if_splits)
  next
    fix i d
    assume "deliveries s' i = Some d"
    then obtain e where "deliveries s i = Some e" "d = e \<or> d = closeDelivery e"
      by (auto simp: s' split: if_splits)
    then show "delivery_ok d \<and> toldTo s' i = dSent d @ waiting (loopAt s') i"
      using ok(2) [of i e] close_ok [of e] by (auto simp: s')
  qed (simp_all add: s')
next
  case (NewSub i opts)
  then have s': "loopAt s = AtSelect" "deliveries s i = None"
    "s' = s\<lparr>deliveries := (deliveries s)(i \<mapsto> newDelivery opts), subs := subs s @ [i]\<rparr>"
    using assms(2) by (auto split: if_splits)
  note ok = feed_okD [OF assms(1)]
  have "i \<notin> set (subs s)"
    using ok(2) [of i] s'(2) by auto
  then show ?thesis
    by (intro feed_okI) (use ok(1) ok(2-4) [of i] ok(2-4) new_delivery_ok s'(1,2) in \<open>auto simp: s'(3) split: if_splits\<close>)
next
  case (Unsubscribe i)
  then obtain d where d: "loopAt s = AtSelect" "deliveries s i = Some d" "dPhase d = Leaving"
    "s' = s\<lparr>deliveries := (deliveries s)(i \<mapsto> closeDelivery (d\<lparr>dPhase := Draining\<rparr>)), subs := remove1 i (subs s)\<rparr>"
    using assms(2) by (auto simp: onDelivery_def split: option.splits if_splits)
  note ok = feed_okD [OF assms(1)]
  have "delivery_ok (closeDelivery (d\<lparr>dPhase := Draining\<rparr>)) \<and> dSent (closeDelivery (d\<lparr>dPhase := Draining\<rparr>)) = dSent d"
    using ok(4) [OF d(2)] d(3) by (auto simp: delivery_ok_def closeDelivery_def)
  then show ?thesis
    by (intro feed_okI) (use ok(1-4) ok(4) [OF d(2)] d(1,2) in \<open>auto simp: d(4) split: if_splits\<close>)
next
  case (SeeDone i)
  then have "onDelivery i (\<lambda>d. if dPhase d = Leaving then Some (d\<lparr>dPhase := Draining\<rparr>) else None) s = Some s'"
    "subs s = []"
    using assms feed_okD(6) by (auto split: if_splits)
  then show ?thesis
    by (intro on_delivery_ok(1) [OF assms(1)]) (auto simp: delivery_ok_def split: if_splits)
next
  case (CancelSub i)
  then show ?thesis
    using assms by (intro on_delivery_ok(1) [OF assms(1)]) (auto simp: delivery_ok_def served_def)
next
  case (Drain i mv)
  then show ?thesis
    using assms(2) drain_step_ok by (intro on_delivery_ok(1) [OF assms(1)]) auto
qed (use assms in \<open>auto intro!: between_ok split: if_splits\<close>)

lemma feed_run_ok: "feed_ok s \<Longrightarrow> feed_run ms s = Some s' \<Longrightarrow> feed_ok s'"
proof (induction ms arbitrary: s)
  case (Cons m ms)
  then obtain s1 where "feed_step m s = Some s1" "feed_run ms s1 = Some s'"
    by (auto split: option.splits)
  then show ?case
    using Cons.IH [OF feed_step_ok [OF Cons.prems(1)]] by simp
qed simp

lemma feed_start_ok: "feed_ok (feed_start pre)"
  by (rule feed_okI) (auto simp: feed_start_def new_delivery_ok split: if_splits)

subsection \<open>Waiting for ever\<close>

text \<open>The actor waits to send to a listener that waits to be unsubscribed by the actor.\<close>

definition stuck :: "'x \<Rightarrow> nat \<Rightarrow> nat list \<Rightarrow> 'x feed \<Rightarrow> bool" where
  "stuck x i is s \<longleftrightarrow>
     loopAt s = Notifying x (i # is)
     \<and> (case deliveries s i of None \<Rightarrow> False | Some d \<Rightarrow> dPhase d = Leaving \<and> dBuffer d \<le> int (length (dQueue d)))"

lemma stuck_step: "stuck x i is s \<Longrightarrow> feed_step m s = Some s' \<Longrightarrow> stuck x i is s'"
proof -
  assume st: "stuck x i is s" and go: "feed_step m s = Some s'"
  obtain d where d: "loopAt s = Notifying x (i # is)" "deliveries s i = Some d" "dPhase d = Leaving"
    "dBuffer d \<le> int (length (dQueue d))"
    using st by (auto simp: stuck_def split: option.splits)
  have mv: "drain_step mv d = None" for mv
    using d(3) by (cases mv) (auto split: option.splits)
  have "queue_put x d = None"
    using d(4) by (simp add: queue_put_def)
  then show ?thesis
    using go d mv by (cases m) (auto simp: stuck_def onDelivery_def split: option.splits if_splits)
qed

lemma stuck_run: "stuck x i is s \<Longrightarrow> feed_run ms s = Some s' \<Longrightarrow> stuck x i is s'"
  by (induction ms arbitrary: s) (auto split: option.splits dest: stuck_step)

lemma push_waits:
  assumes "feed_ok s" and "loopAt s = Notifying x (i # is)" and "feed_step Push s = None"
  shows "stuck x i is s \<or> (\<exists>m \<in> {Take, CallReturns}. feed_step (Drain i m) s \<noteq> None)"
proof -
  have "i \<in> set (subs s)"
    using feed_okD(5) [OF assms(1,2)] by simp
  then obtain d where d: "deliveries s i = Some d" "served d" "delivery_ok d"
    using feed_okD(2,4) [OF assms(1)] by blast
  then have full: "queue_put x d = None"
    using assms(2,3) by (auto simp: onDelivery_def)
  then have "queue_get d \<noteq> None"
    using queue.never_both_wait [of d x] d(3) by (auto simp: delivery_ok_def)
  then show ?thesis
    using d full assms(2)
    by (cases "dPhase d") (auto simp: served_def stuck_def onDelivery_def queue_put_def split: if_splits option.splits)
qed

text \<open>A queue of one: two snapshots behind the one being handled, a cancelled context.\<close>

definition blocking_moves :: "nat move list" where
  "blocking_moves = [Publish 1, Push, Push, Drain 0 Take, Publish 2, Push, Push, CancelSub 0, Publish 3,
     Drain 0 CallReturns, Drain 0 SeeCancel]"

lemma blocking_run: "\<exists>s. feed_run blocking_moves (feed_start [[1]]) = Some s \<and> stuck 3 0 [] s"
  by (simp add: blocking_moves_def feed_start_def newDelivery_def applyBuffer_def onDelivery_def queue_put_def queue_get_def
      stuck_def)

text \<open>
  C20. Delivery through bounded queues. In every interleaving of the actor, its subscribers'
  goroutines and cancellations, a queue holds at most the buffer asked for; the function is called
  with a beginning of what was published while subscribed, and as long as the subscription is not
  cancelled nothing is lost: the rest is in the queue or about to be put there, and a goroutine
  that has ended has seen everything. When the actor has to wait for a full queue, the listener can
  go on, so that there will be room, unless its context was cancelled at this moment: then it waits
  for the actor to unsubscribe it, the actor waits for it to make room, and neither ever goes on.
\<close>

theorem bounded_delivery:
  assumes "feed_run ms (feed_start pre) = Some s" and "deliveries s i = Some d"
  shows "int (length (dQueue d)) \<le> dBuffer d
     \<and> (\<exists>later. toldTo s i = dSeen d @ later)
     \<and> (\<not> dCancelled d \<longrightarrow> toldTo s i = dSeen d @ dQueue d @ waiting (loopAt s) i \<and> (dPhase d = Ended \<longrightarrow> dQueue d = []))
     \<and> (\<forall>x is. loopAt s = Notifying x (i # is) \<longrightarrow> feed_step Push s = None \<longrightarrow>
          (\<exists>m \<in> {Take, CallReturns}. feed_step (Drain i m) s \<noteq> None)
          \<or> (dCancelled d \<and> dPhase d = Leaving
             \<and> (\<forall>ms' s'. feed_run ms' s = Some s' \<longrightarrow> loopAt s' = Notifying x (i # is))))
     \<and> (\<exists>ms' s'. feed_run ms' (feed_start [[1]]) = Some s'
          \<and> (\<forall>ms'' s''. feed_run ms'' s' = Some s'' \<longrightarrow> loopAt s'' = Notifying (3 :: nat) [0]))"
proof (intro conjI allI impI)
  have ok: "feed_ok s"
    by (rule feed_run_ok [OF feed_start_ok assms(1)])
  have d: "delivery_ok d" "toldTo s i = dSent d @ waiting (loopAt s) i"
    using feed_okD(4) [OF ok assms(2)] by blast+
  show "int (length (dQueue d)) \<le> dBuffer d" "\<exists>later. toldTo s i = dSeen d @ later"
    using d by (auto simp: delivery_ok_def)
  show "toldTo s i = dSeen d @ dQueue d @ waiting (loopAt s) i" "dPhase d = Ended \<Longrightarrow> dQueue d = []" if "\<not> dCancelled d"
    using d that by (auto simp: delivery_ok_def)
  show "(\<exists>m \<in> {Take, CallReturns}. feed_step (Drain i m) s \<noteq> None)
      \<or> (dCancelled d \<and> dPhase d = Leaving \<and> (\<forall>ms' s'. feed_run ms' s = Some s' \<longrightarrow> loopAt s' = Notifying x (i # is)))"
    if "loopAt s = Notifying x (i # is)" "feed_step Push s = None" for x "is"
  proof -
    have "\<forall>ms' s'. feed_run ms' s = Some s' \<longrightarrow> loopAt s' = Notifying x (i # is)" if "stuck x i is s"
      using stuck_run [OF that] by (auto simp: stuck_def)
    moreover have "dCancelled d \<and> dPhase d = Leaving" if "stuck x i is s"
      using that assms(2) d(1) by (simp add: stuck_def delivery_ok_def)
    ultimately show ?thesis
      using push_waits [OF ok that] by blast
  qed
  obtain s0 where "feed_run blocking_moves (feed_start [[1]]) = Some s0" "stuck 3 0 [] s0"
    using blocking_run by blast
  then show "\<exists>ms' s'. feed_run ms' (feed_start [[1]]) = Some s'
      \<and> (\<forall>ms'' s''. feed_run ms'' s' = Some s'' \<longrightarrow> loopAt s'' = Notifying (3 :: nat) [0])"
    using stuck_run [of 3 0 "[]" s0] by (auto simp: stuck_def)
qed

text \<open>Two listeners, one with the default buffer; two snapshots, and the end of the actor.\<close>

theorem bounded_delivery_witness:
  "\<exists>s d. feed_run [Publish ''a'', Push, Push, Push, Drain 0 Take, Publish ''b'', Push, Push, Push, CloseAll] (feed_start [[], [1, 2]]) = Some s
     \<and> deliveries s 0 = Some d \<and> toldTo s 0 = [''a'', ''b''] \<and> toldTo s 0 = dSeen d @ dQueue d"
proof -
  let ?ms = "[Publish ''a'', Push, Push, Push, Drain 0 Take, Publish ''b'', Push, Push, Push, CloseAll]"
  have "\<exists>s d. feed_run ?ms (feed_start [[], [1, 2]]) = Some s \<and> deliveries s 0 = Some d \<and> \<not> dCancelled d
     \<and> toldTo s 0 = [''a'', ''b''] \<and> waiting (loopAt s) 0 = []"
    by (simp add: feed_start_def newDelivery_def applyBuffer_def defaultSubscriberBuffer_def onDelivery_def queue_put_def
        queue_get_def closeDelivery_def)
  then obtain s d where s: "feed_run ?ms (feed_start [[], [1, 2]]) = Some s" "deliveries s 0 = Some d" "\<not> dCancelled d"
    "toldTo s 0 = [''a'', ''b'']" "waiting (loopAt s) 0 = []"
    by blast
  then show ?thesis
    using bounded_delivery [OF s(1,2)] by auto
qed

end
