(* ===== verification/Engine_Limits.thy ===== *)
theory Engine_Limits
  imports Engine_Run
begin

section \<open>Charts that load and leave the legal configurations\<close>

text \<open>
  The hypotheses of \<open>sound_chart\<close> are not decoration: each chart below violates one of
  them, is accepted by the loader, and takes the engine out of the legal configurations or
  does not let it return.
\<close>

definition rootJump :: heap where
  "rootJump = \<lparr>nodes =
     [state 0 [] StateCompound None [1, 2] (Some 1) [0],
      state 1 ''a'' StateAtomic (Some 0) [] None [],
      state 2 ''b'' StateAtomic (Some 0) [] None []],
     edges = [edge 0 ''GO'' [2] 0]\<rparr>"

definition player :: heap where
  "player = \<lparr>nodes =
     [state 0 [] StateCompound None [1, 8, 11] (Some 1) [],
      state 1 ''playing'' StateParallel (Some 0) [2, 5] None [0, 1],
      state 2 ''playing.audio'' StateCompound (Some 1) [3, 4] (Some 3) [],
      state 3 ''playing.audio.low'' StateAtomic (Some 2) [] None [2],
      state 4 ''playing.audio.high'' StateAtomic (Some 2) [] None [3],
      state 5 ''playing.playback'' StateCompound (Some 1) [6, 7] (Some 6) [],
      state 6 ''playing.playback.normal'' StateAtomic (Some 5) [] None [4],
      state 7 ''playing.playback.ff'' StateAtomic (Some 5) [] None [5],
      state 8 ''paused'' StateCompound (Some 0) [9, 10] (Some 9) [],
      state 9 ''paused.idle'' StateAtomic (Some 8) [] None [6],
      (state 10 ''paused.hist'' StateHistory (Some 8) [] None [])\<lparr>HistKind := HistoryDeep\<rparr>,
      state 11 ''stopped'' StateFinal (Some 0) [] None []],
     edges =
     [edge 1 ''STOP'' [11] 0, edge 1 ''PAUSE'' [10] 1, edge 3 ''VOLUP'' [4] 2,
      edge 4 ''VOLDOWN'' [3] 3, edge 6 ''FAST'' [7] 4, edge 7 ''PLAY'' [6] 5,
      edge 9 ''RESUME'' [1] 6]\<rparr>"

definition deepParallel :: heap where
  "deepParallel = \<lparr>nodes =
     [state 0 [] StateCompound None [1, 10] (Some 1) [],
      state 1 ''w'' StateCompound (Some 0) [2, 3] (Some 2) [3],
      state 2 ''w.p'' StateParallel (Some 1) [4, 7] None [],
      (state 3 ''w.h'' StateHistory (Some 1) [] None [])\<lparr>HistKind := HistoryDeep, HistoryTo := [2]\<rparr>,
      state 4 ''w.p.x'' StateCompound (Some 2) [5, 6] (Some 5) [],
      state 5 ''w.p.x.a'' StateAtomic (Some 4) [] None [0],
      state 6 ''w.p.x.b'' StateAtomic (Some 4) [] None [],
      state 7 ''w.p.y'' StateCompound (Some 2) [8, 9] (Some 8) [],
      state 8 ''w.p.y.a'' StateAtomic (Some 7) [] None [1],
      state 9 ''w.p.y.b'' StateAtomic (Some 7) [] None [],
      state 10 ''off'' StateAtomic (Some 0) [] None [2]],
     edges = [edge 5 ''X'' [6] 0, edge 8 ''X'' [9] 1, edge 10 ''BACK'' [3] 2, edge 1 ''OFF'' [10] 3]\<rparr>"

definition parallelRoot :: heap where
  "parallelRoot = \<lparr>nodes =
     [state 0 [] StateParallel None [1, 4] None [],
      state 1 ''l'' StateCompound (Some 0) [2, 3] (Some 2) [0],
      state 2 ''l.a'' StateAtomic (Some 1) [] None [],
      state 3 ''l.b'' StateAtomic (Some 1) [] None [],
      state 4 ''r'' StateCompound (Some 0) [5] (Some 5) [],
      state 5 ''r.a'' StateAtomic (Some 4) [] None []],
     edges = [edge 1 ''GO'' [3] 0]\<rparr>"

definition regionHistory :: heap where
  "regionHistory = \<lparr>nodes =
     [state 0 [] StateCompound None [1] (Some 1) [],
      state 1 ''p'' StateParallel (Some 0) [2, 5] None [],
      state 2 ''p.x'' StateCompound (Some 1) [3, 4] (Some 3) [],
      state 3 ''p.x.a'' StateAtomic (Some 2) [] None [],
      state 4 ''p.x.b'' StateAtomic (Some 2) [] None [],
      (state 5 ''p.h'' StateHistory (Some 1) [] None [])\<lparr>HistoryTo := [4]\<rparr>],
     edges = []\<rparr>"

definition selfHistory :: heap where
  "selfHistory = \<lparr>nodes =
     [state 0 [] StateCompound None [1, 2] (Some 1) [],
      state 1 ''a'' StateAtomic (Some 0) [] None [0],
      (state 2 ''h'' StateHistory (Some 0) [] None [])\<lparr>HistoryTo := [2]\<rparr>],
     edges = [edge 1 ''BACK'' [2] 0]\<rparr>"

lemma self_history_never_returns:
  assumes "kind H h = StateHistory" and "HistoryTo (nodeAt H h) = [h]" and "hist (ID (nodeAt H h)) = []"
  shows "addDescendantStatesToEnter H hist k h E = None"
proof (induction k arbitrary: E)
  case 0
  then show ?case by simp
next
  case (Suc k)
  then show ?case
    using assms by (simp add: addDescendantStatesToEnter.simps(2) descendantsBody_def)
qed

lemma no_leaf_no_transition:
  assumes "cfg_atomic H c = []"
  shows "selectTransitions H c event pass = []" "selectEventlessTransitions H c pass = []"
  by (simp_all add: assms selectTransitions_def selectEventlessTransitions_def selectBy_def removeConflictingTransitions_def)


end
