(* ===== verification/Machine_Children.thy ===== *)
theory Machine_Children
  imports Machine_Handle "HOL-Library.Multiset"
begin

section \<open>Children: \<open>reconcileInvokes\<close> and what becomes of contexts\<close>

text \<open>
  Every child gets a context of its own. The contract of reconciliation (who runs afterwards,
  who was started and who was stopped), and the invariant of a whole run: each context ever
  made belongs to exactly one running child or has been cancelled exactly once.
\<close>

definition childCtxs :: "('w, 'c, 'e, 'b) actor \<Rightarrow> nat list" where
  "childCtxs a = map (\<lambda>p. rcCtx (snd p)) (children a)"

definition child_ok :: "('w, 'c, 'e, 'b) actor \<Rightarrow> bool" where
  "child_ok a \<longleftrightarrow>
     distinct (map fst (children a))
     \<and> mset (childCtxs a) + mset (cancelledCtxs a) = mset [0..<nextCtx a]"

text \<open>The part of the state that children live in.\<close>

definition same_children :: "('w, 'c, 'e, 'b) actor \<Rightarrow> ('w, 'c, 'e, 'b) actor \<Rightarrow> bool" where
  "same_children a b \<longleftrightarrow>
     children b = children a \<and> cancelledCtxs b = cancelledCtxs a \<and> nextCtx b = nextCtx a
     \<and> invokeSpawns b = invokeSpawns a"

lemma same_children_trans: "same_children a b \<Longrightarrow> same_children b c \<Longrightarrow> same_children a c"
  by (simp add: same_children_def)

lemma same_children_ok: "same_children a b \<Longrightarrow> child_ok b \<longleftrightarrow> child_ok a"
  by (simp add: same_children_def child_ok_def childCtxs_def)

subsection \<open>Stopping\<close>

lemma stopChild_fields:
  "children (stopChild ch a) = children a" "nextCtx (stopChild ch a) = nextCtx a"
  "invokeSpawns (stopChild ch a) = invokeSpawns a" "cancelledCtxs (stopChild ch a) = cancelledCtxs a @ [rcCtx ch]"
  by (simp_all add: stopChild_def)

lemma stop_fold:
  "children (fold (\<lambda>(i, ch) a. if i \<in> set ds then a else stopChild ch a) cs a) = children a
   \<and> nextCtx (fold (\<lambda>(i, ch) a. if i \<in> set ds then a else stopChild ch a) cs a) = nextCtx a
   \<and> invokeSpawns (fold (\<lambda>(i, ch) a. if i \<in> set ds then a else stopChild ch a) cs a) = invokeSpawns a
   \<and> cancelledCtxs (fold (\<lambda>(i, ch) a. if i \<in> set ds then a else stopChild ch a) cs a)
      = cancelledCtxs a @ map (\<lambda>p. rcCtx (snd p)) (filter (\<lambda>p. fst p \<notin> set ds) cs)"
  by (induction cs arbitrary: a) (auto simp: stopChild_fields split: prod.splits)

lemma stopUndesired_children:
  "children (stopUndesired ds a) = filter (\<lambda>p. fst p \<in> set ds) (children a)"
  "nextCtx (stopUndesired ds a) = nextCtx a" "invokeSpawns (stopUndesired ds a) = invokeSpawns a"
  "cancelledCtxs (stopUndesired ds a) =
     cancelledCtxs a @ map (\<lambda>p. rcCtx (snd p)) (filter (\<lambda>p. fst p \<notin> set ds) (children a))"
  using stop_fold [of ds "children a" a] by (simp_all add: stopUndesired_def Let_def case_prod_unfold)

lemma mset_split: "mset (map f (filter P xs)) + mset (map f (filter (\<lambda>x. \<not> P x) xs)) = mset (map f xs)"
  by (induction xs) auto

lemma stopUndesired_ok: "child_ok a \<Longrightarrow> child_ok (stopUndesired ds a)"
  using mset_split [of "\<lambda>p. rcCtx (snd p)" "\<lambda>p. fst p \<in> set ds" "children a"]
  by (auto simp: child_ok_def childCtxs_def stopUndesired_children distinct_map_filter add.assoc [symmetric]
      intro: trans [rotated])
     (metis (no_types, lifting) add.assoc add.commute)

lemma stop_all_next: "nextCtx (fold (\<lambda>p. stopChild (snd p)) cs a) = nextCtx a"
  by (induction cs arbitrary: a) (simp_all add: stopChild_fields)

lemma shutdown_children:
  "children (shutdown a) = []" "nextCtx (shutdown a) = nextCtx a"
  "cancelledCtxs (shutdown a) = cancelledCtxs a @ childCtxs a"
proof -
  let ?c = "fold (\<lambda>p. stopChild (snd p)) (children a) (a\<lparr>loopCancelled := True\<rparr>)"
  have "nextCtx ?c = nextCtx a" "cancelledCtxs ?c = cancelledCtxs a @ childCtxs a"
    by (simp_all add: stopChildren_public childCtxs_def stop_all_next)
  then show "children (shutdown a) = []" "nextCtx (shutdown a) = nextCtx a"
    "cancelledCtxs (shutdown a) = cancelledCtxs a @ childCtxs a"
    by (simp_all add: shutdown_def Let_def closeSubs_def stopTimers_def)
qed

lemma shutdown_child_ok: "child_ok a \<Longrightarrow> child_ok (shutdown a)"
  by (simp add: child_ok_def shutdown_children childCtxs_def add.commute)

subsection \<open>Spawning\<close>

lemma update_new: "map_of al k = None \<Longrightarrow> AList.update k v al = al @ [(k, v)]"
  by (induction al) (auto split: if_splits)

definition spawnsOf :: "('w, 'c, 'e, 'b) actor \<Rightarrow> string \<Rightarrow> int" where
  "spawnsOf a i = (case map_of (invokeSpawns a) i of None \<Rightarrow> 0 | Some n \<Rightarrow> n)"

lemma emitAll_children: "foldM emitSync es a = Some b \<Longrightarrow> same_children a b"
proof (induction es arbitrary: a)
  case (Cons e es)
  then obtain c where c: "emitSync e a = Some c" "foldM emitSync es c = Some b"
    by (auto simp: bind_eq_Some_conv)
  have "same_children a c"
    using c(1) by (auto simp: emitSync_def same_children_def split: if_splits)
  then show ?case
    using Cons.IH [OF c(2)] by (rule same_children_trans)
qed (simp add: same_children_def)

lemma spawn_cases:
  assumes "spawnInvoke i a = Some b"
  obtains (skip) "b = a" "map_of (children a) i \<noteq> None \<or> runners (conf a) i = None"
  | (spawn) ch where "map_of (children a) i = None" "runners (conf a) i \<noteq> None"
      "rcCtx ch = nextCtx a" "rcAddress ch = Child (addr a) i" "rcId ch = i"
      "children b = AList.update i ch (children a)" "cancelledCtxs b = cancelledCtxs a" "nextCtx b = nextCtx a + 1"
      "invokeSpawns b = AList.update i (spawnsOf a i + 1) (invokeSpawns a)" "conf b = conf a" "addr b = addr a"
proof (cases "map_of (children a) i \<noteq> None \<or> runners (conf a) i = None")
  case True
  then show thesis
    using assms skip by (auto simp: spawnInvoke_def split: option.splits)
next
  case False
  then obtain runner w' ri emits where r: "runners (conf a) i = Some runner"
    "runner (nextCtx a) (engCtx (eng a)) (Child (addr a) i) (world a) = (w', ri, emits)" "map_of (children a) i = None"
    by (cases "runners (conf a) i") (auto, metis prod_cases3)
  then obtain a2 where a2: "foldM emitSync emits (a\<lparr>world := w', nextCtx := nextCtx a + 1\<rparr>) = Some a2"
    and b: "b = a2\<lparr>children := AList.update i \<lparr>rcId = i, rcAddress = Child (addr a) i, rcCtx = nextCtx a,
                 rcCancel = riCancel ri, rcDeliver = riDeliver ri\<rparr> (children a2),
               invokeSpawns := AList.update i (spawnsOf a2 i + 1) (invokeSpawns a2)\<rparr>"
    using assms by (auto simp: spawnInvoke_def Let_def spawnsOf_def)
  show thesis
    using emitAll_children [OF a2] emitAll [OF a2] r
    by (intro spawn) (simp_all add: b same_children_def same_public_def spawnsOf_def)
qed

lemma spawn_ok:
  assumes "spawnInvoke i a = Some b" and "child_ok a"
  shows "child_ok b"
  using assms(1)
proof (cases rule: spawn_cases)
  case (spawn ch)
  have "children b = children a @ [(i, ch)]"
    using spawn(1,6) by (simp add: update_new)
  then show ?thesis
    using assms(2) spawn by (auto simp: child_ok_def childCtxs_def map_of_eq_None_iff)
qed (use assms(2) in simp)

text \<open>Spawning a list of invokes: old children stay, absent ones with a runner are started.\<close>

definition startable :: "('w, 'c, 'e, 'b) actor \<Rightarrow> string \<Rightarrow> bool" where
  "startable a i \<longleftrightarrow> map_of (children a) i = None \<and> runners (conf a) i \<noteq> None"

lemma spawns_spec:
  assumes "foldM spawnInvoke ds a = Some b" and "distinct ds"
  shows "conf b = conf a \<and> addr b = addr a \<and> cancelledCtxs b = cancelledCtxs a \<and> nextCtx a \<le> nextCtx b
    \<and> (\<exists>new. children b = children a @ new \<and> map fst new = filter (startable a) ds
         \<and> map (\<lambda>p. rcCtx (snd p)) new = [nextCtx a..<nextCtx b]
         \<and> list_all (\<lambda>p. rcAddress (snd p) = Child (addr a) (fst p)) new)
    \<and> (\<forall>i. spawnsOf b i = spawnsOf a i + (if i \<in> set ds \<and> startable a i then 1 else 0))"
  using assms
proof (induction ds arbitrary: a)
  case Nil
  then show ?case by auto
next
  case (Cons i ds)
  obtain c where c: "spawnInvoke i a = Some c" "foldM spawnInvoke ds c = Some b"
    using Cons.prems(1) by (auto simp: bind_eq_Some_conv)
  note IH = Cons.IH [OF c(2)]
  from c(1) show ?case
  proof (cases rule: spawn_cases)
    case skip
    then show ?thesis
      using IH Cons.prems(2) by (auto simp: startable_def)
  next
    case (spawn ch)
    have kids: "children c = children a @ [(i, ch)]"
      using spawn(1,6) by (simp add: update_new)
    have same: "startable c j = startable a j" if "j \<noteq> i" for j
      using that spawn(10) by (simp add: startable_def spawn(6) update_conv')
    have first: "startable a i"
      using spawn(1,2) by (simp add: startable_def)
    have filt: "filter (startable c) ds = filter (startable a) ds"
    proof (rule filter_cong [OF refl])
      fix j
      assume "j \<in> set ds"
      then have "j \<noteq> i"
        using Cons.prems(2) by auto
      then show "startable c j = startable a j"
        by (rule same)
    qed
    have counts: "spawnsOf c j = (if j = i then spawnsOf a i + 1 else spawnsOf a j)" for j
      by (simp add: spawnsOf_def spawn(9) update_conv')
    obtain new where new: "children b = children c @ new" "map fst new = filter (startable c) ds"
      "map (\<lambda>p. rcCtx (snd p)) new = [nextCtx c..<nextCtx b]"
      "list_all (\<lambda>p. rcAddress (snd p) = Child (addr c) (fst p)) new"
      using IH Cons.prems(2) by auto
    have le: "nextCtx a + 1 \<le> nextCtx b" and fr: "conf b = conf c" "addr b = addr c" "cancelledCtxs b = cancelledCtxs c"
      and cnt: "spawnsOf b j = spawnsOf c j + (if j \<in> set ds \<and> startable c j then 1 else 0)" for j
      using IH Cons.prems(2) spawn(8) by simp_all
    have "\<exists>new'. children b = children a @ new' \<and> map fst new' = filter (startable a) (i # ds)
         \<and> map (\<lambda>p. rcCtx (snd p)) new' = [nextCtx a..<nextCtx b]
         \<and> list_all (\<lambda>p. rcAddress (snd p) = Child (addr a) (fst p)) new'"
      using new kids filt first spawn le
      by (intro exI [of _ "(i, ch) # new"]) (simp add: upt_conv_Cons)
    moreover have "spawnsOf b j = spawnsOf a j + (if j \<in> set (i # ds) \<and> startable a j then 1 else 0)" for j
      using cnt [of j] counts [of j] same [of j] first Cons.prems(2) by auto
    ultimately show ?thesis
      using fr spawn le by auto
  qed
qed

lemma desired_distinct: "distinct (desiredInvokes H c)"
proof -
  have inner: "distinct (fold (\<lambda>iv. ins (IvID iv)) ivs acc)" if "distinct acc" for ivs acc
    using that by (induction ivs arbitrary: acc) auto
  have "distinct (fold (\<lambda>n acc. fold (\<lambda>iv. ins (IvID iv)) (Invokes (nodeAt H n)) acc) ns acc)" if "distinct acc" for ns acc
    using that inner by (induction ns arbitrary: acc) auto
  then show ?thesis
    by (simp add: desiredInvokes_def)
qed

lemma desired_set:
  "set (desiredInvokes H c) = {IvID iv | iv n. n \<in> set (cfg_all H c) \<and> iv \<in> set (Invokes (nodeAt H n))}"
proof -
  have inner: "set (fold (\<lambda>iv. ins (IvID iv)) ivs acc) = IvID ` set ivs \<union> set acc" for ivs acc
    by (induction ivs arbitrary: acc) auto
  have "set (fold (\<lambda>n acc. fold (\<lambda>iv. ins (IvID iv)) (Invokes (nodeAt H n)) acc) ns acc)
      = {IvID iv | iv n. n \<in> set ns \<and> iv \<in> set (Invokes (nodeAt H n))} \<union> set acc" for ns acc
    by (induction ns arbitrary: acc) (auto simp: inner)
  then show ?thesis
    by (simp add: desiredInvokes_def)
qed

text \<open>The invokes of the active states.\<close>

definition wanted :: "heap \<Rightarrow> ('w, 'c, 'e, 'b) actor \<Rightarrow> string set" where
  "wanted H a = {IvID iv | iv n. n \<in> set (cfg_all H (engCfg (eng a))) \<and> iv \<in> set (Invokes (nodeAt H n))}"


subsection \<open>Contexts over a whole run\<close>

lemma exec_children: "execMicrostep H ms a = (b, ok) \<Longrightarrow> same_children a b"
proof (cases ok)
  case True
  assume "execMicrostep H ms a = (b, ok)"
  then show ?thesis
    using True exec_result [of H ms a b] by (simp add: same_children_def)
next
  case False
  assume "execMicrostep H ms a = (b, ok)"
  then have "execMicrostep H ms a = (b, False)"
    using False by simp
  then show ?thesis
    by (rule abort_result) (simp add: same_children_def)
qed

lemma macro_children: "runMacrostep H k a = Some (b, ok) \<Longrightarrow> same_children a b"
proof -
  assume run: "runMacrostep H k a = Some (b, ok)"
  have refl: "same_children a a"
    by (simp add: same_children_def)
  show ?thesis
  proof (rule runMacrostep_rule [where I = "same_children a" and Q = "\<lambda>x _. same_children a x", OF run refl])
    fix x e' ms a1
    assume "same_children a x"
    then have e: "same_children a (x\<lparr>eng := e'\<rparr>)"
      by (simp add: same_children_def)
    show "execMicrostep H ms (x\<lparr>eng := e'\<rparr>) = (a1, True) \<Longrightarrow> same_children a a1"
      "execMicrostep H ms (x\<lparr>eng := e'\<rparr>) = (a1, True) \<Longrightarrow> same_children a a1"
      "execMicrostep H ms (x\<lparr>eng := e'\<rparr>) = (a1, False) \<Longrightarrow> same_children a a1"
      using e exec_children same_children_trans by blast+
    show "same_children a (x\<lparr>eng := e'\<rparr>)"
      by (rule e)
    show "same_children a (publishTerminalError (errReason e') (x\<lparr>eng := e'\<rparr>))"
      using e by (simp add: same_children_def publishTerminalError_def Let_def)
  qed
qed

lemma offer_children: "same_children a (offerItem it a)"
  by (cases it) (simp_all add: same_children_def offerItem_def)

lemma reconcile_ok:
  assumes "reconcileInvokes H a = Some b" and "child_ok a"
  shows "child_ok b"
proof -
  have "foldM spawnInvoke ds c = Some b \<Longrightarrow> child_ok c \<Longrightarrow> child_ok b" for ds c
    by (induction ds arbitrary: c) (auto simp: bind_eq_Some_conv intro: spawn_ok)
  then show ?thesis
    using assms stopUndesired_ok by (auto simp: reconcileInvokes_def Let_def)
qed

lemma macro_then_ok:
  assumes "runMacrostep H k (offerItem it a) = Some (c, ok)"
    and "(if \<not> ok then Some (shutdown c) else reconcileInvokes H c) = Some b" and "child_ok a"
  shows "child_ok b"
proof -
  have "child_ok c"
    using same_children_trans [OF offer_children macro_children [OF assms(1)]] assms(3) by (simp add: same_children_ok)
  then show ?thesis
    using assms(2) reconcile_ok shutdown_child_ok by (cases ok) auto
qed

lemma child_frame [simp]:
  "child_ok (a\<lparr>mailbox := q\<rparr>) = child_ok a" "child_ok (a\<lparr>acks := ks\<rparr>) = child_ok a"
  "child_ok (a\<lparr>world := w\<rparr>) = child_ok a" "child_ok (a\<lparr>eng := e\<rparr>) = child_ok a"
  "child_ok (a\<lparr>loopCancelled := l\<rparr>) = child_ok a"
  by (simp_all add: child_ok_def childCtxs_def)

lemma drain_child_ok: "drainAndClose H k q a = Some b \<Longrightarrow> child_ok a \<Longrightarrow> child_ok b"
proof (induction q arbitrary: a)
  case Nil
  then show ?case
    using shutdown_child_ok [of "a\<lparr>mailbox := []\<rparr>"] by auto
next
  case (Cons it q)
  have step: "child_ok b"
    if run: "(case runMacrostep H k (offerItem it (a\<lparr>mailbox := q\<rparr>)) of None \<Rightarrow> None
       | Some (a', ok) \<Rightarrow> if \<not> ok then Some (shutdown a') else drainAndClose H k q a') = Some b"
  proof -
    obtain c ok where c: "runMacrostep H k (offerItem it (a\<lparr>mailbox := q\<rparr>)) = Some (c, ok)"
      "(if \<not> ok then Some (shutdown c) else drainAndClose H k q c) = Some b"
      using run by (auto split: option.splits prod.splits)
    have "child_ok c"
      using same_children_trans [OF offer_children macro_children [OF c(1)]] Cons.prems(2) by (simp add: same_children_ok)
    then show ?thesis
      using c(2) Cons.IH [of c] shutdown_child_ok by (cases ok) auto
  qed
  show ?case
    using Cons.prems step Cons.IH by (cases it) (auto simp: Let_def)
qed

lemma handle_child_ok:
  assumes "handleItem H k a = Some b" and "child_ok a"
  shows "child_ok b"
proof (cases "mailbox a")
  case Nil
  then show ?thesis
    using assms by (simp add: handleItem_def)
next
  case (Cons it rest)
  have macro: "child_ok b"
    if run: "(case runMacrostep H k (offerItem it (a\<lparr>mailbox := rest\<rparr>)) of None \<Rightarrow> None
     | Some (a', ok) \<Rightarrow> if \<not> ok then Some (shutdown a') else reconcileInvokes H a') = Some b"
  proof -
    obtain c ok where "runMacrostep H k (offerItem it (a\<lparr>mailbox := rest\<rparr>)) = Some (c, ok)"
      "(if \<not> ok then Some (shutdown c) else reconcileInvokes H c) = Some b"
      using run by (auto split: option.splits prod.splits)
    then show ?thesis
      using assms(2) macro_then_ok [of H k it "a\<lparr>mailbox := rest\<rparr>" c ok b] by simp
  qed
  show ?thesis
  proof (cases it)
    case (Ack j)
    then show ?thesis
      using assms Cons by (auto simp: handleItem_def)
  next
    case DrainClose
    then show ?thesis
      using assms Cons drain_child_ok [of H k rest "a\<lparr>mailbox := rest\<rparr>" b] by (simp add: handleItem_def)
  qed (use assms Cons macro in \<open>auto simp: handleItem_def Let_def\<close>)
qed

lemma boot_child_ok:
  assumes "bootLoop H k a = Some b" and "child_ok a"
  shows "child_ok b"
proof -
  obtain e' ms where st: "engine_start H k (eng a) = Some (e', ms)"
    using assms(1) by (auto simp: bootLoop_def split: option.splits)
  obtain a1 ok where ex: "execMicrostep H ms (a\<lparr>eng := e'\<rparr>) = (a1, ok)"
    by fastforce
  have a1: "child_ok a1"
    using same_children_ok [OF exec_children [OF ex]] assms(2) by simp
  show ?thesis
  proof (cases "\<not> ok \<or> Terminal (engStatus (eng a1))")
    case True
    then show ?thesis
      using assms(1) st ex shutdown_child_ok [OF a1] by (auto simp: bootLoop_def)
  next
    case False
    then obtain c ok2 where c: "runMacrostep H k a1 = Some (c, ok2)"
      "(if \<not> ok2 then Some (shutdown c) else reconcileInvokes H c) = Some b"
      using assms(1) st ex by (auto simp: bootLoop_def split: option.splits prod.splits)
    have "child_ok c"
      using same_children_ok [OF macro_children [OF c(1)]] a1 by simp
    then show ?thesis
      using c(2) reconcile_ok shutdown_child_ok by (cases ok2) auto
  qed
qed

lemma step_child_ok: "actor_step H k a b \<Longrightarrow> child_ok a \<Longrightarrow> child_ok b"
proof (induction rule: actor_step.induct)
  case (handle a a')
  then show ?case using handle_child_ok by blast
next
  case (cancel a)
  then show ?case using shutdown_child_ok by blast
qed (auto simp: Send_def TrySend_def enqueue_def post_def fireTimer_def addSub_def removeSub_def child_ok_def childCtxs_def
     split: if_splits)

text \<open>
  C29. No child leaks: at every moment of a run each context made for a child either belongs to
  exactly one running child or has been cancelled exactly once, never both, and when the actor
  has ended all of them have been cancelled.
\<close>

theorem contexts_accounted:
  assumes "list_all (\<lambda>s. subCh s = []) (preSubs m)" and "actor_run H k (Start ad m w) a"
  shows "distinct (map fst (children a))
         \<and> mset (map (\<lambda>p. rcCtx (snd p)) (children a)) + mset (cancelledCtxs a) = mset [0..<nextCtx a]
         \<and> (isDone a \<longrightarrow> children a = [] \<and> distinct (cancelledCtxs a) \<and> set (cancelledCtxs a) = {..<nextCtx a})"
proof -
  have "child_ok a"
    using assms(2)
  proof induction
    case (boot q b)
    have "child_ok ((Start ad m w)\<lparr>mailbox := q\<rparr>)"
      by (simp add: Start_def child_ok_def childCtxs_def Let_def)
    then show ?case
      by (rule boot_child_ok [OF boot])
  qed (rule step_child_ok)
  then have ok: "distinct (map fst (children a))"
    "mset (map (\<lambda>p. rcCtx (snd p)) (children a)) + mset (cancelledCtxs a) = mset [0..<nextCtx a]"
    by (simp_all add: child_ok_def childCtxs_def)
  have "children a = []" if "isDone a"
    using run_run_ok [OF assms] that by (simp add: run_ok_def)
  moreover have "distinct (cancelledCtxs a)" "set (cancelledCtxs a) = {..<nextCtx a}" if "children a = []"
  proof -
    have m: "mset (cancelledCtxs a) = mset [0..<nextCtx a]"
      using ok(2) that by simp
    show "distinct (cancelledCtxs a)"
      using mset_eq_imp_distinct_iff [OF m] by simp
    show "set (cancelledCtxs a) = {..<nextCtx a}"
      using mset_eq_setD [OF m] by (simp only: set_upt atLeast0LessThan)
  qed
  ultimately show ?thesis
    using ok by blast
qed

subsection \<open>A machine with two invokes\<close>

definition invoking :: "string \<Rightarrow> StateNode \<Rightarrow> StateNode" where
  "invoking i n = n\<lparr>Invokes := [\<lparr>IvID = i, Src = i, OnDone = [], OnError = []\<rparr>]\<rparr>"

definition jobs :: heap where
  "jobs = \<lparr>nodes =
     [invoking ''watch'' (state 0 [] StateCompound None [1, 2, 3] (Some 1) []),
      invoking ''job'' (state 1 ''a'' StateAtomic (Some 0) [] None [0]),
      state 2 ''b'' StateAtomic (Some 0) [] None [1, 2],
      state 3 ''z'' StateFinal (Some 0) [] None []],
     edges = [edge 1 ''E'' [2] 0, edge 2 ''E'' [1] 1, edge 2 ''FIN'' [3] 2]\<rparr>"

definition idle_runner :: "(sample_world, unit, string, unit) InvokeRunner" where
  "idle_runner ctx c ad w = (w, \<lparr>riCancel = None, riDeliver = None\<rparr>, [])"

definition jobs_machine :: "(sample_world, unit, string, unit) Machine" where
  "jobs_machine = RegisterInvoke ''watch'' idle_runner (RegisterInvoke ''job'' idle_runner (sample_machine jobs []))"

definition jobs_booted :: "(sample_world, unit, string, unit) actor" where
  "jobs_booted = booted jobs 6 ((Start ''jobs'' jobs_machine sample_world0)\<lparr>mailbox := []\<rparr>)"

lemma jobs_run: "actor_run jobs 6 (Start ''jobs'' jobs_machine sample_world0) jobs_booted"
proof -
  have "bootLoop jobs 6 ((Start ''jobs'' jobs_machine sample_world0)\<lparr>mailbox := []\<rparr>) \<noteq> None"
    by code_simp
  then show ?thesis
    unfolding jobs_booted_def by (rule run_booted)
qed

lemma jobs_subs: "list_all (\<lambda>s. subCh s = []) (preSubs jobs_machine)"
  by (simp add: jobs_machine_def RegisterInvoke_def sample_machine_def NewMachine_def Let_def)

text \<open>The actor after the macrostep of \<open>E\<close>, before and after reconciliation.\<close>

definition jobs_moved :: "(sample_world, unit, string, unit) actor" where
  "jobs_moved =
     (case runMacrostep jobs 6 (offerItem (inboxItem.Event ''E'' ''E'') jobs_booted) of
        None \<Rightarrow> jobs_booted | Some (c, ok) \<Rightarrow> c)"

definition jobs_settled :: "(sample_world, unit, string, unit) actor" where
  "jobs_settled = (case reconcileInvokes jobs jobs_moved of None \<Rightarrow> jobs_moved | Some c \<Rightarrow> c)"


theorem contexts_accounted_witness:
  "\<exists>a. actor_run jobs 6 (Start ''jobs'' jobs_machine sample_world0) a \<and> nextCtx a = 3 \<and> cancelledCtxs a = [1]
     \<and> mset (map (\<lambda>p. rcCtx (snd p)) (children a)) + mset (cancelledCtxs a) = mset [0..<3]"
proof -
  let ?a = "told jobs 6 ''E'' (told jobs 6 ''E'' jobs_booted)"
  have "\<not> isDone jobs_booted" "\<not> isDone (told jobs 6 ''E'' jobs_booted)"
    by code_simp+
  then have run: "actor_run jobs 6 (Start ''jobs'' jobs_machine sample_world0) ?a"
    by (intro run_told jobs_run)
  have v: "nextCtx ?a = 3" "cancelledCtxs ?a = [1]"
    by code_simp+
  have "mset (map (\<lambda>p. rcCtx (snd p)) (children ?a)) + mset (cancelledCtxs ?a) = mset [0..<nextCtx ?a]"
    using contexts_accounted [OF jobs_subs run] by blast
  then show ?thesis
    using run v by (intro exI [of _ ?a]) simp
qed

end
