(* ===== verification/Adapters.thy ===== *)
theory Adapters
  imports Machine_Children Channels
begin

section \<open>Invoke adapters: the typed constructors of \<open>actors.go\<close>\<close>

text \<open>
  An adapter turns user code into an \<open>InvokeRunner\<close>. The goroutine it starts is a value of
  \<open>goroutine\<close>: it runs the user's function, looks at its context when the function returns,
  and then emits. \<open>go\<close> starts a goroutine in the world; \<open>'v\<close> holds the values that user code
  takes and returns, and a Go result \<open>(out, err)\<close> is a pair.
\<close>

datatype ('v, 'e) goroutine =
    Calling "'v \<times> error option \<Rightarrow> 'e option"
  | Emitting 'e
  | Finished

text \<open>The user's function returns \<open>r\<close>; \<open>gone\<close> is whether \<open>ctx.Err()\<close> is set by then.\<close>

fun returns :: "bool \<Rightarrow> 'v \<times> error option \<Rightarrow> ('v, 'e) goroutine \<Rightarrow> ('v, 'e) goroutine" where
  "returns gone r (Calling f) =
     (if gone then Finished else case f r of None \<Rightarrow> Finished | Some e \<Rightarrow> Emitting e)"
| "returns gone r g = g"

text \<open>The send of \<open>emit\<close>: into the parent's mailbox, or dropped once the parent is done.\<close>

fun emits :: "('v, 'e) goroutine \<Rightarrow> ('w, 'c, 'e, 'b) actor \<Rightarrow> (('v, 'e) goroutine \<times> ('w, 'c, 'e, 'b) actor) list" where
  "emits (Emitting e) a = map (\<lambda>a'. (Finished, a')) (enqueue (inboxItem.Event e (mEventType (conf a) e)) a)"
| "emits g a = []"

type_synonym ('w, 'v, 'e) go = "nat \<Rightarrow> 'v \<Rightarrow> ('v, 'e) goroutine \<Rightarrow> 'w \<Rightarrow> 'w"

definition PromiseActor ::
  "('w, 'v, 'e) go \<Rightarrow> ('c \<Rightarrow> 'v) \<Rightarrow> ('v \<Rightarrow> 'e) \<Rightarrow> (error \<Rightarrow> 'e) \<Rightarrow> ('w, 'c, 'e, 'b) InvokeRunner" where
  "PromiseActor go inp onDone onError ctx parentCtx ad w =
     (go ctx (inp parentCtx)
        (Calling (\<lambda>(out, err). case err of Some e \<Rightarrow> Some (onError e) | None \<Rightarrow> Some (onDone out))) w,
      \<lparr>riCancel = Some (\<lambda>w. w), riDeliver = None\<rparr>, [])"

text \<open>The two \<open>switch\<close>es on the error; a nil handler emits nothing.\<close>

fun outcome :: "'e option \<Rightarrow> (error \<Rightarrow> 'e) option \<Rightarrow> error option \<Rightarrow> 'e option" where
  "outcome onDone (Some onError) (Some e) = Some (onError e)"
| "outcome onDone None (Some e) = None"
| "outcome onDone onError None = onDone"

text \<open>
  The receive channel of a callback holds 16 commands. \<open>deliver\<close> drops an event of another
  type, waits while the channel is full (\<open>None\<close>) and gives up when the context is cancelled.
\<close>

definition recvCap :: nat where
  "recvCap = 16"

definition callback_deliver ::
  "('b \<Rightarrow> 'm option) \<Rightarrow> bool \<Rightarrow> 'b \<Rightarrow> 'm list \<Rightarrow> 'm list option" where
  "callback_deliver asCmd gone e recv =
     (case asCmd e of
        None \<Rightarrow> Some recv
      | Some c \<Rightarrow> if length recv < recvCap then Some (recv @ [c]) else if gone then Some recv else None)"

definition callback_receive :: "'m list \<Rightarrow> ('m \<times> 'm list) option" where
  "callback_receive recv = (case recv of [] \<Rightarrow> None | c # cs \<Rightarrow> Some (c, cs))"

interpretation recv: channel "\<lambda>cs. cs" "\<lambda>_. int recvCap" "callback_deliver Some False" callback_receive
  by unfold_locales (auto simp: callback_deliver_def callback_receive_def split: list.splits if_splits)

text \<open>\<open>chan ctx f\<close> applies \<open>f\<close> to the receive channel of the child with that context.\<close>

definition CallbackActor ::
  "('w, 'v, 'e) go \<Rightarrow> (nat \<Rightarrow> ('m list \<Rightarrow> 'm list option) \<Rightarrow> 'w \<Rightarrow> 'w) \<Rightarrow> (nat \<Rightarrow> bool) \<Rightarrow> 'v \<Rightarrow> ('b \<Rightarrow> 'm option)
     \<Rightarrow> 'e option \<Rightarrow> (error \<Rightarrow> 'e) option \<Rightarrow> ('w, 'c, 'e, 'b) InvokeRunner" where
  "CallbackActor go chan isCancelled arg asCmd onDone onError ctx parentCtx ad w =
     (go ctx arg (Calling (\<lambda>(out, err). outcome onDone onError err)) (chan ctx (\<lambda>_. Some []) w),
      \<lparr>riCancel = Some (\<lambda>w. w),
       riDeliver = Some (\<lambda>e w. chan ctx (callback_deliver asCmd (isCancelled ctx) e) w)\<rparr>, [])"

text \<open>What the subscription of an observable passes on for each value.\<close>

definition observable_next :: "('v \<Rightarrow> 'e) option \<Rightarrow> 'v \<Rightarrow> 'e list" where
  "observable_next onNext out = (case onNext of None \<Rightarrow> [] | Some f \<Rightarrow> [f out])"

definition ObservableActor ::
  "('w, 'v, 'e) go \<Rightarrow> 'v \<Rightarrow> 'e option \<Rightarrow> (error \<Rightarrow> 'e) option \<Rightarrow> ('w, 'c, 'e, 'b) InvokeRunner" where
  "ObservableActor go arg onDone onError ctx parentCtx ad w =
     (go ctx arg (Calling (\<lambda>(out, err). outcome onDone onError err)) w,
      \<lparr>riCancel = Some (\<lambda>w. w), riDeliver = None\<rparr>, [])"

text \<open>A backoff schedules one timer; its callback looks at the context before it emits.\<close>

definition backoff_fire :: "bool \<Rightarrow> 'e \<Rightarrow> 'e list" where
  "backoff_fire gone done_event = (if gone then [] else [done_event])"

definition BackoffActor ::
  "('w \<Rightarrow> time) \<Rightarrow> ('w, nat \<times> 'e) TimerService \<Rightarrow> ('c \<Rightarrow> duration) \<Rightarrow> 'e \<Rightarrow> ('w, 'c, 'e, 'b) InvokeRunner" where
  "BackoffActor clk TS delay onDone ctx parentCtx ad w =
     (let (w', t) = Schedule TS (clk w + delay parentCtx) (ctx, onDone) w
      in (w', \<lparr>riCancel = Some (\<lambda>w. fst (Cancel TS t w)), riDeliver = None\<rparr>, []))"

text \<open>
  A nested machine: what the parent is told for each snapshot of the child, and the child as it
  is started. \<open>place\<close> puts the started child into the world under the context of the invoke.
\<close>

definition machine_notify ::
  "('k Snapshot \<Rightarrow> 'e) option \<Rightarrow> ('k Snapshot \<Rightarrow> 'e) option \<Rightarrow> 'k Snapshot \<Rightarrow> 'e list" where
  "machine_notify onDone onError s =
     (case Status s of
        StatusDone \<Rightarrow> (case onDone of None \<Rightarrow> [] | Some f \<Rightarrow> [f s])
      | StatusError \<Rightarrow> (case onError of None \<Rightarrow> [] | Some f \<Rightarrow> [f s])
      | _ \<Rightarrow> [])"

definition machine_child ::
  "('u, 'k, 'f, 'g) Machine \<Rightarrow> ('c \<Rightarrow> 'k) option \<Rightarrow> 'c \<Rightarrow> ActorAddress \<Rightarrow> 'u \<Rightarrow> ('u, 'k, 'f, 'g) actor" where
  "machine_child child inp parentCtx ad u =
     (let child = (case inp of None \<Rightarrow> child | Some f \<Rightarrow> SetInitialContext (f parentCtx) child);
          child = Subscribe_before (newSubscriber 0 []) child
      in Start (TrimPrefix ad ''/'') child u)"

definition MachineActor ::
  "(nat \<Rightarrow> ('u, 'k, 'f, 'g) actor \<Rightarrow> 'w \<Rightarrow> 'w) \<Rightarrow> (nat \<Rightarrow> 'f \<Rightarrow> 'w \<Rightarrow> 'w) \<Rightarrow> (nat \<Rightarrow> 'w \<Rightarrow> 'w) \<Rightarrow> ('w \<Rightarrow> 'u)
     \<Rightarrow> ('b \<Rightarrow> 'f option) \<Rightarrow> ('u, 'k, 'f, 'g) Machine \<Rightarrow> ('c \<Rightarrow> 'k) option \<Rightarrow> ('w, 'c, 'e, 'b) InvokeRunner" where
  "MachineActor place sendChild closeChild childWorld asEvt newChild inp ctx parentCtx ad w =
     (place ctx (machine_child newChild inp parentCtx ad (childWorld w)) w,
      \<lparr>riCancel = Some (closeChild ctx),
       riDeliver = Some (\<lambda>e w. case asEvt e of None \<Rightarrow> w | Some ce \<Rightarrow> sendChild ctx ce w)\<rparr>, [])"

declare PromiseActor_def [gomodel] recvCap_def [gomodel] callback_deliver_def [gomodel] CallbackActor_def [gomodel]
  observable_next_def [gomodel] ObservableActor_def [gomodel] backoff_fire_def [gomodel] BackoffActor_def [gomodel]
  machine_notify_def [gomodel] machine_child_def [gomodel] MachineActor_def [gomodel]

subsection \<open>A nested machine reports once\<close>

text \<open>Only the last of the published snapshots can be terminal, so only it is reported.\<close>

lemma notify_running: "\<not> Terminal (Status s) \<Longrightarrow> machine_notify onDone onError s = []"
  by (cases "Status s") (auto simp: machine_notify_def)

lemma notify_stored:
  assumes "pub_ok a"
  shows "concat (map (machine_notify onDone onError) (stored a)) = machine_notify onDone onError (snap a)"
proof -
  have "stored a = butlast (stored a) @ [snap a]"
    using assms append_butlast_last_id [of "stored a"] by (simp add: pub_ok_def)
  moreover have "concat (map (machine_notify onDone onError) (butlast (stored a))) = []"
    using assms notify_running by (fastforce simp: pub_ok_def list_all_iff)
  ultimately show ?thesis
    by (metis (no_types, lifting) append_Nil concat.simps(1,2) concat_append list.simps(8,9) map_append append_Nil2)
qed

lemma child_address:
  "HasPrefix ad ''/'' \<Longrightarrow> addr (machine_child child inp pc (Child ad i) u) = Child ad i"
  by (auto simp: machine_child_def Start_def Let_def TrimPrefix_def HasPrefix_iff Child_def)

lemma boot_keeps: "bootLoop H k a = Some b \<Longrightarrow> keeps a b"
proof -
  assume boot: "bootLoop H k a = Some b"
  obtain e' ms where st: "engine_start H k (eng a) = Some (e', ms)"
    using boot by (auto simp: bootLoop_def split: option.splits)
  obtain a1 ok where ex: "execMicrostep H ms (a\<lparr>eng := e'\<rparr>) = (a1, ok)"
    by fastforce
  have a1: "keeps a a1"
    using keeps_exec [OF ex] by (simp add: keeps_def)
  show ?thesis
  proof (cases "\<not> ok \<or> Terminal (engStatus (eng a1))")
    case True
    then have "b = shutdown a1"
      using boot st ex by (auto simp: bootLoop_def)
    then show ?thesis
      using keeps_trans [OF a1] shutdown_keeps(1) by blast
  next
    case False
    then obtain c ok2 where c: "runMacrostep H k a1 = Some (c, ok2)"
      "(if \<not> ok2 then Some (shutdown c) else reconcileInvokes H c) = Some b"
      using boot st ex by (auto simp: bootLoop_def split: option.splits prod.splits)
    have "keeps c b"
      using c(2) shutdown_keeps(1) [of c] keeps_reconcile [of H c b] by (cases ok2) auto
    then show ?thesis
      using keeps_trans [OF keeps_trans [OF a1 keeps_macro [OF c(1)]]] by blast
  qed
qed

lemma run_keeps: "actor_run H k a0 a \<Longrightarrow> conf a = conf a0 \<and> addr a = addr a0"
proof (induction rule: actor_run.induct)
  case (boot q a)
  then show ?case
    using boot_keeps [OF boot] by (simp add: keeps_def)
next
  case (step a a')
  then show ?case
    using step_acks by metis
qed


definition sample_child :: "(sample_world, unit, string, unit) actor" where
  "sample_child = machine_child (sample_machine demo []) None () (Child ''/p'' ''c'') sample_world0"


subsection \<open>Outcomes that come late\<close>

text \<open>
  A promise that returns after its state was exited is discarded, but only the check of the
  context is: an outcome that is already in the mailbox, or a timer event that is, survives
  the exit of its state. \<open>retry\<close> is a chart whose state \<open>a\<close> is left and entered again by
  \<open>E\<close> and leads to \<open>b\<close> after five seconds.
\<close>

lemma discarded: "returns True r g = Finished \<or> (\<exists>e. g = Emitting e)"
  by (cases g) auto

definition retry :: heap where
  "retry = \<lparr>nodes =
     [state 0 [] StateCompound None [1, 2] (Some 1) [],
      state 1 ''a'' StateAtomic (Some 0) [] None [0, 1],
      state 2 ''b'' StateAtomic (Some 0) [] None []],
     edges = [edge 1 ''E'' [1] 0,
      (edge 1 ''xstate.after(5000)#a'' [2] 1)\<lparr>IsAfter := True, TDelay := \<lparr>Millis = 5000, Symbol = []\<rparr>\<rparr>]\<rparr>"

definition retry_booted :: "(sample_world, unit, string, unit) actor" where
  "retry_booted = booted retry 6 (sample_actor retry)"

text \<open>
  The caller sends \<open>E\<close> at four seconds; the loop gets to it only after the timer has fired at
  five: the mailbox is \<open>E\<close> and then the timer's event.
\<close>

definition retry_late :: "(sample_world, unit, string, unit) actor" where
  "retry_late =
     (let a = fst (TrySend ''E'' retry_booted);
          (w, fired) = Advance (5000 * Millisecond) (world a)
      in hd (fireTimer (hd fired) (a\<lparr>world := w\<rparr>)))"

definition retry_reentered :: "(sample_world, unit, string, unit) actor" where
  "retry_reentered = handled retry 6 retry_late"

definition retry_left :: "(sample_world, unit, string, unit) actor" where
  "retry_left = handled retry 6 retry_reentered"


end
