(* ===== verification/Actor_Timers.thy ===== *)
theory Actor_Timers
  imports Machine_Run Samples
begin

section \<open>The \<open>after\<close> timers of the actor\<close>

text \<open>
  The actor keeps a table of the timers it armed, per state, beside the timer service. The
  locale states what the actor relies on: its \<open>Clock\<close> is the one its \<open>TimerService\<close> goes
  by. The lemmas say that the table and the service agree: leaving a state disarms its
  timers and only those, entering a state arms one timer per \<open>after\<close> edge, and the
  snapshot's \<open>PendingAfter\<close> lists the table.
\<close>

definition timersOf :: "('w, 'c, 'e, 'b) actor \<Rightarrow> node \<Rightarrow> armedTimer list" where
  "timersOf a n = (case map_of (armed a) n of None \<Rightarrow> [] | Some xs \<Rightarrow> xs)"

definition handles :: "(node \<times> armedTimer list) list \<Rightarrow> nat list" where
  "handles al = concat (map (\<lambda>p. map atTimer (snd p)) al)"

subsection \<open>The table\<close>

lemma cancel_table:
  "armed (cancelAfterTimers ns a) = filter (\<lambda>p. fst p \<notin> set ns) (armed a)"
proof -
  have "armed (fold cancelState ns a) = filter (\<lambda>p. fst p \<notin> set ns) (armed a)"
    by (induction ns arbitrary: a) (auto simp: cancelState_def AList.delete_eq conj_commute intro!: filter_cong)
  then show ?thesis by (simp add: cancelAfterTimers_def)
qed

lemma appendArmed_keys:
  "distinct (map fst al) \<Longrightarrow> distinct (map fst (appendArmed n x al))"
  "fst ` set (appendArmed n x al) = insert n (fst ` set al)"
  by (auto simp: appendArmed_def distinct_update dom_update)

lemma appendArmed_map:
  "map_of (appendArmed n x al) m =
     (if m = n then Some ((case map_of al n of None \<Rightarrow> [] | Some xs \<Rightarrow> xs) @ [x]) else map_of al m)"
  by (simp add: appendArmed_def update_conv)

lemma mset_appendArmed:
  assumes "distinct (map fst al)"
  shows "mset (concat (map (\<lambda>p. map (f (fst p)) (snd p)) (appendArmed n x al))) =
           add_mset (f n x) (mset (concat (map (\<lambda>p. map (f (fst p)) (snd p)) al)))"
  using assms
proof (induction al)
  case Nil
  then show ?case by (simp add: appendArmed_def)
next
  case (Cons p al)
  obtain m xs where p: "p = (m, xs)"
    by fastforce
  show ?case
  proof (cases "m = n")
    case True
    then have "n \<notin> fst ` set al"
      using Cons.prems p by auto
    then show ?thesis
      using True p by (simp add: appendArmed_def)
  next
    case False
    then have "appendArmed n x (p # al) = p # appendArmed n x al"
      using p by (simp add: appendArmed_def)
    then show ?thesis
      using Cons by simp
  qed
qed

definition timerRecord :: "heap \<Rightarrow> node \<Rightarrow> armedTimer \<Rightarrow> ScheduledTimer" where
  "timerRecord H n x = \<lparr>stStateID = ID (nodeAt H n), stDescriptor = atDescriptor x, stDeadline = atDeadline x\<rparr>"

lemma armedRecord_alt: "armedRecord H = (\<lambda>p. map (timerRecord H (fst p)) (snd p))"
  by (simp add: armedRecord_def timerRecord_def fun_eq_iff)

lemma armOne_parts:
  obtains tm w1 where "Schedule (mTimers (conf a)) (stDeadline (plannedTimer H (conf a) nw n t))
        (plannedTimer H (conf a) nw n t) (world a) = (w1, tm)"
    and "armed (armOne H nw n t a) = appendArmed n
        \<lparr>atTimer = tm, atDescriptor = stDescriptor (plannedTimer H (conf a) nw n t),
         atDeadline = stDeadline (plannedTimer H (conf a) nw n t), atState = n\<rparr> (armed a)"
    and "world (armOne H nw n t a) = fold (\<lambda>ob. OnTimerScheduled ob (plannedTimer H (conf a) nw n t)) (timerObs (conf a)) w1"
    and "conf (armOne H nw n t a) = conf a"
  by (cases "Schedule (mTimers (conf a)) (stDeadline (plannedTimer H (conf a) nw n t))
        (plannedTimer H (conf a) nw n t) (world a)")
     (auto simp: armOne_def Let_def)

lemma armOne_conf [simp]: "conf (armOne H nw n t a) = conf a"
  using armOne_work [of a H nw n t] by (simp add: same_work_def same_public_def)

lemma arm_edges_conf [simp]: "conf (fold (armOne H nw n) ts a) = conf a"
  by (induction ts arbitrary: a) auto

lemma armOne_records:
  assumes "distinct (map fst (armed a))"
  shows "mset (concat (map (armedRecord H) (armed (armOne H nw n t a)))) =
           add_mset (plannedTimer H (conf a) nw n t) (mset (concat (map (armedRecord H) (armed a))))
         \<and> distinct (map fst (armed (armOne H nw n t a)))"
proof -
  obtain tm where ar: "armed (armOne H nw n t a) = appendArmed n
        \<lparr>atTimer = tm, atDescriptor = stDescriptor (plannedTimer H (conf a) nw n t),
         atDeadline = stDeadline (plannedTimer H (conf a) nw n t), atState = n\<rparr> (armed a)"
    by (rule armOne_parts [of a H nw n t]) blast
  show ?thesis
    unfolding ar armedRecord_alt mset_appendArmed [OF assms]
    using appendArmed_keys(1) [OF assms] by (simp add: plannedTimer_def timerRecord_def)
qed

lemma arm_edges_records:
  assumes "distinct (map fst (armed a))"
  shows "mset (concat (map (armedRecord H) (armed (fold (armOne H nw n) ts a)))) =
           mset (map (plannedTimer H (conf a) nw n) ts) + mset (concat (map (armedRecord H) (armed a)))
         \<and> distinct (map fst (armed (fold (armOne H nw n) ts a)))"
  using assms
proof (induction ts arbitrary: a)
  case Nil
  then show ?case by simp
next
  case (Cons t ts)
  note one = armOne_records [OF Cons.prems, of H nw n t]
  show ?case
    using Cons.IH [of "armOne H nw n t a"] one by simp
qed

lemma arm_states_records:
  assumes "distinct (map fst (armed a))"
  shows "mset (concat (map (armedRecord H) (armed (fold (\<lambda>n a. fold (armOne H nw n) (afterEdges H n) a) ns a)))) =
           mset (concat (map (\<lambda>n. map (plannedTimer H (conf a) nw n) (afterEdges H n)) ns))
             + mset (concat (map (armedRecord H) (armed a)))
         \<and> distinct (map fst (armed (fold (\<lambda>n a. fold (armOne H nw n) (afterEdges H n) a) ns a)))"
  using assms
proof (induction ns arbitrary: a)
  case Nil
  then show ?case by simp
next
  case (Cons n ns)
  note one = arm_edges_records [OF Cons.prems, of H nw n "afterEdges H n"]
  show ?case
    using Cons.IH [of "fold (armOne H nw n) (afterEdges H n) a"] one by (simp add: ac_simps)
qed

lemma arm_table:
  assumes "distinct (map fst (armed a))"
  shows "mset (concat (map (armedRecord H) (armed (armAfterTimers H ns a)))) =
           mset (concat (map (\<lambda>n. map (plannedTimer H (conf a) (mClock (conf a) (world a)) n) (afterEdges H n)) ns))
             + mset (concat (map (armedRecord H) (armed a)))
         \<and> distinct (map fst (armed (armAfterTimers H ns a)))"
  unfolding armAfterTimers_def Let_def by (rule arm_states_records [OF assms])

lemma cancel_clock:
  assumes "\<And>t w. mClock (conf a) (fst (Cancel (mTimers (conf a)) t w)) = mClock (conf a) w"
  shows "mClock (conf a) (world (cancelAfterTimers ns a)) = mClock (conf a) (world a)
         \<and> conf (cancelAfterTimers ns a) = conf a"
proof -
  have hs: "mClock (conf a) (cancelHandles (mTimers (conf a)) xs w) = mClock (conf a) w" for xs w
    unfolding cancelHandles_def by (induction xs arbitrary: w) (auto simp: assms)
  have "conf b = conf a \<Longrightarrow>
      mClock (conf a) (world (fold cancelState ns b)) = mClock (conf a) (world b) \<and> conf (fold cancelState ns b) = conf a"
    for b
    by (induction ns arbitrary: b) (auto simp: cancelState_def hs)
  then show ?thesis
    by (simp add: cancelAfterTimers_def)
qed


text \<open>A state with one \<open>after\<close> edge of a second.\<close>

definition ticker :: heap where
  "ticker = \<lparr>nodes =
     [state 0 [] StateCompound None [1, 2] (Some 1) [],
      state 1 ''red'' StateAtomic (Some 0) [] None [0],
      state 2 ''green'' StateAtomic (Some 0) [] None [1]],
     edges =
     [(edge 1 ''xstate.after(1000)#red'' [2] 0)\<lparr>IsAfter := True, TDelay := \<lparr>Millis = 1000, Symbol = []\<rparr>\<rparr>,
      edge 2 ''STOP'' [1] 1]\<rparr>"

definition ticker_actor :: "(ScheduledTimer ManualTimerService, unit, string, unit) actor" where
  "ticker_actor =
     Start ''t'' (NewMachine (\<lambda>w. ManualClock_Now (clock w)) (\<lambda>_. manualService) (\<lambda>s. s)
        (NewDefinition ticker ''ticker'' 0 0 0) () (\<lambda>_ _ _. EffectNoop) (\<lambda>_ _ _. True) [])
       (NewManualTimerService (NewManualClock 0))"

lemma ticker_conf:
  "mTimers (conf ticker_actor) = manualService" "mClock (conf ticker_actor) = Now manualService"
  "transitionObs (conf ticker_actor) = []" "timerObs (conf ticker_actor) = []" "armed ticker_actor = []"
  by (simp_all add: ticker_actor_def Start_def NewMachine_def manualService_def Let_def)


subsection \<open>The table and the service\<close>

locale actor_timers = timer_service TS live used
  for TS :: "('w, ScheduledTimer) TimerService" and live :: "'w \<Rightarrow> nat \<rightharpoonup> time" and used :: "'w \<Rightarrow> nat set" +
  fixes read :: "'w \<Rightarrow> time"
  assumes read_service: "read w = Now TS w"
begin

text \<open>The handles of the table are distinct and were handed out by the service.\<close>

lemma cancelHandles_live:
  "live (cancelHandles TS xs w) = (\<lambda>t. if t \<in> atTimer ` set xs then None else live w t)"
  "used (cancelHandles TS xs w) = used w" "Now TS (cancelHandles TS xs w) = Now TS w"
  by (simp_all add: cancelHandles_def cancel_all cancel_all_frame)

lemma cancel_states_live:
  assumes "mTimers (conf a) = TS" and "distinct (map fst (armed a))"
  shows "live (world (fold cancelState ns a)) =
           (\<lambda>t. if \<exists>n \<in> set ns. t \<in> atTimer ` set (timersOf a n) then None else live (world a) t)
         \<and> used (world (fold cancelState ns a)) = used (world a)
         \<and> Now TS (world (fold cancelState ns a)) = Now TS (world a)
         \<and> conf (fold cancelState ns a) = conf a"
  using assms
proof (induction ns arbitrary: a)
  case Nil
  then show ?case by simp
next
  case (Cons n ns)
  let ?b = "cancelState n a"
  have c: "conf ?b = conf a" and ar: "armed ?b = AList.delete n (armed a)"
    and w: "world ?b = cancelHandles TS (timersOf a n) (world a)"
    using Cons.prems by (simp_all add: cancelState_def timersOf_def)
  have t: "timersOf ?b m = (if m = n then [] else timersOf a m)" for m
    by (simp add: timersOf_def ar delete_conv')
  have "distinct (map fst (armed ?b))"
    using Cons.prems(2) by (simp add: ar distinct_delete)
  then show ?case
    using Cons.IH [of ?b] Cons.prems c w t by (auto simp: cancelHandles_live fun_eq_iff)
qed

lemma arm_one_live:
  assumes "mTimers (conf a) = TS" and "timerObs (conf a) = []" and "distinct (map fst (armed a))"
    and "set (handles (armed a)) \<subseteq> used (world a)"
  shows "\<exists>tm x. tm \<notin> used (world a)
     \<and> x = \<lparr>atTimer = tm, atDescriptor = stDescriptor (plannedTimer H (conf a) nw n t),
         atDeadline = stDeadline (plannedTimer H (conf a) nw n t), atState = n\<rparr>
     \<and> live (world (armOne H nw n t a)) = (live (world a))(tm \<mapsto> atDeadline x)
     \<and> used (world (armOne H nw n t a)) = insert tm (used (world a))
     \<and> Now TS (world (armOne H nw n t a)) = Now TS (world a)
     \<and> timersOf (armOne H nw n t a) = (timersOf a)(n := timersOf a n @ [x])
     \<and> distinct (map fst (armed (armOne H nw n t a)))
     \<and> mset (handles (armed (armOne H nw n t a))) = add_mset tm (mset (handles (armed a)))"
proof -
  obtain tm w1 where sc: "Schedule (mTimers (conf a)) (stDeadline (plannedTimer H (conf a) nw n t))
        (plannedTimer H (conf a) nw n t) (world a) = (w1, tm)"
    and ar: "armed (armOne H nw n t a) = appendArmed n
        \<lparr>atTimer = tm, atDescriptor = stDescriptor (plannedTimer H (conf a) nw n t),
         atDeadline = stDeadline (plannedTimer H (conf a) nw n t), atState = n\<rparr> (armed a)"
    and w: "world (armOne H nw n t a) = fold (\<lambda>ob. OnTimerScheduled ob (plannedTimer H (conf a) nw n t)) (timerObs (conf a)) w1"
    by (rule armOne_parts [of a H nw n t]) blast
  note sc' = sc [unfolded assms(1)]
  have "mset (handles (armed (armOne H nw n t a))) = add_mset tm (mset (handles (armed a)))"
    using mset_appendArmed [OF assms(3), of "\<lambda>_. atTimer"] by (simp add: handles_def ar)
  moreover have "timersOf (armOne H nw n t a) = (timersOf a)(n := timersOf a n @
      [\<lparr>atTimer = tm, atDescriptor = stDescriptor (plannedTimer H (conf a) nw n t),
         atDeadline = stDeadline (plannedTimer H (conf a) nw n t), atState = n\<rparr>])"
    by (auto simp: timersOf_def ar appendArmed_map fun_eq_iff)
  ultimately show ?thesis
    using schedule_fresh [OF sc'] schedule_armed [OF sc'] schedule_now [OF sc'] w assms(2)
      appendArmed_keys(1) [OF assms(3)] by (auto simp: ar)
qed

end

interpretation manual_actor: actor_timers manualService manual_armed "\<lambda>s. {..<length (timers s)}" "\<lambda>w. ManualClock_Now (clock w)"
  by unfold_locales (simp add: manualService_def)

interpretation inproc_actor: actor_timers inprocService inproc_armed "\<lambda>s. {..<length (afterFuncs s)}" wall
  by unfold_locales (simp add: inprocService_def)

end
