(* ===== verification/Codegen_Names.thy ===== *)
theory Codegen_Names
  imports Prelude
begin

section \<open>Naming: \<open>internal/codegen/naming.go\<close>\<close>

text \<open>
  From JSON names to Go identifiers. A rune is a character, and the classes of package
  \<open>unicode\<close> are those of ASCII; names with other letters are outside the model. Errors keep
  the arguments of their format; \<open>identError_text\<close> is the text.
\<close>

definition code_point :: "char \<Rightarrow> nat" where
  "code_point c = of_char c"

definition IsUpper :: "char \<Rightarrow> bool" where
  "IsUpper c \<longleftrightarrow> 65 \<le> code_point c \<and> code_point c \<le> 90"

definition IsLower :: "char \<Rightarrow> bool" where
  "IsLower c \<longleftrightarrow> 97 \<le> code_point c \<and> code_point c \<le> 122"

definition IsDigit :: "char \<Rightarrow> bool" where
  "IsDigit c \<longleftrightarrow> 48 \<le> code_point c \<and> code_point c \<le> 57"

definition IsLetter :: "char \<Rightarrow> bool" where
  "IsLetter c \<longleftrightarrow> IsUpper c \<or> IsLower c"

definition ToLower :: "char \<Rightarrow> char" where
  "ToLower c = (if IsUpper c then char_of (code_point c + 32) else c)"

definition ToUpper :: "char \<Rightarrow> char" where
  "ToUpper c = (if IsLower c then char_of (code_point c - 32) else c)"

definition isSep :: "char \<Rightarrow> bool" where
  "isSep r \<longleftrightarrow> r = CHR ''_'' \<or> r = CHR ''-'' \<or> r = CHR ''.'' \<or> r = CHR '' ''"

text \<open>\<open>splitWords\<close>: the words so far, the current word, whether its last rune is lower case or a digit.\<close>

definition flush :: "string list \<Rightarrow> string \<Rightarrow> string list" where
  "flush ws cur = (if cur = [] then ws else ws @ [cur])"

definition splitRune :: "char \<Rightarrow> string list \<times> string \<times> bool \<Rightarrow> string list \<times> string \<times> bool" where
  "splitRune r s =
     (case s of (ws, cur, prevLowerOrDigit) \<Rightarrow>
        if isSep r then (flush ws cur, [], False)
        else if IsUpper r \<and> prevLowerOrDigit then (flush ws cur, [r], IsLower r \<or> IsDigit r)
        else (ws, cur @ [r], IsLower r \<or> IsDigit r))"

definition splitWords :: "string \<Rightarrow> string list" where
  "splitWords s = (case fold splitRune s ([], [], False) of (ws, cur, _) \<Rightarrow> flush ws cur)"

definition capitalizeWord :: "string \<Rightarrow> string" where
  "capitalizeWord w = (case map ToLower w of [] \<Rightarrow> [] | r # rs \<Rightarrow> ToUpper r # rs)"

definition NormalizeName :: "string \<Rightarrow> string" where
  "NormalizeName jsonName = concat (map capitalizeWord (splitWords jsonName))"

datatype identError =
    EmptyIdent string
  | NoLetter string string
  | IsKeyword string string
  | NameClash string string string

definition goKeywords :: "string list" where
  "goKeywords =
     [''break'', ''case'', ''chan'', ''const'', ''continue'', ''default'', ''defer'', ''else'',
      ''fallthrough'', ''for'', ''func'', ''go'', ''goto'', ''if'', ''import'', ''interface'', ''map'',
      ''package'', ''range'', ''return'', ''select'', ''struct'', ''switch'', ''type'', ''var'']"

definition ValidateIdent :: "string \<Rightarrow> string \<Rightarrow> identError + unit" where
  "ValidateIdent jsonName name =
     (case name of
        [] \<Rightarrow> Inl (EmptyIdent jsonName)
      | first # _ \<Rightarrow>
          if \<not> IsLetter first \<and> first \<noteq> CHR ''_'' then Inl (NoLetter jsonName name)
          else if name \<in> set goKeywords then Inl (IsKeyword jsonName name)
          else Inr ())"

definition GoIdent :: "string \<Rightarrow> identError + string" where
  "GoIdent jsonName =
     (let name = NormalizeName jsonName in bindE (ValidateIdent jsonName name) (\<lambda>_. Inr name))"

definition suffixed :: "string \<Rightarrow> string \<Rightarrow> string \<Rightarrow> identError + string" where
  "suffixed desc base ending =
     (let name = NormalizeName base @ ending in bindE (ValidateIdent desc name) (\<lambda>_. Inr name))"

definition EventGoName :: "string \<Rightarrow> identError + string" where
  "EventGoName desc =
     (if HasPrefix desc ''done.invoke.'' then suffixed desc (TrimPrefix desc ''done.invoke.'') ''Done''
      else if HasPrefix desc ''error.invoke.'' then suffixed desc (TrimPrefix desc ''error.invoke.'') ''Error''
      else if HasPrefix desc ''done.state.'' then suffixed desc (TrimPrefix desc ''done.state.'') ''Done''
      else GoIdent desc)"

text \<open>The map from Go names to JSON names, updated as the loop goes.\<close>

fun checkNames :: "string list \<Rightarrow> (string \<rightharpoonup> string) \<Rightarrow> identError + unit" where
  "checkNames [] seen = Inr ()"
| "checkNames (jn # jns) seen =
     (case GoIdent jn of
        Inl e \<Rightarrow> Inl e
      | Inr name \<Rightarrow>
          (case seen name of
             Some prev \<Rightarrow>
               if prev \<noteq> jn then Inl (NameClash prev jn name) else checkNames jns (seen(name \<mapsto> jn))
           | None \<Rightarrow> checkNames jns (seen(name \<mapsto> jn))))"

definition CheckCollisions :: "string list \<Rightarrow> identError + unit" where
  "CheckCollisions jsonNames = checkNames jsonNames Map.empty"

declare code_point_def [gomodel] IsUpper_def [gomodel] IsLower_def [gomodel] IsDigit_def [gomodel]
  IsLetter_def [gomodel] ToLower_def [gomodel] ToUpper_def [gomodel] isSep_def [gomodel] flush_def [gomodel]
  splitRune_def [gomodel] splitWords_def [gomodel] capitalizeWord_def [gomodel] NormalizeName_def [gomodel]
  goKeywords_def [gomodel] ValidateIdent_def [gomodel] GoIdent_def [gomodel] suffixed_def [gomodel]
  EventGoName_def [gomodel] CheckCollisions_def [gomodel]

subsection \<open>Quoting\<close>

text \<open>\<open>%q\<close>: a Go string literal, for ASCII text.\<close>

definition hexDigit :: "nat \<Rightarrow> char" where
  "hexDigit n = char_of (if n < 10 then 48 + n else 87 + n)"

definition quoteRune :: "char \<Rightarrow> string" where
  "quoteRune c =
     (let n = code_point c in
      if c = CHR 0x22 then [CHR 0x5C, CHR 0x22]
      else if c = CHR 0x5C then [CHR 0x5C, CHR 0x5C]
      else if n = 7 then [CHR 0x5C, CHR ''a'']
      else if n = 8 then [CHR 0x5C, CHR ''b'']
      else if n = 12 then [CHR 0x5C, CHR ''f'']
      else if n = 10 then [CHR 0x5C, CHR ''n'']
      else if n = 13 then [CHR 0x5C, CHR ''r'']
      else if n = 9 then [CHR 0x5C, CHR ''t'']
      else if n = 11 then [CHR 0x5C, CHR ''v'']
      else if n < 32 \<or> n = 127 then [CHR 0x5C, CHR ''x'', hexDigit (n div 16), hexDigit (n mod 16)]
      else [c])"

definition quote :: "string \<Rightarrow> string" where
  "quote s = [CHR 0x22] @ concat (map quoteRune s) @ [CHR 0x22]"

fun identError_text :: "identError \<Rightarrow> string" where
  "identError_text (EmptyIdent jn) = quote jn @ '' normalizes to an empty identifier''"
| "identError_text (NoLetter jn name) =
     quote jn @ '' normalizes to '' @ quote name @ '', which does not start with a letter''"
| "identError_text (IsKeyword jn name) = quote jn @ '' normalizes to '' @ quote name @ '', a Go keyword''"
| "identError_text (NameClash prev jn name) =
     quote prev @ '' and '' @ quote jn @ '' both normalize to '' @ quote name"

declare hexDigit_def [gomodel] quoteRune_def [gomodel] quote_def [gomodel]

subsection \<open>Case\<close>

lemma code_point_less: "code_point c < 256"
  by (simp add: code_point_def)

lemma code_point_char_of: "n < 256 \<Longrightarrow> code_point (char_of n) = n"
  by (simp add: code_point_def)

lemma char_of_code_point [simp]: "char_of (code_point c) = c"
  by (simp add: code_point_def)

lemma ToLower_ToUpper [simp]: "ToLower (ToUpper c) = ToLower c"
  by (auto simp: ToLower_def ToUpper_def IsUpper_def IsLower_def code_point_char_of)

lemma ToLower_ToLower [simp]: "ToLower (ToLower c) = ToLower c"
  by (auto simp: ToLower_def IsUpper_def code_point_char_of)

lemma ToUpper_ToLower [simp]: "ToUpper (ToLower c) = ToUpper c"
  by (auto simp: ToLower_def ToUpper_def IsUpper_def IsLower_def code_point_char_of)

lemma IsLetter_ToUpper [simp]: "IsLetter (ToUpper c) = IsLetter c"
  by (auto simp: IsLetter_def ToUpper_def IsUpper_def IsLower_def code_point_char_of)

lemma not_IsLower_ToUpper [simp]: "\<not> IsLower (ToUpper c)"
  by (auto simp: ToUpper_def IsLower_def code_point_char_of)

subsection \<open>Words\<close>

definition plain :: "string \<Rightarrow> string" where
  "plain s = filter (\<lambda>c. \<not> isSep c) s"

lemma concat_flush: "concat (flush ws cur) = concat ws @ cur"
  by (simp add: flush_def)

lemma split_fold:
  "case fold splitRune s (ws, cur, p) of (ws', cur', p') \<Rightarrow> concat ws' @ cur' = concat ws @ cur @ plain s
     \<and> ([] \<notin> set ws \<longrightarrow> [] \<notin> set ws')"
proof (induction s arbitrary: ws cur p)
  case Nil
  then show ?case by (simp add: plain_def)
next
  case (Cons r s)
  show ?case
    using Cons.IH [of "flush ws cur" "[]" False] Cons.IH [of "flush ws cur" "[r]" "IsLower r \<or> IsDigit r"]
      Cons.IH [of ws "cur @ [r]" "IsLower r \<or> IsDigit r"]
    by (auto simp: splitRune_def plain_def concat_flush split: prod.splits) (auto simp: flush_def split: if_splits)
qed

lemma splitWords_words: "concat (splitWords s) = plain s" "[] \<notin> set (splitWords s)"
  using split_fold [where s = s and ws = "[]" and cur = "[]" and p = False]
  by (auto simp: splitWords_def concat_flush split: prod.splits) (auto simp: flush_def split: if_splits)

lemma lower_capitalize: "map ToLower (capitalizeWord w) = map ToLower w"
  by (cases w) (simp_all add: capitalizeWord_def comp_def)

lemma lower_Normalize: "map ToLower (NormalizeName s) = map ToLower (plain s)"
proof -
  have "map ToLower (concat (map capitalizeWord ws)) = map ToLower (concat ws)" for ws
    by (induction ws) (simp_all add: lower_capitalize)
  then show ?thesis
    by (simp add: NormalizeName_def splitWords_words(1) [symmetric])
qed

lemma Normalize_first:
  "NormalizeName s = (case plain s of [] \<Rightarrow> [] | c # cs \<Rightarrow> ToUpper c # drop 1 (NormalizeName s))"
proof (cases "splitWords s")
  case Nil
  then have "plain s = []"
    using splitWords_words(1) [of s] by simp
  then show ?thesis
    using lower_Normalize [of s] by simp
next
  case (Cons w ws)
  then obtain c cs where w: "w = c # cs"
    using splitWords_words(2) [of s] by (cases w) auto
  have "plain s = c # cs @ concat ws"
    using splitWords_words(1) [of s] Cons w by simp
  then show ?thesis
    using Cons w by (simp add: NormalizeName_def capitalizeWord_def)
qed

lemma keyword_first: "k \<in> set goKeywords \<Longrightarrow> k \<noteq> [] \<and> IsLower (hd k)"
  by (auto simp: goKeywords_def IsLower_def code_point_def)

lemma ToUpper_other: "\<not> IsLetter c \<Longrightarrow> ToUpper c = c"
  by (simp add: ToUpper_def IsLetter_def)

text \<open>\<open>GoIdent\<close> looks at the first rune that is no separator.\<close>

lemma go_ident_spec:
  "GoIdent s =
     (case filter (\<lambda>c. \<not> isSep c) s of
        [] \<Rightarrow> Inl (EmptyIdent s)
      | c # _ \<Rightarrow> if IsLetter c then Inr (NormalizeName s) else Inl (NoLetter s (NormalizeName s)))
   \<and> map ToLower (NormalizeName s) = map ToLower (filter (\<lambda>c. \<not> isSep c) s)
   \<and> take 1 (NormalizeName s) = map ToUpper (take 1 (filter (\<lambda>c. \<not> isSep c) s))
   \<and> GoIdent ''pay!'' = Inr ''Pay!''"
proof -
  have "GoIdent ''pay!'' = Inr ''Pay!''"
    by code_simp
  moreover have "GoIdent s = (case plain s of [] \<Rightarrow> Inl (EmptyIdent s)
      | c # _ \<Rightarrow> if IsLetter c then Inr (NormalizeName s) else Inl (NoLetter s (NormalizeName s)))
    \<and> take 1 (NormalizeName s) = map ToUpper (take 1 (plain s))"
  proof (cases "plain s")
    case Nil
    then have "NormalizeName s = []"
      using Normalize_first [of s] by simp
    then show ?thesis
      using Nil by (simp add: GoIdent_def ValidateIdent_def)
  next
    case (Cons c cs)
    then obtain r where n: "NormalizeName s = ToUpper c # r"
      using Normalize_first [of s] by auto
    have "c \<noteq> CHR ''_''"
    proof -
      have "c \<in> set (plain s)"
        using Cons by simp
      then show ?thesis
        by (auto simp: plain_def isSep_def)
    qed
    moreover have "ToUpper c # r \<notin> set goKeywords"
      using keyword_first [of "ToUpper c # r"] by auto
    ultimately have "ValidateIdent s (NormalizeName s)
        = (if IsLetter c then Inr () else Inl (NoLetter s (NormalizeName s)))"
      using ToUpper_other [of c] by (auto simp: ValidateIdent_def n)
    then show ?thesis
      using Cons n by (simp add: GoIdent_def)
  qed
  ultimately show ?thesis
    using lower_Normalize [of s] by (simp add: plain_def)
qed

text \<open>The names seen so far are recorded under their identifiers.\<close>

definition records :: "string set \<Rightarrow> (string \<rightharpoonup> string) \<Rightarrow> bool" where
  "records A seen \<longleftrightarrow> (\<forall>g jn. seen g = Some jn \<longleftrightarrow> jn \<in> A \<and> GoIdent jn = Inr g)"

lemma checkNames_ok:
  assumes "records A seen"
  shows "checkNames ns seen = Inr () \<longleftrightarrow>
     (\<forall>n \<in> set ns. \<exists>g. GoIdent n = Inr g)
     \<and> (\<forall>m \<in> A \<union> set ns. \<forall>n \<in> set ns. GoIdent m = GoIdent n \<longrightarrow> m = n)"
  using assms
proof (induction ns arbitrary: A seen)
  case Nil
  then show ?case by simp
next
  case (Cons n ns)
  show ?case
  proof (cases "GoIdent n")
    case (Inl e)
    then show ?thesis by auto
  next
    case (Inr g)
    show ?thesis
    proof (cases "\<exists>prev. seen g = Some prev \<and> prev \<noteq> n")
      case True
      then obtain prev where p: "seen g = Some prev" "prev \<noteq> n" by blast
      then have "prev \<in> A" "GoIdent prev = Inr g"
        using Cons.prems by (auto simp: records_def)
      then show ?thesis
        using p Inr by auto
    next
      case False
      then have no: "seen g = None \<or> seen g = Some n"
        by (cases "seen g") auto
      then have only: "m = n" if "m \<in> A" "GoIdent m = Inr g" for m
      proof -
        have "seen g = Some m"
          using Cons.prems that by (simp add: records_def)
        then show ?thesis
          using no by simp
      qed
      have rec: "records (insert n A) (seen(g \<mapsto> n))"
        using Cons.prems Inr only by (auto simp: records_def)
      have "checkNames (n # ns) seen = checkNames ns (seen(g \<mapsto> n))"
        using Inr no by (auto split: option.splits)
      then have ih: "checkNames (n # ns) seen = Inr () \<longleftrightarrow>
          (\<forall>k \<in> set ns. \<exists>g. GoIdent k = Inr g)
          \<and> (\<forall>m \<in> insert n A \<union> set ns. \<forall>k \<in> set ns. GoIdent m = GoIdent k \<longrightarrow> m = k)"
        using Cons.IH [OF rec] by (simp only:)
      have same: "\<forall>m \<in> A. GoIdent m = GoIdent n \<longrightarrow> m = n" and found: "\<exists>g. GoIdent n = Inr g"
        using only Inr by auto
      show ?thesis
        unfolding ih list.set(2) using same found by (intro iffI conjI ballI impI) (metis Un_iff insert_iff)+
    qed
  qed
qed

lemma collisions_iff:
  "CheckCollisions ns = Inr () \<longleftrightarrow>
     list_all (\<lambda>n. \<not> isl (GoIdent n)) ns \<and> inj_on GoIdent (set ns)"
proof -
  have "records {} Map.empty"
    by (simp add: records_def)
  from checkNames_ok [OF this, of ns] show ?thesis
    by (auto simp: CheckCollisions_def list_all_iff inj_on_def isl_def) (metis sum.exhaust sum.sel)+
qed

text \<open>
  C32. Go identifiers: on ASCII names \<open>GoIdent\<close> looks at the first rune that is no separator; if
  it is a letter the identifier is the name without separators up to case, starting with that
  letter in upper case, otherwise the name is refused. The keyword test never fires, and
  nothing looks at the other runes: \<open>pay!\<close> passes and becomes \<open>Pay!\<close>, which is no identifier.
  The check for collisions succeeds exactly when every name has a Go identifier and no two
  different names share one.
\<close>

theorem go_names:
  "GoIdent s =
     (case filter (\<lambda>c. \<not> isSep c) s of
        [] \<Rightarrow> Inl (EmptyIdent s)
      | c # _ \<Rightarrow> if IsLetter c then Inr (NormalizeName s) else Inl (NoLetter s (NormalizeName s)))
   \<and> map ToLower (NormalizeName s) = map ToLower (filter (\<lambda>c. \<not> isSep c) s)
   \<and> take 1 (NormalizeName s) = map ToUpper (take 1 (filter (\<lambda>c. \<not> isSep c) s))
   \<and> GoIdent ''pay!'' = Inr ''Pay!''
   \<and> (CheckCollisions ns = Inr () \<longleftrightarrow> list_all (\<lambda>n. \<not> isl (GoIdent n)) ns \<and> inj_on GoIdent (set ns))"
  using go_ident_spec [of s] collisions_iff [of ns] by (intro conjI) blast+

end
