(* ===== verification/Tree_Walk.thy ===== *)
theory Tree_Walk
  imports Chart
begin

section \<open>Depth-first visits\<close>

text \<open>
  The code generator and the diagrams visit the tree with a recursive closure. On a
  well-formed tree such a visit, which \<open>visit\<close> bounds by fuel, meets every node below its
  start exactly once, and fuel beyond the number of nodes changes nothing.
\<close>

lemma distinct_concat_map:
  "distinct xs \<Longrightarrow> (\<And>x. x \<in> set xs \<Longrightarrow> distinct (f x)) \<Longrightarrow>
   (\<And>x y. x \<in> set xs \<Longrightarrow> y \<in> set xs \<Longrightarrow> x \<noteq> y \<Longrightarrow> set (f x) \<inter> set (f y) = {}) \<Longrightarrow> distinct (concat (map f xs))"
  by (induction xs) auto

lemma visit_spec:
  assumes "tree H"
  shows "n < length (nodes H) \<Longrightarrow> length (nodes H) - n \<le> k \<Longrightarrow>
    set (visit H k n) = below H n \<and> distinct (visit H k n)"
proof (induction k arbitrary: n)
  case 0
  then show ?case by simp
next
  case (Suc k)
  have kid: "c < length (nodes H)" "length (nodes H) - c \<le> k" if "c \<in> set (kids H n)" for c
    using tree_kid [OF assms Suc.prems(1) that] Suc.prems(2) by auto
  have IH: "set (visit H k c) = below H c" "distinct (visit H k c)" if "c \<in> set (kids H n)" for c
    using Suc.IH [OF kid [OF that]] by auto
  have "set (visit H (Suc k) n) = below H n"
    using IH(1) below_unfold [OF assms Suc.prems(1)] by auto
  moreover have "distinct (concat (map (visit H k) (kids H n)))"
  proof (rule distinct_concat_map [OF tree_distinct_kids [OF assms Suc.prems(1)]])
    fix c d
    assume "c \<in> set (kids H n)" "d \<in> set (kids H n)" "c \<noteq> d"
    then show "set (visit H k c) \<inter> set (visit H k d) = {}"
      using IH(1) siblings_disjoint [OF assms Suc.prems(1)] by auto
  qed (use IH(2) in auto)
  moreover have "n \<notin> set (concat (map (visit H k) (kids H n)))"
    using IH(1) not_below_kid [OF assms Suc.prems(1)] by auto
  ultimately show ?case
    by simp
qed

lemma preorder_all:
  assumes "tree H"
  shows "set (preorder H 0) = {..<length (nodes H)}" "distinct (preorder H 0)"
proof -
  have "0 < length (nodes H)"
    using assms by (rule tree_size)
  then have v: "set (preorder H 0) = below H 0" "distinct (preorder H 0)"
    using visit_spec [OF assms, of 0 "length (nodes H)"] by (simp_all add: preorder_def)
  moreover have "below H 0 = {..<length (nodes H)}"
    using root_ancestor [OF assms] by (auto simp: below_def)
  ultimately show "set (preorder H 0) = {..<length (nodes H)}" "distinct (preorder H 0)"
    by auto
qed

end
