(* ===== verification/Codegen_Resolve.thy ===== *)
theory Codegen_Resolve
  imports Codegen_Names Tree_Walk Lifecycle
begin

section \<open>Name resolution and advice: \<open>internal/codegen/resolve.go\<close>, \<open>lint.go\<close>\<close>

text \<open>
  \<open>Resolve\<close> looks every name of a definition up in the Go package of the machine. The type
  checker's view of that package is data: a scope of objects, and types as \<open>go/types\<close>
  sees them, an interface with the names of its methods. What \<open>go/types\<close> computes for a
  package is part of it: the underlying type of a type, its text as seen from the package,
  the names of the methods of a pointer to it. What \<open>packages.Load\<close> finds in a directory
  is an argument. Go maps are lists without repetitions
  in the order of the walk; Go ranges over them in any order, and the properties speak of
  sets.
\<close>

datatype chanDir = SendRecv | SendOnly | RecvOnly

datatype gotype =
    Named "(string \<times> string) option" string "gotype list"
  | Pointer gotype
  | Signature "gotype list" "gotype list"
  | Chan chanDir gotype
  | Interface "string list"
  | Basic string

datatype goObject =
    TypeName gotype
  | Func "gotype list" "gotype list"
  | Const
  | Other

record goPackage =
  PkgName :: string
  PkgPath :: string
  Scope :: "string \<rightharpoonup> goObject"
  Underlying :: "gotype \<Rightarrow> gotype"
  TypeText :: "gotype \<Rightarrow> string"
  MethodNames :: "gotype \<Rightarrow> string list"

datatype AdapterKind = AdapterUnknown | AdapterPromise | AdapterCallback | AdapterObservable | AdapterMachine

fun AdapterKind_String :: "AdapterKind \<Rightarrow> string" where
  "AdapterKind_String AdapterPromise = ''promise''"
| "AdapterKind_String AdapterCallback = ''callback''"
| "AdapterKind_String AdapterObservable = ''observable''"
| "AdapterKind_String AdapterMachine = ''machine''"
| "AdapterKind_String AdapterUnknown = ''unknown''"

record EventSym =
  evDescriptor :: string
  evGoName :: string
  evType :: gotype

record ActorSym =
  acSrc :: string
  acGoName :: string
  acParams :: "gotype list"
  acResults :: "gotype list"
  acKind :: AdapterKind
  acIn :: "gotype option"
  acOut :: "gotype option"

record Unresolved =
  unKind :: string
  unGoName :: string
  unDetail :: string

record Resolution =
  resPkg :: goPackage
  resEvents :: "(string \<times> EventSym) list"
  resContext :: "gotype option"
  resActors :: "(string \<times> ActorSym) list"
  resDelays :: "string list"
  resUnresolved :: "Unresolved list"

subsection \<open>References of a definition\<close>

definition isGenerated :: "string \<Rightarrow> bool" where
  "isGenerated desc \<longleftrightarrow>
     HasPrefix desc ''done.invoke.'' \<or> HasPrefix desc ''error.invoke.'' \<or> HasPrefix desc ''done.state.''"

type_synonym refs = "string list \<times> string list \<times> string list"

definition collectTransition :: "Transition \<Rightarrow> refs \<Rightarrow> refs" where
  "collectTransition t acc =
     (case acc of (events, actors, delays) \<Rightarrow>
        if Event t = [] \<or> IsAfter t \<or> isGenerated (Event t) then
          (events, actors,
           if IsAfter t \<and> Symbol (TDelay t) \<noteq> [] then ins (Symbol (TDelay t)) delays else delays)
        else (ins (Event t) events, actors, delays))"

definition collectInvoke :: "Invoke \<Rightarrow> refs \<Rightarrow> refs" where
  "collectInvoke iv acc = (case acc of (events, actors, delays) \<Rightarrow> (events, ins (Src iv) actors, delays))"

definition collectNode :: "heap \<Rightarrow> node \<Rightarrow> refs \<Rightarrow> refs" where
  "collectNode H n acc =
     fold collectInvoke (Invokes (nodeAt H n))
       (fold (\<lambda>t. collectTransition (edgeAt H t)) (Transitions (nodeAt H n)) acc)"

definition collectRefs :: "heap \<Rightarrow> Definition \<Rightarrow> refs" where
  "collectRefs H d = fold (collectNode H) (preorder H (Root d)) ([], [], [])"

declare isGenerated_def [gomodel] collectTransition_def [gomodel] collectInvoke_def [gomodel]
  collectNode_def [gomodel] collectRefs_def [gomodel]

subsection \<open>Adapter kinds\<close>

definition isContextType :: "gotype \<Rightarrow> bool" where
  "isContextType t =
     (case t of Named (Some (path, _)) name _ \<Rightarrow> path = ''context'' \<and> name = ''Context'' | _ \<Rightarrow> False)"

definition errorType :: gotype where
  "errorType = Named None ''error'' []"

definition isErrorType :: "gotype \<Rightarrow> bool" where
  "isErrorType t \<longleftrightarrow> t = errorType"

definition isFuncType :: "goPackage \<Rightarrow> gotype \<Rightarrow> bool" where
  "isFuncType P t = (case Underlying P t of Signature _ _ \<Rightarrow> True | _ \<Rightarrow> False)"

definition isRecvChan :: "goPackage \<Rightarrow> gotype \<Rightarrow> bool" where
  "isRecvChan P t = (case Underlying P t of Chan dir _ \<Rightarrow> dir = RecvOnly \<or> dir = SendRecv | _ \<Rightarrow> False)"

definition machineTypeArgs :: "gotype \<Rightarrow> (gotype \<times> gotype) option" where
  "machineTypeArgs t =
     (case t of
        Pointer (Named (Some (path, _)) name args) \<Rightarrow>
          if path \<noteq> ''github.com/andrioid/statesman'' \<or> name \<noteq> ''Machine'' then None
          else (case args of [cctx, cevt] \<Rightarrow> Some (cctx, cevt) | _ \<Rightarrow> None)
      | _ \<Rightarrow> None)"

definition detectKind :: "goPackage \<Rightarrow> gotype list \<Rightarrow> gotype list \<Rightarrow> AdapterKind \<times> gotype option \<times> gotype option" where
  "detectKind P p r =
     (if length p = 2 \<and> length r = 2 \<and> isContextType (p ! 0) \<and> isErrorType (r ! 1)
      then (AdapterPromise, Some (p ! 1), Some (r ! 0))
      else if length p = 3 \<and> length r = 1 \<and> isContextType (p ! 0) \<and> isErrorType (r ! 0)
              \<and> isFuncType P (p ! 1) \<and> isRecvChan P (p ! 2)
      then (AdapterCallback, None, None)
      else if length p = 2 \<and> length r = 1 \<and> isContextType (p ! 0) \<and> isErrorType (r ! 0) \<and> isFuncType P (p ! 1)
      then (AdapterObservable, None, None)
      else if length p = 0 \<and> length r = 1 then
        (case machineTypeArgs (r ! 0) of
           Some (cctx, cevt) \<Rightarrow> (AdapterMachine, Some cctx, Some cevt)
         | None \<Rightarrow> (AdapterUnknown, None, None))
      else (AdapterUnknown, None, None))"

declare isContextType_def [gomodel] errorType_def [gomodel] isErrorType_def [gomodel] isFuncType_def [gomodel]
  isRecvChan_def [gomodel] machineTypeArgs_def [gomodel] detectKind_def [gomodel]

subsection \<open>\<open>Resolve\<close>\<close>

definition miss :: "string \<Rightarrow> string \<Rightarrow> string \<Rightarrow> Resolution \<Rightarrow> Resolution" where
  "miss k name detail res =
     res\<lparr>resUnresolved := resUnresolved res @ [\<lparr>unKind = k, unGoName = name, unDetail = detail\<rparr>]\<rparr>"

text \<open>A name that is no Go identifier ends the run with a \<open>CodegenError\<close>.\<close>

definition goNameOr :: "string \<Rightarrow> string \<Rightarrow> identError + string \<Rightarrow> error + string" where
  "goNameOr dir ref r = (case r of Inl e \<Rightarrow> Inl (CodegenError dir ref (identError_text e)) | Inr name \<Rightarrow> Inr name)"

definition addEvent :: "string \<Rightarrow> string \<Rightarrow> Resolution \<Rightarrow> Resolution" where
  "addEvent desc name res =
     (case Scope (resPkg res) name of
        Some (TypeName t) \<Rightarrow>
          res\<lparr>resEvents := resEvents res @ [(desc, \<lparr>evDescriptor = desc, evGoName = name, evType = t\<rparr>)]\<rparr>
      | _ \<Rightarrow> miss ''event'' name desc res)"

definition resolveEvent :: "string \<Rightarrow> string \<Rightarrow> Resolution \<Rightarrow> error + Resolution" where
  "resolveEvent dir desc res =
     bindE (goNameOr dir desc (EventGoName desc)) (\<lambda>name. Inr (addEvent desc name res))"

definition resolveContext :: "Resolution \<Rightarrow> Resolution" where
  "resolveContext res =
     (case Scope (resPkg res) ''ContextFields'' of
        Some (TypeName t) \<Rightarrow> res\<lparr>resContext := Some t\<rparr>
      | _ \<Rightarrow> miss ''context'' ''ContextFields'' [] res)"

definition addActor :: "string \<Rightarrow> string \<Rightarrow> Resolution \<Rightarrow> Resolution" where
  "addActor src name res =
     (case Scope (resPkg res) name of
        Some (Func p r) \<Rightarrow>
          (case detectKind (resPkg res) p r of (k, i, out) \<Rightarrow>
             res\<lparr>resActors := resActors res @
               [(src, \<lparr>acSrc = src, acGoName = name, acParams = p, acResults = r, acKind = k, acIn = i, acOut = out\<rparr>)]\<rparr>)
      | _ \<Rightarrow> miss ''actor'' name src res)"

definition resolveActor :: "string \<Rightarrow> string \<Rightarrow> Resolution \<Rightarrow> error + Resolution" where
  "resolveActor dir src res =
     bindE (goNameOr dir src (GoIdent src)) (\<lambda>name. Inr (addActor src name res))"

definition addDelay :: "string \<Rightarrow> string \<Rightarrow> Resolution \<Rightarrow> Resolution" where
  "addDelay symbol name res =
     (case Scope (resPkg res) name of
        Some Const \<Rightarrow> res\<lparr>resDelays := resDelays res @ [symbol]\<rparr>
      | _ \<Rightarrow> miss ''delay'' name symbol res)"

definition resolveSymbol :: "string \<Rightarrow> string \<Rightarrow> Resolution \<Rightarrow> error + Resolution" where
  "resolveSymbol dir symbol res =
     bindE (goNameOr dir symbol (GoIdent symbol)) (\<lambda>name. Inr (addDelay symbol name res))"

text \<open>\<open>loaded\<close> is what loading the directory gives: an error, or the packages whose types are known.\<close>

definition Resolve :: "error + goPackage option list \<Rightarrow> string \<Rightarrow> heap \<Rightarrow> Definition \<Rightarrow> error + Resolution" where
  "Resolve loaded dir H d =
     (case loaded of
        Inl e \<Rightarrow> Inl (WrapError (''load package '' @ dir @ '': '') e [])
      | Inr pkgs \<Rightarrow>
          (case pkgs of
             Some pkg # _ \<Rightarrow>
               (let (events, actors, delays) = collectRefs H d;
                    res = \<lparr>resPkg = pkg, resEvents = [], resContext = None, resActors = [], resDelays = [],
                           resUnresolved = []\<rparr>
                in bindE (foldE (resolveEvent dir) events res) (\<lambda>res.
                   bindE (foldE (resolveActor dir) actors (resolveContext res)) (\<lambda>res.
                   foldE (resolveSymbol dir) delays res)))
           | _ \<Rightarrow> Inl (UserError (''no Go package loaded in '' @ dir))))"

declare miss_def [gomodel] goNameOr_def [gomodel] addEvent_def [gomodel] resolveEvent_def [gomodel] resolveContext_def [gomodel]
  addActor_def [gomodel] resolveActor_def [gomodel] addDelay_def [gomodel] resolveSymbol_def [gomodel] Resolve_def [gomodel]

subsection \<open>Advice\<close>

definition nodeHasAfter :: "heap \<Rightarrow> node \<Rightarrow> bool" where
  "nodeHasAfter H n = list_ex (\<lambda>t. IsAfter (edgeAt H t)) (Transitions (nodeAt H n))"

definition hasAfterSelfOrAncestor :: "heap \<Rightarrow> node \<Rightarrow> bool" where
  "hasAfterSelfOrAncestor H n \<longleftrightarrow> nodeHasAfter H n \<or> list_ex (nodeHasAfter H) (ProperAncestors H n)"

definition warning :: "heap \<Rightarrow> node \<Rightarrow> Invoke \<Rightarrow> string" where
  "warning H n iv =
     ''state '' @ quote (ID (nodeAt H n)) @ '': promise invoke '' @ quote (IvID iv)
     @ '' has no onError and no after timeout; a failed or hung call cannot exit and will stall the actor''"

definition stalls :: "Resolution \<Rightarrow> heap \<Rightarrow> node \<Rightarrow> Invoke \<Rightarrow> bool" where
  "stalls res H n iv =
     (case map_of (resActors res) (Src iv) of
        None \<Rightarrow> False
      | Some a \<Rightarrow> acKind a = AdapterPromise \<and> \<not> (0 < length (OnError iv) \<or> hasAfterSelfOrAncestor H n))"

definition Warnings :: "Resolution \<Rightarrow> heap \<Rightarrow> Definition \<Rightarrow> string list" where
  "Warnings res H d =
     concat (map (\<lambda>n. map (warning H n) (filter (stalls res H n) (Invokes (nodeAt H n)))) (preorder H (Root d)))"

declare nodeHasAfter_def [gomodel] hasAfterSelfOrAncestor_def [gomodel] warning_def [gomodel] stalls_def [gomodel]
  Warnings_def [gomodel]

subsection \<open>What is collected\<close>

definition userEvent :: "Transition \<Rightarrow> bool" where
  "userEvent t \<longleftrightarrow> Event t \<noteq> [] \<and> \<not> IsAfter t \<and> \<not> isGenerated (Event t)"

definition transitionsAt :: "heap \<Rightarrow> Definition \<Rightarrow> Transition set" where
  "transitionsAt H d = {edgeAt H t | n t. n \<in> set (preorder H (Root d)) \<and> t \<in> set (Transitions (nodeAt H n))}"

lemma collect_transitions:
  "fold (\<lambda>t. collectTransition (f t)) ts (ev, ac, de) = (ev', ac', de') \<Longrightarrow>
     ac' = ac \<and> set ev' = set ev \<union> {Event (f t) | t. t \<in> set ts \<and> userEvent (f t)}
     \<and> set de' = set de \<union> {Symbol (TDelay (f t)) | t. t \<in> set ts \<and> IsAfter (f t) \<and> Symbol (TDelay (f t)) \<noteq> []}
     \<and> (distinct ev' \<longleftrightarrow> distinct ev) \<and> (distinct de' \<longleftrightarrow> distinct de)"
proof (induction ts arbitrary: ev de)
  case Nil
  then show ?case by auto
next
  case (Cons t ts)
  show ?case
  proof (cases "userEvent (f t)")
    case True
    then show ?thesis
      using Cons.prems Cons.IH [of "ins (Event (f t)) ev" de] by (auto simp: collectTransition_def userEvent_def)
  next
    case False
    then show ?thesis
      using Cons.prems Cons.IH [of ev "if IsAfter (f t) \<and> Symbol (TDelay (f t)) \<noteq> [] then ins (Symbol (TDelay (f t))) de else de"]
      by (auto simp: collectTransition_def userEvent_def split: if_splits)
  qed
qed

lemma collect_invokes:
  "fold collectInvoke ivs (ev, ac, de) = (ev', ac', de') \<Longrightarrow>
     ev' = ev \<and> de' = de \<and> set ac' = set ac \<union> Src ` set ivs \<and> (distinct ac' \<longleftrightarrow> distinct ac)"
  by (induction ivs arbitrary: ac) (auto simp: collectInvoke_def)

lemma collect_nodes:
  "fold (collectNode H) ns (ev, ac, de) = (ev', ac', de') \<Longrightarrow>
     set ev' = set ev \<union> {Event (edgeAt H t) | n t. n \<in> set ns \<and> t \<in> set (Transitions (nodeAt H n)) \<and> userEvent (edgeAt H t)}
     \<and> set ac' = set ac \<union> {Src iv | n iv. n \<in> set ns \<and> iv \<in> set (Invokes (nodeAt H n))}
     \<and> set de' = set de \<union> {Symbol (TDelay (edgeAt H t)) | n t. n \<in> set ns \<and> t \<in> set (Transitions (nodeAt H n))
          \<and> IsAfter (edgeAt H t) \<and> Symbol (TDelay (edgeAt H t)) \<noteq> []}
     \<and> (distinct ev' \<longleftrightarrow> distinct ev) \<and> (distinct ac' \<longleftrightarrow> distinct ac) \<and> (distinct de' \<longleftrightarrow> distinct de)"
proof (induction ns arbitrary: ev ac de)
  case Nil
  then show ?case by auto
next
  case (Cons n ns)
  obtain ev1 ac1 de1 where one: "fold (\<lambda>t. collectTransition (edgeAt H t)) (Transitions (nodeAt H n)) (ev, ac, de) = (ev1, ac1, de1)"
    by (metis prod_cases3)
  obtain ev2 ac2 de2 where two: "fold collectInvoke (Invokes (nodeAt H n)) (ev1, ac1, de1) = (ev2, ac2, de2)"
    by (metis prod_cases3)
  have "collectNode H n (ev, ac, de) = (ev2, ac2, de2)"
    using one two by (simp add: collectNode_def)
  then have "fold (collectNode H) ns (ev2, ac2, de2) = (ev', ac', de')"
    using Cons.prems by simp
  from Cons.IH [OF this] collect_transitions [OF one] collect_invokes [OF two]
  show ?case by (auto simp: image_iff)
qed

subsection \<open>Everything is resolved or reported\<close>

lemma foldE_named:
  assumes "\<And>x res. f x res = bindE (goNameOr dir x (g x)) (\<lambda>name. Inr (upd x name res))"
  shows "foldE f xs res =
     (case find (\<lambda>x. isl (g x)) xs of
        Some x \<Rightarrow> Inl (CodegenError dir x (identError_text (projl (g x))))
      | None \<Rightarrow> Inr (fold (\<lambda>x. upd x (projr (g x))) xs res))"
proof (induction xs arbitrary: res)
  case Nil
  then show ?case by simp
next
  case (Cons x xs)
  then show ?case
    by (cases "g x") (simp_all add: assms goNameOr_def split: option.splits)
qed

definition misses :: "string \<Rightarrow> (string \<Rightarrow> bool) \<Rightarrow> (string \<Rightarrow> string) \<Rightarrow> string list \<Rightarrow> Unresolved list" where
  "misses k P name xs = map (\<lambda>x. \<lparr>unKind = k, unGoName = name x, unDetail = x\<rparr>) (filter (\<lambda>x. \<not> P (name x)) xs)"

definition isType :: "goPackage \<Rightarrow> string \<Rightarrow> bool" where
  "isType P name \<longleftrightarrow> (case Scope P name of Some (TypeName t) \<Rightarrow> True | _ \<Rightarrow> False)"

definition isFunc :: "goPackage \<Rightarrow> string \<Rightarrow> bool" where
  "isFunc P name \<longleftrightarrow> (case Scope P name of Some (Func p r) \<Rightarrow> True | _ \<Rightarrow> False)"

definition isConst :: "goPackage \<Rightarrow> string \<Rightarrow> bool" where
  "isConst P name \<longleftrightarrow> (case Scope P name of Some Const \<Rightarrow> True | _ \<Rightarrow> False)"

lemma add_events:
  "let res' = fold (\<lambda>x. addEvent x (f x)) xs res in
     resPkg res' = resPkg res \<and> resContext res' = resContext res \<and> resActors res' = resActors res
     \<and> resDelays res' = resDelays res
     \<and> map fst (resEvents res') = map fst (resEvents res) @ filter (\<lambda>x. isType (resPkg res) (f x)) xs
     \<and> resUnresolved res' = resUnresolved res @ misses ''event'' (isType (resPkg res)) f xs"
proof (induction xs arbitrary: res)
  case (Cons x xs)
  have "resPkg (addEvent x (f x) res) = resPkg res \<and> resContext (addEvent x (f x) res) = resContext res
    \<and> resActors (addEvent x (f x) res) = resActors res \<and> resDelays (addEvent x (f x) res) = resDelays res
    \<and> map fst (resEvents (addEvent x (f x) res)) = map fst (resEvents res) @ filter (\<lambda>x. isType (resPkg res) (f x)) [x]
    \<and> resUnresolved (addEvent x (f x) res) = resUnresolved res @ misses ''event'' (isType (resPkg res)) f [x]"
    by (auto simp: addEvent_def miss_def misses_def isType_def split: option.splits goObject.splits)
  then show ?case
    using Cons.IH [of "addEvent x (f x) res"] by (simp add: Let_def misses_def)
qed (simp add: Let_def misses_def)

lemma add_actors:
  "let res' = fold (\<lambda>x. addActor x (f x)) xs res in
     resPkg res' = resPkg res \<and> resContext res' = resContext res \<and> resEvents res' = resEvents res
     \<and> resDelays res' = resDelays res
     \<and> map fst (resActors res') = map fst (resActors res) @ filter (\<lambda>x. isFunc (resPkg res) (f x)) xs
     \<and> resUnresolved res' = resUnresolved res @ misses ''actor'' (isFunc (resPkg res)) f xs"
proof (induction xs arbitrary: res)
  case (Cons x xs)
  have "resPkg (addActor x (f x) res) = resPkg res \<and> resContext (addActor x (f x) res) = resContext res
    \<and> resEvents (addActor x (f x) res) = resEvents res \<and> resDelays (addActor x (f x) res) = resDelays res
    \<and> map fst (resActors (addActor x (f x) res)) = map fst (resActors res) @ filter (\<lambda>x. isFunc (resPkg res) (f x)) [x]
    \<and> resUnresolved (addActor x (f x) res) = resUnresolved res @ misses ''actor'' (isFunc (resPkg res)) f [x]"
    by (auto simp: addActor_def miss_def misses_def isFunc_def split: option.splits goObject.splits prod.splits)
  then show ?case
    using Cons.IH [of "addActor x (f x) res"] by (simp add: Let_def misses_def)
qed (simp add: Let_def misses_def)

lemma add_delays:
  "let res' = fold (\<lambda>x. addDelay x (f x)) xs res in
     resPkg res' = resPkg res \<and> resContext res' = resContext res \<and> resEvents res' = resEvents res
     \<and> resActors res' = resActors res
     \<and> resDelays res' = resDelays res @ filter (\<lambda>x. isConst (resPkg res) (f x)) xs
     \<and> resUnresolved res' = resUnresolved res @ misses ''delay'' (isConst (resPkg res)) f xs"
proof (induction xs arbitrary: res)
  case (Cons x xs)
  have "resPkg (addDelay x (f x) res) = resPkg res \<and> resContext (addDelay x (f x) res) = resContext res
    \<and> resEvents (addDelay x (f x) res) = resEvents res \<and> resActors (addDelay x (f x) res) = resActors res
    \<and> resDelays (addDelay x (f x) res) = resDelays res @ filter (\<lambda>x. isConst (resPkg res) (f x)) [x]
    \<and> resUnresolved (addDelay x (f x) res) = resUnresolved res @ misses ''delay'' (isConst (resPkg res)) f [x]"
    by (auto simp: addDelay_def miss_def misses_def isConst_def split: option.splits goObject.splits)
  then show ?case
    using Cons.IH [of "addDelay x (f x) res"] by (simp add: Let_def misses_def)
qed (simp add: Let_def misses_def)

text \<open>The resolution when every name is an identifier.\<close>

definition noNames :: "goPackage \<Rightarrow> Resolution" where
  "noNames pkg =
     \<lparr>resPkg = pkg, resEvents = [], resContext = None, resActors = [], resDelays = [], resUnresolved = []\<rparr>"

definition allNames :: "goPackage \<Rightarrow> string list \<Rightarrow> string list \<Rightarrow> string list \<Rightarrow> Resolution" where
  "allNames pkg events actors delays =
     fold (\<lambda>x. addDelay x (projr (GoIdent x))) delays
       (fold (\<lambda>x. addActor x (projr (GoIdent x))) actors
         (resolveContext (fold (\<lambda>x. addEvent x (projr (EventGoName x))) events (noNames pkg))))"

definition badName :: "string \<Rightarrow> string \<Rightarrow> identError + string \<Rightarrow> error" where
  "badName dir x r = CodegenError dir x (identError_text (projl r))"

lemma resolve_run:
  assumes "collectRefs H d = (events, actors, delays)"
  shows "Resolve (Inr (Some pkg # pkgs)) dir H d =
     (case find (\<lambda>x. isl (EventGoName x)) events of
        Some x \<Rightarrow> Inl (badName dir x (EventGoName x))
      | None \<Rightarrow>
     (case find (\<lambda>x. isl (GoIdent x)) actors of
        Some x \<Rightarrow> Inl (badName dir x (GoIdent x))
      | None \<Rightarrow>
     (case find (\<lambda>x. isl (GoIdent x)) delays of
        Some x \<Rightarrow> Inl (badName dir x (GoIdent x))
      | None \<Rightarrow> Inr (allNames pkg events actors delays))))"
  using foldE_named [of "resolveEvent dir" dir EventGoName addEvent events "noNames pkg"]
    foldE_named [of "resolveActor dir" dir GoIdent addActor actors]
    foldE_named [of "resolveSymbol dir" dir GoIdent addDelay delays]
  by (simp add: Resolve_def assms Let_def resolveEvent_def resolveActor_def resolveSymbol_def allNames_def badName_def
      noNames_def [symmetric] split: option.splits)

lemma allNames_fields:
  "map fst (resEvents (allNames pkg events actors delays)) = filter (\<lambda>x. isType pkg (projr (EventGoName x))) events"
  "map fst (resActors (allNames pkg events actors delays)) = filter (\<lambda>x. isFunc pkg (projr (GoIdent x))) actors"
  "resDelays (allNames pkg events actors delays) = filter (\<lambda>x. isConst pkg (projr (GoIdent x))) delays"
  "resUnresolved (allNames pkg events actors delays) =
     misses ''event'' (isType pkg) (\<lambda>x. projr (EventGoName x)) events
     @ (if isType pkg ''ContextFields'' then []
        else [\<lparr>unKind = ''context'', unGoName = ''ContextFields'', unDetail = []\<rparr>])
     @ misses ''actor'' (isFunc pkg) (\<lambda>x. projr (GoIdent x)) actors
     @ misses ''delay'' (isConst pkg) (\<lambda>x. projr (GoIdent x)) delays"
proof -
  define r1 where "r1 = fold (\<lambda>x. addEvent x (projr (EventGoName x))) events (noNames pkg)"
  define r2 where "r2 = fold (\<lambda>x. addActor x (projr (GoIdent x))) actors (resolveContext r1)"
  have r1: "resPkg r1 = pkg" "resActors r1 = []" "resDelays r1 = []"
    "map fst (resEvents r1) = filter (\<lambda>x. isType pkg (projr (EventGoName x))) events"
    "resUnresolved r1 = misses ''event'' (isType pkg) (\<lambda>x. projr (EventGoName x)) events"
    using add_events [where f = "\<lambda>x. projr (EventGoName x)" and xs = events and res = "noNames pkg"]
    by (simp_all add: r1_def noNames_def Let_def)
  have ctx: "resPkg (resolveContext r1) = pkg" "resActors (resolveContext r1) = []" "resDelays (resolveContext r1) = []"
    "resEvents (resolveContext r1) = resEvents r1"
    "resUnresolved (resolveContext r1) = resUnresolved r1 @ (if isType pkg ''ContextFields'' then []
                 else [\<lparr>unKind = ''context'', unGoName = ''ContextFields'', unDetail = []\<rparr>])"
    using r1 by (auto simp: resolveContext_def isType_def miss_def split: option.splits goObject.splits)
  have r2: "resPkg r2 = pkg" "resDelays r2 = []" "resEvents r2 = resEvents r1"
    "map fst (resActors r2) = filter (\<lambda>x. isFunc pkg (projr (GoIdent x))) actors"
    "resUnresolved r2 = resUnresolved (resolveContext r1) @ misses ''actor'' (isFunc pkg) (\<lambda>x. projr (GoIdent x)) actors"
    using add_actors [where f = "\<lambda>x. projr (GoIdent x)" and xs = actors and res = "resolveContext r1"] ctx
    by (simp_all add: r2_def Let_def)
  have all: "allNames pkg events actors delays = fold (\<lambda>x. addDelay x (projr (GoIdent x))) delays r2"
    by (simp add: allNames_def r1_def r2_def)
  show "map fst (resEvents (allNames pkg events actors delays)) = filter (\<lambda>x. isType pkg (projr (EventGoName x))) events"
    "map fst (resActors (allNames pkg events actors delays)) = filter (\<lambda>x. isFunc pkg (projr (GoIdent x))) actors"
    "resDelays (allNames pkg events actors delays) = filter (\<lambda>x. isConst pkg (projr (GoIdent x))) delays"
    "resUnresolved (allNames pkg events actors delays) =
     misses ''event'' (isType pkg) (\<lambda>x. projr (EventGoName x)) events
     @ (if isType pkg ''ContextFields'' then []
        else [\<lparr>unKind = ''context'', unGoName = ''ContextFields'', unDetail = []\<rparr>])
     @ misses ''actor'' (isFunc pkg) (\<lambda>x. projr (GoIdent x)) actors
     @ misses ''delay'' (isConst pkg) (\<lambda>x. projr (GoIdent x)) delays"
    unfolding all using add_delays [where f = "\<lambda>x. projr (GoIdent x)" and xs = delays and res = r2] r1 r2 ctx
    by (simp_all add: Let_def)
qed

lemma find_none: "find P xs = None \<longleftrightarrow> \<not> list_ex P xs"
  by (auto simp: find_None_iff list_ex_iff)

text \<open>
  C33. Resolution: exactly the events, invoke sources and symbolic delays of the definition are looked
  up. When all of them have Go names the run succeeds, and every reference is either found as
  an object of the right sort or listed as unresolved, in order and nothing else; when one has
  none the run fails. So a machine with a wildcard transition can never be generated: \<open>*\<close> is
  collected as an event and has no Go name.
\<close>

theorem resolve_complete:
  "case collectRefs H d of (events, actors, delays) \<Rightarrow>
     set events = {Event t | t. t \<in> transitionsAt H d \<and> userEvent t}
   \<and> set actors = {Src iv | n iv. n \<in> set (preorder H (Root d)) \<and> iv \<in> set (Invokes (nodeAt H n))}
   \<and> set delays = {Symbol (TDelay t) | t. t \<in> transitionsAt H d \<and> IsAfter t \<and> Symbol (TDelay t) \<noteq> []}
   \<and> (case Resolve (Inr (Some pkg # pkgs)) dir H d of
        Inl e \<Rightarrow> list_ex (\<lambda>x. isl (EventGoName x)) events \<or> list_ex (\<lambda>x. isl (GoIdent x)) (actors @ delays)
      | Inr res \<Rightarrow>
          \<not> list_ex (\<lambda>x. isl (EventGoName x)) events \<and> \<not> list_ex (\<lambda>x. isl (GoIdent x)) (actors @ delays)
          \<and> map fst (resEvents res) = filter (\<lambda>x. isType pkg (projr (EventGoName x))) events
          \<and> map fst (resActors res) = filter (\<lambda>x. isFunc pkg (projr (GoIdent x))) actors
          \<and> resDelays res = filter (\<lambda>x. isConst pkg (projr (GoIdent x))) delays
          \<and> resUnresolved res =
              misses ''event'' (isType pkg) (\<lambda>x. projr (EventGoName x)) events
              @ (if isType pkg ''ContextFields'' then []
                 else [\<lparr>unKind = ''context'', unGoName = ''ContextFields'', unDetail = []\<rparr>])
              @ misses ''actor'' (isFunc pkg) (\<lambda>x. projr (GoIdent x)) actors
              @ misses ''delay'' (isConst pkg) (\<lambda>x. projr (GoIdent x)) delays)
   \<and> isl (EventGoName ''*'')"
proof -
  obtain events actors delays where c: "collectRefs H d = (events, actors, delays)"
    by (metis prod_cases3)
  have sets: "set events = {Event t | t. t \<in> transitionsAt H d \<and> userEvent t}"
    "set actors = {Src iv | n iv. n \<in> set (preorder H (Root d)) \<and> iv \<in> set (Invokes (nodeAt H n))}"
    "set delays = {Symbol (TDelay t) | t. t \<in> transitionsAt H d \<and> IsAfter t \<and> Symbol (TDelay t) \<noteq> []}"
    using collect_nodes [of H "preorder H (Root d)" "[]" "[]" "[]" events actors delays] c
    by (auto simp: collectRefs_def transitionsAt_def)
  have star: "isl (EventGoName ''*'')"
    by code_simp
  have bad: "list_ex P xs" if "find P xs = Some x" for P :: "string \<Rightarrow> bool" and xs x
    using that by (metis find_none option.distinct(1))
  let ?outcome = "\<lambda>r. case r of
      Inl e \<Rightarrow> list_ex (\<lambda>x. isl (EventGoName x)) events \<or> list_ex (\<lambda>x. isl (GoIdent x)) (actors @ delays)
    | Inr res \<Rightarrow>
        \<not> list_ex (\<lambda>x. isl (EventGoName x)) events \<and> \<not> list_ex (\<lambda>x. isl (GoIdent x)) (actors @ delays)
        \<and> res = allNames pkg events actors delays"
  have run: "?outcome (Resolve (Inr (Some pkg # pkgs)) dir H d)"
    unfolding resolve_run [OF c]
    by (cases "find (\<lambda>x. isl (EventGoName x)) events"; cases "find (\<lambda>x. isl (GoIdent x)) actors";
        cases "find (\<lambda>x. isl (GoIdent x)) delays") (auto simp: find_none [symmetric] dest: bad)
  show ?thesis
    unfolding c prod.case
  proof (intro conjI sets star)
    show "case Resolve (Inr (Some pkg # pkgs)) dir H d of
        Inl e \<Rightarrow> list_ex (\<lambda>x. isl (EventGoName x)) events \<or> list_ex (\<lambda>x. isl (GoIdent x)) (actors @ delays)
      | Inr res \<Rightarrow>
          \<not> list_ex (\<lambda>x. isl (EventGoName x)) events \<and> \<not> list_ex (\<lambda>x. isl (GoIdent x)) (actors @ delays)
          \<and> map fst (resEvents res) = filter (\<lambda>x. isType pkg (projr (EventGoName x))) events
          \<and> map fst (resActors res) = filter (\<lambda>x. isFunc pkg (projr (GoIdent x))) actors
          \<and> resDelays res = filter (\<lambda>x. isConst pkg (projr (GoIdent x))) delays
          \<and> resUnresolved res =
              misses ''event'' (isType pkg) (\<lambda>x. projr (EventGoName x)) events
              @ (if isType pkg ''ContextFields'' then []
                 else [\<lparr>unKind = ''context'', unGoName = ''ContextFields'', unDetail = []\<rparr>])
              @ misses ''actor'' (isFunc pkg) (\<lambda>x. projr (GoIdent x)) actors
              @ misses ''delay'' (isConst pkg) (\<lambda>x. projr (GoIdent x)) delays"
      using run by (cases "Resolve (Inr (Some pkg # pkgs)) dir H d") (auto simp: allNames_fields)
  qed
qed

end
