(* ===== verification/Codegen_Emit.thy ===== *)
theory Codegen_Emit
  imports Codegen_Resolve "HOL-Library.Char_ord" "HOL-Library.List_Lexorder"
begin

section \<open>Emission: \<open>internal/codegen/emit.go\<close>\<close>

text \<open>
  The generated file as text, piece by piece as the code writes it; \<open>format.Source\<close>, which
  lays the text out or refuses it, is an argument. \<open>buildCallsites\<close> writes slices by index
  and panics outside them, the \<open>None\<close> here. The sorts of \<open>sort.Slice\<close> are stable here,
  which the code does not promise for equal keys (an invoke id used twice).
\<close>

subsection \<open>Callsites\<close>

record callsite =
  csId :: int
  csTyp :: string
  csEvent :: string
  csEvented :: bool
  csSource :: StateID

definition noSite :: callsite where
  "noSite = \<lparr>csId = 0, csTyp = [], csEvent = [], csEvented = False, csSource = []\<rparr>"

record gen =
  gDef :: Definition
  gRes :: Resolution
  gActions :: "callsite list"
  gGuards :: "callsite list"

definition setSite :: "callsite \<Rightarrow> callsite list \<Rightarrow> callsite list option" where
  "setSite c sites = (if 0 \<le> csId c \<and> csId c < int (length sites) then Some (sites[nat (csId c) := c]) else None)"

type_synonym sites = "callsite list \<times> callsite list"

definition addAction :: "callsite \<Rightarrow> sites \<Rightarrow> sites option" where
  "addAction c s = (case s of (actions, guards) \<Rightarrow> map_option (\<lambda>actions. (actions, guards)) (setSite c actions))"

definition addGuard :: "callsite \<Rightarrow> sites \<Rightarrow> sites option" where
  "addGuard c s = (case s of (actions, guards) \<Rightarrow> map_option (\<lambda>guards. (actions, guards)) (setSite c guards))"

definition eventedEdge :: "Transition \<Rightarrow> bool" where
  "eventedEdge t \<longleftrightarrow>
     (if HasPrefix (Event t) ''done.invoke.'' \<or> HasPrefix (Event t) ''error.invoke.'' then True
      else Event t \<noteq> [] \<and> \<not> IsAfter t \<and> \<not> isGenerated (Event t))"

definition edgeSite :: "heap \<Rightarrow> Transition \<Rightarrow> int \<Rightarrow> string \<Rightarrow> callsite" where
  "edgeSite H t i typ =
     \<lparr>csId = i, csTyp = typ, csEvent = Event t, csEvented = eventedEdge t, csSource = ID (nodeAt H (Source t))\<rparr>"

definition stateSite :: "heap \<Rightarrow> node \<Rightarrow> ActionRef \<Rightarrow> callsite" where
  "stateSite H n a =
     \<lparr>csId = ACallsite a, csTyp = AType a, csEvent = [], csEvented = False, csSource = ID (nodeAt H n)\<rparr>"

definition recordEdge :: "heap \<Rightarrow> tref \<Rightarrow> sites \<Rightarrow> sites option" where
  "recordEdge H r s =
     (let t = edgeAt H r in
      Option.bind (case Guard t of None \<Rightarrow> Some s | Some g \<Rightarrow> addGuard (edgeSite H t (GCallsite g) (GType g)) s)
        (foldM (\<lambda>a. addAction (edgeSite H t (ACallsite a) (AType a))) (Actions t)))"

definition recordInvoke :: "heap \<Rightarrow> Invoke \<Rightarrow> sites \<Rightarrow> sites option" where
  "recordInvoke H iv s = Option.bind (foldM (recordEdge H) (OnDone iv) s) (foldM (recordEdge H) (OnError iv))"

definition visitNode :: "heap \<Rightarrow> node \<Rightarrow> sites \<Rightarrow> sites option" where
  "visitNode H n s =
     Option.bind (foldM (\<lambda>a. addAction (stateSite H n a)) (Entry (nodeAt H n)) s) (\<lambda>s.
     Option.bind (foldM (recordEdge H) (Transitions (nodeAt H n)) s) (\<lambda>s.
     Option.bind (foldM (\<lambda>a. addAction (stateSite H n a)) (Exit (nodeAt H n)) s)
       (foldM (recordInvoke H) (Invokes (nodeAt H n)))))"

definition buildCallsites :: "heap \<Rightarrow> Definition \<Rightarrow> Resolution \<Rightarrow> gen option" where
  "buildCallsites H d res =
     map_option (\<lambda>(actions, guards). \<lparr>gDef = d, gRes = res, gActions = actions, gGuards = guards\<rparr>)
       (foldM (visitNode H) (preorder H (Root d))
         (replicate (ActionCount d) noSite, replicate (GuardCount d) noSite))"

declare noSite_def [gomodel] setSite_def [gomodel] addAction_def [gomodel] addGuard_def [gomodel] eventedEdge_def [gomodel]
  edgeSite_def [gomodel] stateSite_def [gomodel] recordEdge_def [gomodel] recordInvoke_def [gomodel]
  visitNode_def [gomodel] buildCallsites_def [gomodel]

subsection \<open>Names and types\<close>

text \<open>The code drops the error of \<open>EventGoName\<close>, which leaves the empty name.\<close>

definition eventName :: "string \<Rightarrow> string" where
  "eventName desc = (case EventGoName desc of Inl e \<Rightarrow> [] | Inr name \<Rightarrow> name)"

definition flatID :: "StateID \<Rightarrow> string" where
  "flatID i = NormalizeName i"

definition methodName :: "callsite \<Rightarrow> string" where
  "methodName c =
     (if csEvented c then NormalizeName (csTyp c) @ ''On'' @ eventName (csEvent c)
      else NormalizeName (csTyp c) @ ''On'' @ flatID (csSource c))"

definition machineName :: "gen \<Rightarrow> string" where
  "machineName g = NormalizeName (DefID (gDef g))"

definition lower :: "string \<Rightarrow> string" where
  "lower s = (case s of [] \<Rightarrow> s | c # cs \<Rightarrow> ToLower c # cs)"

definition typeString :: "gen \<Rightarrow> gotype option \<Rightarrow> string" where
  "typeString g t = (case t of None \<Rightarrow> ''struct{}'' | Some t \<Rightarrow> TypeText (resPkg (gRes g)) t)"

definition actorOf :: "gen \<Rightarrow> Invoke \<Rightarrow> ActorSym option" where
  "actorOf g iv = map_of (resActors (gRes g)) (Src iv)"

definition walk :: "heap \<Rightarrow> gen \<Rightarrow> node list" where
  "walk H g = preorder H (Root (gDef g))"

text \<open>The invokes of the machine whose source is resolved, in the order of the walk.\<close>

definition invokesIn :: "heap \<Rightarrow> gen \<Rightarrow> (Invoke \<times> ActorSym) list" where
  "invokesIn H g =
     concat (map (\<lambda>n. List.map_filter (\<lambda>iv. map_option (\<lambda>a. (iv, a)) (actorOf g iv)) (Invokes (nodeAt H n))) (walk H g))"

definition callbackCmdType :: "gen \<Rightarrow> ActorSym \<Rightarrow> string" where
  "callbackCmdType g a =
     (if length (acParams a) \<noteq> 3 then ''statesman.EventBase''
      else (case Underlying (resPkg (gRes g)) (acParams a ! 2) of
              Chan _ t \<Rightarrow> typeString g (Some t)
            | _ \<Rightarrow> ''statesman.EventBase''))"

definition callbackEmitType :: "gen \<Rightarrow> ActorSym \<Rightarrow> string" where
  "callbackEmitType g a =
     (if length (acParams a) \<noteq> 3 then ''Event''
      else (case Underlying (resPkg (gRes g)) (acParams a ! 1) of
              Signature [t] _ \<Rightarrow> typeString g (Some t)
            | _ \<Rightarrow> ''Event''))"

definition Exported :: "string \<Rightarrow> bool" where
  "Exported name = (case name of [] \<Rightarrow> False | c # _ \<Rightarrow> IsUpper c)"

definition markerOf :: "goPackage \<Rightarrow> string option" where
  "markerOf pkg =
     (case Scope pkg ''Event'' of
        Some (TypeName t) \<Rightarrow>
          (case Underlying pkg t of
             Interface ms \<Rightarrow> find (\<lambda>m. \<not> Exported m \<and> m \<noteq> ''EventType'') ms
           | _ \<Rightarrow> None)
      | _ \<Rightarrow> None)"

definition eventMarker :: "gen \<Rightarrow> string" where
  "eventMarker g = (case markerOf (resPkg (gRes g)) of None \<Rightarrow> [] | Some m \<Rightarrow> m)"

declare eventName_def [gomodel] flatID_def [gomodel] methodName_def [gomodel] machineName_def [gomodel] lower_def [gomodel]
  typeString_def [gomodel] actorOf_def [gomodel] walk_def [gomodel] invokesIn_def [gomodel] callbackCmdType_def [gomodel]
  callbackEmitType_def [gomodel] Exported_def [gomodel] markerOf_def [gomodel] eventMarker_def [gomodel]

subsection \<open>Tables of the generator\<close>

record doneErrEvent =
  deDescriptor :: string
  deGoName :: string
  deDone :: bool
  deOutput :: string

text \<open>The output types by invoke id; a later invoke with the same id overwrites.\<close>

definition addOutput :: "gen \<Rightarrow> Invoke \<times> ActorSym \<Rightarrow> (string \<rightharpoonup> string) \<Rightarrow> (string \<rightharpoonup> string)" where
  "addOutput g p m =
     (case p of (iv, a) \<Rightarrow>
        (case acKind a of
           AdapterPromise \<Rightarrow> if acOut a \<noteq> None then m(IvID iv \<mapsto> typeString g (acOut a)) else m
         | AdapterMachine \<Rightarrow> if acIn a \<noteq> None then m(IvID iv \<mapsto> typeString g (acIn a)) else m
         | _ \<Rightarrow> m))"

definition invokeOutputs :: "heap \<Rightarrow> gen \<Rightarrow> (string \<rightharpoonup> string)" where
  "invokeOutputs H g = fold (addOutput g) (invokesIn H g) Map.empty"

definition outputOf :: "(string \<rightharpoonup> string) \<Rightarrow> string \<Rightarrow> string" where
  "outputOf m i = (case m i of None \<Rightarrow> ''struct{}'' | Some t \<Rightarrow> if t = [] then ''struct{}'' else t)"

definition addDoneError :: "(string \<rightharpoonup> string) \<Rightarrow> string \<Rightarrow> doneErrEvent list \<Rightarrow> doneErrEvent list" where
  "addDoneError m event out =
     (if event \<in> deDescriptor ` set out
         \<or> \<not> (HasPrefix event ''done.invoke.'' \<or> HasPrefix event ''error.invoke.'') then out
      else
        (let isDone = HasPrefix event ''done.invoke.''
         in out @ [\<lparr>deDescriptor = event, deGoName = eventName event, deDone = isDone,
               deOutput = if isDone then outputOf m (TrimPrefix event ''done.invoke.'') else []\<rparr>]))"

definition edgesIn :: "heap \<Rightarrow> gen \<Rightarrow> tref list" where
  "edgesIn H g = concat (map (\<lambda>n. node_edges (nodeAt H n)) (walk H g))"

definition doneErrorEvents :: "heap \<Rightarrow> gen \<Rightarrow> doneErrEvent list" where
  "doneErrorEvents H g =
     sort_key deDescriptor
       (fold (\<lambda>t. addDoneError (invokeOutputs H g) (Event (edgeAt H t))) (edgesIn H g) [])"

text \<open>Packages as import path and name.\<close>

definition addPackage :: "gen \<Rightarrow> gotype option \<Rightarrow> (string \<times> string) list \<Rightarrow> (string \<times> string) list" where
  "addPackage g t out =
     (case t of
        Some (Named (Some (path, name)) _ _) \<Rightarrow>
          if path = PkgPath (resPkg (gRes g)) \<or> path \<in> fst ` set out then out else out @ [(path, name)]
      | _ \<Rightarrow> out)"

definition childPackages :: "heap \<Rightarrow> gen \<Rightarrow> (string \<times> string) list" where
  "childPackages H g =
     sort_key fst
       (fold (\<lambda>(iv, a) out. if acKind a = AdapterMachine then addPackage g (acOut a) (addPackage g (acIn a) out) else out)
         (invokesIn H g) [])"

record sendable =
  sdId :: string
  sdGoName :: string
  sdCmdType :: string

definition sendableInvokes :: "heap \<Rightarrow> gen \<Rightarrow> sendable list" where
  "sendableInvokes H g =
     sort_key sdId
       (map (\<lambda>(iv, a). \<lparr>sdId = IvID iv, sdGoName = NormalizeName (IvID iv), sdCmdType = callbackCmdType g a\<rparr>)
         (filter (\<lambda>(iv, a). acKind a = AdapterCallback) (invokesIn H g)))"

record inputMapper =
  imInvoke :: string
  imSrc :: string
  imMethod :: string
  imType :: string

definition inputMappers :: "heap \<Rightarrow> gen \<Rightarrow> inputMapper list" where
  "inputMappers H g =
     sort_key imInvoke
       (map (\<lambda>(iv, a). \<lparr>imInvoke = IvID iv, imSrc = Src iv, imMethod = NormalizeName (Src iv) @ ''Input'',
                       imType = typeString g (acIn a)\<rparr>)
         (filter (\<lambda>(iv, a). acIn a \<noteq> None \<and> (acKind a = AdapterPromise \<or> acKind a = AdapterMachine)) (invokesIn H g)))"

definition guardTypeCounts :: "gen \<Rightarrow> string \<Rightarrow> nat" where
  "guardTypeCounts g =
     fold (\<lambda>c counts. counts(NormalizeName (csTyp c) := counts (NormalizeName (csTyp c)) + 1)) (gGuards g) (\<lambda>_. 0)"

record implMethod =
  mName :: string
  mSig :: string

definition addMethod :: "string \<Rightarrow> string \<Rightarrow> implMethod list \<Rightarrow> implMethod list" where
  "addMethod name s out = (if name \<in> mName ` set out then out else out @ [\<lparr>mName = name, mSig = s\<rparr>])"

definition siteMethod :: "string \<Rightarrow> callsite \<Rightarrow> implMethod list \<Rightarrow> implMethod list" where
  "siteMethod result c =
     (let name = methodName c in
      if csEvented c then addMethod name (name @ ''(ctx Context, evt '' @ eventName (csEvent c) @ '') '' @ result)
      else addMethod name (name @ ''(ctx Context) '' @ result))"

definition guardMethod :: "(string \<Rightarrow> nat) \<Rightarrow> callsite \<Rightarrow> implMethod list \<Rightarrow> implMethod list" where
  "guardMethod counts c =
     (let gt = NormalizeName (csTyp c) in
      if counts gt > 1 then addMethod gt (gt @ ''(ctx Context) bool'') else siteMethod ''bool'' c)"

definition implMethods :: "heap \<Rightarrow> gen \<Rightarrow> implMethod list" where
  "implMethods H g =
     fold (\<lambda>im. addMethod (imMethod im) (imMethod im @ ''(ctx Context) '' @ imType im)) (inputMappers H g)
       (fold (guardMethod (guardTypeCounts g)) (gGuards g)
         (fold (siteMethod ''ActionResult'') (gActions g) []))"

definition usesContext :: "heap \<Rightarrow> gen \<Rightarrow> bool" where
  "usesContext H g \<longleftrightarrow> sendableInvokes H g \<noteq> []"

definition usesTime :: "gen \<Rightarrow> bool" where
  "usesTime g \<longleftrightarrow> length (resDelays (gRes g)) > 0"

definition symbolicDelays :: "gen \<Rightarrow> string list" where
  "symbolicDelays g = sort (resDelays (gRes g))"

declare addOutput_def [gomodel] invokeOutputs_def [gomodel] outputOf_def [gomodel] addDoneError_def [gomodel] edgesIn_def [gomodel]
  doneErrorEvents_def [gomodel] addPackage_def [gomodel] childPackages_def [gomodel] sendableInvokes_def [gomodel]
  inputMappers_def [gomodel] guardTypeCounts_def [gomodel] addMethod_def [gomodel] siteMethod_def [gomodel]
  guardMethod_def [gomodel] implMethods_def [gomodel] usesContext_def [gomodel] usesTime_def [gomodel]
  symbolicDelays_def [gomodel]

subsection \<open>Text\<close>

definition dq :: string where "dq = [CHR 0x22]"

text \<open>A line with its indentation.\<close>

definition line :: "nat \<Rightarrow> string list \<Rightarrow> string" where
  "line k parts = replicate k (CHR 0x09) @ concat parts @ nl"

definition linesOf :: "('a \<Rightarrow> string) \<Rightarrow> 'a list \<Rightarrow> string" where
  "linesOf f xs = concat (map f xs)"

fun baseLoop :: "string \<Rightarrow> string \<Rightarrow> string" where
  "baseLoop acc [] = acc"
| "baseLoop acc (c # cs) = baseLoop (if c = CHR ''/'' then [] else acc @ [c]) cs"

text \<open>\<open>path.Base\<close>.\<close>

definition path_Base :: "string \<Rightarrow> string" where
  "path_Base p =
     (if p = [] then ''.''
      else (let b = baseLoop [] (rev (dropWhile (\<lambda>c. c = CHR ''/'') (rev p))) in if b = [] then ''/'' else b))"

definition emitHeader :: "heap \<Rightarrow> gen \<Rightarrow> string" where
  "emitHeader H g =
     line 0 [''// Code generated by statesman; DO NOT EDIT.''] @ nl
     @ line 0 [''package '', PkgName (resPkg (gRes g))] @ nl
     @ line 0 [''import (''] @ line 1 [''_ '', quote ''embed'']
     @ (if usesContext H g then line 1 [quote ''context''] else [])
     @ (if usesTime g then line 1 [quote ''time''] else [])
     @ nl @ line 1 [quote ''github.com/andrioid/statesman''] @ line 1 [quote ''github.com/andrioid/statesman/schema'']
     @ linesOf (\<lambda>(path, name). if name = path_Base path then line 1 [quote path] else line 1 [name, '' '', quote path])
         (childPackages H g)
     @ line 0 ['')''] @ nl"

definition emitDefinition :: "gen \<Rightarrow> string" where
  "emitDefinition g =
     line 0 [''//go:embed '', DefID (gDef g), ''.machine.json''] @ line 0 [''var statesmanMachineJSON []byte''] @ nl
     @ line 0 [''var '', lower (machineName g), ''Definition = func() *statesman.Definition {'']
     @ line 1 [''d, err := schema.Load(statesmanMachineJSON)'']
     @ line 1 [''if err != nil {'']
     @ line 2 [''panic('', dq, ''statesman: '', DefID (gDef g), '': '', dq, '' + err.Error())'']
     @ line 1 [''}''] @ line 1 [''return d''] @ line 0 [''}()''] @ nl"

definition stateNodes :: "heap \<Rightarrow> gen \<Rightarrow> node list" where
  "stateNodes H g = sort_key (doc H) (filter (\<lambda>n. ID (nodeAt H n) \<noteq> []) (walk H g))"

definition emitStates :: "heap \<Rightarrow> gen \<Rightarrow> string" where
  "emitStates H g =
     line 0 [''// States holds the machine's typed state IDs.''] @ line 0 [''var States = struct {'']
     @ linesOf (\<lambda>n. line 1 [flatID (ID (nodeAt H n)), '' statesman.StateID'']) (stateNodes H g)
     @ line 0 [''}{'']
     @ linesOf (\<lambda>n. line 1 [flatID (ID (nodeAt H n)), '': '', quote (ID (nodeAt H n)), '','']) (stateNodes H g)
     @ line 0 [''}''] @ nl"

definition emitDoneError :: "string \<Rightarrow> doneErrEvent \<Rightarrow> string" where
  "emitDoneError marker e =
     (if deDone e then line 0 [''type '', deGoName e, '' struct{ Output '', deOutput e, '' }'']
      else line 0 [''type '', deGoName e, '' struct{ Err error }''])
     @ (if marker \<noteq> [] then line 0 [''func ('', deGoName e, '') '', marker, ''() {}''] else [])
     @ line 0 [''func ('', deGoName e, '') EventType() string { return '', quote (deDescriptor e), '' }''] @ nl"

definition goNameOf :: "gen \<Rightarrow> string \<Rightarrow> string" where
  "goNameOf g d = (case map_of (resEvents (gRes g)) d of None \<Rightarrow> [] | Some e \<Rightarrow> evGoName e)"

definition emitEvents :: "heap \<Rightarrow> gen \<Rightarrow> string" where
  "emitEvents H g =
     line 0 [''// EventType implementations for schema-referenced events.'']
     @ linesOf (\<lambda>d. line 0 [''func ('', goNameOf g d, '') EventType() string { return '', quote d, '' }''])
         (sort (map fst (resEvents (gRes g))))
     @ nl @ linesOf (emitDoneError (eventMarker g)) (doneErrorEvents H g)"

definition emitActionResult :: "heap \<Rightarrow> gen \<Rightarrow> string" where
  "emitActionResult H g =
     line 0 [''// ActionResult is the sealed sum returned by action methods.'']
     @ line 0 [''type ActionResult interface{ isActionResult() }''] @ nl
     @ line 0 [''type Assign struct{ Fields ContextFields }''] @ line 0 [''type Noop struct{}'']
     @ line 0 [''func (Assign) isActionResult() {}''] @ line 0 [''func (Noop) isActionResult() {}'']
     @ linesOf (\<lambda>s. line 0 [''type SendTo'', sdGoName s, '' struct{ Command '', sdCmdType s, '' }'']
                    @ line 0 [''func (SendTo'', sdGoName s, '') isActionResult() {}'']) (sendableInvokes H g)
     @ nl"

definition emitContext :: string where
  "emitContext =
     line 0 [''// Context embeds the user-authored ContextFields (v1: no typed child refs).'']
     @ line 0 [''type Context struct{ ContextFields }''] @ nl"

definition emitImplementations :: "heap \<Rightarrow> gen \<Rightarrow> string" where
  "emitImplementations H g =
     line 0 [''// Implementations is the user-implemented behavior interface: one method per'']
     @ line 0 [''// action, guard, and invoke-input callsite. Methods run synchronously on the'']
     @ line 0 [''// actor goroutine, so two runtime contracts apply (statesman decisions 39, 41):'']
     @ line 0 [''//'']
     @ line 0 [''//   - The ctx parameter is read-only. Context is treated as immutable; mutating'']
     @ line 0 [''//     ctx in place corrupts the published snapshot and breaks rollback. Return an'']
     @ line 0 [''//     ActionResult to change context instead.'']
     @ line 0 [''//   - Methods must not panic. The actor loop has no recover(): a panic crashes'']
     @ line 0 [''//     the actor goroutine and can stall its parent. Panics are programming errors.'']
     @ line 0 [''type Implementations interface {'']
     @ linesOf (\<lambda>m. line 1 [mSig m]) (implMethods H g)
     @ line 0 [''}''] @ nl"

declare dq_def [gomodel] line_def [gomodel] linesOf_def [gomodel] path_Base_def [gomodel] emitHeader_def [gomodel]
  emitDefinition_def [gomodel] stateNodes_def [gomodel] emitStates_def [gomodel] emitDoneError_def [gomodel]
  goNameOf_def [gomodel] emitEvents_def [gomodel] emitActionResult_def [gomodel] emitContext_def [gomodel]
  emitImplementations_def [gomodel]

subsection \<open>Constructor, applier and guards\<close>

definition registerPromise :: "gen \<Rightarrow> Invoke \<Rightarrow> ActorSym \<Rightarrow> string" where
  "registerPromise g iv a =
     line 1 [''m.RegisterInvoke('', quote (IvID iv), '', statesman.PromiseActor[Context, Event, '',
             typeString g (acIn a), '', '', typeString g (acOut a), '']('', acGoName a, '', impl.'',
             NormalizeName (Src iv), ''Input,'']
     @ line 2 [''func(o '', typeString g (acOut a), '') Event { return '', eventName (''done.invoke.'' @ IvID iv),
               ''{Output: o} },'']
     @ line 2 [''func(e error) Event { return '', eventName (''error.invoke.'' @ IvID iv), ''{Err: e} }))'']"

definition registerCallback :: "gen \<Rightarrow> Invoke \<Rightarrow> ActorSym \<Rightarrow> string" where
  "registerCallback g iv a =
     line 1 [''m.RegisterInvoke('', quote (IvID iv), '', statesman.CallbackActor[Context, Event, '',
             callbackCmdType g a, '']('']
     @ line 2 [''func(ctx context.Context, emit func(Event), recv <-chan '', callbackCmdType g a, '') error {'']
     @ line 3 [''return '', acGoName a, ''(ctx, func(e '', callbackEmitType g a, '') { emit(e) }, recv)'']
     @ line 2 [''}, nil, nil))'']"

definition registerMachine :: "gen \<Rightarrow> Invoke \<Rightarrow> ActorSym \<Rightarrow> string" where
  "registerMachine g iv a =
     (let cctx = typeString g (acIn a) in
      line 1 [''m.RegisterInvoke('', quote (IvID iv), '', statesman.MachineActor[Context, Event, '', cctx, '', '',
              typeString g (acOut a), '']('', acGoName a, '', impl.'', NormalizeName (Src iv), ''Input,'']
      @ line 2 [''func(s statesman.Snapshot['', cctx, '']) Event { return '', eventName (''done.invoke.'' @ IvID iv),
                ''{Output: s.Context} },'']
      @ line 2 [''func(s statesman.Snapshot['', cctx, '']) Event { return '', eventName (''error.invoke.'' @ IvID iv),
                ''{Err: s.ErrorReason} }))''])"

text \<open>The switch has no case for an observable.\<close>

definition registerInvoke :: "gen \<Rightarrow> Invoke \<times> ActorSym \<Rightarrow> string" where
  "registerInvoke g p =
     (case p of (iv, a) \<Rightarrow>
        (case acKind a of
           AdapterPromise \<Rightarrow> registerPromise g iv a
         | AdapterCallback \<Rightarrow> registerCallback g iv a
         | AdapterMachine \<Rightarrow> registerMachine g iv a
         | _ \<Rightarrow> []))"

definition emitRegisterInvokes :: "heap \<Rightarrow> gen \<Rightarrow> string" where
  "emitRegisterInvokes H g = linesOf (registerInvoke g) (invokesIn H g)"

definition applierCase :: "callsite \<Rightarrow> string" where
  "applierCase c =
     line 2 [''case '', itoa (csId c), '':'']
     @ (if csEvented c
        then line 3 [''return applyResult(ctx, impl.'', methodName c, ''(ctx, evt.('', eventName (csEvent c), '')))'']
        else line 3 [''return applyResult(ctx, impl.'', methodName c, ''(ctx))''])"

definition emitApplier :: "heap \<Rightarrow> gen \<Rightarrow> string" where
  "emitApplier H g =
     line 0 [''func makeApplier(impl Implementations) func(int, Context, Event) statesman.AppliedEffect[Context] {'']
     @ line 1 [''return func(cs int, ctx Context, evt Event) statesman.AppliedEffect[Context] {'']
     @ line 2 [''switch cs {'']
     @ linesOf applierCase (gActions g)
     @ line 2 [''}''] @ line 2 [''return statesman.AppliedEffect[Context]{Kind: statesman.EffectNoop}'']
     @ line 1 [''}''] @ line 0 [''}''] @ nl
     @ line 0 [''func applyResult(ctx Context, r ActionResult) statesman.AppliedEffect[Context] {'']
     @ line 1 [''switch v := r.(type) {''] @ line 1 [''case Assign:'']
     @ line 2 [''return statesman.AppliedEffect[Context]{Kind: statesman.EffectAssign, Ctx: Context{ContextFields: v.Fields}}'']
     @ linesOf (\<lambda>s. line 1 [''case SendTo'', sdGoName s, '':'']
                    @ line 2 [''return statesman.AppliedEffect[Context]{Kind: statesman.EffectSend, Target: statesman.ActorAddress('',
                              quote (sdId s), ''), Event: v.Command}'']) (sendableInvokes H g)
     @ line 1 [''}''] @ line 1 [''return statesman.AppliedEffect[Context]{Kind: statesman.EffectNoop}'']
     @ line 0 [''}''] @ nl"

text \<open>A guard type used at several callsites falls back to one method without the event.\<close>

definition guardCase :: "(string \<Rightarrow> nat) \<Rightarrow> callsite \<Rightarrow> string" where
  "guardCase counts c =
     (let gt = NormalizeName (csTyp c); over = methodName c; ev = eventName (csEvent c) in
      line 2 [''case '', itoa (csId c), '':'']
      @ (if counts gt > 1 then
           (if csEvented c
            then line 3 [''if o, ok := impl.(interface{ '', over, ''(Context, '', ev, '') bool }); ok {'']
                 @ line 4 [''return o.'', over, ''(ctx, evt.('', ev, ''))'']
            else line 3 [''if o, ok := impl.(interface{ '', over, ''(Context) bool }); ok {'']
                 @ line 4 [''return o.'', over, ''(ctx)''])
           @ line 3 [''}''] @ line 3 [''return impl.'', gt, ''(ctx)'']
         else if csEvented c then line 3 [''return impl.'', over, ''(ctx, evt.('', ev, ''))'']
         else line 3 [''return impl.'', over, ''(ctx)'']))"

definition emitGuardEval :: "gen \<Rightarrow> string" where
  "emitGuardEval g =
     line 0 [''func makeGuard(impl Implementations) func(int, Context, Event) bool {'']
     @ line 1 [''return func(cs int, ctx Context, evt Event) bool {''] @ line 2 [''switch cs {'']
     @ linesOf (guardCase (guardTypeCounts g)) (gGuards g)
     @ line 2 [''}''] @ line 2 [''return true''] @ line 1 [''}''] @ line 0 [''}'']"

definition emitDelays :: "gen \<Rightarrow> string" where
  "emitDelays g =
     (if length (symbolicDelays g) > 0 then
        line 1 [''opts = append(opts, statesman.WithDelays(map[string]time.Duration{'']
        @ linesOf (\<lambda>d. line 2 [quote d, '': '', NormalizeName d, '','']) (symbolicDelays g)
        @ line 1 [''}))'']
      else [])"

definition emitConstructor :: "heap \<Rightarrow> gen \<Rightarrow> string" where
  "emitConstructor H g =
     line 0 [''// New'', machineName g, ''Machine builds an unstarted machine wired to impl.'']
     @ line 0 [''func New'', machineName g,
               ''Machine(impl Implementations, opts ...statesman.Option) *statesman.Machine[Context, Event] {'']
     @ emitDelays g
     @ line 1 [''m := statesman.NewMachine[Context, Event]('', lower (machineName g),
               ''Definition, Context{}, makeApplier(impl), makeGuard(impl), opts...)'']
     @ emitRegisterInvokes H g @ line 1 [''return m''] @ line 0 [''}''] @ nl
     @ emitApplier H g @ emitGuardEval g"

definition emitted :: "heap \<Rightarrow> gen \<Rightarrow> string" where
  "emitted H g =
     emitHeader H g @ emitDefinition g @ emitStates H g @ emitEvents H g @ emitActionResult H g @ emitContext
     @ emitImplementations H g @ emitConstructor H g"

definition Emit :: "(string \<Rightarrow> error + string) \<Rightarrow> heap \<Rightarrow> Resolution \<Rightarrow> Definition \<Rightarrow> (error + string) option" where
  "Emit format_Source H res d =
     map_option (\<lambda>g.
       (case format_Source (emitted H g) of
          Inl e \<Rightarrow> Inl (WrapError ''gofmt generated source: '' e (nl @ emitted H g))
        | Inr src \<Rightarrow> Inr src)) (buildCallsites H d res)"

declare registerPromise_def [gomodel] registerCallback_def [gomodel] registerMachine_def [gomodel] registerInvoke_def [gomodel]
  emitRegisterInvokes_def [gomodel] applierCase_def [gomodel] emitApplier_def [gomodel]
  guardCase_def [gomodel] emitGuardEval_def [gomodel] emitDelays_def [gomodel] emitConstructor_def [gomodel]
  emitted_def [gomodel] Emit_def [gomodel]

end
