(* ===== verification/Codegen_Stub.thy ===== *)
theory Codegen_Stub
  imports Codegen_Emit
begin

section \<open>Stubs: \<open>internal/codegen/stub.go\<close>\<close>

text \<open>
  \<open>Stub\<close> writes Go declarations for the unresolved names of a machine, and a skeleton of the
  behaviour. The files are a map from names to texts that \<open>w_file\<close> appends to. The package of a
  resolution is always there: \<open>Resolve\<close> makes none without.
\<close>

type_synonym files = "string \<rightharpoonup> string"

definition w_file :: "string \<Rightarrow> string \<Rightarrow> files \<Rightarrow> files" where
  "w_file file txt bufs = bufs(file \<mapsto> (case bufs file of None \<Rightarrow> txt | Some b \<Rightarrow> b @ txt))"

definition hasEventInterface :: "Resolution \<Rightarrow> bool" where
  "hasEventInterface res = (case Scope (resPkg res) ''Event'' of Some (TypeName t) \<Rightarrow> True | _ \<Rightarrow> False)"

definition stubMarker :: "Resolution \<Rightarrow> Definition \<Rightarrow> string" where
  "stubMarker res d =
     (case markerOf (resPkg res) of Some m \<Rightarrow> m | None \<Rightarrow> lower (NormalizeName (DefID d)) @ ''Event'')"

definition hasImpl :: "Resolution \<Rightarrow> bool" where
  "hasImpl res = (case Scope (resPkg res) ''Impl'' of Some (TypeName t) \<Rightarrow> True | _ \<Rightarrow> False)"

definition implMethodNames :: "Resolution \<Rightarrow> string set" where
  "implMethodNames res =
     (case Scope (resPkg res) ''Impl'' of Some (TypeName t) \<Rightarrow> set (MethodNames (resPkg res) t) | _ \<Rightarrow> {})"

definition stubMethod :: "string \<Rightarrow> string set \<Rightarrow> implMethod \<Rightarrow> bool \<times> files \<Rightarrow> bool \<times> files" where
  "stubMethod file have m s =
     (case s of (structEmitted, bufs) \<Rightarrow>
        if mName m \<in> have then (structEmitted, bufs)
        else
          (True,
           w_file file (nl @ line 0 [''func (Impl) '', mSig m, '' {'']
                   @ line 1 [''panic('', dq, ''TODO: implement '', mName m, dq, '')''] @ line 0 [''}''])
             (if structEmitted then bufs else w_file file (nl @ line 0 [''type Impl struct{}'']) bufs)))"

definition stubBehavior :: "string \<Rightarrow> heap \<Rightarrow> Resolution \<Rightarrow> Definition \<Rightarrow> files \<Rightarrow> files option" where
  "stubBehavior file H res d bufs =
     map_option (\<lambda>g. snd (fold (stubMethod file (implMethodNames res)) (implMethods H g) (hasImpl res, bufs)))
       (buildCallsites H d res)"

definition stubUnresolved :: "Definition \<Rightarrow> string \<Rightarrow> Unresolved \<Rightarrow> files \<Rightarrow> files" where
  "stubUnresolved d marker u =
     (let eventsFile = DefID d @ ''.events.go''; actorsFile = DefID d @ ''.actors.go'';
          delaysFile = DefID d @ ''.delays.go''; name = unGoName u in
      if unKind u = ''context'' then
        w_file eventsFile (nl @ line 0 [''type ContextFields struct {''] @ line 1 [''// TODO: fields''] @ line 0 [''}''])
      else if unKind u = ''event'' then
        w_file eventsFile (nl @ line 0 [''type '', name, '' struct{} // TODO: fields'']
                      @ line 0 [''func ('', name, '') '', marker, ''() {}''])
      else if unKind u = ''actor'' then
        w_file actorsFile (nl @ line 0 [''// '', name, '': stub emits the promise shape; switch to callback/observable/machine'']
                      @ line 0 [''// by editing the signature.'']
                      @ line 0 [''func '', name, ''(ctx context.Context, in statesman.Unspecified) (statesman.Unspecified, error) {'']
                      @ line 1 [''panic('', dq, ''TODO: implement '', name, dq, '')''] @ line 0 [''}''])
      else if unKind u = ''delay'' then
        w_file delaysFile (nl @ line 0 [''const '', name, '' = 0 // TODO: set duration''])
      else (\<lambda>bufs. bufs))"

definition stubInterface :: "Resolution \<Rightarrow> Definition \<Rightarrow> files \<Rightarrow> files" where
  "stubInterface res d bufs =
     (if \<not> hasEventInterface res then
        w_file (DefID d @ ''.events.go'')
          (nl @ line 0 [''type Event interface {''] @ line 1 [''statesman.EventBase'']
           @ line 1 [stubMarker res d, ''()''] @ line 0 [''}'']) bufs
      else bufs)"

definition Stub :: "heap \<Rightarrow> Resolution \<Rightarrow> Definition \<Rightarrow> files option" where
  "Stub H res d =
     stubBehavior (DefID d @ ''.behavior.go'') H res d
       (fold (stubUnresolved d (stubMarker res d)) (resUnresolved res) (stubInterface res d Map.empty))"

declare w_file_def [gomodel] hasEventInterface_def [gomodel] stubMarker_def [gomodel] hasImpl_def [gomodel]
  implMethodNames_def [gomodel] stubMethod_def [gomodel] stubBehavior_def [gomodel] stubUnresolved_def [gomodel]
  stubInterface_def [gomodel] Stub_def [gomodel]

end
