(* ===== verification/Json_Decoder.thy ===== *)
theory Json_Decoder
  imports Prelude
begin

section \<open>The token stream of \<open>encoding/json\<close>\<close>

text \<open>
  The loader reads its document through \<open>json.Decoder\<close>: \<open>Token\<close>, \<open>More\<close> and \<open>Decode\<close>, after
  \<open>UseNumber\<close>. The model works on the lexemes of the document (what the byte scanner
  delivers between white space); \<open>Bad\<close> stands for bytes that are no lexeme. The decoder
  keeps what is left of the input, the token state and the stack of the states outside the
  open objects and arrays, as the standard library does; it is \<open>Token\<close> that checks commas
  and colons. \<open>lexemes\<close> writes a JSON value, and the lemmas say how \<open>Token\<close>, \<open>More\<close> and
  \<open>Decode\<close> read it back.
\<close>

datatype delim = ObjOpen | ObjClose | ArrOpen | ArrClose

datatype lexeme = D delim | Colon | Comma | Str string | Num string | LTrue | LFalse | LNull | Bad

datatype Token = TDelim delim | TStr string | TNum string | TBool bool | TNull

datatype decErr = EOF | UnexpectedEOF | SyntaxError | UnmarshalTypeError

datatype tokenState =
    tokenTopValue | tokenArrayStart | tokenArrayValue | tokenArrayComma
  | tokenObjectStart | tokenObjectKey | tokenObjectColon | tokenObjectValue | tokenObjectComma

record decoder =
  rest :: "lexeme list"
  tstate :: tokenState
  tstack :: "tokenState list"

definition NewDecoder :: "lexeme list \<Rightarrow> decoder" where
  "NewDecoder ls = \<lparr>rest = ls, tstate = tokenTopValue, tstack = []\<rparr>"

definition tokenValueAllowed :: "tokenState \<Rightarrow> bool" where
  "tokenValueAllowed s \<longleftrightarrow> s \<in> {tokenTopValue, tokenArrayStart, tokenArrayValue, tokenObjectValue}"

fun tokenValueEnd :: "tokenState \<Rightarrow> tokenState" where
  "tokenValueEnd tokenArrayStart = tokenArrayComma"
| "tokenValueEnd tokenArrayValue = tokenArrayComma"
| "tokenValueEnd tokenObjectValue = tokenObjectComma"
| "tokenValueEnd s = s"

subsection \<open>\<open>Token\<close> and \<open>More\<close>\<close>

definition openTok :: "delim \<Rightarrow> tokenState \<Rightarrow> tokenState \<Rightarrow> tokenState list \<Rightarrow> lexeme list \<Rightarrow> decErr + Token \<times> decoder" where
  "openTok d inner s st xs =
     (if tokenValueAllowed s then Inr (TDelim d, \<lparr>rest = xs, tstate = inner, tstack = s # st\<rparr>)
      else Inl SyntaxError)"

definition closeTok :: "delim \<Rightarrow> bool \<Rightarrow> tokenState list \<Rightarrow> lexeme list \<Rightarrow> decErr + Token \<times> decoder" where
  "closeTok d ok st xs =
     (case st of
        p # ps \<Rightarrow> if ok then Inr (TDelim d, \<lparr>rest = xs, tstate = tokenValueEnd p, tstack = ps\<rparr>) else Inl SyntaxError
      | [] \<Rightarrow> Inl SyntaxError)"

definition scalarTok :: "Token \<Rightarrow> tokenState \<Rightarrow> tokenState list \<Rightarrow> lexeme list \<Rightarrow> decErr + Token \<times> decoder" where
  "scalarTok t s st xs =
     (if tokenValueAllowed s then Inr (t, \<lparr>rest = xs, tstate = tokenValueEnd s, tstack = st\<rparr>) else Inl SyntaxError)"

fun tok :: "tokenState \<Rightarrow> tokenState list \<Rightarrow> lexeme list \<Rightarrow> decErr + Token \<times> decoder" where
  "tok s st [] = Inl EOF"
| "tok s st (x # xs) =
     (case x of
        D ArrOpen \<Rightarrow> openTok ArrOpen tokenArrayStart s st xs
      | D ObjOpen \<Rightarrow> openTok ObjOpen tokenObjectStart s st xs
      | D ArrClose \<Rightarrow> closeTok ArrClose (s = tokenArrayStart \<or> s = tokenArrayComma) st xs
      | D ObjClose \<Rightarrow> closeTok ObjClose (s = tokenObjectStart \<or> s = tokenObjectComma) st xs
      | Colon \<Rightarrow> if s = tokenObjectColon then tok tokenObjectValue st xs else Inl SyntaxError
      | Comma \<Rightarrow> if s = tokenArrayComma then tok tokenArrayValue st xs
                else if s = tokenObjectComma then tok tokenObjectKey st xs else Inl SyntaxError
      | Str v \<Rightarrow> if s = tokenObjectStart \<or> s = tokenObjectKey
                then Inr (TStr v, \<lparr>rest = xs, tstate = tokenObjectColon, tstack = st\<rparr>)
                else scalarTok (TStr v) s st xs
      | Num v \<Rightarrow> scalarTok (TNum v) s st xs
      | LTrue \<Rightarrow> scalarTok (TBool True) s st xs
      | LFalse \<Rightarrow> scalarTok (TBool False) s st xs
      | LNull \<Rightarrow> scalarTok TNull s st xs
      | Bad \<Rightarrow> Inl SyntaxError)"

definition Token :: "decoder \<Rightarrow> decErr + Token \<times> decoder" where
  "Token d = tok (tstate d) (tstack d) (rest d)"

definition More :: "decoder \<Rightarrow> bool" where
  "More d \<longleftrightarrow> (case rest d of [] \<Rightarrow> False | x # _ \<Rightarrow> x \<noteq> D ArrClose \<and> x \<noteq> D ObjClose)"

subsection \<open>\<open>Decode\<close>\<close>

text \<open>
  The scanner of one whole value keeps a stack of the open arrays and objects with what it
  has read of them; a state says what may come next.
\<close>

datatype scanState = BeginValue | BeginValueOrEmpty | BeginKeyOrEmpty | BeginKey | AfterKey | AfterElem

datatype frame = FArr "json list" | FObj "(string \<times> json) list" string

datatype scanStep = Go scanState "frame list" | Done json

definition endValue :: "json \<Rightarrow> frame list \<Rightarrow> scanStep" where
  "endValue v fs =
     (case fs of
        [] \<Rightarrow> Done v
      | FArr vs # fs' \<Rightarrow> Go AfterElem (FArr (vs @ [v]) # fs')
      | FObj ms k # fs' \<Rightarrow> Go AfterElem (FObj (ms @ [(k, v)]) k # fs'))"

definition stepValue :: "frame list \<Rightarrow> lexeme \<Rightarrow> scanStep option" where
  "stepValue fs x =
     (case x of
        Str v \<Rightarrow> Some (endValue (JString v) fs)
      | Num v \<Rightarrow> Some (endValue (JNumber v) fs)
      | LTrue \<Rightarrow> Some (endValue (JBool True) fs)
      | LFalse \<Rightarrow> Some (endValue (JBool False) fs)
      | LNull \<Rightarrow> Some (endValue JNull fs)
      | D ArrOpen \<Rightarrow> Some (Go BeginValueOrEmpty (FArr [] # fs))
      | D ObjOpen \<Rightarrow> Some (Go BeginKeyOrEmpty (FObj [] [] # fs))
      | _ \<Rightarrow> None)"

fun scanStep_of :: "scanState \<Rightarrow> frame list \<Rightarrow> lexeme \<Rightarrow> scanStep option" where
  "scanStep_of BeginValue fs x = stepValue fs x"
| "scanStep_of BeginValueOrEmpty (FArr vs # fs) (D ArrClose) = Some (endValue (JArray vs) fs)"
| "scanStep_of BeginValueOrEmpty fs x = stepValue fs x"
| "scanStep_of BeginKeyOrEmpty (FObj ms k # fs) (D ObjClose) = Some (endValue (JObject ms) fs)"
| "scanStep_of BeginKeyOrEmpty (FObj ms k # fs) (Str s) = Some (Go AfterKey (FObj ms s # fs))"
| "scanStep_of BeginKey (FObj ms k # fs) (Str s) = Some (Go AfterKey (FObj ms s # fs))"
| "scanStep_of AfterKey fs Colon = Some (Go BeginValue fs)"
| "scanStep_of AfterElem (FArr vs # fs) Comma = Some (Go BeginValue (FArr vs # fs))"
| "scanStep_of AfterElem (FArr vs # fs) (D ArrClose) = Some (endValue (JArray vs) fs)"
| "scanStep_of AfterElem (FObj ms k # fs) Comma = Some (Go BeginKey (FObj ms k # fs))"
| "scanStep_of AfterElem (FObj ms k # fs) (D ObjClose) = Some (endValue (JObject ms) fs)"
| "scanStep_of _ _ _ = None"

fun scan :: "scanState \<Rightarrow> frame list \<Rightarrow> lexeme list \<Rightarrow> decErr + json \<times> lexeme list" where
  "scan s fs [] = Inl UnexpectedEOF"
| "scan s fs (x # xs) =
     (case scanStep_of s fs x of
        None \<Rightarrow> Inl SyntaxError
      | Some (Done v) \<Rightarrow> Inr (v, xs)
      | Some (Go s' fs') \<Rightarrow> scan s' fs' xs)"

definition tokenPrepareForDecode :: "decoder \<Rightarrow> decErr + decoder" where
  "tokenPrepareForDecode d =
     (if tstate d = tokenArrayComma then
        (case rest d of
           [] \<Rightarrow> Inl EOF
         | x # xs \<Rightarrow> if x = Comma then Inr (d\<lparr>rest := xs, tstate := tokenArrayValue\<rparr>) else Inl SyntaxError)
      else if tstate d = tokenObjectColon then
        (case rest d of
           [] \<Rightarrow> Inl EOF
         | x # xs \<Rightarrow> if x = Colon then Inr (d\<lparr>rest := xs, tstate := tokenObjectValue\<rparr>) else Inl SyntaxError)
      else Inr d)"

text \<open>Decoding into an \<open>any\<close>.\<close>

definition Decode :: "decoder \<Rightarrow> decErr + json \<times> decoder" where
  "Decode d =
     (case tokenPrepareForDecode d of
        Inl e \<Rightarrow> Inl e
      | Inr d \<Rightarrow>
          if \<not> tokenValueAllowed (tstate d) then Inl SyntaxError
          else (case scan BeginValue [] (rest d) of
                  Inl e \<Rightarrow> Inl e
                | Inr (v, xs) \<Rightarrow> Inr (v, d\<lparr>rest := xs, tstate := tokenValueEnd (tstate d)\<rparr>)))"

text \<open>Storing a decoded value into a \<open>map[string]any\<close>: \<open>null\<close> leaves the nil map.\<close>

fun into_map :: "json \<Rightarrow> decErr + (string \<rightharpoonup> json)" where
  "into_map (JObject ms) = Inr (json_members ms)"
| "into_map JNull = Inr Map.empty"
| "into_map _ = Inl UnmarshalTypeError"

declare NewDecoder_def [gomodel] tokenValueAllowed_def [gomodel] openTok_def [gomodel] closeTok_def [gomodel]
  scalarTok_def [gomodel] Token_def [gomodel] More_def [gomodel] endValue_def [gomodel] stepValue_def [gomodel]
  tokenPrepareForDecode_def [gomodel] Decode_def [gomodel]

subsection \<open>Writing a value\<close>

fun commas :: "lexeme list list \<Rightarrow> lexeme list" where
  "commas [] = []"
| "commas [x] = x"
| "commas (x # xs) = x @ Comma # commas xs"

fun lexemes :: "json \<Rightarrow> lexeme list" where
  "lexemes JNull = [LNull]"
| "lexemes (JBool b) = [if b then LTrue else LFalse]"
| "lexemes (JNumber v) = [Num v]"
| "lexemes (JString v) = [Str v]"
| "lexemes (JArray vs) = D ArrOpen # commas (map lexemes vs) @ [D ArrClose]"
| "lexemes (JObject ms) = D ObjOpen # commas (map (\<lambda>m. Str (fst m) # Colon # lexemes (snd m)) ms) @ [D ObjClose]"

text \<open>The lexemes after the first element, each element behind its comma.\<close>

definition tailed :: "lexeme list list \<Rightarrow> lexeme list" where
  "tailed xs = concat (map (\<lambda>x. Comma # x) xs)"

lemma tailed_simps [simp]: "tailed [] = []" "tailed (x # xs) = Comma # x @ tailed xs"
  by (simp_all add: tailed_def)

lemma commas_Cons: "commas (x # xs) = x @ tailed xs"
  by (induction xs arbitrary: x) auto

definition member :: "string \<times> json \<Rightarrow> lexeme list" where
  "member m = Str (fst m) # Colon # lexemes (snd m)"

lemma lexemes_JObject: "lexemes (JObject ms) = D ObjOpen # commas (map member ms) @ [D ObjClose]"
  by (simp add: member_def [abs_def])

lemma lexemes_nonempty [simp]: "lexemes v \<noteq> []"
  by (cases v) auto

text \<open>What \<open>scan\<close> does after a step.\<close>

definition resume :: "scanStep \<Rightarrow> lexeme list \<Rightarrow> decErr + json \<times> lexeme list" where
  "resume st xs = (case st of Done w \<Rightarrow> Inr (w, xs) | Go s' fs' \<Rightarrow> scan s' fs' xs)"

lemma resume_simps [simp]: "resume (Done w) xs = Inr (w, xs)" "resume (Go s fs) xs = scan s fs xs"
  by (simp_all add: resume_def)

lemma scan_Cons:
  "scan s fs (x # xs) = (case scanStep_of s fs x of None \<Rightarrow> Inl SyntaxError | Some st \<Rightarrow> resume st xs)"
  by (simp add: resume_def split: option.splits scanStep.splits)

declare scan.simps(2) [simp del] scan_Cons [simp]

lemma endValue_simps [simp]:
  "endValue v [] = Done v"
  "endValue v (FArr vs # fs) = Go AfterElem (FArr (vs @ [v]) # fs)"
  "endValue v (FObj ms k # fs) = Go AfterElem (FObj (ms @ [(k, v)]) k # fs)"
  by (simp_all add: endValue_def)

lemma scan_tail_elems:
  assumes "\<And>v fs xs. v \<in> set vs \<Longrightarrow> scan BeginValue fs (lexemes v @ xs) = resume (endValue v fs) xs"
  shows "scan AfterElem (FArr us # fs) (tailed (map lexemes vs) @ D ArrClose # xs) =
      resume (endValue (JArray (us @ vs)) fs) xs"
  using assms by (induction vs arbitrary: us) auto

lemma scan_tail_members:
  assumes "\<And>m fs xs. m \<in> set ms \<Longrightarrow>
      scan BeginValue fs (lexemes (snd m) @ xs) = resume (endValue (snd m) fs) xs"
  shows "scan AfterElem (FObj us k # fs) (tailed (map member ms) @ D ObjClose # xs) =
      resume (endValue (JObject (us @ ms)) fs) xs"
  using assms by (induction ms arbitrary: us k) (auto simp: member_def)

lemma scan_lexemes: "scan BeginValue fs (lexemes v @ xs) = resume (endValue v fs) xs"
proof (induction v arbitrary: fs xs)
  case (JArray vs)
  show ?case
  proof (cases vs)
    case Nil
    then show ?thesis by (simp add: stepValue_def)
  next
    case (Cons v ws)
    have first: "scan BeginValueOrEmpty (FArr [] # fs) (lexemes v @ ys) = scan BeginValue (FArr [] # fs) (lexemes v @ ys)" for ys
      by (cases v) auto
    have "scan AfterElem (FArr [v] # fs) (tailed (map lexemes ws) @ D ArrClose # xs) =
        resume (endValue (JArray ([v] @ ws)) fs) xs"
      by (rule scan_tail_elems) (use JArray Cons in auto)
    then show ?thesis
      using Cons JArray [of v] by (simp add: commas_Cons first stepValue_def)
  qed
next
  case (JObject ms)
  show ?case
  proof (cases ms)
    case Nil
    then show ?thesis by (simp add: stepValue_def)
  next
    case (Cons m ws)
    have v: "scan BeginValue fs (lexemes (snd p) @ xs) = resume (endValue (snd p) fs) xs"
      if "p \<in> set ms" for p fs xs
      by (rule JObject [OF that]) (cases p; simp)
    have "scan AfterElem (FObj [m] (fst m) # fs) (tailed (map member ws) @ D ObjClose # xs) =
        resume (endValue (JObject ([m] @ ws)) fs) xs"
      by (rule scan_tail_members) (use v Cons in auto)
    then show ?thesis
      using Cons v [of m]
      by (simp add: lexemes_JObject commas_Cons member_def [of m] stepValue_def del: lexemes.simps)
  qed
qed (simp_all add: stepValue_def)

subsection \<open>Reading a value where the decoder stands\<close>

fun separator :: "tokenState \<Rightarrow> lexeme list" where
  "separator tokenArrayComma = [Comma]"
| "separator tokenObjectColon = [Colon]"
| "separator s = []"

fun past_separator :: "tokenState \<Rightarrow> tokenState" where
  "past_separator tokenArrayComma = tokenArrayValue"
| "past_separator tokenObjectColon = tokenObjectValue"
| "past_separator s = s"

definition value_position :: "tokenState \<Rightarrow> bool" where
  "value_position s \<longleftrightarrow> s \<in> {tokenTopValue, tokenArrayStart, tokenArrayComma, tokenObjectColon}"

definition at_value :: "tokenState \<Rightarrow> tokenState list \<Rightarrow> json \<Rightarrow> lexeme list \<Rightarrow> decoder" where
  "at_value s st v r = \<lparr>rest = separator s @ lexemes v @ r, tstate = s, tstack = st\<rparr>"

definition past :: "tokenState \<Rightarrow> tokenState list \<Rightarrow> lexeme list \<Rightarrow> decoder" where
  "past s st r = \<lparr>rest = r, tstate = tokenValueEnd (past_separator s), tstack = st\<rparr>"

text \<open>Inside an open array or object with the elements \<open>vs\<close> or members \<open>ms\<close> still to come.\<close>

definition in_array :: "bool \<Rightarrow> tokenState \<Rightarrow> tokenState list \<Rightarrow> json list \<Rightarrow> lexeme list \<Rightarrow> decoder" where
  "in_array first s st vs r =
     \<lparr>rest = (if first then commas (map lexemes vs) else tailed (map lexemes vs)) @ D ArrClose # r,
      tstate = (if first then tokenArrayStart else tokenArrayComma), tstack = past_separator s # st\<rparr>"

definition in_object :: "bool \<Rightarrow> tokenState \<Rightarrow> tokenState list \<Rightarrow> (string \<times> json) list \<Rightarrow> lexeme list \<Rightarrow> decoder" where
  "in_object first s st ms r =
     \<lparr>rest = (if first then commas (map member ms) else tailed (map member ms)) @ D ObjClose # r,
      tstate = (if first then tokenObjectStart else tokenObjectComma), tstack = past_separator s # st\<rparr>"

fun firstToken :: "json \<Rightarrow> Token" where
  "firstToken JNull = TNull"
| "firstToken (JBool b) = TBool b"
| "firstToken (JNumber v) = TNum v"
| "firstToken (JString v) = TStr v"
| "firstToken (JArray vs) = TDelim ArrOpen"
| "firstToken (JObject ms) = TDelim ObjOpen"

fun past_first :: "tokenState \<Rightarrow> tokenState list \<Rightarrow> json \<Rightarrow> lexeme list \<Rightarrow> decoder" where
  "past_first s st (JArray vs) r = in_array True s st vs r"
| "past_first s st (JObject ms) r = in_object True s st ms r"
| "past_first s st v r = past s st r"

lemma value_position_simps [simp]:
  "value_position tokenTopValue" "value_position tokenArrayStart" "value_position tokenArrayComma"
  "value_position tokenObjectColon"
  by (simp_all add: value_position_def)

lemma Decode_value: "value_position s \<Longrightarrow> Decode (at_value s st v r) = Inr (v, past s st r)"
  by (auto simp: value_position_def Decode_def tokenPrepareForDecode_def at_value_def past_def
      tokenValueAllowed_def scan_lexemes)

lemma Token_value: "value_position s \<Longrightarrow> Token (at_value s st v r) = Inr (firstToken v, past_first s st v r)"
  by (cases v)
     (auto simp: value_position_def Token_def at_value_def past_def tokenValueAllowed_def openTok_def
        scalarTok_def in_array_def in_object_def member_def [abs_def])

lemma head_lexemes: "\<exists>x xs. lexemes v = x # xs \<and> x \<noteq> D ArrClose \<and> x \<noteq> D ObjClose"
  by (cases v) auto

lemma in_array_Cons:
  "in_array f s st (v # vs) r =
     at_value (if f then tokenArrayStart else tokenArrayComma) (past_separator s # st) v
       (tailed (map lexemes vs) @ D ArrClose # r)"
  by (simp add: in_array_def at_value_def commas_Cons)

lemma past_array:
  "s' = tokenArrayStart \<or> s' = tokenArrayComma \<Longrightarrow>
     past s' (past_separator s # st) (tailed (map lexemes vs) @ D ArrClose # r) = in_array False s st vs r"
  by (auto simp: past_def in_array_def)

lemma past_member:
  "past tokenObjectColon (past_separator s # st) (tailed (map member ms) @ D ObjClose # r) = in_object False s st ms r"
  by (simp add: past_def in_object_def)

lemma More_array: "More (in_array f s st vs r) \<longleftrightarrow> vs \<noteq> []"
proof (cases vs)
  case (Cons v ws)
  obtain x xs where "lexemes v = x # xs" "x \<noteq> D ArrClose" "x \<noteq> D ObjClose"
    using head_lexemes by blast
  then show ?thesis
    using Cons by (simp add: More_def in_array_def commas_Cons)
qed (simp add: More_def in_array_def)

lemma More_object: "More (in_object f s st ms r) \<longleftrightarrow> ms \<noteq> []"
  by (cases ms) (simp_all add: More_def in_object_def commas_Cons member_def)

lemma Token_close:
  "Token (in_array f s st [] r) = Inr (TDelim ArrClose, past s st r)"
  "Token (in_object f s st [] r) = Inr (TDelim ObjClose, past s st r)"
  by (simp_all add: Token_def in_array_def in_object_def closeTok_def past_def)

lemma Token_key:
  "Token (in_object f s st (m # ms) r) =
     Inr (TStr (fst m), at_value tokenObjectColon (past_separator s # st) (snd m) (tailed (map member ms) @ D ObjClose # r))"
  by (simp add: Token_def in_object_def commas_Cons member_def [of m] at_value_def)

lemma length_tailed: "length (tailed xs) = sum_list (map (\<lambda>x. Suc (length x)) xs)"
  by (induction xs) auto

lemma length_commas: "xs \<noteq> [] \<Longrightarrow> Suc (length (commas xs)) = sum_list (map (\<lambda>x. Suc (length x)) xs)"
  by (cases xs) (simp_all add: commas_Cons length_tailed)

lemma length_elems:
  "length vs < length (lexemes (JArray vs))"
  "v \<in> set vs \<Longrightarrow> length (lexemes v) < length (lexemes (JArray vs))"
proof -
  have s: "sum_list (map (\<lambda>x. Suc (length x)) (map lexemes vs)) \<le> Suc (length (commas (map lexemes vs)))"
    using length_commas [of "map lexemes vs"] by (cases vs) auto
  have "length vs \<le> sum_list (map (\<lambda>x. Suc (length x)) (map lexemes vs))"
    by (induction vs) auto
  then show "length vs < length (lexemes (JArray vs))"
    using s by simp
  assume "v \<in> set vs"
  then have "Suc (length (lexemes v)) \<le> sum_list (map (\<lambda>x. Suc (length x)) (map lexemes vs))"
    by (intro member_le_sum_list) auto
  then show "length (lexemes v) < length (lexemes (JArray vs))"
    using s by simp
qed

lemma length_members:
  "length ms < length (lexemes (JObject ms))"
  "m \<in> set ms \<Longrightarrow> length (lexemes (snd m)) < length (lexemes (JObject ms))"
proof -
  have s: "sum_list (map (\<lambda>x. Suc (length x)) (map member ms)) \<le> Suc (length (commas (map member ms)))"
    using length_commas [of "map member ms"] by (cases ms) auto
  have "length ms \<le> sum_list (map (\<lambda>x. Suc (length x)) (map member ms))"
    by (induction ms) auto
  then show "length ms < length (lexemes (JObject ms))"
    using s by (simp add: lexemes_JObject del: lexemes.simps)
  assume "m \<in> set ms"
  then have "Suc (length (member m)) \<le> sum_list (map (\<lambda>x. Suc (length x)) (map member ms))"
    by (intro member_le_sum_list) auto
  then show "length (lexemes (snd m)) < length (lexemes (JObject ms))"
    using s by (simp add: lexemes_JObject member_def [of m] del: lexemes.simps)
qed

end
