(* ===== verification/Schema_Parse.thy ===== *)
theory Schema_Parse
  imports Json_Decoder
begin

section \<open>The parse stage of the loader: \<open>schema/parse.go\<close>, \<open>schema/errors.go\<close>\<close>

text \<open>
  The parser turns the token stream into the intermediate tree of \<open>dto\<close> types, keeping the
  order of object members. A pair \<open>hasX\<close>, \<open>x\<close> of the sources is an option. The message of
  an error is its call of \<open>errf\<close>: the constructor is the format, its arguments are the
  arguments that do not depend on the source text alone. A loop \<open>for p.dec.More()\<close> and the
  recursion into nested states take a bound \<open>k\<close>; \<open>None\<close> says that it was too small.
\<close>

subsection \<open>Errors\<close>

datatype loadMsg =
    MalformedAfter decErr
  | TrailingToken Token
  | RootOnly string
  | UnknownField string
  | TransitionExpected decErr
  | TransitionShape
  | DelimExpected delim decErr
  | DelimGot delim Token
  | KeyExpected decErr
  | KeyGot Token
  | StringExpected decErr
  | StringGot Token
  | InvalidParams decErr
  | InvalidValue decErr
  | RootNeedsID
  | IDMismatch string string
  | UnknownType string
  | CompoundNeedsInitial
  | InitialNotChild string
  | HistoryParent
  | HistoryNotKind string
  | HistoryOnOther
  | InvokeNeedsID
  | InvokeNeedsSrc
  | ActionNeedsType
  | GuardNeedsType
  | TargetNoID string
  | TargetUnresolved string
  | TargetAmbiguous string nat
  | TargetEmptySegment string
  | TargetNotDescendant string string string
  | TargetNoSiblings string string
  | TargetNotSibling string string
  | PartialWildcard string
  | DelayEmpty
  | DelayOverflow string

record loadError =
  lePath :: string
  leMsg :: loadMsg

definition errf :: "string \<Rightarrow> loadMsg \<Rightarrow> loadError" where
  "errf path msg = \<lparr>lePath = path, leMsg = msg\<rparr>"

text \<open>\<open>text\<close> is the rendering of a message by \<open>fmt.Sprintf\<close>.\<close>

definition loadError_Error :: "(loadMsg \<Rightarrow> string) \<Rightarrow> loadError \<Rightarrow> string" where
  "loadError_Error text e =
     (if lePath e = [] then text (leMsg e) else lePath e @ '': '' @ text (leMsg e))"

declare errf_def [gomodel] loadError_Error_def [gomodel]

subsection \<open>The intermediate tree\<close>

record dtoAction =
  daPath :: string
  daType :: "string option"
  daParams :: "string \<rightharpoonup> json"

record dtoGuard =
  dgPath :: string
  dgType :: "string option"
  dgParams :: "string \<rightharpoonup> json"

record dtoTransition =
  dtPath :: string
  dtTarget :: "string option"
  dtActions :: "dtoAction list"
  dtGuard :: "dtoGuard option"

record dtoEvent =
  deDesc :: string
  dePath :: string
  deTransitions :: "dtoTransition list"

record dtoInvoke =
  diPath :: string
  diID :: "string option"
  diSrc :: "string option"
  diOnDone :: "dtoTransition list"
  diOnError :: "dtoTransition list"

text \<open>The fields of a state; \<open>states\<close> is beside them because the type is recursive there.\<close>

record dtoFields =
  dPath :: string
  dID :: "string option"
  dType :: "string option"
  dTarget :: "string option"
  dHistory :: "string option"
  dInitial :: "string option"
  dEntry :: "dtoAction list"
  dExit :: "dtoAction list"
  dOn :: "dtoEvent list"
  dAfter :: "dtoEvent list"
  dAlways :: "dtoTransition list"
  dInvoke :: "dtoInvoke list"

datatype dtoState = DtoState (dFields: dtoFields) (dStates: "(string \<times> dtoState) list option")

abbreviation dChildren :: "dtoState \<Rightarrow> (string \<times> dtoState) list" where
  "dChildren st \<equiv> (case dStates st of None \<Rightarrow> [] | Some cs \<Rightarrow> cs)"

definition emptyFields :: "string \<Rightarrow> dtoFields" where
  "emptyFields path =
     \<lparr>dPath = path, dID = None, dType = None, dTarget = None, dHistory = None, dInitial = None,
      dEntry = [], dExit = [], dOn = [], dAfter = [], dAlways = [], dInvoke = []\<rparr>"

definition upd :: "(dtoFields \<Rightarrow> dtoFields) \<Rightarrow> dtoState \<Rightarrow> dtoState" where
  "upd f st = DtoState (f (dFields st)) (dStates st)"

declare emptyFields_def [gomodel] upd_def [gomodel]

subsection \<open>Parsers\<close>

type_synonym 'a parser = "decoder \<Rightarrow> (loadError + 'a \<times> decoder) option"

definition retP :: "'a \<Rightarrow> 'a parser" where
  "retP x d = Some (Inr (x, d))"

definition failP :: "string \<Rightarrow> loadMsg \<Rightarrow> 'a parser" where
  "failP path msg d = Some (Inl (errf path msg))"

definition bindP :: "'a parser \<Rightarrow> ('a \<Rightarrow> 'b parser) \<Rightarrow> 'b parser" where
  "bindP p f d =
     (case p d of
        None \<Rightarrow> None
      | Some (Inl e) \<Rightarrow> Some (Inl e)
      | Some (Inr (x, d')) \<Rightarrow> f x d')"

definition mapP :: "('a \<Rightarrow> 'b) \<Rightarrow> 'a parser \<Rightarrow> 'b parser" where
  "mapP f p = bindP p (\<lambda>x. retP (f x))"

text \<open>\<open>for i := 0; p.dec.More(); i++\<close> with at most \<open>k\<close> rounds.\<close>

primrec moreLoop :: "nat \<Rightarrow> (nat \<Rightarrow> 's \<Rightarrow> 's parser) \<Rightarrow> nat \<Rightarrow> 's \<Rightarrow> 's parser" where
  "moreLoop 0 body i s = (\<lambda>d. None)"
| "moreLoop (Suc k) body i s =
     (\<lambda>d. if More d then bindP (body i s) (moreLoop k body (Suc i)) d else retP s d)"

definition expectDelim :: "string \<Rightarrow> delim \<Rightarrow> unit parser" where
  "expectDelim path dl d =
     (case Token d of
        Inl e \<Rightarrow> failP path (DelimExpected dl e) d
      | Inr (t, d') \<Rightarrow> if t = TDelim dl then retP () d' else failP path (DelimGot dl t) d')"

definition openObject :: "string \<Rightarrow> unit parser" where
  "openObject path = expectDelim path ObjOpen"

definition closeObject :: "string \<Rightarrow> unit parser" where
  "closeObject path = expectDelim path ObjClose"

definition openArray :: "string \<Rightarrow> unit parser" where
  "openArray path = expectDelim path ArrOpen"

definition closeArray :: "string \<Rightarrow> unit parser" where
  "closeArray path = expectDelim path ArrClose"

definition readKey :: "string \<Rightarrow> string parser" where
  "readKey path d =
     (case Token d of
        Inl e \<Rightarrow> failP path (KeyExpected e) d
      | Inr (TStr s, d') \<Rightarrow> retP s d'
      | Inr (t, d') \<Rightarrow> failP path (KeyGot t) d')"

definition readString :: "string \<Rightarrow> string parser" where
  "readString path d =
     (case Token d of
        Inl e \<Rightarrow> failP path (StringExpected e) d
      | Inr (TStr s, d') \<Rightarrow> retP s d'
      | Inr (t, d') \<Rightarrow> failP path (StringGot t) d')"

definition readParams :: "string \<Rightarrow> (string \<rightharpoonup> json) parser" where
  "readParams path d =
     (case Decode d of
        Inl e \<Rightarrow> failP path (InvalidParams e) d
      | Inr (v, d') \<Rightarrow>
          (case into_map v of Inl e \<Rightarrow> failP path (InvalidParams e) d' | Inr m \<Rightarrow> retP m d'))"

definition skipValue :: "string \<Rightarrow> unit parser" where
  "skipValue path d =
     (case Decode d of Inl e \<Rightarrow> failP path (InvalidValue e) d | Inr (v, d') \<Rightarrow> retP () d')"

text \<open>The member loop of an object, after its opening brace, and a whole object or array.\<close>

definition members :: "nat \<Rightarrow> string \<Rightarrow> (string \<Rightarrow> 's \<Rightarrow> 's parser) \<Rightarrow> 's \<Rightarrow> 's parser" where
  "members k path body s =
     bindP (moreLoop k (\<lambda>_ s. bindP (readKey path) (\<lambda>key. body key s)) 0 s)
       (\<lambda>s. bindP (closeObject path) (\<lambda>_. retP s))"

definition inObject :: "nat \<Rightarrow> string \<Rightarrow> (string \<Rightarrow> 's \<Rightarrow> 's parser) \<Rightarrow> 's \<Rightarrow> 's parser" where
  "inObject k path body s = bindP (openObject path) (\<lambda>_. members k path body s)"

definition elements :: "nat \<Rightarrow> string \<Rightarrow> (nat \<Rightarrow> 'a parser) \<Rightarrow> 'a list parser" where
  "elements k path body =
     bindP (moreLoop k (\<lambda>i out. mapP (\<lambda>x. out @ [x]) (body i)) 0 [])
       (\<lambda>out. bindP (closeArray path) (\<lambda>_. retP out))"

definition inArray :: "nat \<Rightarrow> string \<Rightarrow> (nat \<Rightarrow> 'a parser) \<Rightarrow> 'a list parser" where
  "inArray k path body = bindP (openArray path) (\<lambda>_. elements k path body)"

definition at_key :: "string \<Rightarrow> string \<Rightarrow> string" where
  "at_key path key = path @ ''.'' @ key"

definition at_index :: "string \<Rightarrow> nat \<Rightarrow> string" where
  "at_index path i = path @ ''['' @ digits i @ '']''"

definition unknownField :: "string \<Rightarrow> string \<Rightarrow> 'a parser" where
  "unknownField kp key = failP kp (UnknownField key)"

declare retP_def [gomodel] failP_def [gomodel] bindP_def [gomodel] mapP_def [gomodel] expectDelim_def [gomodel]
  openObject_def [gomodel] closeObject_def [gomodel] openArray_def [gomodel] closeArray_def [gomodel]
  readKey_def [gomodel] readString_def [gomodel] readParams_def [gomodel] skipValue_def [gomodel]
  members_def [gomodel] inObject_def [gomodel] elements_def [gomodel] inArray_def [gomodel]
  at_key_def [gomodel] at_index_def [gomodel] unknownField_def [gomodel]

subsection \<open>Actions, guards, transitions, events, invokes\<close>

definition parseAction :: "nat \<Rightarrow> string \<Rightarrow> dtoAction parser" where
  "parseAction k path =
     inObject k path
       (\<lambda>key a.
          let kp = at_key path key in
          if key = ''type'' then mapP (\<lambda>s. a\<lparr>daType := Some s\<rparr>) (readString kp)
          else if key = ''params'' then mapP (\<lambda>m. a\<lparr>daParams := m\<rparr>) (readParams kp)
          else unknownField kp key)
       \<lparr>daPath = path, daType = None, daParams = Map.empty\<rparr>"

definition parseActions :: "nat \<Rightarrow> string \<Rightarrow> dtoAction list parser" where
  "parseActions k path = inArray k path (\<lambda>i. parseAction k (at_index path i))"

definition parseGuard :: "nat \<Rightarrow> string \<Rightarrow> dtoGuard parser" where
  "parseGuard k path =
     inObject k path
       (\<lambda>key g.
          let kp = at_key path key in
          if key = ''type'' then mapP (\<lambda>s. g\<lparr>dgType := Some s\<rparr>) (readString kp)
          else if key = ''params'' then mapP (\<lambda>m. g\<lparr>dgParams := m\<rparr>) (readParams kp)
          else unknownField kp key)
       \<lparr>dgPath = path, dgType = None, dgParams = Map.empty\<rparr>"

text \<open>The opening brace is consumed already.\<close>

definition parseTransitionBody :: "nat \<Rightarrow> string \<Rightarrow> dtoTransition parser" where
  "parseTransitionBody k path =
     members k path
       (\<lambda>key tr.
          let kp = at_key path key in
          if key = ''target'' then mapP (\<lambda>s. tr\<lparr>dtTarget := Some s\<rparr>) (readString kp)
          else if key = ''actions'' then mapP (\<lambda>x. tr\<lparr>dtActions := x\<rparr>) (parseActions k kp)
          else if key = ''guard'' then mapP (\<lambda>g. tr\<lparr>dtGuard := Some g\<rparr>) (parseGuard k kp)
          else if key = ''description'' then mapP (\<lambda>_. tr) (skipValue kp)
          else if key = ''meta'' then mapP (\<lambda>_. tr) (skipValue kp)
          else unknownField kp key)
       \<lparr>dtPath = path, dtTarget = None, dtActions = [], dtGuard = None\<rparr>"

definition parseTransition :: "nat \<Rightarrow> string \<Rightarrow> dtoTransition parser" where
  "parseTransition k path = bindP (openObject path) (\<lambda>_. parseTransitionBody k path)"

definition parseTransitionList :: "nat \<Rightarrow> string \<Rightarrow> dtoTransition list parser" where
  "parseTransitionList k path d =
     (case Token d of
        Inl e \<Rightarrow> failP path (TransitionExpected e) d
      | Inr (t, d') \<Rightarrow>
          if t = TDelim ArrOpen then elements k path (\<lambda>i. parseTransition k (at_index path i)) d'
          else if t = TDelim ObjOpen then mapP (\<lambda>tr. [tr]) (parseTransitionBody k path) d'
          else failP path TransitionShape d')"

definition parseEvents :: "nat \<Rightarrow> string \<Rightarrow> dtoEvent list parser" where
  "parseEvents k path =
     inObject k path
       (\<lambda>key out.
          let kp = at_key path key in
          mapP (\<lambda>trs. out @ [\<lparr>deDesc = key, dePath = kp, deTransitions = trs\<rparr>]) (parseTransitionList k kp))
       []"

definition parseInvoke :: "nat \<Rightarrow> string \<Rightarrow> dtoInvoke parser" where
  "parseInvoke k path =
     inObject k path
       (\<lambda>key iv.
          let kp = at_key path key in
          if key = ''id'' then mapP (\<lambda>s. iv\<lparr>diID := Some s\<rparr>) (readString kp)
          else if key = ''src'' then mapP (\<lambda>s. iv\<lparr>diSrc := Some s\<rparr>) (readString kp)
          else if key = ''meta'' then mapP (\<lambda>_. iv) (skipValue kp)
          else if key = ''onDone'' then mapP (\<lambda>x. iv\<lparr>diOnDone := x\<rparr>) (parseTransitionList k kp)
          else if key = ''onError'' then mapP (\<lambda>x. iv\<lparr>diOnError := x\<rparr>) (parseTransitionList k kp)
          else unknownField kp key)
       \<lparr>diPath = path, diID = None, diSrc = None, diOnDone = [], diOnError = []\<rparr>"

definition parseInvokes :: "nat \<Rightarrow> string \<Rightarrow> dtoInvoke list parser" where
  "parseInvokes k path = inArray k path (\<lambda>i. parseInvoke k (at_index path i))"

declare parseAction_def [gomodel] parseActions_def [gomodel] parseGuard_def [gomodel]
  parseTransitionBody_def [gomodel] parseTransition_def [gomodel] parseTransitionList_def [gomodel]
  parseEvents_def [gomodel] parseInvoke_def [gomodel] parseInvokes_def [gomodel]

subsection \<open>States\<close>

text \<open>
  One member of a state object. \<open>sub\<close> parses the value of \<open>states\<close>; it is the only place
  where the recursion goes on.
\<close>

definition stateField ::
  "nat \<Rightarrow> (string \<Rightarrow> (string \<times> dtoState) list parser) \<Rightarrow> string \<Rightarrow> bool \<Rightarrow> string \<Rightarrow> dtoState \<Rightarrow> dtoState parser" where
  "stateField k sub path root key st =
     (let kp = at_key path key in
      if key = ''id'' then mapP (\<lambda>s. upd (\<lambda>f. f\<lparr>dID := Some s\<rparr>) st) (readString kp)
      else if key = ''description'' then mapP (\<lambda>_. st) (skipValue kp)
      else if key = ''type'' then mapP (\<lambda>s. upd (\<lambda>f. f\<lparr>dType := Some s\<rparr>) st) (readString kp)
      else if key = ''target'' then mapP (\<lambda>s. upd (\<lambda>f. f\<lparr>dTarget := Some s\<rparr>) st) (readString kp)
      else if key = ''history'' then mapP (\<lambda>s. upd (\<lambda>f. f\<lparr>dHistory := Some s\<rparr>) st) (readString kp)
      else if key = ''initial'' then mapP (\<lambda>s. upd (\<lambda>f. f\<lparr>dInitial := Some s\<rparr>) st) (readString kp)
      else if key = ''entry'' then mapP (\<lambda>x. upd (\<lambda>f. f\<lparr>dEntry := x\<rparr>) st) (parseActions k kp)
      else if key = ''exit'' then mapP (\<lambda>x. upd (\<lambda>f. f\<lparr>dExit := x\<rparr>) st) (parseActions k kp)
      else if key = ''on'' then mapP (\<lambda>x. upd (\<lambda>f. f\<lparr>dOn := x\<rparr>) st) (parseEvents k kp)
      else if key = ''after'' then mapP (\<lambda>x. upd (\<lambda>f. f\<lparr>dAfter := x\<rparr>) st) (parseEvents k kp)
      else if key = ''always'' then mapP (\<lambda>x. upd (\<lambda>f. f\<lparr>dAlways := x\<rparr>) st) (parseTransitionList k kp)
      else if key = ''invoke'' then mapP (\<lambda>x. upd (\<lambda>f. f\<lparr>dInvoke := x\<rparr>) st) (parseInvokes k kp)
      else if key = ''meta'' then mapP (\<lambda>_. st) (skipValue kp)
      else if key = ''states'' then mapP (\<lambda>x. DtoState (dFields st) (Some x)) (sub kp)
      else if key = ''version'' then
        (if \<not> root then failP kp (RootOnly key) else mapP (\<lambda>_. st) (skipValue kp))
      else if key = ''$schema'' then
        (if \<not> root then failP kp (RootOnly key) else mapP (\<lambda>_. st) (skipValue kp))
      else unknownField kp key)"

definition parseStates :: "nat \<Rightarrow> (string \<Rightarrow> dtoState parser) \<Rightarrow> string \<Rightarrow> (string \<times> dtoState) list parser" where
  "parseStates k one path =
     inObject k path (\<lambda>key out. mapP (\<lambda>st. out @ [(key, st)]) (one (at_key path key))) []"

primrec parseState :: "nat \<Rightarrow> string \<Rightarrow> bool \<Rightarrow> dtoState parser" where
  "parseState 0 path root = (\<lambda>d. None)"
| "parseState (Suc k) path root =
     inObject (Suc k) path
       (stateField k (parseStates k (\<lambda>p. parseState k p False)) path root)
       (DtoState (emptyFields path) None)"

definition parse :: "lexeme list \<Rightarrow> (loadError + dtoState) option" where
  "parse ls =
     (case parseState (Suc (length ls)) ''$'' True (NewDecoder ls) of
        None \<Rightarrow> None
      | Some (Inl e) \<Rightarrow> Some (Inl e)
      | Some (Inr (root, d)) \<Rightarrow>
          (case Token d of
             Inl EOF \<Rightarrow> Some (Inr root)
           | Inl e \<Rightarrow> Some (Inl (errf ''$'' (MalformedAfter e)))
           | Inr (t, _) \<Rightarrow> Some (Inl (errf ''$'' (TrailingToken t)))))"

declare stateField_def [gomodel] parseStates_def [gomodel] parse_def [gomodel]

end
