(* ===== verification/Schema_Build.thy ===== *)
theory Schema_Build
  imports Schema_Parse Chart
begin

section \<open>The build stage of the loader: \<open>schema/build.go\<close>, \<open>schema/resolve.go\<close>, \<open>schema/load.go\<close>\<close>

text \<open>
  The builder allocates the nodes and edges of the machine in the arena of \<open>Chart\<close>. Its maps
  from node and transition pointers (\<open>nodeDTO\<close>, \<open>tspec\<close>) are lists beside the arena, indexed
  by address. The stages are those of the sources: the node shells in pre-order, the
  document order, the contents with the subset rules, target resolution, callsites.
\<close>

record targetSpec =
  tsTarget :: "string option"
  tsPath :: string

record builder =
  arena :: heap
  nodeDTO :: "dtoState list"
  tspec :: "targetSpec list"
  byKey :: "string \<Rightarrow> node list"
  ordered :: "node list"

definition updNode :: "node \<Rightarrow> (StateNode \<Rightarrow> StateNode) \<Rightarrow> builder \<Rightarrow> builder" where
  "updNode n f b =
     (let H = arena b in b\<lparr>arena := H\<lparr>nodes := (nodes H)[n := f (nodes H ! n)]\<rparr>\<rparr>)"

definition updEdge :: "tref \<Rightarrow> (Transition \<Rightarrow> Transition) \<Rightarrow> builder \<Rightarrow> builder" where
  "updEdge t f b =
     (let H = arena b in b\<lparr>arena := H\<lparr>edges := (edges H)[t := f (edges H ! t)]\<rparr>\<rparr>)"

definition newBuilder :: builder where
  "newBuilder = \<lparr>arena = \<lparr>nodes = [], edges = []\<rparr>, nodeDTO = [], tspec = [], byKey = (\<lambda>_. []), ordered = []\<rparr>"

declare updNode_def [gomodel] updEdge_def [gomodel] newBuilder_def [gomodel]

subsection \<open>Node shells\<close>

definition kindOf :: "dtoState \<Rightarrow> loadError + StateKind" where
  "kindOf dto =
     (case dType (dFields dto) of
        Some ty \<Rightarrow>
          if ty = ''parallel'' then Inr StateParallel
          else if ty = ''final'' then Inr StateFinal
          else if ty = ''history'' then Inr StateHistory
          else Inl (errf (dPath (dFields dto) @ ''.type'') (UnknownType ty))
      | None \<Rightarrow>
          if dStates dto \<noteq> None \<and> length (dChildren dto) > 0 then Inr StateCompound else Inr StateAtomic)"

definition checkID :: "dtoFields \<Rightarrow> string \<Rightarrow> bool \<Rightarrow> loadError + unit" where
  "checkID f key root =
     (case dID f of
        None \<Rightarrow> Inr ()
      | Some i \<Rightarrow> if \<not> root \<and> i \<noteq> key then Inl (errf (dPath f @ ''.id'') (IDMismatch i key)) else Inr ())"

definition childID :: "string \<Rightarrow> StateID \<Rightarrow> bool \<Rightarrow> StateID" where
  "childID key parentID root =
     (if root then [] else if parentID = [] then key else parentID @ ''.'' @ key)"

definition shell :: "StateID \<Rightarrow> string \<Rightarrow> StateKind \<Rightarrow> node option \<Rightarrow> StateNode" where
  "shell i key kd parent =
     \<lparr>ID = i, Key = key, Kind = kd, Parent = parent, Children = [], Initial = None, HistKind = HistoryShallow,
      HistoryTo = [], Entry = [], Exit = [], Invokes = [], Transitions = [], DocOrder = 0\<rparr>"

definition allocNode :: "StateNode \<Rightarrow> dtoState \<Rightarrow> builder \<Rightarrow> builder" where
  "allocNode nd dto b =
     (let H = arena b; n = length (nodes H)
      in b\<lparr>arena := H\<lparr>nodes := nodes H @ [nd]\<rparr>, nodeDTO := nodeDTO b @ [dto],
           byKey := (byKey b)(Key nd := byKey b (Key nd) @ [n])\<rparr>)"

text \<open>\<open>n.Children = append(n.Children, cn)\<close>.\<close>

definition appendChild :: "node \<Rightarrow> node \<times> builder \<Rightarrow> loadError + builder" where
  "appendChild n s = Inr (updNode n (\<lambda>nd. nd\<lparr>Children := Children nd @ [fst s]\<rparr>) (snd s))"

fun buildNode :: "dtoState \<Rightarrow> string \<Rightarrow> StateID \<Rightarrow> node option \<Rightarrow> bool \<Rightarrow> builder \<Rightarrow> loadError + node \<times> builder"
  and buildChildren :: "(string \<times> dtoState) list \<Rightarrow> StateID \<Rightarrow> node \<Rightarrow> builder \<Rightarrow> loadError + builder" where
  "buildNode (DtoState f sts) key parentID parent root b =
     bindE (checkID f key root) (\<lambda>_.
     bindE (kindOf (DtoState f sts)) (\<lambda>kd.
       let n = length (nodes (arena b));
           i = childID key parentID root;
           b = allocNode (shell i key kd parent) (DtoState f sts) b
       in bindE (case sts of None \<Rightarrow> Inr b | Some cs \<Rightarrow> buildChildren cs i n b) (\<lambda>b. Inr (n, b))))"
| "buildChildren [] i n b = Inr b"
| "buildChildren ((key, st) # cs) i n b =
     bindE (bindE (buildNode st key i (Some n) False b) (appendChild n)) (buildChildren cs i n)"

text \<open>Document order: the walk visits a node before its children.\<close>

definition assignDocOrder :: "node \<Rightarrow> builder \<Rightarrow> builder" where
  "assignDocOrder root b =
     (let ns = preorder (arena b) root
      in (fold (\<lambda>(i, n). updNode n (\<lambda>nd. nd\<lparr>DocOrder := i\<rparr>)) (enumerate 0 ns) b)\<lparr>ordered := ns\<rparr>)"

definition findChild :: "heap \<Rightarrow> node \<Rightarrow> string \<Rightarrow> node option" where
  "findChild H n key = find (\<lambda>c. Key (nodeAt H c) = key) (kids H n)"

declare kindOf_def [gomodel] checkID_def [gomodel] childID_def [gomodel] shell_def [gomodel] allocNode_def [gomodel]
  assignDocOrder_def [gomodel] findChild_def [gomodel]

subsection \<open>Actions, guards, transitions, invokes\<close>

definition actionsOf :: "dtoAction list \<Rightarrow> loadError + ActionRef list" where
  "actionsOf =
     mapE (\<lambda>a. case daType a of
               None \<Rightarrow> Inl (errf (daPath a) ActionNeedsType)
             | Some ty \<Rightarrow> if ty = [] then Inl (errf (daPath a) ActionNeedsType)
                         else Inr \<lparr>AType = ty, AParams = daParams a, ACallsite = - 1\<rparr>)"

definition guardOf :: "dtoGuard option \<Rightarrow> loadError + GuardRef option" where
  "guardOf g =
     (case g of
        None \<Rightarrow> Inr None
      | Some g \<Rightarrow>
          (case dgType g of
             None \<Rightarrow> Inl (errf (dgPath g) GuardNeedsType)
           | Some ty \<Rightarrow> if ty = [] then Inl (errf (dgPath g) GuardNeedsType)
                       else Inr (Some \<lparr>GType = ty, GParams = dgParams g, GCallsite = - 1\<rparr>)))"

definition noDelay :: Delay where
  "noDelay = \<lparr>Millis = 0, Symbol = []\<rparr>"

definition buildTransition ::
  "node \<Rightarrow> string \<Rightarrow> bool \<Rightarrow> Delay \<Rightarrow> nat \<Rightarrow> dtoTransition \<Rightarrow> builder \<Rightarrow> loadError + tref \<times> builder" where
  "buildTransition src event isAfter delay k dto b =
     bindE (guardOf (dtGuard dto)) (\<lambda>g.
     bindE (actionsOf (dtActions dto)) (\<lambda>acts.
       let H = arena b;
           t = \<lparr>Source = src, Event = event, Guard = g, Targets = [], Actions = acts, TDocOrder = k,
                IsAfter = isAfter, TDelay = delay\<rparr>
       in Inr (length (edges H),
               b\<lparr>arena := H\<lparr>edges := edges H @ [t]\<rparr>,
                 tspec := tspec b @ [\<lparr>tsTarget = dtTarget dto, tsPath = dtPath dto\<rparr>]\<rparr>)))"

text \<open>
  The candidates for one event. The state of the loops is the list of edges made so far and
  the builder; the counter \<open>doc\<close> of the sources is the length of that list.
\<close>

definition candidate ::
  "node \<Rightarrow> string \<Rightarrow> bool \<Rightarrow> Delay \<Rightarrow> dtoTransition \<Rightarrow> tref list \<times> builder \<Rightarrow> loadError + tref list \<times> builder" where
  "candidate src event isAfter delay tr s =
     (case s of (out, b) \<Rightarrow>
        bindE (buildTransition src event isAfter delay (length out) tr b) (\<lambda>(t, b). Inr (out @ [t], b)))"

definition candidates ::
  "node \<Rightarrow> string \<Rightarrow> bool \<Rightarrow> Delay \<Rightarrow> dtoTransition list \<Rightarrow> tref list \<times> builder \<Rightarrow> loadError + tref list \<times> builder" where
  "candidates src event isAfter delay trs s = foldE (candidate src event isAfter delay) trs s"

definition validateEventDescriptor :: "string \<Rightarrow> string \<Rightarrow> loadError + unit" where
  "validateEventDescriptor desc path =
     (if desc = ''*'' then Inr ()
      else if ContainsByte desc (CHR ''*'') then Inl (errf path (PartialWildcard desc)) else Inr ())"

definition isAllDigits :: "string \<Rightarrow> bool" where
  "isAllDigits s \<longleftrightarrow> s \<noteq> [] \<and> list_all (\<lambda>c. (48 :: nat) \<le> of_char c \<and> of_char c \<le> (57 :: nat)) s"

definition decimal :: "string \<Rightarrow> int" where
  "decimal s = fold (\<lambda>c n. 10 * n + (of_char c - 48)) s 0"

text \<open>\<open>strconv.ParseInt(key, 10, 64)\<close> of a string of digits fails when it does not fit.\<close>

definition parseDelay :: "string \<Rightarrow> string \<Rightarrow> loadError + Delay" where
  "parseDelay key path =
     (if key = [] then Inl (errf path DelayEmpty)
      else if isAllDigits key then
        (if decimal key > 2 ^ 63 - 1 then Inl (errf path (DelayOverflow key))
         else Inr \<lparr>Millis = decimal key, Symbol = []\<rparr>)
      else Inr \<lparr>Millis = 0, Symbol = key\<rparr>)"

definition afterEvent :: "string \<Rightarrow> StateID \<Rightarrow> string" where
  "afterEvent desc i = ''xstate.after('' @ desc @ '')#'' @ i"

definition onEdges :: "node \<Rightarrow> dtoEvent \<Rightarrow> tref list \<times> builder \<Rightarrow> loadError + tref list \<times> builder" where
  "onEdges n ev s =
     bindE (validateEventDescriptor (deDesc ev) (dePath ev)) (\<lambda>_.
       candidates n (deDesc ev) False noDelay (deTransitions ev) s)"

definition afterEdgesOf :: "node \<Rightarrow> dtoEvent \<Rightarrow> tref list \<times> builder \<Rightarrow> loadError + tref list \<times> builder" where
  "afterEdgesOf n ev s =
     bindE (parseDelay (deDesc ev) (dePath ev)) (\<lambda>delay.
       candidates n (afterEvent (deDesc ev) (ID (nodeAt (arena (snd s)) n))) True delay (deTransitions ev) s)"

definition buildTransitions :: "node \<Rightarrow> dtoFields \<Rightarrow> builder \<Rightarrow> loadError + tref list \<times> builder" where
  "buildTransitions n f b =
     bindE (foldE (onEdges n) (dOn f) ([], b)) (\<lambda>s.
     bindE (foldE (afterEdgesOf n) (dAfter f) s) (\<lambda>s.
       candidates n [] False noDelay (dAlways f) s))"

definition buildInvoke :: "node \<Rightarrow> dtoInvoke \<Rightarrow> Invoke list \<times> builder \<Rightarrow> loadError + Invoke list \<times> builder" where
  "buildInvoke n iv s =
     (if diID iv = None \<or> diID iv = Some [] then Inl (errf (diPath iv) InvokeNeedsID)
      else if diSrc iv = None \<or> diSrc iv = Some [] then Inl (errf (diPath iv) InvokeNeedsSrc)
      else
        bindE (candidates n (''done.invoke.'' @ the (diID iv)) False noDelay (diOnDone iv) ([], snd s)) (\<lambda>(onDone, b).
        bindE (candidates n (''error.invoke.'' @ the (diID iv)) False noDelay (diOnError iv) ([], b)) (\<lambda>(onError, b).
          Inr (fst s @ [\<lparr>IvID = the (diID iv), Src = the (diSrc iv), OnDone = onDone, OnError = onError\<rparr>], b))))"

definition buildInvokes :: "node \<Rightarrow> dtoInvoke list \<Rightarrow> builder \<Rightarrow> loadError + Invoke list \<times> builder" where
  "buildInvokes n ivs b = foldE (buildInvoke n) ivs ([], b)"

declare actionsOf_def [gomodel] guardOf_def [gomodel] noDelay_def [gomodel] buildTransition_def [gomodel]
  candidate_def [gomodel] candidates_def [gomodel] onEdges_def [gomodel] afterEdgesOf_def [gomodel]
  buildInvoke_def [gomodel] buildInvokes_def [gomodel]
  validateEventDescriptor_def [gomodel] isAllDigits_def [gomodel] decimal_def [gomodel] parseDelay_def [gomodel]
  afterEvent_def [gomodel] buildTransitions_def [gomodel]

subsection \<open>Contents\<close>

definition initialOf :: "heap \<Rightarrow> node \<Rightarrow> dtoFields \<Rightarrow> loadError + node option" where
  "initialOf H n f =
     (if kind H n = StateCompound then
        (case dInitial f of
           None \<Rightarrow> Inl (errf (dPath f) CompoundNeedsInitial)
         | Some i \<Rightarrow>
             if i = [] then Inl (errf (dPath f) CompoundNeedsInitial)
             else (case findChild H n i of
                     None \<Rightarrow> Inl (errf (dPath f @ ''.initial'') (InitialNotChild i))
                   | Some c \<Rightarrow> Inr (Some c)))
      else Inr None)"

definition historyOf :: "heap \<Rightarrow> node \<Rightarrow> dtoFields \<Rightarrow> loadError + HistoryKind" where
  "historyOf H n f =
     (if kind H n = StateHistory then
        (if (case par H n of None \<Rightarrow> True | Some p \<Rightarrow> kind H p \<noteq> StateCompound \<and> kind H p \<noteq> StateParallel)
         then Inl (errf (dPath f) HistoryParent)
         else case dHistory f of
                None \<Rightarrow> Inr HistoryShallow
              | Some h \<Rightarrow>
                  if h = ''shallow'' then Inr HistoryShallow
                  else if h = ''deep'' then Inr HistoryDeep
                  else Inl (errf (dPath f @ ''.history'') (HistoryNotKind h)))
      else if dHistory f \<noteq> None then Inl (errf (dPath f @ ''.history'') HistoryOnOther)
      else Inr (HistKind (nodeAt H n)))"

definition buildContent :: "node \<Rightarrow> builder \<Rightarrow> loadError + builder" where
  "buildContent n b =
     (let f = dFields (nodeDTO b ! n) in
      bindE (actionsOf (dEntry f)) (\<lambda>entry.
      bindE (actionsOf (dExit f)) (\<lambda>exit.
      bindE (initialOf (arena b) n f) (\<lambda>ini.
      bindE (historyOf (arena b) n f) (\<lambda>hk.
      bindE (buildTransitions n f b) (\<lambda>(trs, b).
      bindE (buildInvokes n (dInvoke f) b) (\<lambda>(ivs, b).
        Inr (updNode n (\<lambda>nd. nd\<lparr>Entry := entry, Exit := exit, Initial := ini, HistKind := hk,
                              Transitions := trs, Invokes := ivs\<rparr>) b))))))))"

definition buildContents :: "builder \<Rightarrow> loadError + builder" where
  "buildContents b = foldE buildContent (ordered b) b"

declare initialOf_def [gomodel] historyOf_def [gomodel] buildContent_def [gomodel] buildContents_def [gomodel]

subsection \<open>Targets\<close>

text \<open>\<open>".a.b"\<close>: the descent by child keys.\<close>

fun descend :: "heap \<Rightarrow> string \<Rightarrow> string \<Rightarrow> node \<Rightarrow> string list \<Rightarrow> node \<Rightarrow> loadError + node" where
  "descend H raw path src [] cur = Inr cur"
| "descend H raw path src (seg # segs) cur =
     (if seg = [] then Inl (errf path (TargetEmptySegment raw))
      else case findChild H cur seg of
             None \<Rightarrow> Inl (errf path (TargetNotDescendant raw seg (Key (nodeAt H src))))
           | Some c \<Rightarrow> descend H raw path src segs c)"

definition targetCandidates :: "builder \<Rightarrow> string \<Rightarrow> node list" where
  "targetCandidates b i =
     fold (\<lambda>n cands. if ID (nodeAt (arena b) n) = i \<and> n \<notin> set cands then cands @ [n] else cands) (ordered b)
       (byKey b i)"

definition resolveTarget :: "builder \<Rightarrow> node \<Rightarrow> string \<Rightarrow> string \<Rightarrow> loadError + node" where
  "resolveTarget b src raw path =
     (let H = arena b in
      if HasPrefix raw ''#'' then
        (let i = drop 1 raw in
         if i = [] then Inl (errf path (TargetNoID raw))
         else case targetCandidates b i of
                [] \<Rightarrow> Inl (errf path (TargetUnresolved raw))
              | [n] \<Rightarrow> Inr n
              | cands \<Rightarrow> Inl (errf path (TargetAmbiguous raw (length cands))))
      else if HasPrefix raw ''.'' then
        descend H raw path src (SplitByte (CHR ''.'') (drop 1 raw)) src
      else
        (case par H src of
           None \<Rightarrow> Inl (errf path (TargetNoSiblings raw (Key (nodeAt H src))))
         | Some p \<Rightarrow>
             (case findChild H p raw of
                None \<Rightarrow> Inl (errf path (TargetNotSibling raw (Key (nodeAt H src))))
              | Some c \<Rightarrow> Inr c)))"

definition resolveTransition :: "tref \<Rightarrow> builder \<Rightarrow> loadError + builder" where
  "resolveTransition t b =
     (case tsTarget (tspec b ! t) of
        None \<Rightarrow> Inr b
      | Some raw \<Rightarrow>
          if raw = [] then Inr b
          else bindE (resolveTarget b (Source (edgeAt (arena b) t)) raw (tsPath (tspec b ! t) @ ''.target''))
                 (\<lambda>n. Inr (updEdge t (\<lambda>e. e\<lparr>Targets := [n]\<rparr>) b)))"

definition resolveHistory :: "node \<Rightarrow> builder \<Rightarrow> loadError + builder" where
  "resolveHistory n b =
     (let f = dFields (nodeDTO b ! n) in
      case dTarget f of
        None \<Rightarrow> Inr b
      | Some raw \<Rightarrow>
          if kind (arena b) n = StateHistory \<and> raw \<noteq> [] then
            bindE (resolveTarget b n raw (dPath f @ ''.target''))
              (\<lambda>g. Inr (updNode n (\<lambda>nd. nd\<lparr>HistoryTo := [g]\<rparr>) b))
          else Inr b)"

definition resolveNode :: "node \<Rightarrow> builder \<Rightarrow> loadError + builder" where
  "resolveNode n b =
     bindE (foldE resolveTransition (node_edges (nodeAt (arena b) n)) b) (resolveHistory n)"

definition resolveTargets :: "builder \<Rightarrow> loadError + builder" where
  "resolveTargets b = foldE resolveNode (ordered b) b"

declare targetCandidates_def [gomodel] resolveTarget_def [gomodel] resolveTransition_def [gomodel]
  resolveHistory_def [gomodel] resolveNode_def [gomodel] resolveTargets_def [gomodel]

subsection \<open>Callsites\<close>

definition numberActions :: "nat \<Rightarrow> ActionRef list \<Rightarrow> ActionRef list" where
  "numberActions k as = map (\<lambda>(i, a). a\<lparr>ACallsite := int i\<rparr>) (enumerate k as)"

definition assignEdge :: "tref \<Rightarrow> nat \<times> nat \<times> builder \<Rightarrow> nat \<times> nat \<times> builder" where
  "assignEdge t s =
     (case s of (ac, gc, b) \<Rightarrow>
        (let e = edgeAt (arena b) t
         in (ac + length (Actions e),
             (case Guard e of None \<Rightarrow> gc | Some g \<Rightarrow> gc + 1),
             updEdge t (\<lambda>e. e\<lparr>Guard := map_option (\<lambda>g. g\<lparr>GCallsite := int gc\<rparr>) (Guard e),
                          Actions := numberActions ac (Actions e)\<rparr>) b)))"

definition assignNode :: "node \<Rightarrow> nat \<times> nat \<times> builder \<Rightarrow> nat \<times> nat \<times> builder" where
  "assignNode n s =
     (case s of (ac, gc, b) \<Rightarrow>
        (let nd = nodeAt (arena b) n;
             (ac, gc, b) = (ac + length (Entry nd), gc, updNode n (\<lambda>nd. nd\<lparr>Entry := numberActions ac (Entry nd)\<rparr>) b);
             (ac, gc, b) = fold assignEdge (Transitions nd) (ac, gc, b);
             (ac, gc, b) = (ac + length (Exit nd), gc, updNode n (\<lambda>nd. nd\<lparr>Exit := numberActions ac (Exit nd)\<rparr>) b)
         in fold (\<lambda>iv. fold assignEdge (OnDone iv @ OnError iv)) (Invokes nd) (ac, gc, b)))"

definition assignCallsites :: "builder \<Rightarrow> nat \<times> nat \<times> builder" where
  "assignCallsites b = fold assignNode (ordered b) (0, 0, b)"

declare numberActions_def [gomodel] assignEdge_def [gomodel] assignNode_def [gomodel] assignCallsites_def [gomodel]

subsection \<open>\<open>build\<close> and \<open>Load\<close>\<close>

definition build :: "dtoState \<Rightarrow> loadError + heap \<times> Definition" where
  "build root =
     (case dID (dFields root) of
        None \<Rightarrow> Inl (errf ''$.id'' RootNeedsID)
      | Some i \<Rightarrow>
          if i = [] then Inl (errf ''$.id'' RootNeedsID)
          else
            bindE (buildNode root i [] None True newBuilder) (\<lambda>(rootNode, b).
            bindE (buildContents (assignDocOrder rootNode b)) (\<lambda>b.
            bindE (resolveTargets b) (\<lambda>b.
              (case assignCallsites b of
                 (ac, gc, b) \<Rightarrow> Inr (arena b, NewDefinition (arena b) i rootNode ac gc))))))"

definition Load :: "lexeme list \<Rightarrow> (loadError + heap \<times> Definition) option" where
  "Load data = map_option (\<lambda>r. bindE r build) (parse data)"

declare build_def [gomodel] Load_def [gomodel]

end
