(* ===== verification/Schema_Shells.thy ===== *)
theory Schema_Shells
  imports Schema_Build
begin

section \<open>What \<open>buildNode\<close> allocates\<close>

text \<open>
  The shells of a state and its descendants form a block of consecutive addresses in
  pre-order: the pure function \<open>shells\<close> lists the block, \<open>build_shells\<close> says that \<open>buildNode\<close>
  appends exactly it, and \<open>shells_tree\<close> that such a block is a tree whose depth-first visit
  counts its addresses up.
\<close>

fun count :: "dtoState \<Rightarrow> nat" and counts :: "(string \<times> dtoState) list \<Rightarrow> nat" where
  "count (DtoState f sts) = Suc (case sts of None \<Rightarrow> 0 | Some cs \<Rightarrow> counts cs)"
| "counts [] = 0"
| "counts ((key, st) # cs) = count st + counts cs"

fun dtos :: "dtoState \<Rightarrow> dtoState list" and dtosList :: "(string \<times> dtoState) list \<Rightarrow> dtoState list" where
  "dtos (DtoState f sts) = DtoState f sts # (case sts of None \<Rightarrow> [] | Some cs \<Rightarrow> dtosList cs)"
| "dtosList [] = []"
| "dtosList ((key, st) # cs) = dtos st @ dtosList cs"

fun roots :: "(string \<times> dtoState) list \<Rightarrow> node \<Rightarrow> node list" where
  "roots [] a = []"
| "roots ((key, st) # cs) a = a # roots cs (a + count st)"

fun shells :: "dtoState \<Rightarrow> string \<Rightarrow> StateID \<Rightarrow> node option \<Rightarrow> bool \<Rightarrow> node \<Rightarrow> StateNode list"
  and shellsList :: "(string \<times> dtoState) list \<Rightarrow> StateID \<Rightarrow> node \<Rightarrow> node \<Rightarrow> StateNode list" where
  "shells (DtoState f sts) key parentID parent root a =
     (shell (childID key parentID root) key (projr (kindOf (DtoState f sts))) parent)
        \<lparr>Children := (case sts of None \<Rightarrow> [] | Some cs \<Rightarrow> roots cs (Suc a))\<rparr>
     # (case sts of None \<Rightarrow> [] | Some cs \<Rightarrow> shellsList cs (childID key parentID root) a (Suc a))"
| "shellsList [] i n a = []"
| "shellsList ((key, st) # cs) i n a = shells st key i (Some n) False a @ shellsList cs i n (a + count st)"

lemma length_shells [simp]:
  "length (shells st key pid pa root a) = count st"
  "length (shellsList cs i n a) = counts cs"
  by (induction st key pid pa root a and cs i n a rule: shells_shellsList.induct) (auto split: option.splits)

lemma length_dtos [simp]: "length (dtos st) = count st" "length (dtosList cs) = counts cs"
  by (induction st and cs rule: dtos_dtosList.induct) (auto split: option.splits)

lemma count_pos [simp]: "0 < count st"
  by (cases st) simp

lemma hd_shells: "shells st key pid pa root a ! 0 =
   (shell (childID key pid root) key (projr (kindOf st)) pa)\<lparr>Children := roots (dChildren st) (Suc a)\<rparr>"
  by (cases st; cases "dStates st") auto

definition byKey_ok :: "builder \<Rightarrow> bool" where
  "byKey_ok b \<longleftrightarrow>
     (\<forall>k. byKey b k = filter (\<lambda>n. Key (nodeAt (arena b) n) = k) [0..<length (nodes (arena b))])"

lemma byKey_alloc: "byKey_ok b \<Longrightarrow> byKey_ok (allocNode nd dto b)"
  by (auto simp: byKey_ok_def allocNode_def Let_def nodeAt_def nth_append intro!: filter_cong)

lemma byKey_updNode: "byKey_ok b \<Longrightarrow> (\<And>nd. Key (f nd) = Key nd) \<Longrightarrow> byKey_ok (updNode n f b)"
proof -
  assume ok: "byKey_ok b" and key: "\<And>nd. Key (f nd) = Key nd"
  have "Key ((nodes (arena b))[n := f (nodes (arena b) ! n)] ! m) = Key (nodes (arena b) ! m)" for m
    by (cases "m = n"; cases "n < length (nodes (arena b))") (simp_all add: key list_update_beyond)
  then show ?thesis
    using ok by (simp add: byKey_ok_def updNode_def Let_def nodeAt_def)
qed

lemma updNode_parts [simp]:
  "nodes (arena (updNode n f b)) = (nodes (arena b))[n := f (nodes (arena b) ! n)]"
  "edges (arena (updNode n f b)) = edges (arena b)"
  "nodeDTO (updNode n f b) = nodeDTO b" "tspec (updNode n f b) = tspec b"
  "byKey (updNode n f b) = byKey b" "ordered (updNode n f b) = ordered b"
  by (simp_all add: updNode_def Let_def)

lemma updEdge_parts [simp]:
  "edges (arena (updEdge t f b)) = (edges (arena b))[t := f (edges (arena b) ! t)]"
  "nodes (arena (updEdge t f b)) = nodes (arena b)"
  "nodeDTO (updEdge t f b) = nodeDTO b" "tspec (updEdge t f b) = tspec b"
  "byKey (updEdge t f b) = byKey b" "ordered (updEdge t f b) = ordered b"
  by (simp_all add: updEdge_def Let_def)

lemma allocNode_parts [simp]:
  "nodes (arena (allocNode nd dto b)) = nodes (arena b) @ [nd]"
  "edges (arena (allocNode nd dto b)) = edges (arena b)"
  "nodeDTO (allocNode nd dto b) = nodeDTO b @ [dto]" "tspec (allocNode nd dto b) = tspec b"
  "ordered (allocNode nd dto b) = ordered b"
  by (simp_all add: allocNode_def Let_def)

definition built :: "builder \<Rightarrow> builder \<Rightarrow> dtoState list \<Rightarrow> bool" where
  "built b b' ds \<longleftrightarrow> edges (arena b') = edges (arena b) \<and> nodeDTO b' = nodeDTO b @ ds \<and> tspec b' = tspec b
     \<and> ordered b' = ordered b \<and> (byKey_ok b \<longrightarrow> byKey_ok b')"

lemma build_shells:
  "buildNode st key pid pa root b = Inr (n, b') \<Longrightarrow>
     n = length (nodes (arena b)) \<and> nodes (arena b') = nodes (arena b) @ shells st key pid pa root n
     \<and> built b b' (dtos st)"
  "buildChildren cs i m b = Inr b' \<Longrightarrow> m < length (nodes (arena b)) \<Longrightarrow>
     nodes (arena b') = (nodes (arena b))
          [m := (nodes (arena b) ! m)\<lparr>Children := Children (nodes (arena b) ! m) @ roots cs (length (nodes (arena b)))\<rparr>]
        @ shellsList cs i m (length (nodes (arena b)))
     \<and> built b b' (dtosList cs)"
proof (induction st key pid pa root b and cs i m b arbitrary: n b' and b' rule: buildNode_buildChildren.induct)
  case (1 f sts key pid pa root b)
  let ?n = "length (nodes (arena b))" and ?i = "childID key pid root"
  from "1.prems" obtain kd b1 where id: "checkID f key root = Inr ()" and kd: "kindOf (DtoState f sts) = Inr kd"
    and kids: "(case sts of None \<Rightarrow> Inr (allocNode (shell ?i key kd pa) (DtoState f sts) b)
         | Some cs \<Rightarrow> buildChildren cs ?i ?n (allocNode (shell ?i key kd pa) (DtoState f sts) b)) = Inr b1"
    and res: "n = ?n" "b' = b1"
    by (auto simp: result_iff Let_def)
  show ?case
  proof (cases sts)
    case None
    then show ?thesis
      using kids res kd byKey_alloc by (auto simp: built_def shell_def)
  next
    case (Some cs)
    note IH = "1.IH" [OF id kd refl refl refl Some]
    have "nodes (arena b1) = (nodes (arena b) @ [shell ?i key kd pa])
          [?n := (shell ?i key kd pa)\<lparr>Children := Children (shell ?i key kd pa) @ roots cs (Suc ?n)\<rparr>]
        @ shellsList cs ?i ?n (Suc ?n)
     \<and> built (allocNode (shell ?i key kd pa) (DtoState f sts) b) b1 (dtosList cs)"
      using IH [of b1] kids Some by simp
    then show ?thesis
      using res kd Some byKey_alloc by (auto simp: built_def shell_def)
  qed
next
  case (2 i n b)
  then show ?case
    by (simp add: built_def)
next
  case (3 key st cs i n b)
  from "3.prems"(1) obtain cn b1 where one: "buildNode st key i (Some n) False b = Inr (cn, b1)"
    and more: "buildChildren cs i n (updNode n (\<lambda>nd. nd\<lparr>Children := Children nd @ [cn]\<rparr>) b1) = Inr b'"
    by (auto simp: result_iff appendChild_def)
  note first = "3.IH"(1) [OF one]
  have "n < length (nodes (arena (updNode n (\<lambda>nd. nd\<lparr>Children := Children nd @ [cn]\<rparr>) b1)))"
    using first "3.prems"(2) by simp
  note more' = "3.IH"(2) [OF _ more this]
  show ?case
    using more' first one "3.prems"(2) byKey_updNode [of b1 "\<lambda>nd. nd\<lparr>Children := Children nd @ [cn]\<rparr>" n]
    by (auto simp: built_def nth_append list_update_append appendChild_def)
qed

subsection \<open>A block of shells is a tree\<close>

definition block_node :: "heap \<Rightarrow> node \<Rightarrow> node \<Rightarrow> bool" where
  "block_node H z m \<longleftrightarrow>
     distinct (kids H m) \<and> (\<forall>c \<in> set (kids H m). m < c \<and> c < z \<and> par H c = Some m)"

lemma block_node_wider: "block_node H z m \<Longrightarrow> z \<le> z' \<Longrightarrow> block_node H z' m"
  by (fastforce simp: block_node_def)

definition inner :: "heap \<Rightarrow> node \<Rightarrow> bool" where
  "inner H m \<longleftrightarrow> (\<exists>q. par H m = Some q \<and> q < m \<and> m \<in> set (kids H q))"

lemma roots_bounds: "c \<in> set (roots cs a) \<Longrightarrow> a \<le> c \<and> c < a + counts cs"
  by (induction cs a rule: roots.induct) fastforce+

lemma distinct_roots: "distinct (roots cs a)"
proof (induction cs a rule: roots.induct)
  case (2 key st cs a)
  then show ?case
    using roots_bounds [of a cs "a + count st"] count_pos [of st] by auto
qed simp

text \<open>What holds of the block of one state, and of the blocks of the children of \<open>n\<close>.\<close>

definition state_block :: "heap \<Rightarrow> nat \<Rightarrow> node option \<Rightarrow> node \<Rightarrow> bool" where
  "state_block H c pa a \<longleftrightarrow>
     par H a = pa \<and> (\<forall>k \<ge> c. visit H k a = [a..<a + c])
     \<and> (\<forall>m. a \<le> m \<longrightarrow> m < a + c \<longrightarrow> block_node H (a + c) m \<and> (m \<noteq> a \<longrightarrow> inner H m))"

definition child_blocks :: "heap \<Rightarrow> nat \<Rightarrow> node list \<Rightarrow> node \<Rightarrow> node \<Rightarrow> bool" where
  "child_blocks H c rs n a \<longleftrightarrow>
     (\<forall>r \<in> set rs. par H r = Some n)
     \<and> (\<forall>k \<ge> c. concat (map (visit H k) rs) = [a..<a + c])
     \<and> (\<forall>m. a \<le> m \<longrightarrow> m < a + c \<longrightarrow> block_node H (a + c) m \<and> (m \<in> set rs \<or> inner H m))"

lemma child_blocks_Cons:
  assumes one: "state_block H c (Some n) a" and more: "child_blocks H cs rs n (a + c)"
  shows "child_blocks H (c + cs) (a # rs) n a"
proof -
  have "block_node H (a + (c + cs)) m \<and> (m \<in> set (a # rs) \<or> inner H m)" if m: "a \<le> m" "m < a + (c + cs)" for m
  proof (cases "m < a + c")
    case True
    then have "block_node H (a + c) m" "m = a \<or> inner H m"
      using one m(1) unfolding state_block_def by blast+
    then show ?thesis
      using block_node_wider [of H "a + c" m "a + (c + cs)"] by auto
  next
    case False
    then have "block_node H (a + c + cs) m" "m \<in> set rs \<or> inner H m"
      using more m(2) unfolding child_blocks_def by (auto simp: add.assoc)
    then show ?thesis
      by (auto simp: add.assoc)
  qed
  moreover have "concat (map (visit H k) (a # rs)) = [a..<a + (c + cs)]" if "c + cs \<le> k" for k
  proof -
    have "visit H k a = [a..<a + c]" "concat (map (visit H k) rs) = [a + c..<a + c + cs]"
      using one more that by (simp_all add: state_block_def child_blocks_def)
    then show ?thesis
      using upt_add_eq_append [of a "a + c" cs] by (simp add: add.assoc)
  qed
  moreover have "\<forall>r \<in> set (a # rs). par H r = Some n"
    using one more by (simp add: state_block_def child_blocks_def)
  ultimately show ?thesis
    unfolding child_blocks_def by blast
qed

lemma state_block_node:
  assumes sub: "child_blocks H c rs a (Suc a)" and kids: "kids H a = rs" and "par H a = pa"
    and rs: "distinct rs" "\<And>r. r \<in> set rs \<Longrightarrow> a < r \<and> r < Suc a + c"
  shows "state_block H (Suc c) pa a"
proof -
  have "visit H k a = [a..<a + Suc c]" if "Suc c \<le> k" for k
  proof -
    obtain k' where "k = Suc k'" "c \<le> k'"
      using \<open>Suc c \<le> k\<close> by (cases k) auto
    then show ?thesis
      using sub kids by (simp add: child_blocks_def upt_conv_Cons)
  qed
  moreover have kids_of: "block_node H (a + Suc c) a"
    using sub rs unfolding block_node_def kids child_blocks_def by auto
  moreover have "block_node H (a + Suc c) m \<and> (m \<noteq> a \<longrightarrow> inner H m)" if m: "a \<le> m" "m < a + Suc c" for m
  proof (cases "m = a")
    case True
    then show ?thesis
      using kids_of by simp
  next
    case False
    then have "block_node H (Suc a + c) m" "m \<in> set rs \<or> inner H m"
      using sub m unfolding child_blocks_def by auto
    moreover have "m \<in> set rs \<Longrightarrow> inner H m"
      using sub kids False m(1) unfolding child_blocks_def inner_def by (intro exI [of _ a]) auto
    ultimately show ?thesis
      by auto
  qed
  ultimately show ?thesis
    using assms(3) unfolding state_block_def by blast
qed

lemma shells_blocks:
  "nodes H = pre @ shells st key pid pa root a @ post \<Longrightarrow> length pre = a \<Longrightarrow> state_block H (count st) pa a"
  "nodes H = pre @ shellsList cs i n a @ post \<Longrightarrow> length pre = a \<Longrightarrow> child_blocks H (counts cs) (roots cs a) n a"
proof (induction st key pid pa root a and cs i n a arbitrary: pre post and pre post rule: shells_shellsList.induct)
  case (1 f sts key pid pa root a)
  let ?cs = "case sts of None \<Rightarrow> [] | Some cs \<Rightarrow> cs" and ?i = "childID key pid root"
  let ?hd = "(shell ?i key (projr (kindOf (DtoState f sts))) pa)\<lparr>Children := roots ?cs (Suc a)\<rparr>"
  have cnt: "count (DtoState f sts) = Suc (counts ?cs)"
    by (cases sts) simp_all
  have ns: "nodes H = (pre @ [?hd]) @ shellsList ?cs ?i a (Suc a) @ post"
    using "1.prems"(1) by (cases sts) simp_all
  have hd: "nodes H ! a = ?hd"
    using ns "1.prems"(2) by (simp add: nth_append)
  have "child_blocks H (counts ?cs) (roots ?cs (Suc a)) a (Suc a)"
  proof (cases sts)
    case (Some cs)
    show ?thesis
      using "1.IH" [OF Some, of "pre @ [?hd]" post] ns "1.prems"(2) Some by simp
  qed (simp add: child_blocks_def)
  then show ?case
    unfolding cnt
    by (rule state_block_node) (use hd roots_bounds [of _ ?cs "Suc a"] in \<open>force simp: nodeAt_def shell_def distinct_roots\<close>)+
next
  case (2 i n a)
  then show ?case by (simp add: child_blocks_def)
next
  case (3 key st cs i n a)
  have "state_block H (count st) (Some n) a"
    by (rule "3.IH"(1) [of pre "shellsList cs i n (a + count st) @ post"]) (use "3.prems" in simp_all)
  moreover have "child_blocks H (counts cs) (roots cs (a + count st)) n (a + count st)"
    by (rule "3.IH"(2) [of "pre @ shells st key i (Some n) False a" post]) (use "3.prems" in simp_all)
  ultimately show ?case
    using child_blocks_Cons by simp
qed

lemmas shells_tree = shells_blocks [unfolded state_block_def child_blocks_def]

end
