(* ===== verification/Schema_Tree.thy ===== *)
theory Schema_Tree
  imports Schema_Shells
begin

section \<open>A machine that loads is a well-formed tree\<close>

text \<open>
  After the shells, every stage keeps the skeleton of the tree and adds contents that point
  into the arena: \<open>contents\<close> says so of one state of the builder, the lemmas say that every
  operation keeps it, and the theorem at the end discharges for the loader what the engine
  assumes of a chart (\<open>tree\<close>).
\<close>

definition skel :: "StateNode \<Rightarrow> StateID \<times> string \<times> StateKind \<times> node option \<times> node list \<times> nat" where
  "skel nd = (ID nd, Key nd, Kind nd, Parent nd, Children nd, DocOrder nd)"

definition same_skel :: "heap \<Rightarrow> heap \<Rightarrow> bool" where
  "same_skel H H' \<longleftrightarrow> map skel (nodes H') = map skel (nodes H)"

lemma same_skel_refl [simp]: "same_skel H H"
  by (simp add: same_skel_def)

lemma same_skel_trans: "same_skel H H' \<Longrightarrow> same_skel H' H'' \<Longrightarrow> same_skel H H''"
  by (simp add: same_skel_def)

lemma same_skel_length: "same_skel H H' \<Longrightarrow> length (nodes H') = length (nodes H)"
  unfolding same_skel_def by (metis length_map)

lemma same_skel_at:
  assumes "same_skel H H'" and "n < length (nodes H)"
  shows "ID (nodeAt H' n) = ID (nodeAt H n)" "Key (nodeAt H' n) = Key (nodeAt H n)" "kind H' n = kind H n"
    "par H' n = par H n" "kids H' n = kids H n" "doc H' n = doc H n"
proof -
  have "skel (nodeAt H' n) = skel (nodeAt H n)"
    using assms same_skel_length [OF assms(1)] unfolding same_skel_def nodeAt_def by (metis nth_map)
  then show "ID (nodeAt H' n) = ID (nodeAt H n)" "Key (nodeAt H' n) = Key (nodeAt H n)" "kind H' n = kind H n"
    "par H' n = par H n" "kids H' n = kids H n" "doc H' n = doc H n"
    by (simp_all add: skel_def)
qed

definition ok_edge :: "heap \<Rightarrow> node \<Rightarrow> tref \<Rightarrow> bool" where
  "ok_edge H n t \<longleftrightarrow>
     t < length (edges H) \<and> Source (edgeAt H t) = n
     \<and> (Targets (edgeAt H t) = [] \<or> (\<exists>g < length (nodes H). Targets (edgeAt H t) = [g]))"

definition ok_content :: "heap \<Rightarrow> node \<Rightarrow> bool" where
  "ok_content H n \<longleftrightarrow>
     (case Initial (nodeAt H n) of None \<Rightarrow> True | Some i \<Rightarrow> kind H n = StateCompound \<and> i \<in> set (kids H n))
     \<and> list_all (ok_edge H n) (node_edges (nodeAt H n)) \<and> distinct (node_edges (nodeAt H n))
     \<and> (HistoryTo (nodeAt H n) = [] \<or>
          kind H n = StateHistory \<and> (\<exists>g < length (nodes H). HistoryTo (nodeAt H n) = [g]))"

definition contents :: "builder \<Rightarrow> bool" where
  "contents b \<longleftrightarrow>
     length (tspec b) = length (edges (arena b))
     \<and> (\<forall>n < length (nodes (arena b)). ok_content (arena b) n)"

subsection \<open>Adding edges\<close>

text \<open>
  \<open>grown src b b' new\<close>: edges out of \<open>src\<close> without targets were appended, the nodes are
  untouched; \<open>new\<close> lists the new edges.
\<close>

definition grown :: "node \<Rightarrow> builder \<Rightarrow> builder \<Rightarrow> tref list \<Rightarrow> bool" where
  "grown src b b' new \<longleftrightarrow>
     (\<exists>es ts. edges (arena b') = edges (arena b) @ es \<and> tspec b' = tspec b @ ts \<and> length ts = length es
        \<and> list_all (\<lambda>e. Source e = src \<and> Targets e = []) es
        \<and> new = [length (edges (arena b))..<length (edges (arena b)) + length es])
     \<and> nodes (arena b') = nodes (arena b) \<and> nodeDTO b' = nodeDTO b \<and> byKey b' = byKey b \<and> ordered b' = ordered b"

lemma grown_refl [simp]: "grown src b b []"
  by (simp add: grown_def)

lemma upt_join: "[n..<n + l] @ [n + l..<n + l + l'] = [n..<n + (l + l')]"
  using upt_add_eq_append [of n "n + l" l'] by (simp add: add.assoc)

lemma grown_trans:
  assumes "grown src b b1 xs" and "grown src b1 b2 ys"
  shows "grown src b b2 (xs @ ys)"
proof -
  obtain es ts es' ts' where "edges (arena b1) = edges (arena b) @ es" "tspec b1 = tspec b @ ts" "length ts = length es"
    "list_all (\<lambda>e. Source e = src \<and> Targets e = []) es"
    "xs = [length (edges (arena b))..<length (edges (arena b)) + length es]"
    "edges (arena b2) = edges (arena b1) @ es'" "tspec b2 = tspec b1 @ ts'" "length ts' = length es'"
    "list_all (\<lambda>e. Source e = src \<and> Targets e = []) es'"
    "ys = [length (edges (arena b1))..<length (edges (arena b1)) + length es']"
    using assms unfolding grown_def by blast
  then show ?thesis
    using assms unfolding grown_def
    by (intro conjI exI [of _ "es @ es'"] exI [of _ "ts @ ts'"])
       (simp_all add: upt_join)
qed

lemma buildTransition_grown:
  "buildTransition src event af dl k dto b = Inr (t, b') \<Longrightarrow> grown src b b' [t]"
  by (auto simp: buildTransition_def result_iff Let_def grown_def)

text \<open>A loop step that appends the edges it makes to the list it carries.\<close>

definition appends :: "node \<Rightarrow> (tref list \<times> builder \<Rightarrow> loadError + tref list \<times> builder) \<Rightarrow> bool" where
  "appends src g \<longleftrightarrow>
     (\<forall>out b out' b'. g (out, b) = Inr (out', b') \<longrightarrow> (\<exists>new. out' = out @ new \<and> grown src b b' new))"

lemma appends_Inr [simp]: "appends src Inr"
  by (simp add: appends_def)

lemma appends_bind: "appends src g \<Longrightarrow> appends src h \<Longrightarrow> appends src (\<lambda>s. bindE (g s) h)"
  unfolding appends_def
proof (intro allI impI)
  fix out b out' b'
  assume g: "\<forall>out b out' b'. g (out, b) = Inr (out', b') \<longrightarrow> (\<exists>new. out' = out @ new \<and> grown src b b' new)"
    and h: "\<forall>out b out' b'. h (out, b) = Inr (out', b') \<longrightarrow> (\<exists>new. out' = out @ new \<and> grown src b b' new)"
    and "bindE (g (out, b)) h = Inr (out', b')"
  then obtain o1 b1 where "g (out, b) = Inr (o1, b1)" "h (o1, b1) = Inr (out', b')"
    by (auto simp: result_iff)
  then obtain x y where "o1 = out @ x" "grown src b b1 x" "out' = o1 @ y" "grown src b1 b' y"
    using g h by blast
  then show "\<exists>new. out' = out @ new \<and> grown src b b' new"
    using grown_trans by (intro exI [of _ "x @ y"]) auto
qed

lemma appends_fold: "(\<And>x. appends src (g x)) \<Longrightarrow> appends src (foldE g xs)"
proof (induction xs)
  case (Cons x xs)
  have "foldE g (x # xs) = (\<lambda>s. bindE (g x s) (foldE g xs))"
    by (rule ext) simp
  then show ?case
    using appends_bind Cons by metis
qed (simp add: appends_def)

lemma appends_guard: "(\<And>x. appends src (h x)) \<Longrightarrow> appends src (\<lambda>s. bindE m (\<lambda>x. h x s))"
  by (cases m) (auto simp: appends_def)

lemma appends_candidates: "appends src (candidates src event af dl trs)"
proof -
  have "appends src (candidate src event af dl tr)" for tr
    unfolding appends_def candidate_def
    by (auto simp: result_iff intro: buildTransition_grown)
  then have "appends src (foldE (candidate src event af dl) trs)"
    by (rule appends_fold)
  then show ?thesis
    unfolding appends_def candidates_def .
qed

lemma appends_onEdges: "appends n (onEdges n ev)"
  using appends_guard [of n "\<lambda>_ s. candidates n (deDesc ev) False noDelay (deTransitions ev) s"] appends_candidates
  unfolding onEdges_def [abs_def] by simp

lemma appends_afterEdges: "appends n (afterEdgesOf n ev)"
proof -
  have "appends n (\<lambda>s. candidates n (afterEvent (deDesc ev) (ID (nodeAt (arena (snd s)) n))) True dl (deTransitions ev) s)" for dl
    using appends_candidates unfolding appends_def by fastforce
  then show ?thesis
    unfolding afterEdgesOf_def [abs_def] by (rule appends_guard)
qed

lemma buildTransitions_grown: "buildTransitions n f b = Inr (out, b') \<Longrightarrow> grown n b b' out"
proof -
  have "appends n (\<lambda>s. bindE (foldE (onEdges n) (dOn f) s) (\<lambda>s. bindE (foldE (afterEdgesOf n) (dAfter f) s)
      (candidates n [] False noDelay (dAlways f))))"
    by (intro appends_bind appends_fold appends_onEdges appends_afterEdges appends_candidates)
  moreover assume "buildTransitions n f b = Inr (out, b')"
  ultimately show ?thesis
    unfolding appends_def buildTransitions_def by fastforce
qed

definition ivEdges :: "Invoke list \<Rightarrow> tref list" where
  "ivEdges ivs = concat (map (\<lambda>iv. OnDone iv @ OnError iv) ivs)"

lemma ivEdges_simps [simp]: "ivEdges [] = []" "ivEdges (xs @ ys) = ivEdges xs @ ivEdges ys"
  "ivEdges [iv] = OnDone iv @ OnError iv"
  by (simp_all add: ivEdges_def)

lemma buildInvoke_grown:
  "buildInvoke n iv s = Inr (ivs', b') \<Longrightarrow> \<exists>iv'. ivs' = fst s @ [iv'] \<and> grown n (snd s) b' (ivEdges [iv'])"
proof -
  assume r: "buildInvoke n iv s = Inr (ivs', b')"
  then obtain d b1 e where dn: "candidates n (''done.invoke.'' @ the (diID iv)) False noDelay (diOnDone iv) ([], snd s) = Inr (d, b1)"
    and err: "candidates n (''error.invoke.'' @ the (diID iv)) False noDelay (diOnError iv) ([], b1) = Inr (e, b')"
    and iv: "ivs' = fst s @ [\<lparr>IvID = the (diID iv), Src = the (diSrc iv), OnDone = d, OnError = e\<rparr>]"
    unfolding buildInvoke_def by (auto simp: bindE_Inr split: if_split_asm)
  have "grown n (snd s) b1 d" "grown n b1 b' e"
    using dn err appends_candidates unfolding appends_def by fastforce+
  then show ?thesis
    using iv grown_trans by (intro exI [of _ "\<lparr>IvID = the (diID iv), Src = the (diSrc iv), OnDone = d, OnError = e\<rparr>"]) auto
qed

lemma buildInvokes_grown: "buildInvokes n ds b = Inr (ivs, b') \<Longrightarrow> grown n b b' (ivEdges ivs)"
proof -
  assume "buildInvokes n ds b = Inr (ivs, b')"
  then have f: "foldE (buildInvoke n) ds ([], b) = Inr (ivs, b')"
    by (simp add: buildInvokes_def)
  have "grown n b (snd (ivs, b')) (ivEdges (fst (ivs, b')))"
  proof (rule foldE_inv [OF f, where I = "\<lambda>s. grown n b (snd s) (ivEdges (fst s))"])
    fix x s u
    assume s: "grown n b (snd s) (ivEdges (fst s))" and u: "buildInvoke n x s = Inr u"
    obtain iv' where "fst u = fst s @ [iv']" "grown n (snd s) (snd u) (ivEdges [iv'])"
      using buildInvoke_grown [of n x s "fst u" "snd u"] u by auto
    then show "grown n b (snd u) (ivEdges (fst u))"
      using grown_trans [OF s] by simp
  qed simp
  then show ?thesis
    by simp
qed

subsection \<open>The stages keep the contents well-formed\<close>

text \<open>\<open>kept b b'\<close>: the skeleton and the builder's tables are the same.\<close>

definition kept :: "builder \<Rightarrow> builder \<Rightarrow> bool" where
  "kept b b' \<longleftrightarrow> same_skel (arena b) (arena b') \<and> nodeDTO b' = nodeDTO b \<and> byKey b' = byKey b \<and> ordered b' = ordered b"

lemma kept_refl [simp]: "kept b b"
  by (simp add: kept_def)

lemma kept_trans: "kept b b1 \<Longrightarrow> kept b1 b2 \<Longrightarrow> kept b b2"
  using same_skel_trans by (fastforce simp: kept_def)

lemma kept_grown: "grown src b b' new \<Longrightarrow> kept b b'"
  by (auto simp: kept_def grown_def same_skel_def)

lemma kept_updNode: "(\<And>nd. skel (f nd) = skel nd) \<Longrightarrow> kept b (updNode n f b)"
proof -
  assume "\<And>nd. skel (f nd) = skel nd"
  then have "map skel ((nodes (arena b))[n := f (nodes (arena b) ! n)]) = map skel (nodes (arena b))"
    by (simp add: map_update) (metis list_update_beyond list_update_id map_update not_less nth_map)
  then show ?thesis
    by (simp add: kept_def same_skel_def)
qed

lemma kept_updEdge: "kept b (updEdge t f b)"
  by (simp add: kept_def same_skel_def)

lemma ok_content_same:
  assumes "ok_content H n" and "nodes H' ! n = nodes H ! n" and "same_skel H H'" and "n < length (nodes H)"
    and "\<And>t. ok_edge H n t \<Longrightarrow> ok_edge H' n t"
  shows "ok_content H' n"
  using assms same_skel_at [OF assms(3,4)] same_skel_length [OF assms(3)]
  by (auto simp: ok_content_def nodeAt_def list_all_iff split: option.splits)

lemma ok_edge_grown:
  assumes "grown src b b' new"
  shows "ok_edge (arena b) n t \<Longrightarrow> ok_edge (arena b') n t"
    and "t \<in> set new \<Longrightarrow> ok_edge (arena b') src t"
  using assms by (auto simp: grown_def ok_edge_def edgeAt_def nth_append list_all_iff all_set_conv_all_nth)

lemma contents_grown: "grown src b b' new \<Longrightarrow> contents b \<Longrightarrow> contents b'"
proof -
  assume g: "grown src b b' new" and c: "contents b"
  have "ok_content (arena b') n" if "n < length (nodes (arena b'))" for n
    by (rule ok_content_same [of "arena b"])
       (use g c that ok_edge_grown [OF g] kept_grown [OF g] in \<open>auto simp: contents_def grown_def kept_def\<close>)
  moreover have "length (tspec b') = length (edges (arena b'))"
    using g c by (auto simp: contents_def grown_def)
  ultimately show ?thesis
    by (simp add: contents_def)
qed

lemma findChild_kid: "findChild H n key = Some c \<Longrightarrow> c \<in> set (kids H n)"
  by (auto simp: findChild_def find_Some_iff)

text \<open>Replacing one node by one with the same skeleton and well-formed contents.\<close>

lemma contents_updNode:
  assumes "contents b" and sk: "\<And>nd. skel (f nd) = skel nd"
    and "n < length (nodes (arena b)) \<Longrightarrow> ok_content (arena (updNode n f b)) n"
  shows "contents (updNode n f b)"
proof -
  have ss: "same_skel (arena b) (arena (updNode n f b))"
    using kept_updNode [OF sk] by (simp add: kept_def)
  have "ok_content (arena (updNode n f b)) m" if "m < length (nodes (arena b))" for m
  proof (cases "m = n")
    case False
    then show ?thesis
      by (intro ok_content_same [of "arena b", OF _ _ ss])
         (use assms(1) that in \<open>auto simp: contents_def ok_edge_def edgeAt_def\<close>)
  qed (use assms(3) that in simp)
  then show ?thesis
    using assms(1) by (simp add: contents_def)
qed

lemma node_edges_alt: "node_edges nd = Transitions nd @ ivEdges (Invokes nd)"
  by (simp add: node_edges_def ivEdges_def)

lemma initialOf_ok:
  "initialOf H n f = Inr ini \<Longrightarrow>
     (case ini of None \<Rightarrow> kind H n \<noteq> StateCompound | Some i \<Rightarrow> kind H n = StateCompound \<and> i \<in> set (kids H n))"
  by (cases ini) (auto simp: initialOf_def intro: findChild_kid split: if_splits option.split_asm)

lemma buildContent_ok:
  assumes "buildContent n b = Inr b'" and "contents b"
  shows "contents b' \<and> kept b b'
     \<and> (n < length (nodes (arena b)) \<longrightarrow> (kind (arena b) n = StateCompound \<longrightarrow> Initial (nodeAt (arena b') n) \<noteq> None)
          \<and> (\<exists>f hk. historyOf (arena b) n f = Inr hk))
     \<and> (\<forall>m. m \<noteq> n \<longrightarrow> nodeAt (arena b') m = nodeAt (arena b) m)"
proof -
  let ?f = "dFields (nodeDTO b ! n)"
  obtain entry exit ini hk trs b1 ivs b2 where ini: "initialOf (arena b) n ?f = Inr ini"
    and hk: "historyOf (arena b) n ?f = Inr hk"
    and trs: "buildTransitions n ?f b = Inr (trs, b1)" and ivs: "buildInvokes n (dInvoke ?f) b1 = Inr (ivs, b2)"
    and b': "b' = updNode n (\<lambda>nd. nd\<lparr>Entry := entry, Exit := exit, Initial := ini, HistKind := hk,
                              Transitions := trs, Invokes := ivs\<rparr>) b2"
    using assms(1) by (auto simp: buildContent_def Let_def result_iff)
  have g: "grown n b b1 trs" "grown n b1 b2 (ivEdges ivs)"
    using buildTransitions_grown [OF trs] buildInvokes_grown [OF ivs] by auto
  have g2: "grown n b b2 (trs @ ivEdges ivs)"
    by (rule grown_trans [OF g])
  have c2: "contents b2"
    by (rule contents_grown [OF g2 assms(2)])
  have nds: "nodes (arena b2) = nodes (arena b)"
    using g2 by (simp add: grown_def)
  have sk: "skel (nd\<lparr>Entry := entry, Exit := exit, Initial := ini, HistKind := hk, Transitions := trs, Invokes := ivs\<rparr>) = skel nd" for nd
    by (simp add: skel_def)
  have k: "kept b b'"
    using kept_trans [OF kept_grown [OF g2] kept_updNode [OF sk]] by (simp add: b')
  have ss: "same_skel (arena b) (arena b')"
    using k by (simp add: kept_def)
  have "ok_content (arena b') n" if n: "n < length (nodes (arena b))"
  proof -
    have "ok_edge (arena b') n t" if "t \<in> set (trs @ ivEdges ivs)" for t
      using ok_edge_grown(2) [OF g2 that] by (simp add: b' ok_edge_def edgeAt_def)
    moreover have "ok_content (arena b2) n"
      using c2 n nds by (simp add: contents_def)
    moreover have "case ini of None \<Rightarrow> True | Some i \<Rightarrow> kind (arena b) n = StateCompound \<and> i \<in> set (kids (arena b) n)"
      using initialOf_ok [OF ini] by (auto split: option.splits)
    moreover have "distinct (trs @ ivEdges ivs)"
      using g2 distinct_upt unfolding grown_def by metis
    ultimately show ?thesis
      using n nds same_skel_at [OF ss n] same_skel_length [OF ss]
      by (auto simp: ok_content_def nodeAt_def b' node_edges_alt list_all_iff skel_def split: option.splits)
  qed
  then have "contents b'"
    using contents_updNode [OF c2 sk, of n] by (simp add: b' nds)
  moreover have "kind (arena b) n = StateCompound \<longrightarrow> Initial (nodeAt (arena b') n) \<noteq> None"
    if "n < length (nodes (arena b))"
    using initialOf_ok [OF ini] that nds by (auto simp: b' nodeAt_def split: option.splits)
  ultimately show ?thesis
    using k hk nds by (auto simp: b' nodeAt_def)
qed

text \<open>What later stages leave alone besides the skeleton.\<close>

definition later :: "builder \<Rightarrow> builder \<Rightarrow> bool" where
  "later b b' \<longleftrightarrow> kept b b' \<and> map Initial (nodes (arena b')) = map Initial (nodes (arena b))"

lemma later_refl [simp]: "later b b"
  by (simp add: later_def)

lemma later_trans: "later b b1 \<Longrightarrow> later b1 b2 \<Longrightarrow> later b b2"
  using kept_trans by (fastforce simp: later_def)

lemma later_updNode:
  "(\<And>nd. skel (f nd) = skel nd) \<Longrightarrow> (\<And>nd. Initial (f nd) = Initial nd) \<Longrightarrow> later b (updNode n f b)"
  using kept_updNode [of f b n]
  by (simp add: later_def map_update) (metis list_update_beyond list_update_id map_update not_less nth_map)

lemma later_updEdge: "later b (updEdge t f b)"
  by (simp add: later_def kept_updEdge)

lemma later_initial:
  assumes "later b b'" and "n < length (nodes (arena b))"
  shows "Initial (nodeAt (arena b') n) = Initial (nodeAt (arena b) n)"
proof -
  have "length (nodes (arena b')) = length (nodes (arena b))"
    using assms(1) same_skel_length by (simp add: later_def kept_def)
  then show ?thesis
    using assms unfolding later_def nodeAt_def by (metis nth_map)
qed

text \<open>The arena is closed under children and parents.\<close>

definition closed :: "heap \<Rightarrow> bool" where
  "closed H \<longleftrightarrow>
     (\<forall>n < length (nodes H). (\<forall>c \<in> set (kids H n). c < length (nodes H))
        \<and> (case par H n of None \<Rightarrow> True | Some p \<Rightarrow> p < length (nodes H)))"

lemma closed_same: "same_skel H H' \<Longrightarrow> closed H \<Longrightarrow> closed H'"
proof -
  assume ss: "same_skel H H'" and cl: "closed H"
  show ?thesis
    unfolding closed_def same_skel_length [OF ss]
  proof (intro allI impI)
    fix n
    assume n: "n < length (nodes H)"
    show "(\<forall>c \<in> set (kids H' n). c < length (nodes H)) \<and>
        (case par H' n of None \<Rightarrow> True | Some p \<Rightarrow> p < length (nodes H))"
      unfolding same_skel_at(4,5) [OF ss n] using cl n unfolding closed_def by blast
  qed
qed

definition resolvable :: "builder \<Rightarrow> bool" where
  "resolvable b \<longleftrightarrow> closed (arena b) \<and> (\<forall>n \<in> set (ordered b). n < length (nodes (arena b)))
     \<and> (\<forall>k. \<forall>n \<in> set (byKey b k). n < length (nodes (arena b)))"

lemma resolvable_kept: "kept b b' \<Longrightarrow> resolvable b \<Longrightarrow> resolvable b'"
  using closed_same [of "arena b" "arena b'"] same_skel_length [of "arena b" "arena b'"]
  by (auto simp: resolvable_def kept_def)

lemma descend_range:
  "descend H raw path src segs cur = Inr n \<Longrightarrow> closed H \<Longrightarrow> cur < length (nodes H) \<Longrightarrow> n < length (nodes H)"
proof (induction H raw path src segs cur rule: descend.induct)
  case (2 H raw path src seg segs cur)
  then obtain c where c: "findChild H cur seg = Some c" "seg \<noteq> []" "descend H raw path src segs c = Inr n"
    by (auto split: if_splits option.splits)
  then have "c < length (nodes H)"
    using findChild_kid [OF c(1)] "2.prems" by (auto simp: closed_def)
  then show ?case
    using "2.IH" c "2.prems" by blast
qed simp

lemma targetCandidates_set:
  "set (targetCandidates b i) = set (byKey b i) \<union> {n \<in> set (ordered b). ID (nodeAt (arena b) n) = i}"
proof -
  have "set (fold (\<lambda>n cands. if ID (nodeAt (arena b) n) = i \<and> n \<notin> set cands then cands @ [n] else cands) ns cs)
      = set cs \<union> {n \<in> set ns. ID (nodeAt (arena b) n) = i}" for ns cs
    by (induction ns arbitrary: cs) auto
  then show ?thesis
    by (simp add: targetCandidates_def)
qed

lemma resolveTarget_range:
  assumes "resolveTarget b src raw path = Inr n" and "resolvable b" and "src < length (nodes (arena b))"
  shows "n < length (nodes (arena b))"
proof -
  have cl: "closed (arena b)"
    using assms(2) by (simp add: resolvable_def)
  consider "HasPrefix raw ''#''" | "\<not> HasPrefix raw ''#''" "HasPrefix raw ''.''"
    | "\<not> HasPrefix raw ''#''" "\<not> HasPrefix raw ''.''"
    by blast
  then show ?thesis
  proof cases
    case 1
    then have "targetCandidates b (drop 1 raw) = [n]"
      using assms(1) by (auto simp: resolveTarget_def Let_def split: if_splits list.splits)
    then have "n \<in> set (byKey b (drop 1 raw)) \<union> set (ordered b)"
      using targetCandidates_set [of b "drop 1 raw"] by auto
    then show ?thesis
      using assms(2) by (auto simp: resolvable_def)
  next
    case 2
    then show ?thesis
      using assms(1,3) descend_range [OF _ cl] by (simp add: resolveTarget_def Let_def)
  next
    case 3
    then obtain p where "par (arena b) src = Some p" "findChild (arena b) p raw = Some n"
      using assms(1) by (auto simp: resolveTarget_def Let_def split: option.splits)
    then show ?thesis
      using cl assms(3) findChild_kid unfolding closed_def by (metis option.simps(5))
  qed
qed

lemma contents_updEdge:
  assumes "contents b" and "Source (f (edges (arena b) ! t)) = Source (edges (arena b) ! t)"
    and "Targets (f (edges (arena b) ! t)) = Targets (edges (arena b) ! t)
         \<or> (\<exists>g < length (nodes (arena b)). Targets (f (edges (arena b) ! t)) = [g])"
  shows "contents (updEdge t f b)"
proof -
  have edge: "ok_edge (arena (updEdge t f b)) n u" if "ok_edge (arena b) n u" for n u
  proof (cases "u = t")
    case True
    then have "t < length (edges (arena b))"
      using that by (simp add: ok_edge_def)
    then have "edgeAt (arena (updEdge t f b)) t = f (edges (arena b) ! t)"
      by (simp add: edgeAt_def)
    then show ?thesis
      using that assms(2,3) True unfolding ok_edge_def edgeAt_def [of "arena b"] by simp metis
  next
    case False
    then show ?thesis
      using that by (simp add: ok_edge_def edgeAt_def)
  qed
  have "ok_content (arena (updEdge t f b)) n" if n: "n < length (nodes (arena b))" for n
  proof (rule ok_content_same [OF _ _ _ n edge])
    show "ok_content (arena b) n"
      using assms(1) n by (simp add: contents_def)
  qed (simp_all add: same_skel_def)
  then show ?thesis
    using assms(1) by (simp add: contents_def)
qed

lemma resolveTransition_cases:
  "resolveTransition t b = Inr b' \<Longrightarrow>
     b' = b \<or> (\<exists>raw path g. resolveTarget b (Source (edgeAt (arena b) t)) raw path = Inr g
        \<and> b' = updEdge t (\<lambda>e. e\<lparr>Targets := [g]\<rparr>) b)"
  unfolding resolveTransition_def
  by (cases "tsTarget (tspec b ! t)") (auto simp: bindE_Inr split: if_split_asm)

lemma resolveTransition_ok:
  assumes "resolveTransition t b = Inr b'" and "contents b" and "resolvable b"
    and "Source (edgeAt (arena b) t) < length (nodes (arena b))"
  shows "contents b' \<and> later b b'"
proof -
  have *: "contents (updEdge t (\<lambda>e. e\<lparr>Targets := [g]\<rparr>) b)" if "g < length (nodes (arena b))" for g
    by (rule contents_updEdge [OF assms(2)]) (use that in simp_all)
  consider "b' = b" | raw path g where "resolveTarget b (Source (edgeAt (arena b) t)) raw path = Inr g"
      "b' = updEdge t (\<lambda>e. e\<lparr>Targets := [g]\<rparr>) b"
    using resolveTransition_cases [OF assms(1)] by blast
  then show ?thesis
  proof cases
    case (2 raw path g)
    then show ?thesis
      using * [OF resolveTarget_range [OF 2(1) assms(3,4)]] later_updEdge by simp
  qed (use assms(2) in simp)
qed

lemma resolveHistory_cases:
  "resolveHistory n b = Inr b' \<Longrightarrow>
     b' = b \<or> (\<exists>raw path g. resolveTarget b n raw path = Inr g \<and> kind (arena b) n = StateHistory
        \<and> b' = updNode n (\<lambda>nd. nd\<lparr>HistoryTo := [g]\<rparr>) b)"
  unfolding resolveHistory_def Let_def
  by (cases "dTarget (dFields (nodeDTO b ! n))") (auto simp: bindE_Inr split: if_split_asm)

lemma resolveHistory_ok:
  assumes "resolveHistory n b = Inr b'" and "contents b" and "resolvable b" and "n < length (nodes (arena b))"
  shows "contents b' \<and> later b b'"
proof -
  have lt: "later b (updNode n (\<lambda>nd. nd\<lparr>HistoryTo := [g]\<rparr>) b)" for g
    by (rule later_updNode) (simp_all add: skel_def)
  have *: "contents (updNode n (\<lambda>nd. nd\<lparr>HistoryTo := [g]\<rparr>) b)"
    if g: "g < length (nodes (arena b))" and h: "kind (arena b) n = StateHistory" for g
  proof (rule contents_updNode [OF assms(2)])
    have "same_skel (arena b) (arena (updNode n (\<lambda>nd. nd\<lparr>HistoryTo := [g]\<rparr>) b))"
      using lt [of g] by (simp add: later_def kept_def)
    moreover have "ok_content (arena b) n"
      using assms(2,4) by (simp add: contents_def)
    ultimately show "ok_content (arena (updNode n (\<lambda>nd. nd\<lparr>HistoryTo := [g]\<rparr>) b)) n"
      using assms(4) g h
      by (auto simp: ok_content_def nodeAt_def node_edges_alt ok_edge_def edgeAt_def list_all_iff split: option.splits)
  qed (simp add: skel_def)
  consider "b' = b" | raw path g where "resolveTarget b n raw path = Inr g" "kind (arena b) n = StateHistory"
      "b' = updNode n (\<lambda>nd. nd\<lparr>HistoryTo := [g]\<rparr>) b"
    using resolveHistory_cases [OF assms(1)] by blast
  then show ?thesis
  proof cases
    case (2 raw path g)
    then show ?thesis
      using * [OF resolveTarget_range [OF 2(1) assms(3,4)]] lt by simp
  qed (use assms(2) in simp)
qed

lemma resolveNode_ok:
  assumes "resolveNode n b = Inr b'" and "contents b" and "resolvable b" and n: "n < length (nodes (arena b))"
  shows "contents b' \<and> later b b'"
proof -
  let ?ts = "node_edges (nodeAt (arena b) n)"
  let ?I = "\<lambda>x. contents x \<and> later b x \<and> nodes (arena x) = nodes (arena b)"
  obtain c where c: "foldE resolveTransition ?ts b = Inr c" and h: "resolveHistory n c = Inr b'"
    using assms(1) by (auto simp: resolveNode_def result_iff)
  have I: "?I c"
  proof (rule foldE_inv [OF c])
    fix t x y
    assume t: "t \<in> set ?ts" and x: "?I x" and y: "resolveTransition t x = Inr y"
    have "ok_content (arena x) n" "nodeAt (arena x) n = nodeAt (arena b) n"
      using x n by (auto simp: contents_def nodeAt_def)
    then have "Source (edgeAt (arena x) t) = n"
      using t by (auto simp: ok_content_def ok_edge_def list_all_iff)
    moreover have "resolvable x"
      using x resolvable_kept [OF _ assms(3)] by (auto simp: later_def)
    ultimately have "contents y \<and> later x y"
      using resolveTransition_ok [OF y] x n by auto
    moreover have "nodes (arena y) = nodes (arena x)"
      using resolveTransition_cases [OF y] by auto
    ultimately show "?I y"
      using x later_trans by auto
  qed (simp add: assms(2))
  then have "contents b' \<and> later c b'"
    using resolveHistory_ok [OF h] resolvable_kept [OF _ assms(3), of c] n by (auto simp: later_def)
  then show ?thesis
    using I later_trans by blast
qed

lemma resolveTargets_ok:
  assumes "resolveTargets b = Inr b'" and "contents b" and "resolvable b"
  shows "contents b' \<and> later b b'"
  using assms(1) unfolding resolveTargets_def
proof (rule foldE_inv)
  fix n x y
  assume n: "n \<in> set (ordered b)" and x: "contents x \<and> later b x" and y: "resolveNode n x = Inr y"
  have r: "resolvable x"
    using x resolvable_kept [OF _ assms(3)] by (auto simp: later_def)
  have "n < length (nodes (arena x))"
    using n x r by (auto simp: resolvable_def later_def kept_def)
  then have "contents y \<and> later x y"
    using resolveNode_ok [OF y _ r] x by blast
  then show "contents y \<and> later b y"
    using x later_trans by blast
qed (simp add: assms(2))

subsection \<open>Callsites do not touch the structure\<close>

text \<open>A step on the counters and the builder that keeps the contents.\<close>

definition keeps :: "('x \<Rightarrow> nat \<times> nat \<times> builder \<Rightarrow> nat \<times> nat \<times> builder) \<Rightarrow> 'x \<Rightarrow> bool" where
  "keeps f x \<longleftrightarrow> (\<forall>ac gc b. contents b \<longrightarrow> (\<exists>ac' gc' b'. f x (ac, gc, b) = (ac', gc', b') \<and> contents b' \<and> later b b'))"

lemma keepsE:
  assumes "keeps f x" and "contents b"
  obtains ac' gc' b' where "f x (ac, gc, b) = (ac', gc', b')" and "contents b'" and "later b b'"
  using assms unfolding keeps_def by blast

lemma keeps_fold: "(\<And>x. keeps f x) \<Longrightarrow> keeps (fold f) xs"
proof (induction xs)
  case Nil
  then show ?case by (simp add: keeps_def)
next
  case (Cons x xs)
  show ?case
    unfolding keeps_def
  proof (intro allI impI)
    fix ac gc b
    assume b: "contents b"
    obtain a1 g1 b1 where 1: "f x (ac, gc, b) = (a1, g1, b1)" "contents b1" "later b b1"
      by (rule keepsE [OF Cons.prems b])
    obtain a2 g2 b2 where "fold f xs (a1, g1, b1) = (a2, g2, b2)" "contents b2" "later b1 b2"
      by (rule keepsE [OF Cons.IH [OF Cons.prems] 1(2)])
    then show "\<exists>ac' gc' b'. fold f (x # xs) (ac, gc, b) = (ac', gc', b') \<and> contents b' \<and> later b b'"
      using 1 later_trans by simp
  qed
qed

lemma assignEdge_keeps: "keeps assignEdge t"
  unfolding keeps_def assignEdge_def
  by (simp add: Let_def later_updEdge contents_updEdge)

lemma contents_updNode_actions:
  assumes "contents b" and "\<And>nd. skel (f nd) = skel nd" and "\<And>nd. Initial (f nd) = Initial nd"
    and "\<And>nd. node_edges (f nd) = node_edges nd" and "\<And>nd. HistoryTo (f nd) = HistoryTo nd"
  shows "contents (updNode n f b) \<and> later b (updNode n f b)"
proof -
  have lt: "later b (updNode n f b)"
    by (rule later_updNode [OF assms(2,3)])
  then have ss: "same_skel (arena b) (arena (updNode n f b))"
    by (simp add: later_def kept_def)
  have "ok_content (arena (updNode n f b)) n" if n: "n < length (nodes (arena b))"
  proof -
    have nd: "nodeAt (arena (updNode n f b)) n = f (nodeAt (arena b) n)"
      using n by (simp add: nodeAt_def)
    have "ok_edge (arena (updNode n f b)) n = ok_edge (arena b) n"
      by (rule ext) (simp add: ok_edge_def edgeAt_def)
    moreover have "ok_content (arena b) n"
      using assms(1) n by (simp add: contents_def)
    ultimately show ?thesis
      using same_skel_at(3,5) [OF ss n] same_skel_length [OF ss] assms(3-5)
      unfolding ok_content_def nd by (cases "Initial (nodeAt (arena b) n)") (auto simp: nd)
  qed
  then show ?thesis
    using contents_updNode [OF assms(1,2)] lt by blast
qed

lemma assignNode_keeps: "keeps assignNode n"
  unfolding keeps_def
proof (intro allI impI)
  fix ac gc b
  assume b: "contents b"
  let ?nd = "nodeAt (arena b) n"
  let ?b1 = "updNode n (\<lambda>nd. nd\<lparr>Entry := numberActions ac (Entry nd)\<rparr>) b"
  have 1: "contents ?b1 \<and> later b ?b1"
    by (rule contents_updNode_actions [OF b]) (simp_all add: skel_def node_edges_def)
  obtain a2 g2 b2 where 2: "fold assignEdge (Transitions ?nd) (ac + length (Entry ?nd), gc, ?b1) = (a2, g2, b2)"
    "contents b2" "later ?b1 b2"
    by (rule keepsE [OF keeps_fold [OF assignEdge_keeps]]) (use 1 in blast)+
  let ?b3 = "updNode n (\<lambda>nd. nd\<lparr>Exit := numberActions a2 (Exit nd)\<rparr>) b2"
  have 3: "contents ?b3 \<and> later b2 ?b3"
    by (rule contents_updNode_actions [OF 2(2)]) (simp_all add: skel_def node_edges_def)
  have "keeps (fold (\<lambda>iv. fold assignEdge (OnDone iv @ OnError iv))) (Invokes ?nd)"
  proof (rule keeps_fold)
    fix iv
    show "keeps (\<lambda>iv. fold assignEdge (OnDone iv @ OnError iv)) iv"
      using keeps_fold [OF assignEdge_keeps, of "OnDone iv @ OnError iv"] unfolding keeps_def .
  qed
  then obtain a4 g4 b4 where 4: "fold (\<lambda>iv. fold assignEdge (OnDone iv @ OnError iv)) (Invokes ?nd)
      (a2 + length (Exit ?nd), g2, ?b3) = (a4, g4, b4)" "contents b4" "later ?b3 b4"
    by (rule keepsE) (use 3 in blast)+
  have "assignNode n (ac, gc, b) = (a4, g4, b4)"
    using 4(1) by (simp add: assignNode_def Let_def 2(1))
  moreover have "later b b4"
    using 1 2(3) 3 4(3) later_trans by blast
  ultimately show "\<exists>ac' gc' b'. assignNode n (ac, gc, b) = (ac', gc', b') \<and> contents b' \<and> later b b'"
    using 4(2) by blast
qed

lemma assignCallsites_ok:
  assumes "contents b" and "assignCallsites b = (ac, gc, b')"
  shows "contents b' \<and> later b b'"
proof -
  obtain ac' gc' b'' where "fold assignNode (ordered b) (0, 0, b) = (ac', gc', b'')" "contents b''" "later b b''"
    by (rule keepsE [OF keeps_fold [OF assignNode_keeps] assms(1)])
  then show ?thesis
    using assms(2) by (simp add: assignCallsites_def)
qed

subsection \<open>The whole loader\<close>

lemma fold_docOrder:
  "n \<le> length (nodes (arena b)) \<Longrightarrow>
     (let b' = fold (\<lambda>(i, n). updNode n (\<lambda>nd. nd\<lparr>DocOrder := i\<rparr>)) (enumerate 0 [0..<n]) b in
      nodes (arena b') = map (\<lambda>m. (nodes (arena b) ! m)\<lparr>DocOrder := if m < n then m else DocOrder (nodes (arena b) ! m)\<rparr>)
           [0..<length (nodes (arena b))]
      \<and> edges (arena b') = edges (arena b) \<and> nodeDTO b' = nodeDTO b \<and> tspec b' = tspec b \<and> byKey b' = byKey b)"
proof (induction n)
  case 0
  have "nodes (arena b) = map (\<lambda>m. nodes (arena b) ! m) [0..<length (nodes (arena b))]"
    by (simp add: map_nth)
  then show ?case
    by simp
next
  case (Suc n)
  let ?f = "\<lambda>n. fold (\<lambda>(i, n). updNode n (\<lambda>nd. nd\<lparr>DocOrder := i\<rparr>)) (enumerate 0 [0..<n]) b"
  have f: "?f (Suc n) = updNode n (\<lambda>nd. nd\<lparr>DocOrder := n\<rparr>) (?f n)"
    by (simp add: enumerate_append_eq)
  have IH: "nodes (arena (?f n)) = map (\<lambda>m. (nodes (arena b) ! m)\<lparr>DocOrder := if m < n then m else DocOrder (nodes (arena b) ! m)\<rparr>)
           [0..<length (nodes (arena b))]"
    and rest: "edges (arena (?f n)) = edges (arena b)" "nodeDTO (?f n) = nodeDTO b" "tspec (?f n) = tspec b" "byKey (?f n) = byKey b"
    using Suc by (simp_all add: Let_def)
  have "nodes (arena (?f (Suc n))) = map (\<lambda>m. (nodes (arena b) ! m)\<lparr>DocOrder := if m < Suc n then m else DocOrder (nodes (arena b) ! m)\<rparr>)
           [0..<length (nodes (arena b))]"
    unfolding f updNode_parts IH using Suc.prems by (intro nth_equalityI) (auto simp: nth_list_update)
  then show ?case
    unfolding f using rest by (simp add: Let_def)
qed

lemma build_parts:
  assumes "build root = Inr (H, d)"
  obtains i b0 b1 b2 ac gc b3 where "dID (dFields root) = Some i" "i \<noteq> []"
    and "buildNode root i [] None True newBuilder = Inr (0, b0)"
    and "buildContents (assignDocOrder 0 b0) = Inr b1" and "resolveTargets b1 = Inr b2"
    and "assignCallsites b2 = (ac, gc, b3)" and "H = arena b3" and "d = NewDefinition H i 0 ac gc"
proof -
  obtain i where i: "dID (dFields root) = Some i" "i \<noteq> []"
    using assms by (auto simp: build_def split: option.splits if_splits)
  then obtain n b0 b1 b2 where n: "buildNode root i [] None True newBuilder = Inr (n, b0)"
    and rest: "buildContents (assignDocOrder n b0) = Inr b1" "resolveTargets b1 = Inr b2"
      "(case assignCallsites b2 of (ac, gc, b) \<Rightarrow> Inr (arena b, NewDefinition (arena b) i n ac gc)) = (Inr (H, d) :: loadError + _)"
    using assms by (auto simp: build_def result_iff)
  have "n = 0"
    using build_shells(1) [OF n] by (simp add: newBuilder_def)
  obtain ac gc b3 where "assignCallsites b2 = (ac, gc, b3)"
    by (metis prod_cases3)
  then show ?thesis
    using that i n rest \<open>n = 0\<close> by auto
qed

definition blank :: "StateNode \<Rightarrow> bool" where
  "blank nd \<longleftrightarrow> Initial nd = None \<and> Transitions nd = [] \<and> Invokes nd = [] \<and> HistoryTo nd = []"

lemma shells_blank: "list_all blank (shells st key pid pa r a)" "list_all blank (shellsList cs i n a)"
  by (induction st key pid pa r a and cs i n a rule: shells_shellsList.induct)
     (auto simp: shell_def blank_def split: option.splits)

text \<open>The arena after the document order is assigned.\<close>

lemma ordered_shells:
  assumes "buildNode root i [] None True newBuilder = Inr (0, b0)"
  defines "b \<equiv> assignDocOrder 0 b0" and "N \<equiv> count root"
  shows "length (nodes (arena b)) = N" and "ordered b = [0..<N]" and "contents b" and "byKey_ok b"
    and "par (arena b) 0 = None" and "m < N \<Longrightarrow> block_node (arena b) N m \<and> (m \<noteq> 0 \<longrightarrow> inner (arena b) m)"
    and "m < N \<Longrightarrow> doc (arena b) m = m" and "nodeDTO b = dtos root"
    and "m < N \<Longrightarrow> Initial (nodeAt (arena b) m) = None"
    and "m < N \<Longrightarrow> kids (arena b0) m = kids (arena b) m" and "preorder (arena b0) 0 = [0..<N]"
    and "length (nodes (arena b0)) = N"
proof -
  have b0: "nodes (arena b0) = shells root i [] None True 0" "edges (arena b0) = []" "nodeDTO b0 = dtos root"
    "tspec b0 = []" "byKey_ok b0"
    using build_shells(1) [OF assms(1)] by (simp_all add: newBuilder_def built_def byKey_ok_def)
  have len0: "length (nodes (arena b0)) = N"
    using b0 by (simp add: N_def)
  have t: "par (arena b0) 0 = None \<and> (\<forall>k \<ge> N. visit (arena b0) k 0 = [0..<N])
     \<and> (\<forall>m. 0 \<le> m \<longrightarrow> m < N \<longrightarrow> block_node (arena b0) N m \<and> (m \<noteq> 0 \<longrightarrow> inner (arena b0) m))"
    using shells_tree(1) [of "arena b0" "[]" root i "[]" None True 0 "[]"] b0(1) by (simp add: N_def)
  have pre: "preorder (arena b0) 0 = [0..<N]"
    using t len0 by (simp add: preorder_def)
  note fo = fold_docOrder [of N b0, unfolded len0, OF order_refl, unfolded Let_def]
  have nodes_b: "nodes (arena b) = map (\<lambda>m. (nodes (arena b0) ! m)\<lparr>DocOrder := m\<rparr>) [0..<N]"
    using fo by (auto simp: b_def assignDocOrder_def Let_def pre intro!: map_cong)
  have others: "edges (arena b) = []" "nodeDTO b = dtos root" "tspec b = []" "byKey b = byKey b0" "ordered b = [0..<N]"
    using fo b0 by (simp_all add: b_def assignDocOrder_def Let_def pre)
  have at: "nodeAt (arena b) m = (nodeAt (arena b0) m)\<lparr>DocOrder := m\<rparr>" if "m < N" for m
    using that by (simp add: nodeAt_def nodes_b)
  show "m < N \<Longrightarrow> kids (arena b0) m = kids (arena b) m" "preorder (arena b0) 0 = [0..<N]"
    "length (nodes (arena b0)) = N"
    using at pre len0 by simp_all
  show len: "length (nodes (arena b)) = N"
    by (simp add: nodes_b)
  show "ordered b = [0..<N]" "nodeDTO b = dtos root"
    by (rule others)+
  have raw: "Initial (nodeAt (arena b0) m) = None \<and> Transitions (nodeAt (arena b0) m) = [] \<and> Invokes (nodeAt (arena b0) m) = []
      \<and> HistoryTo (nodeAt (arena b0) m) = []" if "m < N" for m
  proof -
    have "list_all blank (nodes (arena b0))"
      using shells_blank(1) by (simp add: b0(1))
    then show ?thesis
      using that len0 by (simp add: list_all_length blank_def nodeAt_def)
  qed
  show "contents b"
    using raw at by (simp add: contents_def others ok_content_def len node_edges_def)
  show "m < N \<Longrightarrow> Initial (nodeAt (arena b) m) = None" "m < N \<Longrightarrow> doc (arena b) m = m"
    using raw at by simp_all
  show "byKey_ok b"
    using b0(5) at by (auto simp: byKey_ok_def others len len0 intro!: filter_cong)
  have "0 < N"
    by (simp add: N_def)
  then show "par (arena b) 0 = None"
    using t at by simp
  show "block_node (arena b) N m \<and> (m \<noteq> 0 \<longrightarrow> inner (arena b) m)" if m: "m < N"
  proof -
    have bn: "block_node (arena b0) N m" and inn: "m \<noteq> 0 \<longrightarrow> inner (arena b0) m"
      using t m by simp_all
    have "block_node (arena b) N m"
      using bn m at by (auto simp: block_node_def)
    moreover have "inner (arena b) m" if "m \<noteq> 0"
      using inn that m at unfolding inner_def by (metis StateNode.select_convs(4,5) StateNode.surjective StateNode.update_convs(13) dual_order.strict_trans)
    ultimately show ?thesis
      by blast
  qed
qed

definition history_placed :: "heap \<Rightarrow> node \<Rightarrow> bool" where
  "history_placed H n \<longleftrightarrow>
     (kind H n = StateHistory \<longrightarrow>
        (\<exists>p. par H n = Some p \<and> (kind H p = StateCompound \<or> kind H p = StateParallel)))"

lemma historyOf_placed: "historyOf H n f = Inr hk \<Longrightarrow> history_placed H n"
  by (auto simp: historyOf_def history_placed_def split: if_splits option.splits)

lemma history_placed_same:
  assumes "same_skel H H'" and "closed H" and "n < length (nodes H)" and "history_placed H n"
  shows "history_placed H' n"
proof -
  have "p < length (nodes H)" if "par H n = Some p" for p
    using assms(2,3) that by (auto simp: closed_def)
  then show ?thesis
    using same_skel_at [OF assms(1)] assms(3,4) unfolding history_placed_def by metis
qed

lemma buildContents_ok:
  "foldE buildContent ns b = Inr b' \<Longrightarrow> contents b \<Longrightarrow> closed (arena b) \<Longrightarrow> distinct ns \<Longrightarrow>
     set ns \<subseteq> {..<length (nodes (arena b))} \<Longrightarrow>
     contents b' \<and> kept b b' \<and> (\<forall>m. m \<notin> set ns \<longrightarrow> nodeAt (arena b') m = nodeAt (arena b) m)
     \<and> (\<forall>n \<in> set ns. (kind (arena b') n = StateCompound \<longrightarrow> Initial (nodeAt (arena b') n) \<noteq> None)
          \<and> history_placed (arena b') n)"
proof (induction ns arbitrary: b)
  case (Cons n ns)
  obtain b1 where one: "buildContent n b = Inr b1" and more: "foldE buildContent ns b1 = Inr b'"
    using Cons.prems(1) by (auto simp: result_iff)
  note ok = buildContent_ok [OF one Cons.prems(2)]
  have ss: "same_skel (arena b) (arena b1)"
    using ok by (simp add: kept_def)
  have n: "n < length (nodes (arena b))"
    using Cons.prems(5) by simp
  have IH: "contents b' \<and> kept b1 b' \<and> (\<forall>m. m \<notin> set ns \<longrightarrow> nodeAt (arena b') m = nodeAt (arena b1) m)
     \<and> (\<forall>n \<in> set ns. (kind (arena b') n = StateCompound \<longrightarrow> Initial (nodeAt (arena b') n) \<noteq> None)
          \<and> history_placed (arena b') n)"
    by (rule Cons.IH [OF more]) (use ok closed_same [OF ss] same_skel_length [OF ss] Cons.prems in auto)
  have k: "kept b b'"
    using ok IH kept_trans by blast
  have "nodeAt (arena b') n = nodeAt (arena b1) n"
    using IH Cons.prems(4) by simp
  then have "kind (arena b') n = StateCompound \<longrightarrow> Initial (nodeAt (arena b') n) \<noteq> None"
    using ok n same_skel_at(3) [OF ss n] by simp
  moreover have "history_placed (arena b) n"
    using ok n historyOf_placed by blast
  then have "history_placed (arena b') n"
    using history_placed_same [OF _ Cons.prems(3) n] k by (simp add: kept_def)
  ultimately show ?case
    using IH ok k by simp
qed simp

definition single_target :: "heap \<Rightarrow> tref \<Rightarrow> bool" where
  "single_target H t \<longleftrightarrow> length (Targets (edgeAt H t)) \<le> 1"

lemma shells_closed:
  assumes "buildNode root i [] None True newBuilder = Inr (0, b0)"
  shows "closed (arena (assignDocOrder 0 b0))"
  unfolding closed_def ordered_shells(1) [OF assms]
proof (intro allI impI)
  fix n
  assume n: "n < count root"
  note sh = ordered_shells(5) [OF assms] ordered_shells(6) [OF assms n]
  then have "n \<noteq> 0 \<Longrightarrow> \<exists>q. par (arena (assignDocOrder 0 b0)) n = Some q \<and> q < n"
    by (auto simp: inner_def)
  then show "(\<forall>c \<in> set (kids (arena (assignDocOrder 0 b0)) n). c < count root)
      \<and> (case par (arena (assignDocOrder 0 b0)) n of None \<Rightarrow> True | Some p \<Rightarrow> p < count root)"
    using sh n by (cases "n = 0") (auto simp: block_node_def)
qed

lemma loaded_tree:
  assumes "buildNode root i [] None True newBuilder = Inr (0, b0)"
    and ss: "same_skel (arena (assignDocOrder 0 b0)) H" and ok: "\<And>n. n < count root \<Longrightarrow> ok_content H n"
  shows "tree H"
proof -
  note sh = ordered_shells [OF assms(1)]
  note at = same_skel_at [OF ss, unfolded sh(1)]
  have N: "length (nodes H) = count root"
    using same_skel_length [OF ss] sh(1) by simp
  have "tree_node H n" if n: "n < count root" for n
  proof -
    have bn: "block_node (arena (assignDocOrder 0 b0)) (count root) n"
      and inn: "n \<noteq> 0 \<longrightarrow> inner (arena (assignDocOrder 0 b0)) n"
      using sh(6) [OF n] by auto
    have "list_all (\<lambda>c. c < length (nodes H) \<and> par H c = Some n) (kids H n)" "distinct (kids H n)"
      using bn at n N by (auto simp: block_node_def list_all_iff)
    moreover have "case par H n of None \<Rightarrow> n = 0 | Some p \<Rightarrow> p < n \<and> n \<in> set (kids H p)"
    proof (cases "n = 0")
      case True
      then show ?thesis
        using sh(5) at(4) [OF n] by simp
    next
      case False
      then obtain q where "par (arena (assignDocOrder 0 b0)) n = Some q" "q < n"
        "n \<in> set (kids (arena (assignDocOrder 0 b0)) q)"
        using inn by (auto simp: inner_def)
      then show ?thesis
        using at(4) [OF n] at(5) [of q] n by simp
    qed
    moreover have "doc H n = n"
      using sh(7) [OF n] at(6) [OF n] by simp
    ultimately show ?thesis
      using ok [OF n] N
      by (auto simp: tree_node_def ok_content_def ok_edge_def list_all_iff split: option.splits)
  qed
  moreover have "nodes H \<noteq> []"
    using N count_pos [of root] by (metis length_0_conv less_irrefl)
  ultimately show ?thesis
    using N by (simp add: tree_def list_all_iff)
qed

text \<open>The stages of a successful build, and what holds between them.\<close>

lemma build_stages:
  assumes "build root = Inr (H, d)"
  obtains i b0 b1 b2 b3 ac gc where "buildNode root i [] None True newBuilder = Inr (0, b0)"
    and "contents b1" and "kept (assignDocOrder 0 b0) b1"
    and "\<forall>n < count root. (kind (arena b1) n = StateCompound \<longrightarrow> Initial (nodeAt (arena b1) n) \<noteq> None)
           \<and> history_placed (arena b1) n"
    and "contents b2" and "later b1 b2" and "assignCallsites b2 = (ac, gc, b3)" and "contents b3" and "later b1 b3"
    and "H = arena b3" and "d = NewDefinition H i 0 ac gc"
    and "same_skel (arena (assignDocOrder 0 b0)) H" and "length (nodes H) = count root"
proof -
  obtain i b0 b1 b2 ac gc b3 where b0: "buildNode root i [] None True newBuilder = Inr (0, b0)"
    and b1: "buildContents (assignDocOrder 0 b0) = Inr b1" and b2: "resolveTargets b1 = Inr b2"
    and b3: "assignCallsites b2 = (ac, gc, b3)" and H: "H = arena b3" and d: "d = NewDefinition H i 0 ac gc"
    using assms by (rule build_parts)
  let ?b = "assignDocOrder 0 b0" and ?N = "count root"
  note sh = ordered_shells [OF b0]
  have c1: "contents b1 \<and> kept ?b b1 \<and> (\<forall>n \<in> set [0..<?N].
      (kind (arena b1) n = StateCompound \<longrightarrow> Initial (nodeAt (arena b1) n) \<noteq> None) \<and> history_placed (arena b1) n)"
    using buildContents_ok [of "ordered ?b" ?b b1] b1 sh(1-3) shells_closed [OF b0]
    by (simp add: buildContents_def atLeast0LessThan)
  have "resolvable ?b"
    using shells_closed [OF b0] sh(1,2,4) by (auto simp: resolvable_def byKey_ok_def)
  then have c2: "contents b2" "later b1 b2"
    using resolveTargets_ok [OF b2] c1 resolvable_kept by blast+
  then have c3: "contents b3" "later b1 b3"
    using assignCallsites_ok [OF _ b3] later_trans by blast+
  have ss: "same_skel (arena ?b) H"
    using c1 c3 by (auto simp: later_def kept_def H intro: same_skel_trans)
  show ?thesis
    by (rule that [OF b0 _ _ _ c2 b3 c3 H d ss])
       (use c1 same_skel_length [OF ss] sh(1) in simp_all)
qed

text \<open>
  C23. The loader keeps its promises to the engine: whatever document it accepts, the machine it
  returns is a well-formed tree with the machine itself as root, numbered in document order;
  exactly the compound states have an initial child, every history state sits in a compound
  or parallel state, and a transition has at most one target, inside the tree.
\<close>

theorem load_gives_tree:
  assumes "Load data = Some (Inr (H, d))"
  shows "tree H \<and> Root d = 0
     \<and> (\<forall>n < length (nodes H). (kind H n = StateCompound \<longleftrightarrow> Initial (nodeAt H n) \<noteq> None) \<and> history_placed H n
          \<and> list_all (single_target H) (node_edges (nodeAt H n)))"
proof -
  obtain root where "build root = Inr (H, d)"
    using assms by (auto simp: Load_def result_iff)
  then obtain i b0 b1 b2 b3 ac gc where b0: "buildNode root i [] None True newBuilder = Inr (0, b0)"
    and "contents b1" and c1: "kept (assignDocOrder 0 b0) b1"
    and b1: "\<forall>n < count root. (kind (arena b1) n = StateCompound \<longrightarrow> Initial (nodeAt (arena b1) n) \<noteq> None)
           \<and> history_placed (arena b1) n"
    and "contents b2" and "later b1 b2" and "assignCallsites b2 = (ac, gc, b3)"
    and c3: "contents b3" and l: "later b1 b3" and H: "H = arena b3" and d: "d = NewDefinition H i 0 ac gc"
    and ss: "same_skel (arena (assignDocOrder 0 b0)) H" and N: "length (nodes H) = count root"
    by (rule build_stages)
  have ss1: "same_skel (arena b1) H"
    using l by (auto simp: later_def kept_def H)
  have N1: "length (nodes (arena b1)) = count root"
    using same_skel_length [OF ss1] N by simp
  have ok: "ok_content H n" if "n < count root" for n
    using c3 N that by (simp add: contents_def H)
  have "(kind H n = StateCompound \<longleftrightarrow> Initial (nodeAt H n) \<noteq> None) \<and> history_placed H n
          \<and> list_all (single_target H) (node_edges (nodeAt H n))" if n: "n < count root" for n
  proof (intro conjI)
    show "kind H n = StateCompound \<longleftrightarrow> Initial (nodeAt H n) \<noteq> None"
      using ok [OF n] b1 n same_skel_at(3) [OF ss1] later_initial [OF l] n N1 by (auto simp: H ok_content_def)
    have "history_placed (arena b1) n"
      using b1 n by simp
    then show "history_placed H n"
      by (rule history_placed_same [OF ss1, rotated 2])
         (use closed_same [OF _ shells_closed [OF b0]] c1 n N1 in \<open>auto simp: kept_def\<close>)
    show "list_all (single_target H) (node_edges (nodeAt H n))"
      using ok [OF n] by (auto simp: ok_content_def ok_edge_def single_target_def list_all_iff)
  qed
  then show ?thesis
    using loaded_tree [OF b0 ss ok] by (simp add: d NewDefinition_def N)
qed

end
