(* ===== verification/Schema_Callsites.thy ===== *)
theory Schema_Callsites
  imports Schema_Tree
begin

section \<open>Callsite numbers\<close>

text \<open>
  The contract between the loader, the engine and the code generator: \<open>assignCallsites\<close>
  numbers the actions and the guards of a machine in the order of the walk that the generator
  repeats, without gaps. The engine hands the number of an action to the generated switch.
\<close>

definition edge_actions :: "heap \<Rightarrow> tref \<Rightarrow> int list" where
  "edge_actions H t = map ACallsite (Actions (edgeAt H t))"

definition edge_guards :: "heap \<Rightarrow> tref \<Rightarrow> int list" where
  "edge_guards H t = (case Guard (edgeAt H t) of None \<Rightarrow> [] | Some g \<Rightarrow> [GCallsite g])"

definition node_actions :: "heap \<Rightarrow> node \<Rightarrow> int list" where
  "node_actions H n =
     map ACallsite (Entry (nodeAt H n)) @ concat (map (edge_actions H) (Transitions (nodeAt H n)))
     @ map ACallsite (Exit (nodeAt H n)) @ concat (map (edge_actions H) (ivEdges (Invokes (nodeAt H n))))"

definition node_guards :: "heap \<Rightarrow> node \<Rightarrow> int list" where
  "node_guards H n = concat (map (edge_guards H) (node_edges (nodeAt H n)))"

definition ints :: "nat \<Rightarrow> nat \<Rightarrow> int list" where
  "ints i j = map int [i..<j]"

lemma ints_refl [simp]: "ints i i = []"
  by (simp add: ints_def)

lemma ints_join: "i \<le> j \<Longrightarrow> j \<le> k \<Longrightarrow> ints i j @ ints j k = ints i k"
  unfolding ints_def by (metis le_Suc_ex map_append upt_add_eq_append)

lemma callsites_numbered: "map ACallsite (numberActions k as) = ints k (k + length as)"
  by (intro nth_equalityI) (simp_all add: numberActions_def ints_def nth_enumerate_eq split_beta)

lemma length_numberActions [simp]: "length (numberActions k as) = length as"
  by (simp add: numberActions_def)

subsection \<open>One edge, a list of edges, one node\<close>

text \<open>Numbering leaves the other edges and all nodes alone.\<close>

definition only_edges :: "tref set \<Rightarrow> builder \<Rightarrow> builder \<Rightarrow> bool" where
  "only_edges T b b' \<longleftrightarrow>
     nodes (arena b') = nodes (arena b) \<and> length (edges (arena b')) = length (edges (arena b))
     \<and> (\<forall>u. u \<notin> T \<longrightarrow> edgeAt (arena b') u = edgeAt (arena b) u)"

lemma assignEdge_numbers:
  assumes "assignEdge t (ac, gc, b) = (ac', gc', b')" and "t < length (edges (arena b))"
  shows "edge_actions (arena b') t = ints ac ac' \<and> edge_guards (arena b') t = ints gc gc' \<and> ac \<le> ac' \<and> gc \<le> gc'
     \<and> only_edges {t} b b'"
  using assms
  by (auto simp: assignEdge_def Let_def edge_actions_def edge_guards_def edgeAt_def only_edges_def callsites_numbered
      ints_def split: option.splits)

lemma assignEdges_number:
  "fold assignEdge ts (ac, gc, b) = (ac', gc', b') \<Longrightarrow> distinct ts \<Longrightarrow> \<forall>t \<in> set ts. t < length (edges (arena b)) \<Longrightarrow>
     concat (map (edge_actions (arena b')) ts) = ints ac ac' \<and> concat (map (edge_guards (arena b')) ts) = ints gc gc'
     \<and> ac \<le> ac' \<and> gc \<le> gc' \<and> only_edges (set ts) b b'"
proof (induction ts arbitrary: ac gc b)
  case Nil
  then show ?case by (simp add: only_edges_def)
next
  case (Cons t ts)
  obtain a1 g1 b1 where one: "assignEdge t (ac, gc, b) = (a1, g1, b1)"
    by (metis prod_cases3)
  note n1 = assignEdge_numbers [OF one]
  have more: "fold assignEdge ts (a1, g1, b1) = (ac', gc', b')"
    using Cons.prems(1) one by simp
  have IH: "concat (map (edge_actions (arena b')) ts) = ints a1 ac' \<and> concat (map (edge_guards (arena b')) ts) = ints g1 gc'
     \<and> a1 \<le> ac' \<and> g1 \<le> gc' \<and> only_edges (set ts) b1 b'"
    by (rule Cons.IH [OF more]) (use Cons.prems n1 in \<open>auto simp: only_edges_def\<close>)
  then have "edgeAt (arena b') t = edgeAt (arena b1) t"
    using Cons.prems(2) by (simp add: only_edges_def)
  then have "edge_actions (arena b') t = ints ac a1 \<and> edge_guards (arena b') t = ints gc g1"
    using n1 Cons.prems(3) by (simp add: edge_actions_def edge_guards_def)
  then show ?case
    using IH n1 Cons.prems(3) ints_join by (auto simp: only_edges_def)
qed

lemma fold_invokes: "fold (\<lambda>iv. fold assignEdge (OnDone iv @ OnError iv)) ivs s = fold assignEdge (ivEdges ivs) s"
  by (induction ivs arbitrary: s) (simp_all add: ivEdges_def)

lemma node_actions_cong:
  assumes "nodeAt H' n = nodeAt H n" and "\<And>t. t \<in> set (node_edges (nodeAt H n)) \<Longrightarrow> edgeAt H' t = edgeAt H t"
  shows "node_actions H' n = node_actions H n" "node_guards H' n = node_guards H n"
proof -
  have "edge_actions H' t = edge_actions H t" "edge_guards H' t = edge_guards H t"
    if "t \<in> set (node_edges (nodeAt H n))" for t
    using assms(2) [OF that] by (simp_all add: edge_actions_def edge_guards_def)
  then show "node_actions H' n = node_actions H n" "node_guards H' n = node_guards H n"
    unfolding node_actions_def node_guards_def assms(1) by (auto simp: node_edges_alt cong: map_cong)
qed

lemma assignNode_numbers:
  assumes "assignNode n (ac, gc, b) = (ac', gc', b')" and "contents b" and n: "n < length (nodes (arena b))"
  shows "node_actions (arena b') n = ints ac ac' \<and> node_guards (arena b') n = ints gc gc' \<and> ac \<le> ac' \<and> gc \<le> gc'
     \<and> (\<forall>m. m \<noteq> n \<longrightarrow> nodeAt (arena b') m = nodeAt (arena b) m)
     \<and> (\<forall>u. u \<notin> set (node_edges (nodeAt (arena b) n)) \<longrightarrow> edgeAt (arena b') u = edgeAt (arena b) u)"
proof -
  define nd where "nd = nodeAt (arena b) n"
  define b1 where "b1 = updNode n (\<lambda>nd. nd\<lparr>Entry := numberActions ac (Entry nd)\<rparr>) b"
  obtain a2 g2 b2 where two: "fold assignEdge (Transitions nd) (ac + length (Entry nd), gc, b1) = (a2, g2, b2)"
    by (metis prod_cases3)
  define b3 where "b3 = updNode n (\<lambda>nd. nd\<lparr>Exit := numberActions a2 (Exit nd)\<rparr>) b2"
  have four: "fold assignEdge (ivEdges (Invokes nd)) (a2 + length (Exit nd), g2, b3) = (ac', gc', b')"
    using assms(1) two by (simp add: assignNode_def Let_def fold_invokes nd_def [symmetric] b1_def [symmetric] b3_def del: fold_append)
  have "ok_content (arena b) n"
    using assms(2) n by (simp add: contents_def)
  then have dist: "distinct (Transitions nd)" "distinct (ivEdges (Invokes nd))"
      "set (Transitions nd) \<inter> set (ivEdges (Invokes nd)) = {}"
    and range: "\<forall>t \<in> set (Transitions nd) \<union> set (ivEdges (Invokes nd)). t < length (edges (arena b))"
    by (auto simp: ok_content_def nd_def node_edges_alt list_all_iff ok_edge_def)
  have t2: "concat (map (edge_actions (arena b2)) (Transitions nd)) = ints (ac + length (Entry nd)) a2"
    "concat (map (edge_guards (arena b2)) (Transitions nd)) = ints gc g2" "ac + length (Entry nd) \<le> a2" "gc \<le> g2"
    "only_edges (set (Transitions nd)) b1 b2"
    using assignEdges_number [OF two dist(1)] range by (auto simp: b1_def)
  have len2: "length (edges (arena b2)) = length (edges (arena b))" "nodes (arena b2) = nodes (arena b1)"
    using t2(5) by (simp_all add: only_edges_def b1_def)
  have t4: "concat (map (edge_actions (arena b')) (ivEdges (Invokes nd))) = ints (a2 + length (Exit nd)) ac'"
    "concat (map (edge_guards (arena b')) (ivEdges (Invokes nd))) = ints g2 gc'" "a2 + length (Exit nd) \<le> ac'" "g2 \<le> gc'"
    "only_edges (set (ivEdges (Invokes nd))) b3 b'"
    using assignEdges_number [OF four dist(2)] range len2 by (auto simp: b3_def)
  have "edgeAt (arena b') t = edgeAt (arena b2) t" if "t \<in> set (Transitions nd)" for t
    using t4(5) dist(3) that by (auto simp: only_edges_def b3_def edgeAt_def)
  then have tr: "concat (map (edge_actions (arena b')) (Transitions nd)) = ints (ac + length (Entry nd)) a2"
    "concat (map (edge_guards (arena b')) (Transitions nd)) = ints gc g2"
    unfolding t2(1,2) [symmetric] by (simp_all add: edge_actions_def edge_guards_def cong: map_cong)
  have at: "nodeAt (arena b') m = (if m = n then nd\<lparr>Entry := numberActions ac (Entry nd), Exit := numberActions a2 (Exit nd)\<rparr>
        else nodeAt (arena b) m)" for m
    using t4(5) len2(2) n by (simp add: only_edges_def nodeAt_def b3_def b1_def nd_def)
  have "edgeAt (arena b') u = edgeAt (arena b) u" if "u \<notin> set (node_edges nd)" for u
    using t4(5) t2(5) that by (auto simp: only_edges_def b3_def b1_def edgeAt_def node_edges_alt)
  moreover have "node_actions (arena b') n = ints ac ac'"
    using t2(3) t4(3) by (simp add: node_actions_def at callsites_numbered tr t4(1) ints_join)
  moreover have "node_guards (arena b') n = ints gc gc'"
    using t2(4) t4(4) by (simp add: node_guards_def at node_edges_alt tr(2) t4(2) ints_join)
  ultimately show ?thesis
    using t2(3,4) t4(3,4) at by (simp add: nd_def)
qed

subsection \<open>The whole walk\<close>

lemma contents_edges:
  assumes "contents b" and "m < length (nodes (arena b))" and "t \<in> set (node_edges (nodeAt (arena b) m))"
  shows "Source (edgeAt (arena b) t) = m"
  using assms by (auto simp: contents_def ok_content_def list_all_iff ok_edge_def)

lemma assignNodes_number:
  "fold assignNode ns (ac, gc, b) = (ac', gc', b') \<Longrightarrow> contents b \<Longrightarrow> distinct ns \<Longrightarrow>
     \<forall>n \<in> set ns. n < length (nodes (arena b)) \<Longrightarrow>
     concat (map (node_actions (arena b')) ns) = ints ac ac' \<and> concat (map (node_guards (arena b')) ns) = ints gc gc'
     \<and> ac \<le> ac' \<and> gc \<le> gc'
     \<and> (\<forall>m < length (nodes (arena b)). m \<notin> set ns \<longrightarrow>
          nodeAt (arena b') m = nodeAt (arena b) m
          \<and> (\<forall>t \<in> set (node_edges (nodeAt (arena b) m)). edgeAt (arena b') t = edgeAt (arena b) t))"
proof (induction ns arbitrary: ac gc b)
  case Nil
  then show ?case by simp
next
  case (Cons n ns)
  obtain a1 g1 b1 where one: "assignNode n (ac, gc, b) = (a1, g1, b1)"
    by (metis prod_cases3)
  have n: "n < length (nodes (arena b))"
    using Cons.prems(4) by simp
  note n1 = assignNode_numbers [OF one Cons.prems(2) n]
  have c1: "contents b1" and len: "length (nodes (arena b1)) = length (nodes (arena b))"
    by (rule keepsE [OF assignNode_keeps [of n] Cons.prems(2), of ac gc],
        use one same_skel_length in \<open>auto simp: later_def kept_def\<close>)+
  have more: "fold assignNode ns (a1, g1, b1) = (ac', gc', b')"
    using Cons.prems(1) one by simp
  note IH = Cons.IH [OF more c1]
  have n2: "nodeAt (arena b') n = nodeAt (arena b1) n"
    "\<forall>t \<in> set (node_edges (nodeAt (arena b1) n)). edgeAt (arena b') t = edgeAt (arena b1) t"
    using IH Cons.prems(3,4) n len by auto
  have "node_actions (arena b') n = ints ac a1" "node_guards (arena b') n = ints gc g1"
    using node_actions_cong [of "arena b'" n "arena b1"] n2 n1 by auto
  moreover have "nodeAt (arena b') m = nodeAt (arena b) m
      \<and> (\<forall>t \<in> set (node_edges (nodeAt (arena b) m)). edgeAt (arena b') t = edgeAt (arena b) t)"
    if m: "m < length (nodes (arena b))" "m \<notin> set (n # ns)" for m
  proof -
    have "t \<notin> set (node_edges (nodeAt (arena b) n))" if "t \<in> set (node_edges (nodeAt (arena b) m))" for t
      using contents_edges [OF Cons.prems(2) m(1) that] contents_edges [OF Cons.prems(2) n] m(2) by auto
    then show ?thesis
      using IH Cons.prems(3,4) m n1 len by auto
  qed
  ultimately show ?case
    using IH Cons.prems(3,4) n1 len ints_join by auto
qed

lemma visit_same:
  assumes "closed H" and "\<And>m. m < length (nodes H) \<Longrightarrow> kids H' m = kids H m"
  shows "n < length (nodes H) \<Longrightarrow> visit H' k n = visit H k n"
proof (induction k arbitrary: n)
  case (Suc k)
  have "\<forall>c \<in> set (kids H n). c < length (nodes H)"
    using assms(1) Suc.prems by (simp add: closed_def)
  then show ?case
    using Suc.IH assms(2) [OF Suc.prems] by (auto intro!: arg_cong [where f = concat])
qed simp

text \<open>
  On a loaded machine the walk meets the nodes in document order, and the callsites it meets
  are numbered consecutively.
\<close>

lemma loaded_callsites:
  assumes "build root = Inr (H, d)"
  shows "Root d = 0" "preorder H 0 = [0..<length (nodes H)]"
    "concat (map (node_actions H) (preorder H 0)) = ints 0 (ActionCount d)"
    "concat (map (node_guards H) (preorder H 0)) = ints 0 (GuardCount d)"
proof -
  obtain i b0 b1 b2 b3 ac gc where b0: "buildNode root i [] None True newBuilder = Inr (0, b0)"
    and "contents b1" and k1: "kept (assignDocOrder 0 b0) b1"
    and "\<forall>n < count root. (kind (arena b1) n = StateCompound \<longrightarrow> Initial (nodeAt (arena b1) n) \<noteq> None)
           \<and> history_placed (arena b1) n"
    and c2: "contents b2" and l2: "later b1 b2" and b3: "assignCallsites b2 = (ac, gc, b3)"
    and "contents b3" and "later b1 b3" and H: "H = arena b3" and d: "d = NewDefinition H i 0 ac gc"
    and ss: "same_skel (arena (assignDocOrder 0 b0)) H" and N: "length (nodes H) = count root"
    using assms by (rule build_stages)
  note sh = ordered_shells [OF b0]
  have ord: "ordered b2 = [0..<count root]" and len: "length (nodes (arena b2)) = count root"
    using k1 l2 sh(1,2) same_skel_length by (auto simp: later_def kept_def)
  have "visit H (count root) 0 = visit (arena (assignDocOrder 0 b0)) (count root) 0"
    by (rule visit_same [OF shells_closed [OF b0]])
       (use same_skel_at(5) [OF ss] sh(1) in simp_all)
  also have "\<dots> = visit (arena b0) (count root) 0"
    by (rule visit_same [OF shells_closed [OF b0], symmetric]) (use sh(1,10) in simp_all)
  finally show pre: "preorder H 0 = [0..<length (nodes H)]"
    using sh(11,12) N by (simp add: preorder_def)
  show "Root d = 0"
    by (simp add: d NewDefinition_def)
  have "fold assignNode [0..<count root] (0, 0, b2) = (ac, gc, b3)"
    using b3 by (simp add: assignCallsites_def ord)
  from assignNodes_number [OF this c2]
  show "concat (map (node_actions H) (preorder H 0)) = ints 0 (ActionCount d)"
    "concat (map (node_guards H) (preorder H 0)) = ints 0 (GuardCount d)"
    unfolding pre N using len by (simp_all add: d NewDefinition_def H)
qed

end
