(* ===== verification/Schema_Decode.thy ===== *)
theory Schema_Decode
  imports Schema_Parse
begin

section \<open>Parsing is decoding\<close>

text \<open>
  A reference for the parse stage that knows nothing of tokens: \<open>decodeState\<close> and its
  companions walk a JSON value that is already a tree. The streaming parser, run on the
  lexemes of a value, returns what the reference returns, the first error included, and
  leaves the decoder right behind the value.
\<close>

subsection \<open>The reference\<close>

definition stringOf :: "string \<Rightarrow> json \<Rightarrow> loadError + string" where
  "stringOf path v = (case v of JString s \<Rightarrow> Inr s | _ \<Rightarrow> Inl (errf path (StringGot (firstToken v))))"

definition paramsOf :: "string \<Rightarrow> json \<Rightarrow> loadError + (string \<rightharpoonup> json)" where
  "paramsOf path v = (case into_map v of Inl e \<Rightarrow> Inl (errf path (InvalidParams e)) | Inr m \<Rightarrow> Inr m)"

definition ignored :: "json \<Rightarrow> loadError + unit" where
  "ignored v = Inr ()"

definition membersOf :: "string \<Rightarrow> json \<Rightarrow> loadError + (string \<times> json) list" where
  "membersOf path v =
     (case v of JObject ms \<Rightarrow> Inr ms | _ \<Rightarrow> Inl (errf path (DelimGot ObjOpen (firstToken v))))"

definition elementsOf :: "string \<Rightarrow> json \<Rightarrow> loadError + json list" where
  "elementsOf path v =
     (case v of JArray vs \<Rightarrow> Inr vs | _ \<Rightarrow> Inl (errf path (DelimGot ArrOpen (firstToken v))))"

definition mapR :: "('a \<Rightarrow> 'b) \<Rightarrow> 'e + 'a \<Rightarrow> 'e + 'b" where
  "mapR f m = bindE m (\<lambda>x. Inr (f x))"

definition decodeObject ::
  "string \<Rightarrow> (string \<Rightarrow> json \<Rightarrow> 's \<Rightarrow> loadError + 's) \<Rightarrow> 's \<Rightarrow> json \<Rightarrow> loadError + 's" where
  "decodeObject path body s v = bindE (membersOf path v) (\<lambda>ms. foldE (\<lambda>m. body (fst m) (snd m)) ms s)"

definition decodeArray :: "string \<Rightarrow> (string \<Rightarrow> json \<Rightarrow> loadError + 'a) \<Rightarrow> json \<Rightarrow> loadError + 'a list" where
  "decodeArray path f v =
     bindE (elementsOf path v) (\<lambda>vs. mapE (\<lambda>(i, v). f (at_index path i) v) (enumerate 0 vs))"

definition decodeAction :: "string \<Rightarrow> json \<Rightarrow> loadError + dtoAction" where
  "decodeAction path =
     decodeObject path
       (\<lambda>key v a.
          let kp = at_key path key in
          if key = ''type'' then mapR (\<lambda>s. a\<lparr>daType := Some s\<rparr>) (stringOf kp v)
          else if key = ''params'' then mapR (\<lambda>m. a\<lparr>daParams := m\<rparr>) (paramsOf kp v)
          else Inl (errf kp (UnknownField key)))
       \<lparr>daPath = path, daType = None, daParams = Map.empty\<rparr>"

definition decodeGuard :: "string \<Rightarrow> json \<Rightarrow> loadError + dtoGuard" where
  "decodeGuard path =
     decodeObject path
       (\<lambda>key v g.
          let kp = at_key path key in
          if key = ''type'' then mapR (\<lambda>s. g\<lparr>dgType := Some s\<rparr>) (stringOf kp v)
          else if key = ''params'' then mapR (\<lambda>m. g\<lparr>dgParams := m\<rparr>) (paramsOf kp v)
          else Inl (errf kp (UnknownField key)))
       \<lparr>dgPath = path, dgType = None, dgParams = Map.empty\<rparr>"

definition transitionField :: "string \<Rightarrow> string \<Rightarrow> json \<Rightarrow> dtoTransition \<Rightarrow> loadError + dtoTransition" where
  "transitionField path key v tr =
     (let kp = at_key path key in
      if key = ''target'' then mapR (\<lambda>s. tr\<lparr>dtTarget := Some s\<rparr>) (stringOf kp v)
      else if key = ''actions'' then mapR (\<lambda>x. tr\<lparr>dtActions := x\<rparr>) (decodeArray kp decodeAction v)
      else if key = ''guard'' then mapR (\<lambda>g. tr\<lparr>dtGuard := Some g\<rparr>) (decodeGuard kp v)
      else if key = ''description'' \<or> key = ''meta'' then Inr tr
      else Inl (errf kp (UnknownField key)))"

definition decodeTransition :: "string \<Rightarrow> json \<Rightarrow> loadError + dtoTransition" where
  "decodeTransition path =
     decodeObject path (transitionField path)
       \<lparr>dtPath = path, dtTarget = None, dtActions = [], dtGuard = None\<rparr>"

definition decodeTransitionList :: "string \<Rightarrow> json \<Rightarrow> loadError + dtoTransition list" where
  "decodeTransitionList path v =
     (case v of
        JArray _ \<Rightarrow> decodeArray path decodeTransition v
      | JObject _ \<Rightarrow> mapR (\<lambda>tr. [tr]) (decodeTransition path v)
      | _ \<Rightarrow> Inl (errf path TransitionShape))"

definition decodeEvents :: "string \<Rightarrow> json \<Rightarrow> loadError + dtoEvent list" where
  "decodeEvents path =
     decodeObject path
       (\<lambda>key v out.
          let kp = at_key path key in
          mapR (\<lambda>trs. out @ [\<lparr>deDesc = key, dePath = kp, deTransitions = trs\<rparr>]) (decodeTransitionList kp v))
       []"

definition decodeInvoke :: "string \<Rightarrow> json \<Rightarrow> loadError + dtoInvoke" where
  "decodeInvoke path =
     decodeObject path
       (\<lambda>key v iv.
          let kp = at_key path key in
          if key = ''id'' then mapR (\<lambda>s. iv\<lparr>diID := Some s\<rparr>) (stringOf kp v)
          else if key = ''src'' then mapR (\<lambda>s. iv\<lparr>diSrc := Some s\<rparr>) (stringOf kp v)
          else if key = ''meta'' then Inr iv
          else if key = ''onDone'' then mapR (\<lambda>x. iv\<lparr>diOnDone := x\<rparr>) (decodeTransitionList kp v)
          else if key = ''onError'' then mapR (\<lambda>x. iv\<lparr>diOnError := x\<rparr>) (decodeTransitionList kp v)
          else Inl (errf kp (UnknownField key)))
       \<lparr>diPath = path, diID = None, diSrc = None, diOnDone = [], diOnError = []\<rparr>"

text \<open>A member of a state other than \<open>states\<close>.\<close>

definition decodeField :: "string \<Rightarrow> bool \<Rightarrow> string \<Rightarrow> json \<Rightarrow> dtoFields \<Rightarrow> loadError + dtoFields" where
  "decodeField path root key v f =
     (let kp = at_key path key in
      if key = ''id'' then mapR (\<lambda>s. f\<lparr>dID := Some s\<rparr>) (stringOf kp v)
      else if key = ''type'' then mapR (\<lambda>s. f\<lparr>dType := Some s\<rparr>) (stringOf kp v)
      else if key = ''target'' then mapR (\<lambda>s. f\<lparr>dTarget := Some s\<rparr>) (stringOf kp v)
      else if key = ''history'' then mapR (\<lambda>s. f\<lparr>dHistory := Some s\<rparr>) (stringOf kp v)
      else if key = ''initial'' then mapR (\<lambda>s. f\<lparr>dInitial := Some s\<rparr>) (stringOf kp v)
      else if key = ''entry'' then mapR (\<lambda>x. f\<lparr>dEntry := x\<rparr>) (decodeArray kp decodeAction v)
      else if key = ''exit'' then mapR (\<lambda>x. f\<lparr>dExit := x\<rparr>) (decodeArray kp decodeAction v)
      else if key = ''on'' then mapR (\<lambda>x. f\<lparr>dOn := x\<rparr>) (decodeEvents kp v)
      else if key = ''after'' then mapR (\<lambda>x. f\<lparr>dAfter := x\<rparr>) (decodeEvents kp v)
      else if key = ''always'' then mapR (\<lambda>x. f\<lparr>dAlways := x\<rparr>) (decodeTransitionList kp v)
      else if key = ''invoke'' then mapR (\<lambda>x. f\<lparr>dInvoke := x\<rparr>) (decodeArray kp decodeInvoke v)
      else if key = ''description'' \<or> key = ''meta'' then Inr f
      else if key = ''version'' \<or> key = ''$schema'' then
        (if root then Inr f else Inl (errf kp (RootOnly key)))
      else Inl (errf kp (UnknownField key)))"

fun decodeState :: "string \<Rightarrow> bool \<Rightarrow> json \<Rightarrow> loadError + dtoState"
  and decodeMembers :: "string \<Rightarrow> bool \<Rightarrow> (string \<times> json) list \<Rightarrow> dtoState \<Rightarrow> loadError + dtoState"
  and decodeStates :: "string \<Rightarrow> json \<Rightarrow> loadError + (string \<times> dtoState) list"
  and decodeChildren :: "string \<Rightarrow> (string \<times> json) list \<Rightarrow> (string \<times> dtoState) list
        \<Rightarrow> loadError + (string \<times> dtoState) list" where
  "decodeState path root (JObject ms) = decodeMembers path root ms (DtoState (emptyFields path) None)"
| "decodeState path root v = Inl (errf path (DelimGot ObjOpen (firstToken v)))"
| "decodeMembers path root [] st = Inr st"
| "decodeMembers path root ((key, v) # ms) st =
     bindE
       (if key = ''states''
        then mapR (\<lambda>x. DtoState (dFields st) (Some x)) (decodeStates (at_key path key) v)
        else mapR (\<lambda>f. DtoState f (dStates st)) (decodeField path root key v (dFields st)))
       (decodeMembers path root ms)"
| "decodeStates path (JObject ms) = decodeChildren path ms []"
| "decodeStates path v = Inl (errf path (DelimGot ObjOpen (firstToken v)))"
| "decodeChildren path [] out = Inr out"
| "decodeChildren path ((key, v) # ms) out =
     bindE (decodeState (at_key path key) False v) (\<lambda>st. decodeChildren path ms (out @ [(key, st)]))"

declare stringOf_def [gomodel] paramsOf_def [gomodel] ignored_def [gomodel] membersOf_def [gomodel]
  elementsOf_def [gomodel] mapR_def [gomodel]

lemma decodeMembers_fold:
  "decodeMembers path root ms st =
     foldE (\<lambda>m st. if fst m = ''states''
        then mapR (\<lambda>x. DtoState (dFields st) (Some x)) (decodeStates (at_key path (fst m)) (snd m))
        else mapR (\<lambda>f. DtoState f (dStates st)) (decodeField path root (fst m) (snd m) (dFields st))) ms st"
proof (induction ms arbitrary: st)
  case (Cons m ms)
  obtain key v where "m = (key, v)"
    by fastforce
  moreover have "decodeMembers path root ms = foldE (\<lambda>m st. if fst m = ''states''
        then mapR (\<lambda>x. DtoState (dFields st) (Some x)) (decodeStates (at_key path (fst m)) (snd m))
        else mapR (\<lambda>f. DtoState f (dStates st)) (decodeField path root (fst m) (snd m) (dFields st))) ms"
    by (rule ext) (rule Cons.IH)
  ultimately show ?case
    by simp
qed simp

lemma decodeChildren_fold:
  "decodeChildren path ms out =
     foldE (\<lambda>m out. mapR (\<lambda>st. out @ [(fst m, st)]) (decodeState (at_key path (fst m)) False (snd m))) ms out"
proof (induction ms arbitrary: out)
  case (Cons m ms)
  obtain key v where "m = (key, v)"
    by fastforce
  then show ?case
    using Cons by (cases "decodeState (at_key path key) False v") (simp_all add: mapR_def)
qed simp

subsection \<open>The streaming parser agrees\<close>

definition outcome :: "loadError + 'a \<Rightarrow> decoder \<Rightarrow> (loadError + 'a \<times> decoder) option" where
  "outcome m d = Some (mapR (\<lambda>x. (x, d)) m)"

definition reads :: "'a parser \<Rightarrow> (json \<Rightarrow> loadError + 'a) \<Rightarrow> json \<Rightarrow> bool" where
  "reads p q v \<longleftrightarrow> (\<forall>s st r. value_position s \<longrightarrow> p (at_value s st v r) = outcome (q v) (past s st r))"

named_theorems reading \<open>parsers that agree with their reference\<close>

lemma readsD: "reads p q v \<Longrightarrow> value_position s \<Longrightarrow> p (at_value s st v r) = outcome (q v) (past s st r)"
  by (simp add: reads_def)

lemma outcome_simps [simp]: "outcome (Inl e) d = Some (Inl e)" "outcome (Inr x) d = Some (Inr (x, d))"
  by (simp_all add: outcome_def mapR_def)

lemma mapR_simps [simp]: "mapR f (Inl e) = Inl e" "mapR f (Inr x) = Inr (f x)"
  by (simp_all add: mapR_def)

lemma bind_results:
  "p d = Some (Inl e) \<Longrightarrow> bindP p f d = Some (Inl e)"
  "p d = Some (Inr (x, d')) \<Longrightarrow> bindP p f d = f x d'"
  by (simp_all add: bindP_def)

lemma mapP_outcome: "p d = outcome m d' \<Longrightarrow> mapP f p d = outcome (mapR f m) d'"
  by (cases m) (simp_all add: mapP_def bindP_def retP_def)

lemma reads_mapP [reading]: "reads p q v \<Longrightarrow> reads (mapP f p) (\<lambda>v. mapR f (q v)) v"
  by (simp add: reads_def mapP_outcome)

lemma reads_failP: "value_position s \<Longrightarrow> failP path msg d = outcome (Inl (errf path msg)) d'"
  by (simp add: failP_def)

lemma reads_unknown [reading]: "reads (unknownField kp key) (\<lambda>v. Inl (errf kp (UnknownField key))) v"
  "reads (failP kp msg) (\<lambda>v. Inl (errf kp msg)) v"
  by (simp_all add: reads_def unknownField_def failP_def)

lemma reads_string [reading]: "reads (readString path) (stringOf path) v"
  by (cases v) (simp_all add: reads_def readString_def stringOf_def Token_value retP_def failP_def)

lemma reads_params [reading]: "reads (readParams path) (paramsOf path) v"
  by (simp add: reads_def readParams_def paramsOf_def Decode_value retP_def failP_def split: sum.splits)

lemma reads_skip: "reads (skipValue path) ignored v"
  by (simp add: reads_def skipValue_def ignored_def Decode_value retP_def)

lemma reads_skip_as [reading]: "reads (mapP (\<lambda>_. x) (skipValue path)) (\<lambda>v. Inr x) v"
  using reads_mapP [OF reads_skip] by (simp add: ignored_def)

lemma reads_if [reading]:
  "(b \<Longrightarrow> reads p q v) \<Longrightarrow> (\<not> b \<Longrightarrow> reads p' q' v) \<Longrightarrow> reads (if b then p else p') (\<lambda>v. if b then q v else q' v) v"
  by (simp add: reads_def)

lemma loop_members:
  assumes "\<And>m x. m \<in> set ms \<Longrightarrow> reads (body (fst m) x) (\<lambda>v. f (fst m) v x) (snd m)"
    and "length ms < n"
  shows "moreLoop n (\<lambda>_ x. bindP (readKey path) (\<lambda>key. body key x)) i x (in_object b s st ms r)
           = outcome (foldE (\<lambda>m. f (fst m) (snd m)) ms x) (in_object (b \<and> ms = []) s st [] r)"
  using assms
proof (induction ms arbitrary: n i x b)
  case Nil
  then show ?case
    by (cases n) (simp_all add: More_object retP_def)
next
  case (Cons m ms)
  then obtain n' where n: "n = Suc n'"
    by (cases n) auto
  let ?d = "at_value tokenObjectColon (past_separator s # st) (snd m) (tailed (map member ms) @ D ObjClose # r)"
  have key: "readKey path (in_object b s st (m # ms) r) = Some (Inr (fst m, ?d))"
    by (simp add: readKey_def Token_key retP_def)
  have val: "body (fst m) x ?d = outcome (f (fst m) (snd m) x) (in_object False s st ms r)"
    using readsD [OF Cons.prems(1) [of m]] by (simp add: past_member)
  have body: "bindP (readKey path) (\<lambda>key. body key x) (in_object b s st (m # ms) r)
      = outcome (f (fst m) (snd m) x) (in_object False s st ms r)"
    using val by (simp add: bindP_def [of "readKey path"] key)
  show ?case
  proof (cases "f (fst m) (snd m) x")
    case (Inl e)
    then show ?thesis
      using body bind_results(1) by (fastforce simp: n More_object)
  next
    case (Inr y)
    have "moreLoop n' (\<lambda>_ x. bindP (readKey path) (\<lambda>key. body key x)) (Suc i) y (in_object False s st ms r)
        = outcome (foldE (\<lambda>m. f (fst m) (snd m)) ms y) (in_object (False \<and> ms = []) s st [] r)"
      by (rule Cons.IH) (use Cons.prems n in auto)
    moreover have "bindP (readKey path) (\<lambda>key. body key x) (in_object b s st (m # ms) r)
        = Some (Inr (y, in_object False s st ms r))"
      using body Inr by simp
    ultimately show ?thesis
      using Inr by (simp add: n More_object bind_results(2))
  qed
qed

lemma members_outcome:
  assumes "\<And>m x. m \<in> set ms \<Longrightarrow> reads (body (fst m) x) (\<lambda>v. f (fst m) v x) (snd m)"
    and "length ms < n"
  shows "members n path body x (in_object b s st ms r)
           = outcome (foldE (\<lambda>m. f (fst m) (snd m)) ms x) (past s st r)"
proof -
  have loop: "moreLoop n (\<lambda>_ x. bindP (readKey path) (\<lambda>key. body key x)) 0 x (in_object b s st ms r)
      = outcome (foldE (\<lambda>m. f (fst m) (snd m)) ms x) (in_object (b \<and> ms = []) s st [] r)"
    by (rule loop_members) (use assms in auto)
  show ?thesis
  proof (cases "foldE (\<lambda>m. f (fst m) (snd m)) ms x")
    case (Inl e)
    then show ?thesis
      using loop by (simp add: members_def bind_results(1))
  next
    case (Inr y)
    then show ?thesis
      using loop by (simp add: members_def bind_results(2) closeObject_def expectDelim_def Token_close retP_def
          bindP_def [of "closeObject path"])
  qed
qed

lemma reads_object:
  assumes "\<And>ms m x. v = JObject ms \<Longrightarrow> m \<in> set ms \<Longrightarrow> reads (body (fst m) x) (\<lambda>v. f (fst m) v x) (snd m)"
    and "\<And>ms. v = JObject ms \<Longrightarrow> length ms < n"
  shows "reads (inObject n path body x) (decodeObject path f x) v"
proof (cases v)
  case (JObject ms)
  have "members n path body x (in_object True s st ms r)
           = outcome (foldE (\<lambda>m. f (fst m) (snd m)) ms x) (past s st r)" for s st r
    by (rule members_outcome) (use assms JObject in auto)
  then show ?thesis
    by (simp add: reads_def inObject_def openObject_def expectDelim_def bindP_def retP_def Token_value
        JObject decodeObject_def membersOf_def)
qed (simp_all add: reads_def inObject_def openObject_def expectDelim_def bindP_def failP_def Token_value
        decodeObject_def membersOf_def)

lemma loop_elements:
  assumes "\<And>j v. v \<in> set vs \<Longrightarrow> reads (body j) (g j) v" and "length vs < n"
  shows "moreLoop n (\<lambda>i out. mapP (\<lambda>x. out @ [x]) (body i)) i out (in_array b s st vs r)
           = outcome (mapR (\<lambda>xs. out @ xs) (mapE (\<lambda>(j, v). g j v) (enumerate i vs))) (in_array (b \<and> vs = []) s st [] r)"
  using assms
proof (induction vs arbitrary: n i out b)
  case Nil
  then show ?case
    by (cases n) (simp_all add: More_array retP_def)
next
  case (Cons v vs)
  then obtain n' where n: "n = Suc n'"
    by (cases n) auto
  have elem: "mapP (\<lambda>x. out @ [x]) (body i) (in_array b s st (v # vs) r)
      = outcome (mapR (\<lambda>x. out @ [x]) (g i v)) (in_array False s st vs r)"
    using readsD [OF reads_mapP [where f = "\<lambda>x. out @ [x]", OF Cons.prems(1) [of v i]]]
    by (simp add: in_array_Cons past_array)
  show ?case
  proof (cases "g i v")
    case (Inl e)
    then show ?thesis
      using elem by (simp add: n More_array bind_results(1))
  next
    case (Inr y)
    have "moreLoop n' (\<lambda>i out. mapP (\<lambda>x. out @ [x]) (body i)) (Suc i) (out @ [y]) (in_array False s st vs r)
        = outcome (mapR (\<lambda>xs. (out @ [y]) @ xs) (mapE (\<lambda>(j, v). g j v) (enumerate (Suc i) vs)))
            (in_array (False \<and> vs = []) s st [] r)"
      by (rule Cons.IH) (use Cons.prems n in auto)
    moreover have "bindP (mapP (\<lambda>x. out @ [x]) (body i)) f (in_array b s st (v # vs) r)
        = f (out @ [y]) (in_array False s st vs r)" for f :: "'a list \<Rightarrow> 'a list parser"
      using elem Inr by (simp add: bind_results(2))
    ultimately show ?thesis
      using Inr by (cases "mapE (\<lambda>(j, v). g j v) (enumerate (Suc i) vs)") (simp_all add: n More_array)
  qed
qed

lemma elements_outcome:
  assumes "\<And>j v. v \<in> set vs \<Longrightarrow> reads (body j) (g j) v" and "length vs < n"
  shows "elements n path body (in_array b s st vs r)
           = outcome (mapE (\<lambda>(j, v). g j v) (enumerate 0 vs)) (past s st r)"
proof -
  have loop: "moreLoop n (\<lambda>i out. mapP (\<lambda>x. out @ [x]) (body i)) 0 [] (in_array b s st vs r)
      = outcome (mapR (\<lambda>xs. [] @ xs) (mapE (\<lambda>(j, v). g j v) (enumerate 0 vs))) (in_array (b \<and> vs = []) s st [] r)"
    by (rule loop_elements) (use assms in auto)
  show ?thesis
  proof (cases "mapE (\<lambda>(j, v). g j v) (enumerate 0 vs)")
    case (Inl e)
    then show ?thesis
      using loop by (simp add: elements_def bind_results(1))
  next
    case (Inr y)
    then show ?thesis
      using loop by (simp add: elements_def bind_results(2) closeArray_def expectDelim_def Token_close retP_def
          bindP_def [of "closeArray path"])
  qed
qed

lemma reads_array:
  assumes "\<And>vs j v'. v = JArray vs \<Longrightarrow> v' \<in> set vs \<Longrightarrow> reads (body j) (g (at_index path j)) v'"
    and "\<And>vs. v = JArray vs \<Longrightarrow> length vs < n"
  shows "reads (inArray n path body) (decodeArray path g) v"
proof (cases v)
  case (JArray vs)
  have "elements n path body (in_array True s st vs r)
           = outcome (mapE (\<lambda>(j, v). g (at_index path j) v) (enumerate 0 vs)) (past s st r)" for s st r
    by (rule elements_outcome) (use assms JArray in auto)
  then show ?thesis
    by (simp add: reads_def inArray_def openArray_def expectDelim_def bindP_def retP_def Token_value
        JArray decodeArray_def elementsOf_def)
qed (simp_all add: reads_def inArray_def openArray_def expectDelim_def bindP_def failP_def Token_value
        decodeArray_def elementsOf_def)

lemma fits_members:
  "length (lexemes (JObject ms)) < k \<Longrightarrow> length ms < k"
  "length (lexemes (JObject ms)) < k \<Longrightarrow> m \<in> set ms \<Longrightarrow> length (lexemes (snd m)) < k"
  using length_members(1) [where ms = ms] length_members(2) [where m = m and ms = ms] by linarith+

lemma fits_elems:
  "length (lexemes (JArray vs)) < k \<Longrightarrow> length vs < k"
  "length (lexemes (JArray vs)) < k \<Longrightarrow> v \<in> set vs \<Longrightarrow> length (lexemes v) < k"
  using length_elems(1) [where vs = vs] length_elems(2) [where v = v and vs = vs] by linarith+

lemmas fits = fits_members fits_elems

lemma reads_action: "length (lexemes v) < k \<Longrightarrow> reads (parseAction k path) (decodeAction path) v"
  unfolding parseAction_def decodeAction_def Let_def
  by (rule reads_object) (auto intro!: reading dest: fits simp del: lexemes.simps)

lemma reads_actions: "length (lexemes v) < k \<Longrightarrow>
    reads (parseActions k path) (decodeArray path decodeAction) v"
  unfolding parseActions_def
  by (rule reads_array) (auto intro!: reads_action dest: fits simp del: lexemes.simps)

lemma reads_guard: "length (lexemes v) < k \<Longrightarrow> reads (parseGuard k path) (decodeGuard path) v"
  unfolding parseGuard_def decodeGuard_def Let_def
  by (rule reads_object) (auto intro!: reading dest: fits simp del: lexemes.simps)

lemma reads_ignored_pair:
  "reads (if a then mapP (\<lambda>_. x) (skipValue p) else if b then mapP (\<lambda>_. x) (skipValue q) else r)
     (\<lambda>v. if a \<or> b then Inr x else m v) v" if "reads r m v"
  using that reads_skip_as [of x p v] reads_skip_as [of x q v] by (simp add: reads_def)

lemma transition_members:
  assumes "length (lexemes v) < k"
  shows "reads
     (let kp = at_key path key in
          if key = ''target'' then mapP (\<lambda>s. tr\<lparr>dtTarget := Some s\<rparr>) (readString kp)
          else if key = ''actions'' then mapP (\<lambda>x. tr\<lparr>dtActions := x\<rparr>) (parseActions k kp)
          else if key = ''guard'' then mapP (\<lambda>g. tr\<lparr>dtGuard := Some g\<rparr>) (parseGuard k kp)
          else if key = ''description'' then mapP (\<lambda>_. tr) (skipValue kp)
          else if key = ''meta'' then mapP (\<lambda>_. tr) (skipValue kp)
          else unknownField kp key)
     (\<lambda>v. transitionField path key v tr) v"
  unfolding transitionField_def Let_def
  by (intro reading reads_ignored_pair reads_actions reads_guard assms)

lemma transition_body:
  assumes "length (lexemes (JObject ms)) < k"
  shows "parseTransitionBody k path (in_object b s st ms r) = outcome (decodeTransition path (JObject ms)) (past s st r)"
proof -
  have "parseTransitionBody k path (in_object b s st ms r) =
      outcome (foldE (\<lambda>m. transitionField path (fst m) (snd m)) ms
        \<lparr>dtPath = path, dtTarget = None, dtActions = [], dtGuard = None\<rparr>) (past s st r)"
    unfolding parseTransitionBody_def
    by (rule members_outcome) (auto intro!: transition_members intro: fits_members [OF assms] simp del: lexemes.simps)
  then show ?thesis
    by (simp add: decodeTransition_def decodeObject_def membersOf_def)
qed

lemma reads_transition: "length (lexemes v) < k \<Longrightarrow> reads (parseTransition k path) (decodeTransition path) v"
proof (cases v)
  case (JObject ms)
  assume "length (lexemes v) < k"
  then show ?thesis
    using transition_body [of ms k path True] JObject
    by (simp add: reads_def parseTransition_def openObject_def expectDelim_def bindP_def retP_def Token_value
        del: lexemes.simps)
qed (simp_all add: reads_def parseTransition_def openObject_def expectDelim_def bindP_def failP_def Token_value
        decodeTransition_def decodeObject_def membersOf_def)

lemma reads_transitions:
  assumes "length (lexemes v) < k"
  shows "reads (parseTransitionList k path) (decodeTransitionList path) v"
proof (cases v)
  case (JArray vs)
  have "elements k path (\<lambda>i. parseTransition k (at_index path i)) (in_array True s st vs r)
      = outcome (mapE (\<lambda>(j, v). decodeTransition (at_index path j) v) (enumerate 0 vs)) (past s st r)" for s st r
    by (rule elements_outcome)
      (use assms JArray in \<open>auto intro!: reads_transition dest: fits simp del: lexemes.simps\<close>)
  then show ?thesis
    by (simp add: reads_def parseTransitionList_def Token_value JArray decodeTransitionList_def decodeArray_def elementsOf_def)
next
  case (JObject ms)
  then have "parseTransitionBody k path (in_object True s st ms r) = outcome (decodeTransition path v) (past s st r)" for s st r
    using transition_body [of ms k path] assms by simp
  then show ?thesis
    by (simp add: reads_def parseTransitionList_def Token_value JObject decodeTransitionList_def mapP_outcome)
qed (simp_all add: reads_def parseTransitionList_def Token_value decodeTransitionList_def failP_def)

lemma reads_events: "length (lexemes v) < k \<Longrightarrow> reads (parseEvents k path) (decodeEvents path) v"
  unfolding parseEvents_def decodeEvents_def Let_def
  by (rule reads_object) (auto intro!: reading reads_transitions dest: fits simp del: lexemes.simps)

lemma reads_invoke: "length (lexemes v) < k \<Longrightarrow> reads (parseInvoke k path) (decodeInvoke path) v"
  unfolding parseInvoke_def decodeInvoke_def Let_def
  by (rule reads_object) (auto intro!: reading reads_transitions dest: fits simp del: lexemes.simps)

lemma reads_invokes: "length (lexemes v) < k \<Longrightarrow> reads (parseInvokes k path) (decodeArray path decodeInvoke) v"
  unfolding parseInvokes_def
  by (rule reads_array) (auto intro!: reads_invoke dest: fits simp del: lexemes.simps)

lemma reads_cong: "reads p q v \<Longrightarrow> q v = q' v \<Longrightarrow> reads p q' v"
  by (simp add: reads_def)

lemma reads_upd: "reads p q v \<Longrightarrow>
    reads (mapP (\<lambda>x. upd (g x) st) p) (\<lambda>v. mapR (\<lambda>f. DtoState f (dStates st)) (mapR (\<lambda>x. g x (dFields st)) (q v))) v"
  by (rule reads_cong [OF reads_mapP]) (cases "q v"; simp add: upd_def)+

lemma reads_cond:
  "(b \<Longrightarrow> reads p q v) \<Longrightarrow> (\<not> b \<Longrightarrow> reads p' q v) \<Longrightarrow> reads (if b then p else p') q v"
  by simp

lemma reads_state_field:
  assumes "length (lexemes v) < k" and "reads (sub (at_key path key)) (decodeStates (at_key path key)) v"
  shows "reads (stateField k sub path root key st)
     (\<lambda>v. if key = ''states''
        then mapR (\<lambda>x. DtoState (dFields st) (Some x)) (decodeStates (at_key path key) v)
        else mapR (\<lambda>f. DtoState f (dStates st)) (decodeField path root key v (dFields st))) v"
proof -
  note parts = reads_actions [OF assms(1)] reads_events [OF assms(1)] reads_transitions [OF assms(1)]
    reads_invokes [OF assms(1)] reads_string
  have sub: "key = ''states'' \<Longrightarrow> reads (sub (at_key path ''states'')) (decodeStates (at_key path ''states'')) v"
    using assms(2) by simp
  show ?thesis
    unfolding stateField_def decodeField_def Let_def
    by (intro reads_cond; (simp; fail | simp, (rule reads_upd reads_skip_as reads_mapP reads_unknown parts sub)+))
qed

lemma reads_states:
  assumes "length (lexemes v) < k"
    and "\<And>p v'. length (lexemes v') < length (lexemes v) \<Longrightarrow> reads (one p) (decodeState p False) v'"
  shows "reads (parseStates k one path) (decodeStates path) v"
proof -
  have "reads (parseStates k one path)
     (decodeObject path (\<lambda>key v out. mapR (\<lambda>st. out @ [(key, st)]) (decodeState (at_key path key) False v)) []) v"
    unfolding parseStates_def
    by (rule reads_object)
       (use assms length_members(2) in \<open>auto intro!: reads_mapP intro: fits_members simp del: lexemes.simps\<close>)
  then show ?thesis
    by (rule reads_cong) (cases v; simp add: decodeObject_def membersOf_def decodeChildren_fold)
qed

lemma parse_agrees:
  "length (lexemes v) < k \<Longrightarrow> reads (parseState k path root) (decodeState path root) v"
proof (induction k arbitrary: path root v)
  case 0
  then show ?case by simp
next
  case (Suc k)
  have state: "reads (stateField k (parseStates k (\<lambda>p. parseState k p False)) path root key st)
     (\<lambda>v. if key = ''states''
        then mapR (\<lambda>x. DtoState (dFields st) (Some x)) (decodeStates (at_key path key) v)
        else mapR (\<lambda>f. DtoState f (dStates st)) (decodeField path root key v (dFields st))) w"
    if "length (lexemes w) < k" for key st w
  proof (rule reads_state_field [OF that])
    show "reads (parseStates k (\<lambda>p. parseState k p False) (at_key path key)) (decodeStates (at_key path key)) w"
      by (rule reads_states [OF that]) (use Suc.IH that in simp)
  qed
  have "reads (parseState (Suc k) path root)
     (decodeObject path (\<lambda>key v st. if key = ''states''
        then mapR (\<lambda>x. DtoState (dFields st) (Some x)) (decodeStates (at_key path key) v)
        else mapR (\<lambda>f. DtoState f (dStates st)) (decodeField path root key v (dFields st)))
       (DtoState (emptyFields path) None)) v"
    unfolding parseState.simps
  proof (rule reads_object)
    fix ms m x
    assume ms: "v = JObject ms" "m \<in> set ms"
    then have "length (lexemes (snd m)) < k"
      using length_members(2) [OF ms(2)] Suc.prems unfolding ms(1) by linarith
    then show "reads (stateField k (parseStates k (\<lambda>p. parseState k p False)) path root (fst m) x)
     (\<lambda>v. if fst m = ''states''
        then mapR (\<lambda>xa. DtoState (dFields x) (Some xa)) (decodeStates (at_key path (fst m)) v)
        else mapR (\<lambda>f. DtoState f (dStates x)) (decodeField path root (fst m) v (dFields x))) (snd m)"
      by (rule state)
  next
    fix ms
    assume "v = JObject ms"
    then show "length ms < Suc k"
      using fits_members(1) [of ms "Suc k"] Suc.prems by simp
  qed
  then show ?case
    by (rule reads_cong) (cases v; simp add: decodeObject_def membersOf_def decodeMembers_fold)
qed

text \<open>
  C22. The parse stage is an equivalence with the reference decoder: on the lexemes of any JSON
  value it returns the tree the reference returns, or the reference's first error, and the
  bound on its loops is never reached.
\<close>

theorem parse_is_decode: "parse (lexemes v) = Some (decodeState ''$'' True v)"
proof -
  have "parseState (Suc (length (lexemes v))) ''$'' True (NewDecoder (lexemes v))
      = outcome (decodeState ''$'' True v) (past tokenTopValue [] [])"
    using readsD [OF parse_agrees [of v "Suc (length (lexemes v))" "''$''" True], of tokenTopValue "[]" "[]"]
    by (simp add: at_value_def NewDecoder_def)
  then show ?thesis
    by (cases "decodeState ''$'' True v") (simp_all add: parse_def past_def Token_def)
qed

end
