(* ===== verification/Schema_Eval.thy ===== *)
theory Schema_Eval
  imports Schema_Build
begin

section \<open>Evaluating the loader\<close>

text \<open>
  Equations by which the evaluator runs the stages of \<open>Schema_Build\<close>. It rewrites, so an
  argument is a value before a function is applied to it, while the body of a \<open>let\<close> or of a
  continuation would be rewritten with its variable still free: the equations pass what a stage
  has computed as an argument.
\<close>

definition setNode :: "node \<Rightarrow> StateNode \<Rightarrow> builder \<Rightarrow> builder" where
  "setNode n nd b = b\<lparr>arena := (arena b)\<lparr>nodes := (nodes (arena b))[n := nd]\<rparr>\<rparr>"

definition setEdge :: "tref \<Rightarrow> Transition \<Rightarrow> builder \<Rightarrow> builder" where
  "setEdge t e b = b\<lparr>arena := (arena b)\<lparr>edges := (edges (arena b))[t := e]\<rparr>\<rparr>"

lemma upd_set: "updNode n f b = setNode n (f (nodeAt (arena b) n)) b" "updEdge t g b = setEdge t (g (edgeAt (arena b) t)) b"
  by (simp_all add: updNode_def updEdge_def setNode_def setEdge_def nodeAt_def edgeAt_def Let_def)

lemma bindE_case [code_unfold]: "bindE x f = (case x of Inl e \<Rightarrow> Inl e | Inr v \<Rightarrow> f v)"
  by (cases x) simp_all

subsection \<open>Contents\<close>

fun contentDone ::
  "node \<Rightarrow> ActionRef list \<Rightarrow> ActionRef list \<Rightarrow> node option \<Rightarrow> HistoryKind \<Rightarrow> tref list
     \<Rightarrow> loadError + Invoke list \<times> builder \<Rightarrow> loadError + builder" where
  "contentDone n en ex ini hk trs (Inl e) = Inl e"
| "contentDone n en ex ini hk trs (Inr (ivs, b)) =
     Inr (setNode n ((nodeAt (arena b) n)\<lparr>Entry := en, Exit := ex, Initial := ini, HistKind := hk,
                                          Transitions := trs, Invokes := ivs\<rparr>) b)"

fun contentInvokes ::
  "node \<Rightarrow> dtoFields \<Rightarrow> ActionRef list \<Rightarrow> ActionRef list \<Rightarrow> node option \<Rightarrow> HistoryKind
     \<Rightarrow> loadError + tref list \<times> builder \<Rightarrow> loadError + builder" where
  "contentInvokes n f en ex ini hk (Inl e) = Inl e"
| "contentInvokes n f en ex ini hk (Inr (trs, b)) =
     contentDone n en ex ini hk trs (buildInvokes n (dInvoke f) b)"

fun contentOf ::
  "node \<Rightarrow> dtoFields \<Rightarrow> builder \<Rightarrow> loadError + ActionRef list \<Rightarrow> loadError + ActionRef list
     \<Rightarrow> loadError + node option \<Rightarrow> loadError + HistoryKind \<Rightarrow> loadError + builder" where
  "contentOf n f b (Inl e) ex ini hk = Inl e"
| "contentOf n f b (Inr en) (Inl e) ini hk = Inl e"
| "contentOf n f b (Inr en) (Inr ex) (Inl e) hk = Inl e"
| "contentOf n f b (Inr en) (Inr ex) (Inr ini) (Inl e) = Inl e"
| "contentOf n f b (Inr en) (Inr ex) (Inr ini) (Inr hk) =
     contentInvokes n f en ex ini hk (buildTransitions n f b)"

definition contentAt :: "node \<Rightarrow> dtoFields \<Rightarrow> builder \<Rightarrow> loadError + builder" where
  "contentAt n f b =
     contentOf n f b (actionsOf (dEntry f)) (actionsOf (dExit f)) (initialOf (arena b) n f) (historyOf (arena b) n f)"

lemma contentDone_bind:
  "contentDone n en ex ini hk trs r =
     bindE r (\<lambda>(ivs, b). Inr (updNode n (\<lambda>nd. nd\<lparr>Entry := en, Exit := ex, Initial := ini, HistKind := hk,
                                           Transitions := trs, Invokes := ivs\<rparr>) b))"
  by (cases r) (auto simp: upd_set)

lemma contentInvokes_bind:
  "contentInvokes n f en ex ini hk r =
     bindE r (\<lambda>(trs, b). contentDone n en ex ini hk trs (buildInvokes n (dInvoke f) b))"
  by (cases r) auto

lemma contentOf_bind:
  "contentOf n f b en ex ini hk =
     bindE en (\<lambda>en. bindE ex (\<lambda>ex. bindE ini (\<lambda>ini. bindE hk (\<lambda>hk.
       contentInvokes n f en ex ini hk (buildTransitions n f b)))))"
  by (cases en; cases ex; cases ini; cases hk) simp_all

lemma buildContent_code [code]: "buildContent n b = contentAt n (dFields (nodeDTO b ! n)) b"
  by (simp add: buildContent_def contentAt_def contentOf_bind contentInvokes_bind contentDone_bind Let_def)

subsection \<open>Callsites\<close>

fun numberGuard :: "nat \<Rightarrow> GuardRef option \<Rightarrow> GuardRef option" where
  "numberGuard k None = None"
| "numberGuard k (Some g) = Some (g\<lparr>GCallsite := int k\<rparr>)"

fun guardsAfter :: "nat \<Rightarrow> GuardRef option \<Rightarrow> nat" where
  "guardsAfter k None = k"
| "guardsAfter k (Some g) = k + 1"

definition numberEdge :: "tref \<Rightarrow> Transition \<Rightarrow> nat \<Rightarrow> nat \<Rightarrow> builder \<Rightarrow> nat \<times> nat \<times> builder" where
  "numberEdge t e ac gc b =
     (ac + length (Actions e), guardsAfter gc (Guard e),
      setEdge t (e\<lparr>Guard := numberGuard gc (Guard e), Actions := numberActions ac (Actions e)\<rparr>) b)"

lemma assignEdge_code [code]: "assignEdge t (ac, gc, b) = numberEdge t (edgeAt (arena b) t) ac gc b"
  by (cases "Guard (edgeAt (arena b) t)") (simp_all add: assignEdge_def numberEdge_def upd_set Let_def)

fun numberEntry :: "node \<Rightarrow> StateNode \<Rightarrow> nat \<times> nat \<times> builder \<Rightarrow> nat \<times> nat \<times> builder" where
  "numberEntry n nd (ac, gc, b) =
     (ac + length (Entry nd), gc,
      setNode n ((nodeAt (arena b) n)\<lparr>Entry := numberActions ac (Entry (nodeAt (arena b) n))\<rparr>) b)"

fun numberExit :: "node \<Rightarrow> StateNode \<Rightarrow> nat \<times> nat \<times> builder \<Rightarrow> nat \<times> nat \<times> builder" where
  "numberExit n nd (ac, gc, b) =
     (ac + length (Exit nd), gc,
      setNode n ((nodeAt (arena b) n)\<lparr>Exit := numberActions ac (Exit (nodeAt (arena b) n))\<rparr>) b)"

fun numberInvokes :: "Invoke list \<Rightarrow> nat \<times> nat \<times> builder \<Rightarrow> nat \<times> nat \<times> builder" where
  "numberInvokes [] s = s"
| "numberInvokes (iv # ivs) s = numberInvokes ivs (fold assignEdge (OnDone iv @ OnError iv) s)"

lemma numberInvokes_fold: "numberInvokes ivs s = fold (\<lambda>iv. fold assignEdge (OnDone iv @ OnError iv)) ivs s"
  by (induction ivs arbitrary: s) simp_all

definition numberNode :: "node \<Rightarrow> StateNode \<Rightarrow> nat \<times> nat \<times> builder \<Rightarrow> nat \<times> nat \<times> builder" where
  "numberNode n nd s =
     numberInvokes (Invokes nd) (numberExit n nd (fold assignEdge (Transitions nd) (numberEntry n nd s)))"

lemma assignNode_code [code]: "assignNode n (ac, gc, b) = numberNode n (nodeAt (arena b) n) (ac, gc, b)"
  by (auto simp: assignNode_def numberNode_def numberInvokes_fold upd_set Let_def split: prod.splits)

end
