(* ===== verification/Schema_Rules.thy ===== *)
theory Schema_Rules
  imports Schema_Tree Schema_Decode Schema_Eval Machine
begin

section \<open>What the loader accepts: targets, delays, documents\<close>

text \<open>
  The declarative reading of target resolution and of delay keys, the overflow between the
  loader's milliseconds and the runtime's nanoseconds, and sample documents.
\<close>

subsection \<open>Targets\<close>

text \<open>The state reached from \<open>cur\<close> by the first child of each key.\<close>

fun follow :: "heap \<Rightarrow> node \<Rightarrow> string list \<Rightarrow> node option" where
  "follow H cur [] = Some cur"
| "follow H cur (seg # segs) =
     (if seg = [] then None else Option.bind (findChild H cur seg) (\<lambda>c. follow H c segs))"

lemma descend_follow: "descend H raw path src segs cur = Inr n \<longleftrightarrow> follow H cur segs = Some n"
  by (induction segs arbitrary: cur) (auto split: option.splits)

lemma distinct_targetCandidates:
  assumes "distinct (byKey b i)"
  shows "distinct (targetCandidates b i)"
proof -
  have "distinct (fold (\<lambda>n cands. if ID (nodeAt (arena b) n) = i \<and> n \<notin> set cands then cands @ [n] else cands) ns cs)"
    if "distinct cs" for ns cs
    using that by (induction ns arbitrary: cs) auto
  then show ?thesis
    using assms by (simp add: targetCandidates_def)
qed

lemma singleton_candidates:
  "distinct xs \<Longrightarrow> (case xs of [] \<Rightarrow> Inl e | [n] \<Rightarrow> Inr n | _ \<Rightarrow> Inl e') = Inr n \<longleftrightarrow> set xs = {n}"
  by (cases xs rule: remdups_adj.cases) (auto simp: singleton_list)


lemma byKey_ordered: "byKey_ok (b\<lparr>ordered := ns\<rparr>) \<longleftrightarrow> byKey_ok b"
  by (simp add: byKey_ok_def)

definition tiny_builder :: builder where
  "tiny_builder =
     (allocNode (shell ''a'' ''a'' StateAtomic (Some 0)) (DtoState (emptyFields ''$.states.a'') None)
       (allocNode (shell [] ''m'' StateCompound None) (DtoState (emptyFields ''$'') None) newBuilder))\<lparr>ordered := [0, 1]\<rparr>"


subsection \<open>Delays\<close>

lemma decimal_append: "decimal (s @ [c]) = 10 * decimal s + (of_char c - 48)"
  by (simp add: decimal_def)

lemma of_char_digit: "k < 10 \<Longrightarrow> (of_char (char_of (48 + k)) :: nat) = 48 + k"
  by simp

lemma of_char_digit_int: "k < 10 \<Longrightarrow> (of_char (char_of (48 + k)) :: int) = 48 + int k"
proof -
  assume "k < 10"
  then have "int (of_char (char_of (48 + k))) = int (48 + k)"
    by (simp only: of_char_digit)
  then show ?thesis
    by (simp only: of_nat_of_char of_nat_add of_nat_numeral)
qed

lemma digits_props: "isAllDigits (digits n) \<and> decimal (digits n) = int n"
proof (induction n rule: digits.induct)
  case (1 n)
  have r: "n mod 10 < 10"
    by simp
  show ?case
  proof (cases "n < 10")
    case True
    then show ?thesis
      by (subst (1 2) digits.simps) (simp add: isAllDigits_def decimal_def of_char_digit_int)
  next
    case False
    have "int n = 10 * int (n div 10) + int (n mod 10)"
      by presburger
    then show ?thesis
      using 1 [OF False] False r
      by (subst (1 2) digits.simps) (simp add: isAllDigits_def decimal_append of_char_digit_int)
  qed
qed

lemma decimal_nonneg: "isAllDigits s \<Longrightarrow> 0 \<le> decimal s"
proof (induction s rule: rev_induct)
  case Nil
  then show ?case by (simp add: decimal_def)
next
  case (snoc c s)
  have c: "(48 :: nat) \<le> of_char c"
    using snoc.prems by (simp add: isAllDigits_def)
  then have "(48 :: int) \<le> of_char c"
    by (metis of_nat_le_iff of_nat_numeral of_nat_of_char)
  moreover have "0 \<le> decimal s"
    using snoc by (cases "s = []") (simp_all add: isAllDigits_def decimal_def)
  ultimately show ?case
    by (simp add: decimal_append)
qed

text \<open>What a key is read as, and what the runtime makes of the milliseconds.\<close>

lemma delay_text:
  "parseDelay (digits n) path =
     (if n < 2 ^ 63 then Inr \<lparr>Millis = int n, Symbol = []\<rparr> else Inl (errf path (DelayOverflow (digits n))))"
proof -
  have dn: "digits n \<noteq> []" "isAllDigits (digits n)" "decimal (digits n) = int n"
    using digits_props [of n] by (auto simp: isAllDigits_def)
  have "int n > 2 ^ 63 - 1 \<longleftrightarrow> \<not> n < 2 ^ 63"
    by (simp add: not_less) linarith
  then show ?thesis
    using dn by (simp add: parseDelay_def)
qed

lemma wrap64_id: "wrap64 i = i \<longleftrightarrow> - (2 ^ 63) \<le> i \<and> i < 2 ^ 63"
  unfolding wrap64_def sint_sbintrunc' using signed_take_bit_int_eq_self_iff [of 63 i] by simp

lemma delay_exact: "resolveDelay ds \<lparr>Millis = int n, Symbol = []\<rparr> = int n * Millisecond \<longleftrightarrow> n \<le> 9223372036854"
  by (simp add: resolveDelay_def Millisecond_def wrap64_id) linarith

text \<open>
  C25. Delays: the decimal text of every number below \<open>2\<^sup>6\<^sup>3\<close> is read as that many milliseconds,
  the text of a larger number is an overflow error, and any other non-empty key is a symbolic
  name. The runtime multiplies in 64 bits: the delay it arms is the one that was read exactly
  up to 9223372036854 milliseconds. The next key is accepted and becomes a negative delay,
  whose deadline has passed before the timer is armed.
\<close>

theorem delay_keys:
  "parseDelay (digits n) path =
     (if n < 2 ^ 63 then Inr \<lparr>Millis = int n, Symbol = []\<rparr> else Inl (errf path (DelayOverflow (digits n))))
   \<and> (parseDelay key path = Inr d \<longleftrightarrow>
        key \<noteq> [] \<and>
        (if isAllDigits key then decimal key < 2 ^ 63 \<and> d = \<lparr>Millis = decimal key, Symbol = []\<rparr>
         else d = \<lparr>Millis = 0, Symbol = key\<rparr>))
   \<and> (resolveDelay ds \<lparr>Millis = int n, Symbol = []\<rparr> = int n * Millisecond \<longleftrightarrow> n \<le> 9223372036854)
   \<and> (case parseDelay ''9223372036855'' path of Inl e \<Rightarrow> False | Inr d' \<Rightarrow> resolveDelay ds d' < 0)"
proof -
  have "parseDelay ''9223372036855'' path = Inr \<lparr>Millis = 9223372036855, Symbol = []\<rparr>"
    by (simp add: parseDelay_def isAllDigits_def decimal_def)
  moreover have "resolveDelay ds \<lparr>Millis = 9223372036855, Symbol = []\<rparr> < 0"
    by (simp add: resolveDelay_def wrap64_def Millisecond_def)
  moreover have "parseDelay key path = Inr d \<longleftrightarrow>
        key \<noteq> [] \<and>
        (if isAllDigits key then decimal key < 2 ^ 63 \<and> d = \<lparr>Millis = decimal key, Symbol = []\<rparr>
         else d = \<lparr>Millis = 0, Symbol = key\<rparr>)"
    by (auto simp: parseDelay_def)
  ultimately show ?thesis
    by (simp add: delay_text delay_exact)
qed

subsection \<open>Documents\<close>

text \<open>\<open>diagram/testdata/light.machine.json\<close>.\<close>

definition light_doc :: json where
  "light_doc =
     JObject
       [(''id'', JString ''light''), (''initial'', JString ''idle''),
        (''states'', JObject
          [(''idle'', JObject [(''on'', JObject [(''GO'', JObject [(''target'', JString ''running'')])])]),
           (''running'', JObject [(''on'', JObject [(''STOP'', JObject [(''target'', JString ''stopped'')])])]),
           (''stopped'', JObject [(''type'', JString ''final'')])])]"

text \<open>By \<open>parse_is_decode\<close> a document given as a value is evaluated through the reference decoder.\<close>

lemma load_value: "Load (lexemes v) = Some (bindE (decodeState ''$'' True v) build)"
  by (simp add: Load_def parse_is_decode)

definition loads_with :: "(heap \<Rightarrow> Definition \<Rightarrow> bool) \<Rightarrow> json \<Rightarrow> bool" where
  "loads_with P v = (case bindE (decodeState ''$'' True v) build of Inl e \<Rightarrow> False | Inr (H, d) \<Rightarrow> P H d)"

lemma loads_with_iff: "loads_with P v \<longleftrightarrow> (\<exists>H d. Load (lexemes v) = Some (Inr (H, d)) \<and> P H d)"
  by (auto simp: loads_with_def load_value split: sum.splits)

theorem load_gives_tree_witness:
  "\<exists>H d. Load (lexemes light_doc) = Some (Inr (H, d)) \<and> tree H \<and> Root d = 0 \<and> length (nodes H) = 4"
proof -
  have "loads_with (\<lambda>H d. length (nodes H) = 4) light_doc"
    by code_simp
  then obtain H d where l: "Load (lexemes light_doc) = Some (Inr (H, d))" and "length (nodes H) = 4"
    unfolding loads_with_iff by blast
  then show ?thesis
    using load_gives_tree [OF l] by blast
qed

end
