(* ===== verification/Codegen_Callsites.thy ===== *)
theory Codegen_Callsites
  imports Codegen_Stub Schema_Callsites Schema_Rules
begin

section \<open>The generated switches agree with the engine\<close>

text \<open>
  What \<open>buildCallsites\<close> writes, as lists in the order of the walk, and the agreement with the
  numbers of the loader (\<open>Schema_Callsites\<close>): on a loaded machine no index is out of range,
  and the case of a number in the generated applier or guard switch is the one written for the
  action or guard that carries this number.
\<close>

definition edge_action_sites :: "heap \<Rightarrow> tref \<Rightarrow> callsite list" where
  "edge_action_sites H t =
     map (\<lambda>a. edgeSite H (edgeAt H t) (ACallsite a) (AType a)) (Actions (edgeAt H t))"

definition edge_guard_sites :: "heap \<Rightarrow> tref \<Rightarrow> callsite list" where
  "edge_guard_sites H t =
     (case Guard (edgeAt H t) of None \<Rightarrow> [] | Some g \<Rightarrow> [edgeSite H (edgeAt H t) (GCallsite g) (GType g)])"

definition node_action_sites :: "heap \<Rightarrow> node \<Rightarrow> callsite list" where
  "node_action_sites H n =
     map (stateSite H n) (Entry (nodeAt H n)) @ concat (map (edge_action_sites H) (Transitions (nodeAt H n)))
     @ map (stateSite H n) (Exit (nodeAt H n)) @ concat (map (edge_action_sites H) (ivEdges (Invokes (nodeAt H n))))"

definition node_guard_sites :: "heap \<Rightarrow> node \<Rightarrow> callsite list" where
  "node_guard_sites H n = concat (map (edge_guard_sites H) (node_edges (nodeAt H n)))"

lemma site_ids:
  "map csId (node_action_sites H n) = node_actions H n" "map csId (node_guard_sites H n) = node_guards H n"
proof -
  have "csId \<circ> stateSite H n = ACallsite"
    by (rule ext) (simp add: stateSite_def)
  moreover have "map csId (edge_action_sites H t) = edge_actions H t" "map csId (edge_guard_sites H t) = edge_guards H t" for t
    by (simp_all add: edge_action_sites_def edge_actions_def edge_guard_sites_def edge_guards_def edgeSite_def comp_def
        split: option.splits)
  ultimately show "map csId (node_action_sites H n) = node_actions H n" "map csId (node_guard_sites H n) = node_guards H n"
    by (simp_all add: node_action_sites_def node_actions_def node_guard_sites_def node_guards_def map_concat comp_def)
qed

subsection \<open>A visit writes lists\<close>

text \<open>\<open>writes f as gs\<close>: the step \<open>f\<close> writes the action sites \<open>as\<close> and the guard sites \<open>gs\<close>, in order.\<close>

definition writes :: "(sites \<Rightarrow> sites option) \<Rightarrow> callsite list \<Rightarrow> callsite list \<Rightarrow> bool" where
  "writes f as gs \<longleftrightarrow>
     (\<forall>x y x' y'. foldM setSite as x = Some x' \<longrightarrow> foldM setSite gs y = Some y' \<longrightarrow> f (x, y) = Some (x', y'))"

lemma writes_none [simp]: "writes Some [] []"
  by (simp add: writes_def)

lemma writes_bind:
  "writes f as gs \<Longrightarrow> writes g as' gs' \<Longrightarrow> writes (\<lambda>s. Option.bind (f s) g) (as @ as') (gs @ gs')"
  unfolding writes_def foldM_append by (auto simp: bind_eq_Some_conv)

lemma writes_fold:
  assumes "\<And>x. writes (f x) (as x) (gs x)"
  shows "writes (foldM f xs) (concat (map as xs)) (concat (map gs xs))"
proof (induction xs)
  case (Cons x xs)
  have "foldM f (x # xs) = (\<lambda>s. Option.bind (f x s) (foldM f xs))"
    by (rule ext) simp
  then show ?case
    using writes_bind [OF assms Cons.IH] by simp
qed simp

lemma writes_action: "writes (addAction c) [c] []"
  by (auto simp: writes_def addAction_def bind_eq_Some_conv)

lemma writes_guard: "writes (addGuard c) [] [c]"
  by (auto simp: writes_def addGuard_def bind_eq_Some_conv)

lemma writes_actions: "writes (foldM (\<lambda>a. addAction (f a)) xs) (map f xs) []"
  using writes_fold [of "\<lambda>a. addAction (f a)" "\<lambda>a. [f a]" "\<lambda>a. []" xs] writes_action
  by (simp add: concat_map_singleton map_replicate_const)

lemma writes_edge: "writes (recordEdge H t) (edge_action_sites H t) (edge_guard_sites H t)"
proof -
  let ?e = "edgeAt H t"
  let ?g = "\<lambda>s. case Guard ?e of None \<Rightarrow> Some s | Some g \<Rightarrow> addGuard (edgeSite H ?e (GCallsite g) (GType g)) s"
  have "writes ?g [] (edge_guard_sites H t)"
    using writes_guard by (simp add: edge_guard_sites_def split: option.splits)
  from writes_bind [OF this writes_actions [of "\<lambda>a. edgeSite H ?e (ACallsite a) (AType a)" "Actions ?e"]]
  show ?thesis
    by (simp add: edge_action_sites_def recordEdge_def [abs_def] Let_def)
qed

lemma writes_invokes:
  "writes (foldM (recordInvoke H) ivs) (concat (map (edge_action_sites H) (ivEdges ivs)))
     (concat (map (edge_guard_sites H) (ivEdges ivs)))"
proof -
  have "writes (recordInvoke H iv) (concat (map (edge_action_sites H) (OnDone iv @ OnError iv)))
      (concat (map (edge_guard_sites H) (OnDone iv @ OnError iv)))" for iv
    using writes_bind [OF writes_fold [OF writes_edge] writes_fold [OF writes_edge]]
    by (simp add: recordInvoke_def [abs_def])
  moreover have "concat (map (\<lambda>iv. concat (map f (OnDone iv @ OnError iv))) ivs) = concat (map f (ivEdges ivs))"
    for f :: "tref \<Rightarrow> callsite list"
    by (induction ivs) (simp_all add: ivEdges_def)
  ultimately show ?thesis
    using writes_fold [where xs = ivs and f = "recordInvoke H"] by (metis (no_types, lifting))
qed

lemma writes_node: "writes (visitNode H n) (node_action_sites H n) (node_guard_sites H n)"
proof -
  note w = writes_bind [OF writes_actions [of "stateSite H n" "Entry (nodeAt H n)"]
      writes_bind [OF writes_fold [OF writes_edge, where xs = "Transitions (nodeAt H n)"]
      writes_bind [OF writes_actions [of "stateSite H n" "Exit (nodeAt H n)"]
        writes_invokes [of H "Invokes (nodeAt H n)"]]]]
  then show ?thesis
    by (simp add: visitNode_def [abs_def] node_action_sites_def node_guard_sites_def node_edges_alt)
qed

text \<open>Sites numbered consecutively fill a slice of their number.\<close>

lemma fill_from:
  "map csId xs = ints (length p) (length p + length xs) \<Longrightarrow> length xs \<le> length r \<Longrightarrow>
     foldM setSite xs (p @ r) = Some (p @ xs @ drop (length xs) r)"
proof (induction xs arbitrary: p r)
  case (Cons x xs)
  then obtain z r' where r: "r = z # r'"
    by (cases r) auto
  have "ints (length p) (length p + length (x # xs)) = int (length p) # ints (Suc (length p)) (length p + length (x # xs))"
    by (simp add: ints_def upt_conv_Cons del: upt_Suc)
  then have x: "csId x = int (length p)" and xs: "map csId xs = ints (length (p @ [x])) (length (p @ [x]) + length xs)"
    using Cons.prems(1) by simp_all
  have "setSite x (p @ r) = Some ((p @ [x]) @ r')"
    by (simp add: setSite_def x r)
  then show ?case
    using Cons.IH [OF xs, of r'] Cons.prems(2) r by simp
qed simp

lemma fill: "map csId xs = ints 0 n \<Longrightarrow> foldM setSite xs (replicate n z) = Some xs"
proof -
  assume ids: "map csId xs = ints 0 n"
  have "length (map csId xs) = n"
    unfolding ids by (simp add: ints_def)
  then have "length xs = n"
    by simp
  then show ?thesis
    using fill_from [of xs "[]" "replicate n z"] ids by simp
qed

lemma site_lookup:
  assumes "map csId xs = ints 0 n" and "c \<in> set xs"
  shows "0 \<le> csId c \<and> csId c < int n \<and> xs ! nat (csId c) = c"
proof -
  obtain i where i: "i < length xs" "xs ! i = c"
    using assms(2) by (auto simp: in_set_conv_nth)
  have n: "length xs = n"
    using arg_cong [OF assms(1), of length] by (simp add: ints_def)
  then have "csId c = int i"
    using i nth_map [of i xs csId] by (simp add: assms(1) ints_def)
  then show ?thesis
    using i n by simp
qed

text \<open>The callsites of a loaded machine, and where each of them is.\<close>

definition sitesOf :: "heap \<Rightarrow> sites" where
  "sitesOf H =
     (concat (map (node_action_sites H) (preorder H 0)), concat (map (node_guard_sites H) (preorder H 0)))"

lemma loaded_sites:
  assumes "Load data = Some (Inr (H, d))"
  shows "buildCallsites H d res = Some \<lparr>gDef = d, gRes = res, gActions = fst (sitesOf H), gGuards = snd (sitesOf H)\<rparr>"
    "map csId (fst (sitesOf H)) = ints 0 (ActionCount d)" "map csId (snd (sitesOf H)) = ints 0 (GuardCount d)"
    "n < length (nodes H) \<Longrightarrow> set (node_action_sites H n) \<subseteq> set (fst (sitesOf H))"
    "n < length (nodes H) \<Longrightarrow> set (node_guard_sites H n) \<subseteq> set (snd (sitesOf H))"
proof -
  obtain root where "build root = Inr (H, d)"
    using assms by (auto simp: Load_def result_iff)
  note num = loaded_callsites [OF this]
  show ids: "map csId (fst (sitesOf H)) = ints 0 (ActionCount d)" "map csId (snd (sitesOf H)) = ints 0 (GuardCount d)"
    using num(3,4) by (simp_all add: sitesOf_def map_concat comp_def site_ids)
  have "foldM (visitNode H) (preorder H 0) (replicate (ActionCount d) noSite, replicate (GuardCount d) noSite)
      = Some (fst (sitesOf H), snd (sitesOf H))"
    using writes_fold [OF writes_node, where xs = "preorder H 0"] fill [OF ids(1)] fill [OF ids(2)]
    by (simp add: writes_def sitesOf_def)
  then show "buildCallsites H d res = Some \<lparr>gDef = d, gRes = res, gActions = fst (sitesOf H), gGuards = snd (sitesOf H)\<rparr>"
    by (simp add: buildCallsites_def num(1) split_beta)
  show "n < length (nodes H) \<Longrightarrow> set (node_action_sites H n) \<subseteq> set (fst (sitesOf H))"
    "n < length (nodes H) \<Longrightarrow> set (node_guard_sites H n) \<subseteq> set (snd (sitesOf H))"
    unfolding sitesOf_def num(2) by auto
qed

text \<open>
  C34. The generated code agrees with the engine: for a loaded machine the generator never indexes
  out of range; the cases of the generated applier and guard switches are numbered from zero
  without gaps, as many as the definition counts; and the number that the loader gave to an
  action or guard, which is what the engine passes, selects the case written for it, with its
  type, triggering event and source state.
\<close>

theorem switches_agree:
  assumes "Load data = Some (Inr (H, d))"
  shows "\<exists>g. buildCallsites H d res = Some g
     \<and> map csId (gActions g) = map int [0..<ActionCount d] \<and> map csId (gGuards g) = map int [0..<GuardCount d]
     \<and> (\<forall>n < length (nodes H).
          (\<forall>a \<in> set (Entry (nodeAt H n)) \<union> set (Exit (nodeAt H n)). gActions g ! nat (ACallsite a) = stateSite H n a)
        \<and> (\<forall>t \<in> set (node_edges (nodeAt H n)).
             (\<forall>a \<in> set (Actions (edgeAt H t)).
                gActions g ! nat (ACallsite a) = edgeSite H (edgeAt H t) (ACallsite a) (AType a))
           \<and> (case Guard (edgeAt H t) of None \<Rightarrow> True
              | Some q \<Rightarrow> gGuards g ! nat (GCallsite q) = edgeSite H (edgeAt H t) (GCallsite q) (GType q))))"
proof -
  note sites = loaded_sites [OF assms]
  have st: "fst (sitesOf H) ! nat (ACallsite a) = stateSite H n a"
    if "n < length (nodes H)" "a \<in> set (Entry (nodeAt H n)) \<union> set (Exit (nodeAt H n))" for n a
  proof -
    have "stateSite H n a \<in> set (node_action_sites H n)"
      using that(2) by (auto simp: node_action_sites_def)
    from site_lookup [OF sites(2) subsetD [OF sites(4) [OF that(1)] this]] show ?thesis
      by (simp add: stateSite_def)
  qed
  have ed: "fst (sitesOf H) ! nat (ACallsite a) = edgeSite H (edgeAt H t) (ACallsite a) (AType a)"
    if "n < length (nodes H)" "t \<in> set (node_edges (nodeAt H n))" "a \<in> set (Actions (edgeAt H t))" for n t a
  proof -
    have "edgeSite H (edgeAt H t) (ACallsite a) (AType a) \<in> set (node_action_sites H n)"
      using that by (auto simp: node_action_sites_def node_edges_alt edge_action_sites_def)
    from site_lookup [OF sites(2) subsetD [OF sites(4) [OF that(1)] this]] show ?thesis
      by (simp add: edgeSite_def)
  qed
  have gu: "snd (sitesOf H) ! nat (GCallsite q) = edgeSite H (edgeAt H t) (GCallsite q) (GType q)"
    if "n < length (nodes H)" "t \<in> set (node_edges (nodeAt H n))" "Guard (edgeAt H t) = Some q" for n t q
  proof -
    have "edgeSite H (edgeAt H t) (GCallsite q) (GType q) \<in> set (node_guard_sites H n)"
      using that by (auto simp: node_guard_sites_def edge_guard_sites_def intro!: bexI [of _ t])
    from site_lookup [OF sites(3) subsetD [OF sites(5) [OF that(1)] this]] show ?thesis
      by (simp add: edgeSite_def)
  qed
  show ?thesis
    unfolding sites(1) option.inject ex_simps(1) [symmetric]
    using sites(2,3) st ed gu by (auto simp: ints_def split: option.splits)
qed

text \<open>
  A machine whose action \<open>x\<close> is the entry action of a state and the action of a transition on an
  event with the same Go name, with a promise that has no \<open>onError\<close> and an observable.
\<close>

definition feed_doc :: json where
  "feed_doc =
     JObject
       [(''id'', JString ''m''), (''initial'', JString ''a''),
        (''states'', JObject
          [(''a'', JObject
             [(''on'', JObject [(''GO'', JObject [(''target'', JString ''go''),
                 (''actions'', JArray [JObject [(''type'', JString ''x'')]])])])]),
           (''go'', JObject
             [(''entry'', JArray [JObject [(''type'', JString ''x'')]]),
              (''invoke'', JArray
                 [JObject [(''id'', JString ''call''), (''src'', JString ''fetch''),
                           (''onDone'', JObject [(''target'', JString ''a'')])],
                  JObject [(''id'', JString ''feed''), (''src'', JString ''watch'')]])])])]"

definition ownType :: "string \<Rightarrow> gotype" where
  "ownType name = Named (Some (''p'', ''p'')) name []"

definition contextType :: gotype where
  "contextType = Named (Some (''context'', ''context'')) ''Context'' []"

definition feed_pkg :: goPackage where
  "feed_pkg =
     \<lparr>PkgName = ''p'', PkgPath = ''p'',
      Scope = map_of
        [(''Go'', TypeName (ownType ''Go'')), (''ContextFields'', TypeName (ownType ''ContextFields'')),
         (''Fetch'', Func [contextType, ownType ''In''] [ownType ''Out'', errorType]),
         (''Watch'', Func [contextType, Signature [ownType ''Go''] []] [errorType])],
      Underlying = (\<lambda>t. t),
      TypeText = (\<lambda>t. case t of Named _ name _ \<Rightarrow> name | _ \<Rightarrow> []),
      MethodNames = (\<lambda>t. [])\<rparr>"

definition feed_gaps :: "heap \<Rightarrow> Definition \<Rightarrow> bool" where
  "feed_gaps H d =
     (case Resolve (Inr [Some feed_pkg]) ''dir'' H d of
        Inl e \<Rightarrow> False
      | Inr res \<Rightarrow>
          (case buildCallsites H d res of
             None \<Rightarrow> False
           | Some g \<Rightarrow>
               resUnresolved res = []
               \<and> map mSig (implMethods H g) =
                   [''XOnGo(ctx Context, evt Go) ActionResult'', ''FetchInput(ctx Context) In'']
               \<and> linesOf applierCase (gActions g) =
                   line 2 [''case 0:''] @ line 3 [''return applyResult(ctx, impl.XOnGo(ctx, evt.(Go)))'']
                   @ line 2 [''case 1:''] @ line 3 [''return applyResult(ctx, impl.XOnGo(ctx))'']
               \<and> map deGoName (doneErrorEvents H g) = [''CallDone'']
               \<and> map (\<lambda>(iv, a). (IvID iv, acKind a)) (invokesIn H g) =
                   [(''call'', AdapterPromise), (''feed'', AdapterObservable)]
               \<and> emitRegisterInvokes H g =
                   line 1 [''m.RegisterInvoke('', quote ''call'',
                           '', statesman.PromiseActor[Context, Event, In, Out](Fetch, impl.FetchInput,'']
                   @ line 2 [''func(o Out) Event { return CallDone{Output: o} },'']
                   @ line 2 [''func(e error) Event { return CallError{Err: e} }))'']))"

lemma feed_loads: "loads_with feed_gaps feed_doc"
  by code_simp

theorem switches_agree_witness:
  "\<exists>H d g. Load (lexemes feed_doc) = Some (Inr (H, d))
     \<and> buildCallsites H d (noNames feed_pkg) = Some g \<and> map csId (gActions g) = [0, 1] \<and> gGuards g = []"
proof -
  have "loads_with (\<lambda>H d. ActionCount d = 2 \<and> GuardCount d = 0) feed_doc"
    by code_simp
  then obtain H d where l: "Load (lexemes feed_doc) = Some (Inr (H, d))" and n: "ActionCount d = 2" "GuardCount d = 0"
    unfolding loads_with_iff by blast
  show ?thesis
    using switches_agree [OF l, of "noNames feed_pkg"] l n by (auto simp: upt_conv_Cons)
qed

subsection \<open>Types of generated events\<close>

lemma done_error_fold:
  "deDescriptor ` set (fold (\<lambda>t. addDoneError m (f t)) ts out) =
     deDescriptor ` set out \<union> {f t | t. t \<in> set ts \<and> (HasPrefix (f t) ''done.invoke.'' \<or> HasPrefix (f t) ''error.invoke.'')}"
proof (induction ts arbitrary: out)
  case (Cons t ts)
  show ?case
    by (simp add: Cons.IH) (auto simp: addDoneError_def Let_def)
qed simp

text \<open>
  C35. Gaps of the generator. Event types are declared for exactly the done and error events that
  label a transition, but every promise is registered with both of its event types: for
  \<open>feed_doc\<close> everything resolves and \<open>CallError\<close> is used without being declared. The same
  machine shows two more gaps: \<open>x\<close> is called with and without the event under one name, of
  which the interface has one signature only, and the observable \<open>feed\<close>, although recognised,
  is not registered at all.
\<close>

theorem generator_gaps:
  "set (map deDescriptor (doneErrorEvents H' g')) =
     {Transition.Event (edgeAt H' t) | t. t \<in> set (edgesIn H' g')
        \<and> (HasPrefix (Transition.Event (edgeAt H' t)) ''done.invoke.'' \<or> HasPrefix (Transition.Event (edgeAt H' t)) ''error.invoke.'')}
   \<and> (\<exists>H d res g. Load (lexemes feed_doc) = Some (Inr (H, d))
       \<and> Resolve (Inr [Some feed_pkg]) ''dir'' H d = Inr res \<and> resUnresolved res = []
       \<and> buildCallsites H d res = Some g
       \<and> map deGoName (doneErrorEvents H g) = [''CallDone'']
       \<and> map mSig (implMethods H g) = [''XOnGo(ctx Context, evt Go) ActionResult'', ''FetchInput(ctx Context) In'']
       \<and> linesOf applierCase (gActions g) =
           line 2 [''case 0:''] @ line 3 [''return applyResult(ctx, impl.XOnGo(ctx, evt.(Go)))'']
           @ line 2 [''case 1:''] @ line 3 [''return applyResult(ctx, impl.XOnGo(ctx))'']
       \<and> map (\<lambda>(iv, a). (IvID iv, acKind a)) (invokesIn H g) =
           [(''call'', AdapterPromise), (''feed'', AdapterObservable)]
       \<and> emitRegisterInvokes H g =
           line 1 [''m.RegisterInvoke('', quote ''call'',
                   '', statesman.PromiseActor[Context, Event, In, Out](Fetch, impl.FetchInput,'']
           @ line 2 [''func(o Out) Event { return CallDone{Output: o} },'']
           @ line 2 [''func(e error) Event { return CallError{Err: e} }))''])"
proof -
  have "set (map deDescriptor (doneErrorEvents H' g')) =
     {Transition.Event (edgeAt H' t) | t. t \<in> set (edgesIn H' g')
        \<and> (HasPrefix (Transition.Event (edgeAt H' t)) ''done.invoke.'' \<or> HasPrefix (Transition.Event (edgeAt H' t)) ''error.invoke.'')}"
    using done_error_fold [of "invokeOutputs H' g'" "\<lambda>t. Transition.Event (edgeAt H' t)" "edgesIn H' g'" "[]"]
    by (simp add: doneErrorEvents_def)
  moreover obtain H d where l: "Load (lexemes feed_doc) = Some (Inr (H, d))" and p: "feed_gaps H d"
    using feed_loads unfolding loads_with_iff by blast
  obtain res g where r: "Resolve (Inr [Some feed_pkg]) ''dir'' H d = Inr res" and g: "buildCallsites H d res = Some g"
    using p by (auto simp: feed_gaps_def split: sum.splits option.splits)
  note parts = p [unfolded feed_gaps_def r g sum.case option.case]
  ultimately show ?thesis
    using l r g by (intro conjI exI [of _ H] exI [of _ d] exI [of _ res] exI [of _ g]) (simp_all only: parts)
qed

end
