(* ===== verification/Diagram_Render.thy ===== *)
theory Diagram_Render
  imports Machine
begin

section \<open>Rendering options and labels: \<open>diagram/render.go\<close>\<close>

text \<open>
  What the renderers share: options, glyphs, the closure of the active leaves, labels of delays
  and guards. Go strings are byte strings, so a glyph is its UTF-8 bytes. Durations are
  nanoseconds; their text is that of \<open>time.Duration.String\<close>.
\<close>

definition bytes :: "nat list \<Rightarrow> string" where
  "bytes bs = map char_of bs"

subsection \<open>Text of a duration\<close>

definition digitChar :: "nat \<Rightarrow> char" where
  "digitChar n = char_of (48 + n)"

text \<open>The fraction is written from its last digit, without trailing zeros.\<close>

fun fracLoop :: "nat \<Rightarrow> bool \<Rightarrow> string \<Rightarrow> nat \<Rightarrow> bool \<times> string \<times> nat" where
  "fracLoop 0 print buf v = (print, buf, v)"
| "fracLoop (Suc k) print buf v =
     (let print = print \<or> v mod 10 \<noteq> 0
      in fracLoop k print (if print then digitChar (v mod 10) # buf else buf) (v div 10))"

definition fmtFrac :: "nat \<Rightarrow> string \<Rightarrow> nat \<Rightarrow> string \<times> nat" where
  "fmtFrac prec buf v =
     (case fracLoop prec False buf v of (print, buf, v) \<Rightarrow> (if print then CHR ''.'' # buf else buf, v))"

definition fmtInt :: "string \<times> nat \<Rightarrow> string" where
  "fmtInt s = (case s of (buf, v) \<Rightarrow> digits v @ buf)"

definition microSign :: string where
  "microSign = bytes [0xC2, 0xB5]"

definition Duration_String :: "duration \<Rightarrow> string" where
  "Duration_String d =
     (let u = nat \<bar>d\<bar>;
          body =
            (if u = 0 then ''0s''
             else if u < 1000 then fmtInt (''ns'', u)
             else if u < 1000000 then fmtInt (fmtFrac 3 (microSign @ ''s'') u)
             else if u < 1000000000 then fmtInt (fmtFrac 6 ''ms'' u)
             else
               (case fmtFrac 9 ''s'' u of (buf, u) \<Rightarrow>
                  (let buf = fmtInt (buf, u mod 60); u = u div 60 in
                   if u > 0 then
                     (let buf = fmtInt (CHR ''m'' # buf, u mod 60); u = u div 60 in
                      if u > 0 then fmtInt (CHR ''h'' # buf, u) else buf)
                   else buf)))
      in if d < 0 then CHR ''-'' # body else body)"

text \<open>\<open>time.Time.Sub\<close> saturates; \<open>Truncate\<close> rounds towards zero to a multiple.\<close>

definition Time_Sub :: "time \<Rightarrow> time \<Rightarrow> duration" where
  "Time_Sub t u = (if t - u > 2 ^ 63 - 1 then 2 ^ 63 - 1 else if t - u < - (2 ^ 63) then - (2 ^ 63) else t - u)"

definition Duration_Truncate :: "duration \<Rightarrow> duration \<Rightarrow> duration" where
  "Duration_Truncate d m = (if m \<le> 0 then d else if d < 0 then - ((- d) - (- d) mod m) else d - d mod m)"

declare bytes_def [gomodel] digitChar_def [gomodel] fmtFrac_def [gomodel] fmtInt_def [gomodel] microSign_def [gomodel]
  Duration_String_def [gomodel] Time_Sub_def [gomodel] Duration_Truncate_def [gomodel]

subsection \<open>Options\<close>

record options =
  overlay :: bool
  activeLeaves :: "StateID list"
  oStatus :: ActorStatus
  hasStatus :: bool
  oVersion :: int
  hasVersion :: bool
  oPending :: "ScheduledTimer list"
  color :: bool
  ascii :: bool
  verbose :: bool

definition noOptions :: options where
  "noOptions =
     \<lparr>overlay = False, activeLeaves = [], oStatus = StatusStarting, hasStatus = False, oVersion = 0, hasVersion = False,
      oPending = [], color = False, ascii = False, verbose = False\<rparr>"

datatype renderOption =
    WithActive "StateID list"
  | WithStatus ActorStatus
  | WithVersion int
  | WithPending "ScheduledTimer list"
  | WithColor bool
  | WithASCII bool
  | WithVerbose bool

fun setOption :: "renderOption \<Rightarrow> options \<Rightarrow> options" where
  "setOption (WithActive ids) o1 = o1\<lparr>activeLeaves := ids, overlay := True\<rparr>"
| "setOption (WithStatus s) o1 = o1\<lparr>oStatus := s, hasStatus := True, overlay := True\<rparr>"
| "setOption (WithVersion v) o1 = o1\<lparr>oVersion := v, hasVersion := True\<rparr>"
| "setOption (WithPending ts) o1 = o1\<lparr>oPending := ts\<rparr>"
| "setOption (WithColor on) o1 = o1\<lparr>color := on\<rparr>"
| "setOption (WithASCII on) o1 = o1\<lparr>ascii := on\<rparr>"
| "setOption (WithVerbose on) o1 = o1\<lparr>verbose := on\<rparr>"

record glyphset =
  branch :: string
  lastBranch :: string
  vert :: string
  space :: string
  arrow :: string
  gInitial :: string
  gFinal :: string
  gParallel :: string
  gInvoke :: string
  gDone :: string
  gFail :: string
  gAfter :: string
  gActive :: string
  gInactive :: string
  gSep :: string

definition dash :: string where
  "dash = bytes [0xE2, 0x94, 0x80]"

definition glyphs :: "bool \<Rightarrow> glyphset" where
  "glyphs asc =
     (if asc then
        \<lparr>branch = ''+- '', lastBranch = bytes [0x5C] @ ''- '', vert = ''|  '', space = ''   '', arrow = ''->'',
         gInitial = ''->'', gFinal = ''(final)'', gParallel = ''(parallel)'', gInvoke = ''invoke'', gDone = ''done'',
         gFail = ''error'', gAfter = ''after'', gActive = ''*'', gInactive = '' '', gSep = ''=== || ===''\<rparr>
      else
        \<lparr>branch = bytes [0xE2, 0x94, 0x9C] @ dash @ '' '', lastBranch = bytes [0xE2, 0x94, 0x94] @ dash @ '' '',
         vert = bytes [0xE2, 0x94, 0x82] @ ''  '', space = ''   '', arrow = bytes [0xE2, 0x86, 0x92],
         gInitial = bytes [0xE2, 0x97, 0x87, 0xE2, 0x86, 0x92], gFinal = bytes [0xE2, 0x97, 0x8F],
         gParallel = bytes [0xE2, 0x88, 0xA5], gInvoke = bytes [0xE2, 0x9F, 0xB3], gDone = bytes [0xE2, 0x9C, 0x93],
         gFail = bytes [0xE2, 0x9C, 0x97], gAfter = bytes [0xE2, 0x8F, 0xB1], gActive = bytes [0xE2, 0x97, 0x86],
         gInactive = bytes [0xC2, 0xB7],
         gSep = bytes [0xE2, 0x95, 0xAA] @ dash @ dash @ dash @ dash @ dash @ dash @ dash @ dash\<rparr>)"

definition ansiReset :: string where "ansiReset = bytes [0x1B] @ ''[0m''"
definition ansiActive :: string where "ansiActive = bytes [0x1B] @ ''[1;36m''"
definition ansiDim :: string where "ansiDim = bytes [0x1B] @ ''[2m''"
definition ansiError :: string where "ansiError = bytes [0x1B] @ ''[1;31m''"

declare noOptions_def [gomodel] dash_def [gomodel] glyphs_def [gomodel] ansiReset_def [gomodel] ansiActive_def [gomodel]
  ansiDim_def [gomodel] ansiError_def [gomodel]

subsection \<open>Active states and labels\<close>

definition markLeaf :: "heap \<Rightarrow> Definition \<Rightarrow> StateID \<Rightarrow> StateID set \<Rightarrow> StateID set" where
  "markLeaf H d i s =
     (let s = insert i s in
      case Lookup d i of
        None \<Rightarrow> s
      | Some n \<Rightarrow> fold (\<lambda>a s. insert (ID (nodeAt H a)) s) (ProperAncestors H n) s)"

definition activeSet :: "heap \<Rightarrow> Definition \<Rightarrow> StateID list \<Rightarrow> StateID set" where
  "activeSet H d leaves = fold (markLeaf H d) leaves {}"

definition delayLabel :: "Delay \<Rightarrow> string" where
  "delayLabel d = (if Symbol d \<noteq> [] then Symbol d else Duration_String (wrap64 (Millis d * Millisecond)))"

definition guardLabel :: "Transition \<Rightarrow> string" where
  "guardLabel t = (case Guard t of None \<Rightarrow> [] | Some g \<Rightarrow> '' ['' @ GType g @ '']'')"

declare markLeaf_def [gomodel] activeSet_def [gomodel] delayLabel_def [gomodel] guardLabel_def [gomodel]

end
