(* ===== verification/Diagram_Text.thy ===== *)
theory Diagram_Text
  imports Diagram_Render
begin

section \<open>Mermaid and terminal trees: \<open>diagram/mermaid.go\<close>, \<open>text.go\<close>\<close>

text \<open>
  Two texts of a definition. Both recurse over the tree; the recursion is bounded by the number
  of nodes, which is enough on a tree (\<open>Tree_Walk\<close>). A recursion that only appends to the
  output is the walk of the nodes with the text of each.
\<close>

definition row :: "string list \<Rightarrow> string" where
  "row parts = concat parts @ nl"

subsection \<open>Mermaid\<close>

definition mermaidID :: "heap \<Rightarrow> node \<Rightarrow> string" where
  "mermaidID H n = ReplaceByte (CHR ''.'') (CHR ''_'') (ID (nodeAt H n))"

fun between :: "string \<Rightarrow> string list \<Rightarrow> string" where
  "between sep [] = []"
| "between sep (x # xs) = x @ concat (map (\<lambda>y. sep @ y) xs)"

fun container :: "heap \<Rightarrow> nat \<Rightarrow> node \<Rightarrow> string \<Rightarrow> string" where
  "container H 0 n indent = []"
| "container H (Suc k) n indent =
     (let i = mermaidID H n; below = map (\<lambda>c. container H k c (indent @ ''    '')) (kids H n) in
      case kind H n of
        StateCompound \<Rightarrow>
          row [indent, ''state '', i, '' {'']
          @ (case Initial (nodeAt H n) of
               None \<Rightarrow> []
             | Some c \<Rightarrow> row [indent, ''    [*] --> '', mermaidID H c])
          @ concat below @ row [indent, ''}'']
      | StateParallel \<Rightarrow>
          row [indent, ''state '', i, '' {''] @ between (row [indent, ''    --'']) below @ row [indent, ''}'']
      | StateHistory \<Rightarrow>
          row [indent, ''state '', i]
          @ row [indent, ''note right of '', i, '' : history ('',
                 if HistKind (nodeAt H n) = HistoryDeep then ''deep'' else ''shallow'', '')'']
      | _ \<Rightarrow> row [indent, ''state '', i])"

definition mermaidEventLabel :: "Transition \<Rightarrow> string" where
  "mermaidEventLabel t =
     (if IsAfter t then ''after('' @ delayLabel (TDelay t) @ '')''
      else if Eventless t then ''always'' else Transition.Event t)"

definition mermaidTransition :: "heap \<Rightarrow> Transition \<Rightarrow> string" where
  "mermaidTransition H t =
     (if Internal t then
        row [''    %% internal '', mermaidEventLabel t, guardLabel t, '' on '', mermaidID H (Source t)]
      else
        concat (map (\<lambda>tgt. row [''    '', mermaidID H (Source t), '' --> '', mermaidID H tgt, '' : '',
                                mermaidEventLabel t, guardLabel t]) (Targets t)))"

definition mermaidInvokeEdges :: "heap \<Rightarrow> Transition \<Rightarrow> string \<Rightarrow> string" where
  "mermaidInvokeEdges H t label =
     concat (map (\<lambda>tgt. row [''    '', mermaidID H (Source t), '' --> '', mermaidID H tgt, '' : '', label, guardLabel t])
       (Targets t))"

definition mermaidInvoke :: "heap \<Rightarrow> Invoke \<Rightarrow> string" where
  "mermaidInvoke H iv =
     row [''    %% invoke '', IvID iv, '': '', Src iv]
     @ concat (map (\<lambda>t. mermaidInvokeEdges H (edgeAt H t) (''onDone '' @ IvID iv)) (OnDone iv))
     @ concat (map (\<lambda>t. mermaidInvokeEdges H (edgeAt H t) (''onError '' @ IvID iv)) (OnError iv))"

definition mermaidNode :: "heap \<Rightarrow> node \<Rightarrow> string" where
  "mermaidNode H n =
     concat (map (\<lambda>t. mermaidTransition H (edgeAt H t)) (Transitions (nodeAt H n)))
     @ concat (map (mermaidInvoke H) (Invokes (nodeAt H n)))
     @ (if kind H n = StateFinal then row [''    '', mermaidID H n, '' --> [*]''] else [])"

definition Mermaid :: "heap \<Rightarrow> Definition \<Rightarrow> string" where
  "Mermaid H d =
     row [''stateDiagram-v2'']
     @ concat (map (\<lambda>c. container H (length (nodes H)) c ''    '') (kids H (Root d)))
     @ (case Initial (nodeAt H (Root d)) of None \<Rightarrow> [] | Some c \<Rightarrow> row [''    [*] --> '', mermaidID H c])
     @ concat (map (mermaidNode H) (preorder H (Root d)))"

declare row_def [gomodel] mermaidID_def [gomodel] mermaidEventLabel_def [gomodel] mermaidTransition_def [gomodel]
  mermaidInvokeEdges_def [gomodel] mermaidInvoke_def [gomodel] mermaidNode_def [gomodel] Mermaid_def [gomodel]

subsection \<open>Text\<close>

text \<open>The clock \<open>nowFn\<close> is read at every countdown; one render sees one time here.\<close>

record textRender =
  rO :: options
  rG :: glyphset
  rAct :: "StateID set"
  rDef :: Definition
  rNow :: time

definition textHeader :: "heap \<Rightarrow> textRender \<Rightarrow> node \<Rightarrow> string" where
  "textHeader H r root =
     row [DefID (rDef r),
          (case Initial (nodeAt H root) of None \<Rightarrow> [] | Some c \<Rightarrow> ''  '' @ gInitial (rG r) @ '' '' @ Key (nodeAt H c)),
          (if hasStatus (rO r) then
             (let st = ActorStatus_String (oStatus (rO r));
                  st = (if color (rO r) \<and> oStatus (rO r) = StatusError then ansiError @ st @ ansiReset else st)
              in ''    '' @ st
                 @ (if hasVersion (rO r) then '' '' @ bytes [0xC2, 0xB7] @ '' v'' @ itoa (oVersion (rO r)) else []))
           else [])]"

definition textLabel :: "heap \<Rightarrow> textRender \<Rightarrow> node \<Rightarrow> string" where
  "textLabel H r n =
     (let nd = nodeAt H n in
      case Kind nd of
        StateHistory \<Rightarrow>
          (let s = Key nd @ '' '' @ (if HistKind nd = HistoryDeep then ''(H*)'' else ''(H)'') in
           if length (HistoryTo nd) = 0 then s @ '' (default)''
           else s @ '' '' @ arrow (rG r) @ '' '' @ Join (map (\<lambda>t. ID (nodeAt H t)) (HistoryTo nd)) '','')
      | StateCompound \<Rightarrow>
          Key nd @ (case Initial nd of None \<Rightarrow> [] | Some c \<Rightarrow> ''  '' @ gInitial (rG r) @ '' '' @ Key (nodeAt H c))
      | StateParallel \<Rightarrow> Key nd @ ''  '' @ gParallel (rG r)
      | StateFinal \<Rightarrow> Key nd @ ''  '' @ gFinal (rG r)
      | StateAtomic \<Rightarrow> Key nd)"

definition highlighted :: "heap \<Rightarrow> textRender \<Rightarrow> node \<Rightarrow> bool" where
  "highlighted H r n \<longleftrightarrow> ID (nodeAt H n) \<in> rAct r \<and> kind H n \<noteq> StateHistory"

definition textLine :: "heap \<Rightarrow> textRender \<Rightarrow> string \<Rightarrow> node \<Rightarrow> string" where
  "textLine H r pre n =
     (let label = textLabel H r n;
          label =
            (if overlay (rO r) then
               (let on = highlighted H r n;
                    label = (if on then gActive (rG r) else gInactive (rG r)) @ '' '' @ label
                in if color (rO r) then (if on then ansiActive else ansiDim) @ label @ ansiReset else label)
             else label)
      in row [pre, label])"

definition eventText :: "textRender \<Rightarrow> Transition \<Rightarrow> string" where
  "eventText r t =
     (if IsAfter t then gAfter (rG r) @ '' '' @ delayLabel (TDelay t)
      else if Eventless t then ''always'' else Transition.Event t)"

definition actionSuffix :: "textRender \<Rightarrow> ActionRef list \<Rightarrow> string" where
  "actionSuffix r acts =
     (if \<not> verbose (rO r) \<or> length acts = 0 then [] else '' / '' @ Join (map AType acts) '', '')"

definition timerSuffix :: "heap \<Rightarrow> textRender \<Rightarrow> node \<Rightarrow> string" where
  "timerSuffix H r owner =
     (if \<not> overlay (rO r) \<or> length (oPending (rO r)) = 0 then []
      else
        (case find (\<lambda>ti. stStateID ti = ID (nodeAt H owner)) (oPending (rO r)) of
           None \<Rightarrow> []
         | Some ti \<Rightarrow>
             (let left = Time_Sub (stDeadline ti) (rNow r); left = (if left < 0 then 0 else left)
              in '' ('' @ Duration_String (Duration_Truncate left Millisecond) @ '' left)'')))"

definition targetLabel :: "heap \<Rightarrow> node \<Rightarrow> node \<Rightarrow> string" where
  "targetLabel H src tgt =
     (if tgt = src then ''self''
      else if par H tgt \<noteq> None \<and> par H tgt = par H src then Key (nodeAt H tgt)
      else if ID (nodeAt H tgt) = [] then ''(root)''
      else ID (nodeAt H tgt))"

definition textTransition :: "heap \<Rightarrow> textRender \<Rightarrow> Transition \<Rightarrow> string \<Rightarrow> string" where
  "textTransition H r t p =
     (if Internal t then row [p, eventText r t, guardLabel t, actionSuffix r (Actions t), '' (internal)'']
      else
        concat (map (\<lambda>tgt. row [p, eventText r t, guardLabel t, '' '', arrow (rG r), '' '', targetLabel H (Source t) tgt,
            actionSuffix r (Actions t), if IsAfter t then timerSuffix H r (Source t) else []]) (Targets t)))"

definition textInvokeEdges :: "heap \<Rightarrow> textRender \<Rightarrow> tref list \<Rightarrow> string \<Rightarrow> string \<Rightarrow> string" where
  "textInvokeEdges H r ts mark p =
     concat (map (\<lambda>t. concat (map (\<lambda>tgt. row [p, mark, '' '', arrow (rG r), '' '',
         targetLabel H (Source (edgeAt H t)) tgt, guardLabel (edgeAt H t), actionSuffix r (Actions (edgeAt H t))])
       (Targets (edgeAt H t)))) ts)"

definition textInvoke :: "heap \<Rightarrow> textRender \<Rightarrow> Invoke \<Rightarrow> string \<Rightarrow> string" where
  "textInvoke H r iv p =
     row [p, gInvoke (rG r), '' '', IvID iv, '' ('', Src iv, '')'']
     @ textInvokeEdges H r (OnDone iv) (gDone (rG r)) (p @ ''  '')
     @ textInvokeEdges H r (OnError iv) (gFail (rG r)) (p @ ''  '')"

definition textAttrs :: "heap \<Rightarrow> textRender \<Rightarrow> node \<Rightarrow> string \<Rightarrow> string" where
  "textAttrs H r n p =
     (if verbose (rO r) then concat (map (\<lambda>a. row [p, ''entry / '', AType a]) (Entry (nodeAt H n))) else [])
     @ concat (map (\<lambda>t. textTransition H r (edgeAt H t) p) (Transitions (nodeAt H n)))
     @ concat (map (\<lambda>iv. textInvoke H r iv p) (Invokes (nodeAt H n)))
     @ (if verbose (rO r) then concat (map (\<lambda>a. row [p, ''exit / '', AType a]) (Exit (nodeAt H n))) else [])"

text \<open>\<open>children\<close> over the function that renders one child.\<close>

definition textChildren ::
  "heap \<Rightarrow> textRender \<Rightarrow> (node \<Rightarrow> string \<Rightarrow> bool \<Rightarrow> string) \<Rightarrow> node \<Rightarrow> string \<Rightarrow> string"
where
  "textChildren H r child n pre =
     concat (map (\<lambda>(i, c).
         (if kind H n = StateParallel \<and> i > 0 then row [pre, gSep (rG r)] else [])
         @ child c pre (i + 1 = length (kids H n)))
       (enumerate 0 (kids H n)))"

primrec textNode :: "heap \<Rightarrow> textRender \<Rightarrow> nat \<Rightarrow> node \<Rightarrow> string \<Rightarrow> bool \<Rightarrow> string" where
  "textNode H r 0 = (\<lambda>n pre isLast. [])"
| "textNode H r (Suc k) =
     (\<lambda>n pre isLast.
        (let bar = (if isLast then lastBranch (rG r) else branch (rG r));
             cont = (if isLast then space (rG r) else vert (rG r))
         in textLine H r (pre @ bar) n @ textAttrs H r n (pre @ cont @ ''  '')
            @ textChildren H r (textNode H r k) n (pre @ cont)))"

definition rendering :: "heap \<Rightarrow> Definition \<Rightarrow> time \<Rightarrow> renderOption list \<Rightarrow> textRender" where
  "rendering H d nw opts =
     (let o1 = fold setOption opts noOptions in
      \<lparr>rO = o1, rG = glyphs (ascii o1), rAct = if overlay o1 then activeSet H d (activeLeaves o1) else {}, rDef = d, rNow = nw\<rparr>)"

definition Text :: "heap \<Rightarrow> Definition \<Rightarrow> time \<Rightarrow> renderOption list \<Rightarrow> string" where
  "Text H d nw opts =
     (let r = rendering H d nw opts in
      textHeader H r (Root d) @ textAttrs H r (Root d) ''  ''
      @ textChildren H r (textNode H r (length (nodes H))) (Root d) [])"

declare textHeader_def [gomodel] textLabel_def [gomodel] highlighted_def [gomodel] textLine_def [gomodel] eventText_def [gomodel]
  actionSuffix_def [gomodel] timerSuffix_def [gomodel] targetLabel_def [gomodel] textTransition_def [gomodel]
  textInvokeEdges_def [gomodel] textInvoke_def [gomodel] textAttrs_def [gomodel] textChildren_def [gomodel]
  rendering_def [gomodel] Text_def [gomodel]

end
