(* ===== verification/Diagram_Live.thy ===== *)
theory Diagram_Live
  imports Diagram_Text Tree_Walk Legality Samples
begin

section \<open>The live overlay: \<open>diagram/live.go\<close>, \<open>screen.go\<close>\<close>

text \<open>
  \<open>Live\<close> paints a running machine. Its goroutine and the subscriber's callback meet at a
  channel with one place; what can happen to them is a list of events: the machine delivers a
  snapshot, the loop takes what is in the channel, the context is cancelled. What goes to the
  terminal is text.
\<close>

definition csi :: "string \<Rightarrow> string" where
  "csi s = bytes [0x1B] @ ''['' @ s"

definition Screen_Enter :: string where
  "Screen_Enter = csi ''?1049h'' @ csi ''?25l''"

definition Screen_Leave :: string where
  "Screen_Leave = csi ''?25h'' @ csi ''?1049l''"

definition Screen_Frame :: "string \<Rightarrow> string" where
  "Screen_Frame body = csi ''2J'' @ csi ''H'' @ body"

definition snapshotOptions :: "'c Snapshot \<Rightarrow> renderOption list \<Rightarrow> renderOption list" where
  "snapshotOptions s base =
     [WithActive (ActiveStates s), WithStatus (Status s), WithVersion (Version s), WithPending (PendingAfter s),
      WithColor True] @ base"

text \<open>The loop of \<open>latestWins\<close>: send if there is room, otherwise drop what is there and try again.\<close>

partial_function (option) latestWins :: "'a option \<Rightarrow> 'a \<Rightarrow> 'a option option" where
  "latestWins ch v = (case ch of None \<Rightarrow> Some (Some v) | Some old \<Rightarrow> latestWins None v)"

lemma latestWins [simp]: "latestWins ch v = Some (Some v)"
  by (cases ch) (simp_all add: latestWins.simps)

record 'c live =
  written :: string
  slot :: "'c Snapshot option"
  returned :: bool

datatype 'c liveEvent = Deliver "'c Snapshot" | Take time | Cancelled

definition frameOf :: "heap \<Rightarrow> Definition \<Rightarrow> renderOption list \<Rightarrow> time \<Rightarrow> 'c Snapshot \<Rightarrow> string" where
  "frameOf H d opts nw s = Screen_Frame (Text H d nw (snapshotOptions s opts))"

definition live_start :: "heap \<Rightarrow> Definition \<Rightarrow> renderOption list \<Rightarrow> time \<Rightarrow> 'c Snapshot \<Rightarrow> 'c live" where
  "live_start H d opts nw s =
     \<lparr>written = Screen_Enter @ frameOf H d opts nw s, slot = None, returned = False\<rparr>"

definition leave :: "'c live \<Rightarrow> 'c live" where
  "leave l = l\<lparr>written := written l @ Screen_Leave, returned := True\<rparr>"

fun live_step :: "heap \<Rightarrow> Definition \<Rightarrow> renderOption list \<Rightarrow> 'c liveEvent \<Rightarrow> 'c live \<Rightarrow> 'c live" where
  "live_step H d opts (Deliver s) l = (case latestWins (slot l) s of None \<Rightarrow> l | Some ch \<Rightarrow> l\<lparr>slot := ch\<rparr>)"
| "live_step H d opts (Take nw) l =
     (if returned l then l
      else
        (case slot l of
           None \<Rightarrow> l
         | Some s \<Rightarrow>
             (let l = l\<lparr>slot := None, written := written l @ frameOf H d opts nw s\<rparr>
              in if Terminal (Status s) then leave l else l)))"
| "live_step H d opts Cancelled l = (if returned l then l else leave l)"

declare csi_def [gomodel] Screen_Enter_def [gomodel] Screen_Leave_def [gomodel] Screen_Frame_def [gomodel]
  snapshotOptions_def [gomodel] frameOf_def [gomodel] live_start_def [gomodel] leave_def [gomodel]

subsection \<open>What is painted\<close>

definition delivered :: "'c liveEvent list \<Rightarrow> 'c Snapshot list" where
  "delivered es = List.map_filter (\<lambda>e. case e of Deliver s \<Rightarrow> Some s | _ \<Rightarrow> None) es"

lemma delivered_simps [simp]: "delivered [] = []" "delivered (es @ [Deliver s]) = delivered es @ [s]"
  "delivered (es @ [Take nw]) = delivered es" "delivered (es @ [Cancelled]) = delivered es"
  by (simp_all add: delivered_def map_filter_def)

text \<open>\<open>painted fs l\<close>: the frames \<open>fs\<close> are on the terminal.\<close>

definition painted ::
  "heap \<Rightarrow> Definition \<Rightarrow> renderOption list \<Rightarrow> (time \<times> 'c Snapshot) list \<Rightarrow> 'c live \<Rightarrow> bool"
where
  "painted H d opts fs l \<longleftrightarrow>
     written l = Screen_Enter @ concat (map (\<lambda>(nw, s). frameOf H d opts nw s) fs)
        @ (if returned l then Screen_Leave else [])"

definition live_ok ::
  "heap \<Rightarrow> Definition \<Rightarrow> renderOption list \<Rightarrow> time \<times> 'c Snapshot \<Rightarrow> 'c liveEvent list \<Rightarrow>
     (time \<times> 'c Snapshot) list \<Rightarrow> 'c live \<Rightarrow> bool"
where
  "live_ok H d opts f0 es fs l \<longleftrightarrow>
     painted H d opts (f0 # fs) l
     \<and> (if returned l then subseq (map snd fs) (delivered es)
        else subseq (map snd fs @ (case slot l of None \<Rightarrow> [] | Some s \<Rightarrow> [s])) (delivered es))
     \<and> (returned l \<longleftrightarrow> Cancelled \<in> set es \<or> list_ex (\<lambda>f. Terminal (Status (snd f))) fs)
     \<and> (\<not> returned l \<longrightarrow> delivered es \<noteq> [] \<longrightarrow>
          (case slot l of Some s \<Rightarrow> s = last (delivered es) | None \<Rightarrow> fs \<noteq> [] \<and> snd (last fs) = last (delivered es)))"

lemma live_ok_start: "live_ok H d opts (nw, s) [] [] (live_start H d opts nw s)"
  by (simp add: live_ok_def painted_def live_start_def)

lemma subseq_last: "subseq xs ys \<Longrightarrow> subseq (xs @ [z]) (ys @ [z])"
  by (rule list_emb_append_mono) simp_all

lemma subseq_front: "subseq (xs @ ys) zs \<Longrightarrow> subseq xs zs"
  using prefix_imp_subseq [of xs "xs @ ys"] subseq_order.order_trans by fastforce

lemma subseq_more: "subseq xs ys \<Longrightarrow> subseq xs (ys @ zs)"
  by (rule subseq_rev_drop_many)

lemma live_ok_step:
  assumes "live_ok H d opts f0 es fs l"
  shows "\<exists>fs'. live_ok H d opts f0 (es @ [e]) (fs @ fs') (live_step H d opts e l)"
proof (cases "returned l")
  case True
  then have "live_ok H d opts f0 (es @ [e]) (fs @ []) (live_step H d opts e l)"
    using assms by (cases e) (auto simp: live_ok_def painted_def intro: subseq_more)
  then show ?thesis ..
next
  case running: False
  note ok = assms [unfolded live_ok_def painted_def]
  show ?thesis
  proof (cases e)
    case (Deliver s)
    have "subseq (map snd fs) (delivered es)"
      using ok running subseq_front by auto
    then have "live_ok H d opts f0 (es @ [e]) (fs @ []) (live_step H d opts e l)"
      using ok running Deliver subseq_last by (auto simp: live_ok_def painted_def)
    then show ?thesis ..
  next
    case (Take nw)
    show ?thesis
    proof (cases "slot l")
      case None
      then have "live_ok H d opts f0 (es @ [e]) (fs @ []) (live_step H d opts e l)"
        using ok running Take by (auto simp: live_ok_def painted_def)
      then show ?thesis ..
    next
      case (Some s)
      then have "live_ok H d opts f0 (es @ [e]) (fs @ [(nw, s)]) (live_step H d opts e l)"
        using ok running Take by (auto simp: live_ok_def painted_def leave_def Let_def)
      then show ?thesis ..
    qed
  next
    case Cancelled
    have "subseq (map snd fs) (delivered es)"
      using ok running subseq_front by auto
    then have "live_ok H d opts f0 (es @ [e]) (fs @ []) (live_step H d opts e l)"
      using ok running Cancelled by (auto simp: live_ok_def painted_def leave_def)
    then show ?thesis ..
  qed
qed

lemma live_ok_run:
  "\<exists>fs. live_ok H d opts (nw, s) es fs (fold (live_step H d opts) es (live_start H d opts nw s))"
proof (induction es rule: rev_induct)
  case Nil
  show ?case
    by (rule exI [of _ "[]"]) (simp add: live_ok_start)
next
  case (snoc e es)
  then show ?case using live_ok_step by fastforce
qed

text \<open>
  C37. The live overlay paints the snapshot it starts from and then a subsequence of the delivered
  ones, each as \<open>Text\<close> renders it, and restores the terminal exactly when it returns; it returns
  exactly when its context is cancelled or a delivered terminal snapshot has been painted, and
  until then the newest delivered snapshot is the one last painted or the one waiting. So when
  the machine has ended before the call, and nothing is delivered any more, it paints the
  terminal snapshot and waits for its context for ever, whatever the loop does.
\<close>

theorem live_overlay:
  "(\<exists>fs. case fold (live_step H d opts) es (live_start H d opts nw s) of l \<Rightarrow>
     written l = Screen_Enter @ concat (map (\<lambda>(t, s). frameOf H d opts t s) ((nw, s) # fs))
        @ (if returned l then Screen_Leave else [])
     \<and> subseq (map snd fs) (delivered es)
     \<and> (returned l \<longleftrightarrow> Cancelled \<in> set es \<or> list_ex (\<lambda>f. Terminal (Status (snd f))) fs)
     \<and> (returned l \<or> delivered es = [] \<or> slot l = Some (last (delivered es))
         \<or> slot l = None \<and> fs \<noteq> [] \<and> snd (last fs) = last (delivered es)))
   \<and> \<not> returned (fold (live_step H d opts) (map Take ts) (live_start H d opts nw s))"
proof -
  obtain fs where fs: "live_ok H d opts (nw, s) es fs (fold (live_step H d opts) es (live_start H d opts nw s))"
    using live_ok_run by blast
  obtain fs' where fs': "live_ok H d opts (nw, s) (map Take ts) fs'
      (fold (live_step H d opts) (map Take ts) (live_start H d opts nw s))"
    using live_ok_run by blast
  have "delivered (map Take ts :: 'a liveEvent list) = []"
    by (simp add: delivered_def map_filter_def comp_def)
  then have "\<not> returned (fold (live_step H d opts) (map Take ts) (live_start H d opts nw s))"
    using fs' list_emb_length [of "(=)" "map snd fs'" "[]"] by (auto simp: live_ok_def split: if_splits)
  moreover have "subseq (map snd fs) (delivered es)"
    using fs subseq_front by (auto simp: live_ok_def split: if_splits)
  ultimately show ?thesis
    using fs by (auto simp: live_ok_def painted_def split: option.splits intro!: exI [of _ fs])
qed

subsection \<open>What is highlighted\<close>

lemma set_markLeaf:
  "markLeaf H d i s = s \<union> {i} \<union>
     (case Lookup d i of None \<Rightarrow> {} | Some n \<Rightarrow> (\<lambda>a. ID (nodeAt H a)) ` set (ProperAncestors H n))"
proof -
  have "fold (\<lambda>a s. insert (ID (nodeAt H a)) s) as t = t \<union> (\<lambda>a. ID (nodeAt H a)) ` set as" for as t
    by (induction as arbitrary: t) auto
  then show ?thesis
    by (auto simp: markLeaf_def Let_def split: option.splits)
qed

lemma set_activeSet:
  "activeSet H d is = set is \<union> (\<Union>i \<in> set is.
     case Lookup d i of None \<Rightarrow> {} | Some n \<Rightarrow> (\<lambda>a. ID (nodeAt H a)) ` set (ProperAncestors H n))"
proof -
  have "fold (markLeaf H d) is t = t \<union> set is \<union> (\<Union>i \<in> set is.
     case Lookup d i of None \<Rightarrow> {} | Some n \<Rightarrow> (\<lambda>a. ID (nodeAt H a)) ` set (ProperAncestors H n))" for t
    by (induction "is" arbitrary: t) (auto simp: set_markLeaf)
  then show ?thesis
    by (simp add: activeSet_def)
qed

abbreviation idOf :: "heap \<Rightarrow> node \<Rightarrow> StateID" where
  "idOf H n \<equiv> ID (nodeAt H n)"

lemma index_lookup:
  assumes "inj_on (idOf H) (set ns)" and "n \<in> set ns"
  shows "fold (\<lambda>n m. m(idOf H n \<mapsto> n)) ns m (idOf H n) = Some n"
  using assms
proof (induction ns rule: rev_induct)
  case (snoc k ns)
  show ?case
  proof (cases "k = n")
    case False
    then have "idOf H k \<noteq> idOf H n" "n \<in> set ns" "inj_on (idOf H) (set ns)"
      using snoc.prems by (auto simp: inj_on_def)
    then show ?thesis
      using snoc.IH by simp
  qed simp
qed simp

lemma active_leaf:
  assumes "tree H" and "legal H C" and par: "\<forall>n < length (nodes H). kind H n = StateParallel \<longrightarrow> kids H n \<noteq> []"
  shows "n \<in> C \<Longrightarrow> \<exists>m \<in> C. IsAtomic H m \<and> (m = n \<or> n \<in> set (ProperAncestors H m))"
proof (induction "length (nodes H) - n" arbitrary: n rule: less_induct)
  case less
  have n: "n < length (nodes H)" and ok: "ok_node H C n"
    using less.prems assms(2) legal_lt legal_ok by auto
  show ?case
  proof (cases "IsAtomic H n")
    case False
    then have "\<exists>c \<in> set (kids H n). c \<in> C"
    proof (cases "kind H n")
      case StateParallel
      then obtain c where "c \<in> set (kids H n)"
        using par n by (cases "kids H n") auto
      then show ?thesis
        using ok StateParallel by (auto simp: ok_node_def)
    qed (use ok False in \<open>auto simp: ok_node_def IsAtomic_def\<close>)
    then obtain c where c: "c \<in> set (kids H n)" "c \<in> C"
      by blast
    note kid = tree_kid [OF assms(1) n c(1)]
    have "length (nodes H) - c < length (nodes H) - n"
      using kid n by auto
    from less.hyps [OF this c(2)] obtain m where m: "m \<in> C" "IsAtomic H m" "m = c \<or> c \<in> set (ProperAncestors H m)"
      by blast
    have "m \<in> below H c" "c \<in> below H n"
      using m legal_lt [OF assms(2) m(1)] kid_below [OF assms(1) n c(1)] by (auto simp: below_def)
    then have "m \<in> below H n"
      by (rule below_trans [OF assms(1)])
    then show ?thesis
      using m by (auto simp: below_def)
  qed (use less.prems in blast)
qed

lemma options_kept:
  "\<forall>ids. WithActive ids \<notin> set opts \<Longrightarrow> overlay o1 \<Longrightarrow>
     overlay (fold setOption opts o1) \<and> activeLeaves (fold setOption opts o1) = activeLeaves o1"
proof (induction opts arbitrary: o1)
  case (Cons x opts)
  have "overlay (setOption x o1) \<and> activeLeaves (setOption x o1) = activeLeaves o1"
    using Cons.prems by (cases x) auto
  then show ?case
    using Cons.IH [of "setOption x o1"] Cons.prems(1) by auto
qed simp


definition demo_snapshot :: "unit Snapshot" where
  "demo_snapshot =
     \<lparr>MachineID = ''demo'', Address = ''demo'', ActiveStates = [''s1.a''], Context = (), PendingAfter = [], SnChildren = [],
      Status = StatusRunning, ErrorReason = None, Version = 1, InvokeRestarts = Map.empty\<rparr>"


end
