(* ===== verification/Diagram_Limits.thy ===== *)
theory Diagram_Limits
  imports Diagram_Live Schema_Rules
begin

section \<open>What the diagrams confuse\<close>

text \<open>
  One machine that loads and shows it: the loader lets two states have one identifier, the
  Mermaid text gives one id to more states and none to the root, and the countdown of the
  terminal tree is that of the first armed timer of a state on all its delayed transitions.
\<close>

definition mixed_doc :: json where
  "mixed_doc =
     JObject
       [(''id'', JString ''m''), (''initial'', JString ''a''),
        (''on'', JObject [(''RESET'', JObject [(''target'', JString ''#a'')])]),
        (''states'', JObject
          [(''a'', JObject
             [(''initial'', JString ''b''),
              (''after'', JObject
                [(''soon'', JObject [(''target'', JString ''a_b'')]), (''late'', JObject [(''target'', JString ''a_b'')])]),
              (''states'', JObject [(''b'', JObject [])])]),
           (''a_b'', JObject []), (''a.b'', JObject [])])]"

definition two_timers :: "ScheduledTimer list" where
  "two_timers =
     [\<lparr>stStateID = ''a'', stDescriptor = ''soon'', stDeadline = 0\<rparr>,
      \<lparr>stStateID = ''a'', stDescriptor = ''late'', stDeadline = 60000 * Millisecond\<rparr>]"

definition mixed_gaps :: "heap \<Rightarrow> Definition \<Rightarrow> bool" where
  "mixed_gaps H d \<longleftrightarrow>
     map (idOf H) [0..<length (nodes H)] = [[], ''a'', ''a.b'', ''a_b'', ''a.b'']
     \<and> map (mermaidID H) [0..<length (nodes H)] = [[], ''a'', ''a_b'', ''a_b'', ''a_b'']
     \<and> map (\<lambda>t. mermaidTransition H (edgeAt H t)) (Transitions (nodeAt H 0)) = [row [''     --> a : RESET'']]
     \<and> map (\<lambda>t. textTransition H (rendering H d 0 [WithActive [''a.b''], WithPending two_timers, WithASCII True]) (edgeAt H t) [])
          (Transitions (nodeAt H 1)) =
        [row [''after soon -> a_b (0s left)''], row [''after late -> a_b (0s left)'']]"

lemma mixed_loads: "loads_with mixed_gaps mixed_doc"
  by code_simp

text \<open>
  States that diagrams confuse: \<open>mixed_doc\<close> loads, although its states \<open>a.b\<close> (below \<open>a\<close>) and
  \<open>a.b\<close> (a key with a dot) have one identifier; Mermaid gives these two and the state \<open>a_b\<close>
  one id, and the transition of the root no source at all; and both delayed transitions of
  \<open>a\<close> show the countdown of the timer that has just expired, although the timer of the second
  has a minute left.
\<close>

theorem mixed_states_confused:
  "\<exists>H d. Load (lexemes mixed_doc) = Some (Inr (H, d))
     \<and> map (idOf H) [0..<length (nodes H)] = [[], ''a'', ''a.b'', ''a_b'', ''a.b'']
     \<and> map (mermaidID H) [0..<length (nodes H)] = [[], ''a'', ''a_b'', ''a_b'', ''a_b'']
     \<and> map (\<lambda>t. mermaidTransition H (edgeAt H t)) (Transitions (nodeAt H 0)) = [row [''     --> a : RESET'']]
     \<and> map stDeadline two_timers = [0, 60000 * Millisecond]
     \<and> map (\<lambda>t. textTransition H (rendering H d 0 [WithActive [''a.b''], WithPending two_timers, WithASCII True]) (edgeAt H t) [])
          (Transitions (nodeAt H 1)) =
        [row [''after soon -> a_b (0s left)''], row [''after late -> a_b (0s left)'']]"
proof -
  obtain H d where l: "Load (lexemes mixed_doc) = Some (Inr (H, d))" and g: "mixed_gaps H d"
    using mixed_loads unfolding loads_with_iff by blast
  note parts = g [unfolded mixed_gaps_def]
  show ?thesis
    by (intro exI [of _ H] exI [of _ d] conjI l parts [THEN conjunct1] parts [THEN conjunct2, THEN conjunct1]
        parts [THEN conjunct2, THEN conjunct2, THEN conjunct1] parts [THEN conjunct2, THEN conjunct2, THEN conjunct2])
      (simp add: two_timers_def)
qed

end
