(* ===== verification/Command_Files.thy ===== *)
theory Command_Files
  imports Codegen_Stub Schema_Build Diagram_Text "HOL-Library.AList"
begin

section \<open>The command and its files: \<open>cmd/statesman/main.go\<close>\<close>

text \<open>
  \<open>init\<close>, \<open>stub\<close> and \<open>generate\<close> as functions on the disk and the terminal. A disk maps clean
  paths to contents; reading and writing can fail for reasons of the system, which depend on
  the call and the path and are part of the state of the world, as is what a failed write leaves
  behind (\<open>torn\<close>). Paths follow \<open>path/filepath\<close> on Unix; the pattern of \<open>Glob\<close> is
  used on directory names without pattern characters. The JSON scanner, \<open>packages.Load\<close> and
  \<open>format.Source\<close> are arguments, collected in \<open>env\<close>.
\<close>

subsection \<open>Paths\<close>

definition cleanStep :: "bool \<Rightarrow> string \<Rightarrow> string list \<Rightarrow> string list" where
  "cleanStep rooted c out =
     (if c = [] \<or> c = ''.'' then out
      else if c = ''..'' then
        (if out \<noteq> [] \<and> last out \<noteq> ''..'' then butlast out else if rooted then out else out @ [c])
      else out @ [c])"

definition path_Clean :: "string \<Rightarrow> string" where
  "path_Clean p =
     (if p = [] then ''.''
      else
        (let rooted = hd p = CHR ''/'';
             body = Join (fold (cleanStep rooted) (SplitByte (CHR ''/'') p) []) ''/''
         in if rooted then CHR ''/'' # body else if body = [] then ''.'' else body))"

definition path_Join :: "string \<Rightarrow> string \<Rightarrow> string" where
  "path_Join a b =
     (if a = [] then (if b = [] then [] else path_Clean b)
      else if b = [] then path_Clean a else path_Clean (a @ ''/'' @ b))"

definition HasSuffix :: "string \<Rightarrow> string \<Rightarrow> bool" where
  "HasSuffix s t = HasPrefix (rev s) (rev t)"

fun Contains :: "string \<Rightarrow> string \<Rightarrow> bool" where
  "Contains [] t = (t = [])"
| "Contains (c # s) t = (HasPrefix (c # s) t \<or> Contains s t)"

declare cleanStep_def [gomodel] path_Clean_def [gomodel] path_Join_def [gomodel] HasSuffix_def [gomodel]

subsection \<open>The system\<close>

record os =
  disk :: "(string \<times> string) list"
  dirs :: "string list"
  modified :: "string \<Rightarrow> time"
  ioError :: "string \<Rightarrow> string \<Rightarrow> error option"
  torn :: "string \<Rightarrow> string option"
  stdout :: string
  stderr :: string

definition notExist :: "string \<Rightarrow> string \<Rightarrow> error" where
  "notExist call p = OsNotExist (call @ '' '' @ p @ '': no such file or directory'')"

definition ReadFile :: "string \<Rightarrow> os \<Rightarrow> error + string" where
  "ReadFile p w =
     (case ioError w ''open'' p of
        Some e \<Rightarrow> Inl e
      | None \<Rightarrow> (case map_of (disk w) (path_Clean p) of None \<Rightarrow> Inl (notExist ''open'' p) | Some c \<Rightarrow> Inr c))"

definition WriteFile :: "string \<Rightarrow> string \<Rightarrow> os \<Rightarrow> error option \<times> os" where
  "WriteFile p c w =
     (case ioError w ''write'' p of
        Some e \<Rightarrow>
          (Some e, case torn w p of None \<Rightarrow> w | Some part \<Rightarrow> w\<lparr>disk := AList.update (path_Clean p) part (disk w)\<rparr>)
      | None \<Rightarrow> (None, w\<lparr>disk := AList.update (path_Clean p) c (disk w)\<rparr>))"

definition MkdirAll :: "string \<Rightarrow> os \<Rightarrow> error option \<times> os" where
  "MkdirAll p w =
     (case ioError w ''mkdir'' p of
        Some e \<Rightarrow> (Some e, w)
      | None \<Rightarrow> (None, w\<lparr>dirs := ins (path_Clean p) (dirs w)\<rparr>))"

text \<open>\<open>os.Stat\<close>: whether the path is a directory.\<close>

definition Stat :: "string \<Rightarrow> os \<Rightarrow> error + bool" where
  "Stat p w =
     (case ioError w ''stat'' p of
        Some e \<Rightarrow> Inl e
      | None \<Rightarrow>
          if path_Clean p \<in> set (dirs w) then Inr True
          else (case map_of (disk w) (path_Clean p) of None \<Rightarrow> Inl (notExist ''stat'' p) | Some c \<Rightarrow> Inr False))"

fun IsNotExist :: "error \<Rightarrow> bool" where
  "IsNotExist (OsNotExist p) = True"
| "IsNotExist e = False"

text \<open>\<open>filepath.Glob\<close> of \<open>*\<close> and an ending in a directory.\<close>

definition globEnding :: "string \<Rightarrow> string \<Rightarrow> os \<Rightarrow> string list" where
  "globEnding dir ending w =
     sort (filter (\<lambda>p. path_Join dir (path_Base p) = p \<and> HasSuffix p ending) (map fst (disk w)))"

definition machineFiles :: "string \<Rightarrow> os \<Rightarrow> string list" where
  "machineFiles dir w = globEnding dir ''.machine.json'' w"

definition println :: "string \<Rightarrow> os \<Rightarrow> os" where
  "println s w = w\<lparr>stdout := stdout w @ s @ nl\<rparr>"

definition eprintln :: "string \<Rightarrow> os \<Rightarrow> os" where
  "eprintln s w = w\<lparr>stderr := stderr w @ s @ nl\<rparr>"

record env =
  scan :: "string \<Rightarrow> lexeme list"
  message :: "loadMsg \<Rightarrow> string"
  packages_Load :: "os \<Rightarrow> string \<Rightarrow> error + goPackage option list"
  format_Source :: "string \<Rightarrow> error + string"

declare notExist_def [gomodel] ReadFile_def [gomodel] WriteFile_def [gomodel] MkdirAll_def [gomodel] Stat_def [gomodel]
  globEnding_def [gomodel] machineFiles_def [gomodel] println_def [gomodel] eprintln_def [gomodel]

subsection \<open>\<open>loadDef\<close>, \<open>generate\<close>, \<open>stub\<close>, \<open>init\<close>\<close>

text \<open>The outer \<open>None\<close> of a command stands for a run that gives no answer (a panic).\<close>

definition loadText :: "env \<Rightarrow> string \<Rightarrow> (error + heap \<times> Definition) option" where
  "loadText v data =
     map_option (\<lambda>r. case r of Inl e \<Rightarrow> Inl (UserError (loadError_Error (message v) e)) | Inr x \<Rightarrow> Inr x) (Load (scan v data))"

definition oneMachine :: "string \<Rightarrow> os \<Rightarrow> error + string" where
  "oneMachine dir w =
     (case machineFiles dir w of
        [] \<Rightarrow> Inl (UserError (''no *.machine.json found in '' @ dir))
      | [p] \<Rightarrow> Inr p
      | _ \<Rightarrow> Inl (UserError (dir @ '': multiple *.machine.json (one machine per package)'')))"

definition loadDef :: "env \<Rightarrow> string \<Rightarrow> os \<Rightarrow> (error + heap \<times> Definition) option" where
  "loadDef v dir w =
     (case oneMachine dir w of
        Inl e \<Rightarrow> Some (Inl e)
      | Inr p \<Rightarrow>
          (case ReadFile p w of
             Inl e \<Rightarrow> Some (Inl e)
           | Inr data \<Rightarrow>
               (case loadText v data of
                  None \<Rightarrow> None
                | Some (Inl e) \<Rightarrow> Some (Inl e)
                | Some (Inr (H, d)) \<Rightarrow>
                    if path_Base p \<noteq> DefID d @ ''.machine.json'' then
                      Some (Inl (UserError (p @ '': filename must match machine id; rename to ''
                        @ quote (DefID d @ ''.machine.json''))))
                    else Some (Inr (H, d)))))"

definition generated :: "env \<Rightarrow> string \<Rightarrow> heap \<Rightarrow> Definition \<Rightarrow> Resolution \<Rightarrow> string \<Rightarrow> os \<Rightarrow> error option \<times> os" where
  "generated v dir H d res src w =
     (let out = path_Join dir (DefID d @ ''.machine.gen.go'') in
      case WriteFile out src w of
        (Some e, w) \<Rightarrow> (Some e, w)
      | (None, w) \<Rightarrow>
          (let w = (if Contains src ''statesman.Unspecified'' then
                      eprintln (out @ '': warning: statesman.Unspecified survives in generated code; fill the TODO types'') w
                    else w);
               w = fold (\<lambda>s. eprintln (path_Join dir (DefID d @ ''.machine.json'') @ '': warning: '' @ s)) (Warnings res H d) w
           in (None, println (''wrote '' @ out) w)))"

definition generate :: "env \<Rightarrow> string \<Rightarrow> os \<Rightarrow> (error option \<times> os) option" where
  "generate v dir w =
     (case loadDef v dir w of
        None \<Rightarrow> None
      | Some (Inl e) \<Rightarrow> Some (Some e, w)
      | Some (Inr (H, d)) \<Rightarrow>
          (case Resolve (packages_Load v w dir) dir H d of
             Inl e \<Rightarrow> Some (Some e, w)
           | Inr res \<Rightarrow>
               if length (resUnresolved res) > 0 then
                 (let mj = path_Join dir (DefID d @ ''.machine.json'');
                      w = fold (\<lambda>u. eprintln (mj @ '': unresolved '' @ unKind u @ '' '' @ quote (unGoName u)
                                        @ '' (run `statesman stub`)'')) (resUnresolved res) w
                  in Some (Some (UserError (digits (length (resUnresolved res)) @ '' unresolved name(s)'')), w))
               else
                 (case Emit (format_Source v) H res d of
                    None \<Rightarrow> None
                  | Some (Inl e) \<Rightarrow> Some (Some e, w)
                  | Some (Inr src) \<Rightarrow> Some (generated v dir H d res src w))))"

definition joinLines :: "string list \<Rightarrow> string" where
  "joinLines xs = concat (map (\<lambda>l. l @ nl) xs)"

definition fileHeader :: "string \<Rightarrow> string \<Rightarrow> string" where
  "fileHeader pkgName content =
     (let imps = (if Contains content ''context.'' then [CHR 0x09 # quote ''context''] else [])
                 @ (if Contains content ''statesman.'' then [CHR 0x09 # quote ''github.com/andrioid/statesman''] else [])
      in ''package '' @ pkgName @ nl
         @ (if length imps > 0 then nl @ ''import ('' @ nl @ joinLines imps @ '')'' @ nl else []))"

definition appendToFile :: "env \<Rightarrow> string \<Rightarrow> string \<Rightarrow> string \<Rightarrow> os \<Rightarrow> error option \<times> os" where
  "appendToFile v p content pkgName w =
     (case ReadFile p w of
        Inr existing \<Rightarrow> WriteFile p (existing @ content) w
      | Inl e \<Rightarrow>
          if IsNotExist e then
            (let body = fileHeader pkgName content @ content
             in WriteFile p (case format_Source v body of Inl e \<Rightarrow> body | Inr formatted \<Rightarrow> formatted) w)
          else (Some e, w))"

text \<open>The range over the map of stub files, in one of its orders.\<close>

definition stubNames :: "Definition \<Rightarrow> string list" where
  "stubNames d = map (\<lambda>s. DefID d @ s) [''.events.go'', ''.actors.go'', ''.delays.go'', ''.behavior.go'']"

fun appendAll ::
  "env \<Rightarrow> string \<Rightarrow> string \<Rightarrow> (string \<rightharpoonup> string) \<Rightarrow> string list \<Rightarrow> os \<Rightarrow> error option \<times> os"
where
  "appendAll v dir pkgName m [] w = (None, w)"
| "appendAll v dir pkgName m (file # fs) w =
     (case m file of
        None \<Rightarrow> appendAll v dir pkgName m fs w
      | Some content \<Rightarrow>
          (case appendToFile v (path_Join dir file) content pkgName w of
             (Some e, w) \<Rightarrow> (Some e, w)
           | (None, w) \<Rightarrow> appendAll v dir pkgName m fs (println (''stubbed '' @ path_Join dir file) w)))"

definition stub :: "env \<Rightarrow> string \<Rightarrow> os \<Rightarrow> (error option \<times> os) option" where
  "stub v dir w =
     (case loadDef v dir w of
        None \<Rightarrow> None
      | Some (Inl e) \<Rightarrow> Some (Some e, w)
      | Some (Inr (H, d)) \<Rightarrow>
          (case Resolve (packages_Load v w dir) dir H d of
             Inl e \<Rightarrow> Some (Some e, w)
           | Inr res \<Rightarrow>
               if length (resUnresolved res) = 0 then Some (None, println ''nothing to stub: all names resolve'' w)
               else
                 (let pkgName = (if PkgName (resPkg res) \<noteq> [] then PkgName (resPkg res) else path_Base dir)
                  in map_option (\<lambda>m. appendAll v dir pkgName m (stubNames d) w) (Stub H res d))))"

definition writeIfAbsent :: "string \<Rightarrow> string \<Rightarrow> os \<Rightarrow> error option \<times> os" where
  "writeIfAbsent p c w =
     (case Stat p w of
        Inl e \<Rightarrow> if IsNotExist e then WriteFile p c w else (None, w)
      | Inr isDir \<Rightarrow> (None, w))"

definition starter :: "string \<Rightarrow> string" where
  "starter i =
     ''{'' @ nl @ ''  '' @ quote ''id'' @ '': '' @ quote i @ '','' @ nl
     @ ''  '' @ quote ''initial'' @ '': '' @ quote ''idle'' @ '','' @ nl
     @ ''  '' @ quote ''states'' @ '': {'' @ nl
     @ ''    '' @ quote ''idle'' @ '': {'' @ quote ''on'' @ '': {'' @ quote ''GO'' @ '': {'' @ quote ''target'' @ '': ''
     @ quote ''done'' @ ''}}},'' @ nl
     @ ''    '' @ quote ''done'' @ '': {'' @ quote ''type'' @ '': '' @ quote ''final'' @ ''}'' @ nl
     @ ''  }'' @ nl @ ''}'' @ nl"

definition genGo :: "string \<Rightarrow> string" where
  "genGo i = ''package '' @ i @ nl @ nl @ ''//go:generate go tool statesman generate'' @ nl"

definition initMachine :: "env \<Rightarrow> string \<Rightarrow> os \<Rightarrow> (error option \<times> os) option" where
  "initMachine v name w =
     (let i = path_Base name in
      case MkdirAll name w of
        (Some e, w) \<Rightarrow> Some (Some e, w)
      | (None, w) \<Rightarrow>
          (case writeIfAbsent (path_Join name (i @ ''.machine.json'')) (starter i) w of
             (Some e, w) \<Rightarrow> Some (Some e, w)
           | (None, w) \<Rightarrow>
               (case writeIfAbsent (path_Join name ''gen.go'') (genGo i) w of
                  (Some e, w) \<Rightarrow> Some (Some e, w)
                | (None, w) \<Rightarrow>
                    (case stub v name w of
                       None \<Rightarrow> None
                     | Some (Some e, w) \<Rightarrow> Some (Some e, w)
                     | Some (None, w) \<Rightarrow> generate v name w))))"

declare loadText_def [gomodel] oneMachine_def [gomodel] loadDef_def [gomodel] generated_def [gomodel] generate_def [gomodel]
  joinLines_def [gomodel] fileHeader_def [gomodel] appendToFile_def [gomodel] stubNames_def [gomodel] stub_def [gomodel]
  writeIfAbsent_def [gomodel] starter_def [gomodel] genGo_def [gomodel] initMachine_def [gomodel]

subsection \<open>Clean paths keep their endings\<close>

lemma SplitByte_suffix:
  "c \<notin> set s \<Longrightarrow> SplitByte c (q @ s) = butlast (SplitByte c q) @ [last (SplitByte c q) @ s]"
proof (induction q)
  case Nil
  have "c \<notin> set s \<Longrightarrow> SplitByte c s = [s]" for s
    by (induction s) auto
  then show ?case
    using Nil by simp
next
  case (Cons x q)
  obtain w ws where "SplitByte c q = w # ws"
    by (cases "SplitByte c q") auto
  then show ?case
    using Cons by (cases ws) auto
qed

lemma Join_last: "HasSuffix (Join (xs @ [y @ s]) sep) s"
proof -
  have "\<exists>t. Join (xs @ [y @ s]) sep = t @ s"
  proof (induction xs)
    case (Cons x xs)
    then obtain t where "Join (xs @ [y @ s]) sep = t @ s"
      by blast
    then have "Join ((x # xs) @ [y @ s]) sep = (x @ sep @ t) @ s"
      by (simp add: Join_Cons)
    then show ?case
      by blast
  qed simp
  then show ?thesis
    by (auto simp: HasSuffix_def)
qed

lemma Clean_suffix:
  assumes "CHR ''/'' \<notin> set s" and "3 \<le> length s" and "HasSuffix p s"
  shows "HasSuffix (path_Clean p) s"
proof -
  obtain t where "rev p = rev s @ t"
    using assms(3) by (auto simp: HasSuffix_def HasPrefix_iff)
  then have p: "p = rev t @ s"
    by (metis rev_append rev_rev_ident)
  let ?xs = "butlast (SplitByte (CHR ''/'') (rev t))" and ?y = "last (SplitByte (CHR ''/'') (rev t))"
  let ?rooted = "hd p = CHR ''/''"
  have "length (?y @ s) \<ge> 3"
    using assms(2) by simp
  then have "?y @ s \<noteq> ''..''" "?y @ s \<noteq> ''.''" "?y @ s \<noteq> []"
    by (auto simp del: length_append)
  then have "fold (cleanStep ?rooted) (SplitByte (CHR ''/'') p) [] = fold (cleanStep ?rooted) ?xs [] @ [?y @ s]"
    using assms(1) by (simp add: p SplitByte_suffix cleanStep_def)
  then have "HasSuffix (Join (fold (cleanStep ?rooted) (SplitByte (CHR ''/'') p) []) ''/'') s"
    using Join_last by simp
  then show ?thesis
    using assms(2) by (auto simp: path_Clean_def Let_def HasSuffix_def HasPrefix_iff p)
qed

lemma Join_suffix:
  assumes "CHR ''/'' \<notin> set s" and "3 \<le> length s"
  shows "HasSuffix (path_Clean (path_Join dir (i @ s))) s"
proof -
  have "HasSuffix (dir @ ''/'' @ i @ s) s" "HasSuffix (i @ s) s"
    by (simp_all add: HasSuffix_def HasPrefix_iff)
  then show ?thesis
    using Clean_suffix [OF assms] assms(2) by (auto simp: path_Join_def)
qed

subsection \<open>What happens to the files\<close>

text \<open>
  \<open>extends w w'\<close>: every file keeps its content as a beginning, generated files apart, and the
  system fails as before. \<open>honest\<close>: an error of the system is never taken for a missing file,
  and a write that fails leaves the file as it was.
\<close>

definition extends :: "os \<Rightarrow> os \<Rightarrow> bool" where
  "extends w w' \<longleftrightarrow>
     ioError w' = ioError w \<and> torn w' = torn w
     \<and> (\<forall>p c. map_of (disk w) p = Some c \<longrightarrow> \<not> HasSuffix p ''.machine.gen.go'' \<longrightarrow>
          (\<exists>t. map_of (disk w') p = Some (c @ t)))"

definition honest :: "os \<Rightarrow> bool" where
  "honest w \<longleftrightarrow> (\<forall>call p e. ioError w call p = Some e \<longrightarrow> \<not> IsNotExist e) \<and> (\<forall>p. torn w p = None)"

lemma extends_refl [simp]: "extends w w"
  by (auto simp: extends_def)

lemma extends_trans: "extends w w1 \<Longrightarrow> extends w1 w2 \<Longrightarrow> extends w w2"
  unfolding extends_def by (metis append.assoc)

lemma extends_honest: "extends w w' \<Longrightarrow> honest w \<Longrightarrow> honest w'"
  by (simp add: extends_def honest_def)

lemma extends_same: "disk w' = disk w \<Longrightarrow> ioError w' = ioError w \<Longrightarrow> torn w' = torn w \<Longrightarrow> extends w w'"
  by (auto simp: extends_def)

lemma print_parts [simp]:
  "disk (println s w) = disk w" "disk (eprintln s w) = disk w" "ioError (println s w) = ioError w"
  "ioError (eprintln s w) = ioError w" "torn (println s w) = torn w" "torn (eprintln s w) = torn w"
  by (simp_all add: println_def eprintln_def)

lemma eprint_fold [simp]:
  "disk (fold (\<lambda>x. eprintln (f x)) xs w) = disk w" "ioError (fold (\<lambda>x. eprintln (f x)) xs w) = ioError w"
  "torn (fold (\<lambda>x. eprintln (f x)) xs w) = torn w"
  by (induction xs arbitrary: w) simp_all

lemma write_extends:
  assumes "honest w" and "\<And>c. map_of (disk w) (path_Clean p) = Some c \<Longrightarrow> \<exists>t. new = c @ t"
  shows "extends w (snd (WriteFile p new w))"
  using assms by (cases "ioError w ''write'' p") (auto simp: WriteFile_def extends_def honest_def update_conv)

lemma append_extends: "honest w \<Longrightarrow> extends w (snd (appendToFile v p content pkg w))"
proof -
  assume h: "honest w"
  show ?thesis
  proof (cases "ReadFile p w")
    case (Inl e)
    show ?thesis
    proof (cases "IsNotExist e")
      case True
      then have "map_of (disk w) (path_Clean p) = None"
        using Inl h by (auto simp: ReadFile_def honest_def split: option.splits)
      then show ?thesis
        using Inl True by (auto simp: appendToFile_def Let_def h intro: write_extends)
    qed (simp add: appendToFile_def Inl)
  next
    case (Inr existing)
    then have "map_of (disk w) (path_Clean p) = Some existing"
      by (auto simp: ReadFile_def split: option.splits)
    then show ?thesis
      using Inr by (auto simp: appendToFile_def h intro!: write_extends)
  qed
qed

lemma appendAll_extends: "honest w \<Longrightarrow> extends w (snd (appendAll v dir pkg m fs w))"
proof (induction fs arbitrary: w)
  case (Cons name fs)
  show ?case
  proof (cases "m name")
    case (Some content)
    obtain r w1 where a: "appendToFile v (path_Join dir name) content pkg w = (r, w1)"
      by fastforce
    have 1: "extends w w1"
      using append_extends [OF Cons.prems, of v "path_Join dir name" content pkg] a by simp
    let ?w2 = "println (''stubbed '' @ path_Join dir name) w1"
    have "extends w ?w2"
      using 1 by (simp add: extends_def)
    then show ?thesis
      using Some a 1 Cons.IH [OF extends_honest [OF _ Cons.prems]] extends_trans by (cases r) auto
  qed (use Cons in simp)
qed simp

lemma stub_extends: "honest w \<Longrightarrow> stub v dir w = Some (r, w') \<Longrightarrow> extends w w'"
  unfolding stub_def
  using appendAll_extends [of w v dir]
  by (auto simp: Let_def extends_same split: option.splits sum.splits prod.splits if_splits) (metis snd_conv)+

lemma generated_spec:
  "honest w \<Longrightarrow> generated v dir H d res src w = (r, w') \<Longrightarrow>
     ioError w' = ioError w \<and> torn w' = torn w
     \<and> disk w' = (if r = None then AList.update (path_Clean (path_Join dir (DefID d @ ''.machine.gen.go''))) src (disk w)
                  else disk w)"
  by (auto simp: generated_def honest_def Let_def WriteFile_def split: option.splits if_splits)

definition wrote :: "env \<Rightarrow> string \<Rightarrow> os \<Rightarrow> os \<Rightarrow> bool" where
  "wrote v dir w w' \<longleftrightarrow>
     (\<exists>H d res src. loadDef v dir w = Some (Inr (H, d)) \<and> Resolve (packages_Load v w dir) dir H d = Inr res
        \<and> resUnresolved res = [] \<and> Emit (format_Source v) H res d = Some (Inr src)
        \<and> disk w' = AList.update (path_Clean (path_Join dir (DefID d @ ''.machine.gen.go''))) src (disk w))"

lemma generate_spec:
  assumes "honest w" and "generate v dir w = Some (r, w')"
  shows "ioError w' = ioError w \<and> torn w' = torn w \<and> (case r of Some e \<Rightarrow> disk w' = disk w | None \<Rightarrow> wrote v dir w w')"
proof -
  obtain l where l: "loadDef v dir w = Some l"
    using assms by (auto simp: generate_def split: option.splits)
  show ?thesis
  proof (cases l)
    case (Inl e)
    then show ?thesis
      using assms(2) l by (auto simp: generate_def)
  next
    case (Inr b)
    then obtain H d where hd: "l = Inr (H, d)"
      by (cases b) simp
    show ?thesis
    proof (cases "Resolve (packages_Load v w dir) dir H d")
      case (Inl e)
      then show ?thesis
        using assms(2) l hd by (auto simp: generate_def)
    next
      case res: (Inr res)
      show ?thesis
      proof (cases "resUnresolved res = []")
        case True
        then show ?thesis
          using assms(2) l hd res
          by (auto simp: generate_def wrote_def split: option.splits sum.splits dest!: generated_spec [OF assms(1)])
      next
        case False
        then show ?thesis
          using assms(2) l hd res by (auto simp: generate_def Let_def)
      qed
    qed
  qed
qed

lemma wrote_other:
  assumes "wrote v dir w w'" and "\<not> HasSuffix p ''.machine.gen.go''"
  shows "map_of (disk w') p = map_of (disk w) p"
proof -
  have "path_Clean (path_Join dir (i @ ''.machine.gen.go'')) \<noteq> p" for i
    using Join_suffix [of "''.machine.gen.go''" dir i] assms(2) by auto
  then have "map_of (AList.update (path_Clean (path_Join dir (i @ ''.machine.gen.go''))) src (disk w)) p = map_of (disk w) p"
    for i src
    by (metis fun_upd_other update_conv)
  then show ?thesis
    using assms(1) by (auto simp: wrote_def)
qed

lemma generate_extends: "honest w \<Longrightarrow> generate v dir w = Some (r, w') \<Longrightarrow> extends w w'"
  using generate_spec [of w v dir r w'] wrote_other by (cases r) (auto simp: extends_def)

lemma absent_extends: "honest w \<Longrightarrow> extends w (snd (writeIfAbsent p c w))"
  by (auto simp: writeIfAbsent_def Stat_def honest_def split: option.splits sum.splits if_splits
      intro!: write_extends [unfolded honest_def])

lemma init_extends: "honest w \<Longrightarrow> initMachine v name w = Some (r, w') \<Longrightarrow> extends w w'"
proof -
  assume h: "honest w" and i: "initMachine v name w = Some (r, w')"
  obtain r1 w1 where 1: "MkdirAll name w = (r1, w1)" by fastforce
  have e1: "extends w w1"
    using 1 by (auto simp: MkdirAll_def split: option.splits intro: extends_same)
  obtain r2 w2 where 2: "writeIfAbsent (path_Join name (path_Base name @ ''.machine.json'')) (starter (path_Base name)) w1 = (r2, w2)"
    by fastforce
  have e2: "extends w1 w2"
    using absent_extends [OF extends_honest [OF e1 h]] 2 by (metis snd_conv)
  obtain r3 w3 where 3: "writeIfAbsent (path_Join name ''gen.go'') (genGo (path_Base name)) w2 = (r3, w3)"
    by fastforce
  have e3: "extends w2 w3"
    using absent_extends [OF extends_honest [OF e2 extends_honest [OF e1 h]]] 3 by (metis snd_conv)
  have h3: "honest w3" and e: "extends w w3"
    using extends_honest extends_trans e1 e2 e3 h by blast+
  show ?thesis
  proof (cases "r1 = None \<and> r2 = None \<and> r3 = None")
    case True
    then obtain r4 w4 where 4: "stub v name w3 = Some (r4, w4)"
      using i by (auto simp: initMachine_def Let_def 1 2 3 split: option.splits)
    have "extends w w4"
      using stub_extends [OF h3 4] e extends_trans by blast
    moreover have "r4 = None \<and> generate v name w4 = Some (r, w') \<or> w' = w4"
      using i True by (cases r4) (auto simp: initMachine_def Let_def 1 2 3 4)
    ultimately show ?thesis
      using generate_extends extends_trans extends_honest h by blast
  next
    case False
    then have "w' = w1 \<or> w' = w2 \<or> w' = w3"
      using i by (cases r1; cases r2; cases r3) (auto simp: initMachine_def Let_def 1 2 3)
    then show ?thesis
      using e1 e2 e extends_trans by blast
  qed
qed

text \<open>
  C38. The commands do not destroy files. On a system whose failed writes change nothing, \<open>generate\<close>
  leaves every file but the generated one as it is, and writes that one exactly when it
  succeeds: then everything was resolved and the text is the emitted one; \<open>stub\<close> and \<open>init\<close> only append to files or
  create them. When every name resolves \<open>stub\<close> does nothing at all, so the skeleton of the
  behaviour does not grow with a machine whose new actions need no new names.
\<close>

theorem commands_keep_files:
  assumes "honest w" and "map_of (disk w) p = Some c" and "\<not> HasSuffix p ''.machine.gen.go''"
  shows "(case generate v dir w of
        None \<Rightarrow> True
      | Some (Some e, w') \<Rightarrow> disk w' = disk w
      | Some (None, w') \<Rightarrow> map_of (disk w') p = Some c \<and> wrote v dir w w')
   \<and> (case stub v dir w of None \<Rightarrow> True | Some (r, w') \<Rightarrow> (\<exists>t. map_of (disk w') p = Some (c @ t)))
   \<and> (case initMachine v name w of None \<Rightarrow> True | Some (r, w') \<Rightarrow> (\<exists>t. map_of (disk w') p = Some (c @ t)))
   \<and> (\<forall>H d res. loadDef v dir w = Some (Inr (H, d)) \<longrightarrow> Resolve (packages_Load v w dir) dir H d = Inr res \<longrightarrow>
        resUnresolved res = [] \<longrightarrow> stub v dir w = Some (None, println ''nothing to stub: all names resolve'' w))"
proof -
  have keep: "extends w w' \<Longrightarrow> \<exists>t. map_of (disk w') p = Some (c @ t)" for w'
    using assms(2,3) by (simp add: extends_def)
  have "case generate v dir w of
        None \<Rightarrow> True
      | Some (Some e, w') \<Rightarrow> disk w' = disk w
      | Some (None, w') \<Rightarrow> map_of (disk w') p = Some c \<and> wrote v dir w w'"
    using generate_spec [of w v dir] assms(1) wrote_other assms(2,3) by (auto split: option.splits)
  moreover have "case stub v dir w of None \<Rightarrow> True | Some (r, w') \<Rightarrow> (\<exists>t. map_of (disk w') p = Some (c @ t))"
    using stub_extends [OF assms(1)] keep by (auto split: option.splits)
  moreover have "case initMachine v name w of None \<Rightarrow> True | Some (r, w') \<Rightarrow> (\<exists>t. map_of (disk w') p = Some (c @ t))"
    using init_extends [OF assms(1)] keep by (auto split: option.splits)
  ultimately show ?thesis
    by (simp add: stub_def)
qed

definition sampleOs :: os where
  "sampleOs = \<lparr>disk = [(''p/gen.go'', ''package p'')], dirs = [''p''], modified = (\<lambda>_. 0), ioError = (\<lambda>_ _. None), torn = (\<lambda>_. None),
     stdout = [], stderr = []\<rparr>"

definition sampleEnv :: env where
  "sampleEnv = \<lparr>scan = (\<lambda>_. []), message = (\<lambda>_. []), packages_Load = (\<lambda>_ _. Inr []), format_Source = Inr\<rparr>"

theorem commands_keep_files_witness:
  "case stub sampleEnv ''p'' sampleOs of
     None \<Rightarrow> True
   | Some (r, w') \<Rightarrow> (\<exists>t. map_of (disk w') ''p/gen.go'' = Some (''package p'' @ t))"
proof -
  have "honest sampleOs" "map_of (disk sampleOs) ''p/gen.go'' = Some ''package p''"
    "\<not> HasSuffix ''p/gen.go'' ''.machine.gen.go''"
    by (simp_all add: sampleOs_def honest_def HasSuffix_def HasPrefix_def)
  then show ?thesis
    by (rule commands_keep_files [THEN conjunct2, THEN conjunct1])
qed

end
