(* ===== verification/Command_Diagram.thy ===== *)
theory Command_Diagram
  imports Command_Files Diagram_Live
begin

section \<open>The command: dispatch and diagrams, \<open>cmd/statesman/main.go\<close>\<close>

text \<open>
  \<open>main\<close>, \<open>diagram\<close> with its flags, and the watch loop as a state machine: a tick is one turn
  of the loop, between turns the files may change, and the interrupt ends it. The usage text of
  package \<open>flag\<close>, the terminal test and the environment variable are fields of \<open>terminal\<close>.
\<close>

subsection \<open>Flags\<close>

record terminal = env +
  isTTY :: bool
  NO_COLOR :: string
  flagUsage :: string

record flags =
  fFormat :: string
  fOut :: string
  fWatch :: bool
  fAscii :: bool
  fVerbose :: bool

definition noFlags :: flags where
  "noFlags = \<lparr>fFormat = [], fOut = [], fWatch = False, fAscii = False, fVerbose = False\<rparr>"

definition ParseBool :: "string \<Rightarrow> bool option" where
  "ParseBool s =
     (if s \<in> {''1'', ''t'', ''T'', ''TRUE'', ''true'', ''True''} then Some True
      else if s \<in> {''0'', ''f'', ''F'', ''FALSE'', ''false'', ''False''} then Some False
      else None)"

definition setBool :: "string \<Rightarrow> bool \<Rightarrow> flags \<Rightarrow> flags" where
  "setBool name b f =
     (if name = ''watch'' then f\<lparr>fWatch := b\<rparr>
      else if name = ''ascii'' then f\<lparr>fAscii := b\<rparr>
      else f\<lparr>fVerbose := b\<rparr>)"

definition setString :: "string \<Rightarrow> string \<Rightarrow> flags \<Rightarrow> flags" where
  "setString name s f = (if name = ''format'' then f\<lparr>fFormat := s\<rparr> else f\<lparr>fOut := s\<rparr>)"

text \<open>\<open>FlagSet.Parse\<close>: the flags and the arguments left, or an error.\<close>

fun parseFlags :: "string list \<Rightarrow> flags \<Rightarrow> error + flags \<times> string list" where
  "parseFlags [] f = Inr (f, [])"
| "parseFlags (s # args1) f =
     (if length s < 2 \<or> hd s \<noteq> CHR ''-'' then Inr (f, s # args1)
      else if s = ''--'' then Inr (f, args1)
      else
        (let body = (if s ! 1 = CHR ''-'' then drop 2 s else tl s) in
         if hd body = CHR ''-'' \<or> hd body = CHR ''='' then Inl (UserError (''bad flag syntax: '' @ s))
         else
           (let name = hd body # takeWhile (\<lambda>c. c \<noteq> CHR ''='') (tl body);
                given = drop (length name) body in
            if name \<in> {''watch'', ''ascii'', ''verbose''} then
              (if given = [] then parseFlags args1 (setBool name True f)
               else (case ParseBool (tl given) of
                       None \<Rightarrow> Inl (UserError (''invalid boolean value '' @ quote (tl given) @ '' for -'' @ name @ '': parse error''))
                     | Some b \<Rightarrow> parseFlags args1 (setBool name b f)))
            else if name \<in> {''format'', ''o''} then
              (if given \<noteq> [] then parseFlags args1 (setString name (tl given) f)
               else (case args1 of
                       [] \<Rightarrow> Inl (UserError (''flag needs an argument: -'' @ name))
                     | x # args2 \<Rightarrow> parseFlags args2 (setString name x f)))
            else if name \<in> {''help'', ''h''} then Inl (UserError ''flag: help requested'')
            else Inl (UserError (''flag provided but not defined: -'' @ name)))))"

declare noFlags_def [gomodel] ParseBool_def [gomodel] setBool_def [gomodel] setString_def [gomodel]

subsection \<open>Loading\<close>

definition resolveJSONPath :: "string \<Rightarrow> os \<Rightarrow> error + string" where
  "resolveJSONPath p w =
     (case Stat p w of
        Inl e \<Rightarrow> Inl e
      | Inr isDir \<Rightarrow> if isDir then oneMachine p w else Inr p)"

definition loadDefFromPath :: "'a env_scheme \<Rightarrow> string \<Rightarrow> os \<Rightarrow> (error + heap \<times> Definition) option" where
  "loadDefFromPath v p w =
     (case resolveJSONPath p w of
        Inl e \<Rightarrow> Some (Inl e)
      | Inr j \<Rightarrow> (case ReadFile j w of Inl e \<Rightarrow> Some (Inl e) | Inr data \<Rightarrow> loadText (env.truncate v) data))"

definition modTime :: "string \<Rightarrow> os \<Rightarrow> time" where
  "modTime p w = (case Stat p w of Inl e \<Rightarrow> zeroTime | Inr isDir \<Rightarrow> modified w (path_Clean p))"

declare resolveJSONPath_def [gomodel] loadDefFromPath_def [gomodel] modTime_def [gomodel]

subsection \<open>One diagram\<close>

definition diagramFormat :: "terminal \<Rightarrow> flags \<Rightarrow> string" where
  "diagramFormat v f = (if fFormat f \<noteq> [] then fFormat f else if isTTY v then ''term'' else ''mermaid'')"

definition renderDef :: "terminal \<Rightarrow> flags \<Rightarrow> time \<Rightarrow> heap \<Rightarrow> Definition \<Rightarrow> string" where
  "renderDef v f nw H d =
     (if diagramFormat v f = ''mermaid'' then Mermaid H d
      else Text H d nw
        ((if fAscii f then [WithASCII True] else [])
         @ (if fVerbose f then [WithVerbose True] else [])
         @ (if fOut f = [] \<and> isTTY v \<and> NO_COLOR v = [] then [WithColor True] else [])))"

definition printOut :: "string \<Rightarrow> os \<Rightarrow> os" where
  "printOut s w = w\<lparr>stdout := stdout w @ s\<rparr>"

definition showOnce :: "terminal \<Rightarrow> flags \<Rightarrow> string \<Rightarrow> time \<Rightarrow> os \<Rightarrow> (error option \<times> os) option" where
  "showOnce v f p nw w =
     (case loadDefFromPath v p w of
        None \<Rightarrow> None
      | Some (Inl e) \<Rightarrow> Some (Some e, w)
      | Some (Inr (H, d)) \<Rightarrow>
          (let out = renderDef v f nw H d in
           if fOut f \<noteq> [] then
             (case WriteFile (fOut f) out w of
                (Some e, w) \<Rightarrow> Some (Some e, w)
              | (None, w) \<Rightarrow> Some (None, println (''wrote '' @ fOut f) w))
           else Some (None, printOut out w)))"

declare diagramFormat_def [gomodel] renderDef_def [gomodel] printOut_def [gomodel] showOnce_def [gomodel]

subsection \<open>Watching\<close>

record watch =
  wPath :: string
  wFlags :: flags
  wJson :: string
  wFirst :: bool
  wLast :: time
  lastGood :: string
  haveGood :: bool
  watchOver :: bool

definition warn :: string where
  "warn = bytes [0xE2, 0x9A, 0xA0] @ '' ''"

definition watchFrame :: "string \<Rightarrow> error option \<Rightarrow> string \<Rightarrow> bool \<Rightarrow> string \<times> string \<times> bool" where
  "watchFrame rendered loadErr good hv =
     (case loadErr of
        None \<Rightarrow> (rendered, rendered, True)
      | Some e \<Rightarrow>
          if \<not> hv then (warn @ Error_text e @ nl @ nl @ ''(waiting for a valid machine.json)'', [], False)
          else (good @ nl @ warn @ Error_text e @ ''  '' @ bytes [0xC2, 0xB7] @ '' showing last valid'', good, True))"

definition onTermChange ::
  "terminal \<Rightarrow> time \<Rightarrow> string \<Rightarrow> error + heap \<times> Definition \<Rightarrow> watch \<Rightarrow> os \<Rightarrow> watch \<times> os"
where
  "onTermChange v nw hms r wt w =
     (let (body, lerr) = (case r of Inl e \<Rightarrow> ([], Some e) | Inr (H, d) \<Rightarrow> (renderDef v (wFlags wt) nw H d, None));
          (frame, ng, nh) = watchFrame body lerr (lastGood wt) (haveGood wt)
      in (wt\<lparr>lastGood := ng, haveGood := nh\<rparr>, printOut (Screen_Frame (frame @ nl @ nl @ hms @ nl)) w))"

definition onMermaidChange ::
  "terminal \<Rightarrow> time \<Rightarrow> error + heap \<times> Definition \<Rightarrow> watch \<Rightarrow> os \<Rightarrow> os"
where
  "onMermaidChange v nw r wt w =
     (case r of
        Inl e \<Rightarrow> eprintln (''statesman diagram: '' @ Error_text e) w
      | Inr (H, d) \<Rightarrow>
          (let out = renderDef v (wFlags wt) nw H d in
           if fOut (wFlags wt) = [] then printOut out w
           else (case WriteFile (fOut (wFlags wt)) out w of
                   (Some e, w) \<Rightarrow> eprintln (''statesman diagram: '' @ Error_text e) w
                 | (None, w) \<Rightarrow> eprintln (''wrote '' @ fOut (wFlags wt)) w)))"

text \<open>One turn of \<open>pollLoop\<close>, at time \<open>nw\<close> that prints as \<open>hms\<close>.\<close>

definition pollTurn :: "terminal \<Rightarrow> time \<Rightarrow> string \<Rightarrow> watch \<Rightarrow> os \<Rightarrow> (watch \<times> os) option" where
  "pollTurn v nw hms wt w =
     (let m = modTime (wJson wt) w in
      if wFirst wt \<or> m \<noteq> wLast wt then
        map_option
          (\<lambda>r. let wt = wt\<lparr>wFirst := False, wLast := m\<rparr> in
               if diagramFormat v (wFlags wt) = ''term'' then onTermChange v nw hms r wt w
               else (wt, onMermaidChange v nw r wt w))
          (loadDefFromPath v (wPath wt) w)
      else Some (wt, w))"

datatype watchEvent =
    Turn time string
  | FileSystem "(string \<times> string) list" "string list" "string \<Rightarrow> time"
  | Interrupt

text \<open>\<open>FileSystem\<close> is what other programs do to files, directories and modification times.\<close>

definition watch_step :: "terminal \<Rightarrow> watchEvent \<Rightarrow> watch \<times> os \<Rightarrow> (watch \<times> os) option" where
  "watch_step v ev s =
     (case s of (wt, w) \<Rightarrow>
        (case ev of
           FileSystem ds dr md \<Rightarrow> Some (wt, w\<lparr>disk := ds, dirs := dr, modified := md\<rparr>)
         | Turn nw hms \<Rightarrow> if watchOver wt then Some (wt, w) else pollTurn v nw hms wt w
         | Interrupt \<Rightarrow>
             if watchOver wt then Some (wt, w)
             else Some (wt\<lparr>watchOver := True\<rparr>,
                        if diagramFormat v (wFlags wt) = ''term'' then printOut Screen_Leave w else w)))"

fun watch_run :: "terminal \<Rightarrow> watchEvent list \<Rightarrow> watch \<times> os \<Rightarrow> (watch \<times> os) option" where
  "watch_run v [] s = Some s"
| "watch_run v (ev # evs) s = (case watch_step v ev s of None \<Rightarrow> None | Some s \<Rightarrow> watch_run v evs s)"

text \<open>\<open>watchDiagram\<close> up to the loop: it fails, or the loop starts.\<close>

definition watchDiagram :: "terminal \<Rightarrow> flags \<Rightarrow> string \<Rightarrow> os \<Rightarrow> (error + watch) \<times> os" where
  "watchDiagram v f p w =
     (let term = diagramFormat v f = ''term'';
          w = (if term then printOut Screen_Enter w else w) in
      case resolveJSONPath p w of
        Inl e \<Rightarrow> (Inl e, if term then printOut Screen_Leave w else w)
      | Inr j \<Rightarrow>
          (Inr \<lparr>wPath = p, wFlags = f, wJson = j, wFirst = True, wLast = zeroTime, lastGood = [], haveGood = False,
                watchOver = False\<rparr>, w))"

declare warn_def [gomodel] watchFrame_def [gomodel] onTermChange_def [gomodel] onMermaidChange_def [gomodel]
  pollTurn_def [gomodel] watch_step_def [gomodel] watchDiagram_def [gomodel]

subsection \<open>\<open>diagram\<close> and \<open>main\<close>\<close>

datatype outcomeOf = Finished "error option" | Watching watch | Exit nat

definition diagramCmd :: "terminal \<Rightarrow> string list \<Rightarrow> time \<Rightarrow> os \<Rightarrow> (outcomeOf \<times> os) option" where
  "diagramCmd v args nw w =
     (let (p, args) = (case args of a # args1 \<Rightarrow> if \<not> HasPrefix a ''-'' then (a, args1) else (''.'', args) | [] \<Rightarrow> (''.'', args)) in
      case parseFlags args noFlags of
        Inl e \<Rightarrow>
          (let w = (if e = UserError ''flag: help requested'' then w else eprintln (Error_text e) w)
           in Some (Finished (Some e), w\<lparr>stderr := stderr w @ flagUsage v\<rparr>))
      | Inr (f, args1) \<Rightarrow>
          (let p = (if p = ''.'' \<and> args1 \<noteq> [] then hd args1 else p) in
           if diagramFormat v f \<notin> {''mermaid'', ''term''} then
             Some (Finished (Some (UserError (''unknown format '' @ quote (diagramFormat v f) @ '' (want mermaid|term)''))), w)
           else if fWatch f then
             (case watchDiagram v f p w of (Inl e, w) \<Rightarrow> Some (Finished (Some e), w) | (Inr wt, w) \<Rightarrow> Some (Watching wt, w))
           else map_option (\<lambda>(r, w). (Finished r, w)) (showOnce v f p nw w)))"

definition dirArg :: "string list \<Rightarrow> string" where
  "dirArg args = (case args of d # ds \<Rightarrow> if d \<noteq> [] then d else ''.'' | [] \<Rightarrow> ''.'')"

definition usage :: "os \<Rightarrow> (outcomeOf \<times> os) option" where
  "usage w = Some (Exit 2, eprintln ''usage: statesman <init|stub|generate|diagram> [args]'' w)"

definition exitOn :: "(outcomeOf \<times> os) option \<Rightarrow> (outcomeOf \<times> os) option" where
  "exitOn r =
     map_option (\<lambda>(x, w). case x of
        Finished (Some e) \<Rightarrow> (Exit 1, eprintln (''statesman: '' @ Error_text e) w)
      | Finished None \<Rightarrow> (Exit 0, w)
      | _ \<Rightarrow> (x, w)) r"

definition finished :: "(error option \<times> os) option \<Rightarrow> (outcomeOf \<times> os) option" where
  "finished r = map_option (\<lambda>(e, w). (Finished e, w)) r"

text \<open>\<open>args\<close> is \<open>os.Args\<close> without the name of the program.\<close>

definition main :: "terminal \<Rightarrow> string list \<Rightarrow> time \<Rightarrow> os \<Rightarrow> (outcomeOf \<times> os) option" where
  "main v args nw w =
     (case args of
        [] \<Rightarrow> usage w
      | cmd # args1 \<Rightarrow>
          if cmd = ''generate'' then exitOn (finished (generate (env.truncate v) (dirArg args1) w))
          else if cmd = ''stub'' then exitOn (finished (stub (env.truncate v) (dirArg args1) w))
          else if cmd = ''diagram'' then exitOn (diagramCmd v args1 nw w)
          else if cmd = ''init'' then
            (case args1 of
               [] \<Rightarrow> Some (Exit 2, eprintln ''statesman init: missing <name>'' w)
             | name # args2 \<Rightarrow> exitOn (finished (initMachine (env.truncate v) name w)))
          else usage w)"

declare diagramCmd_def [gomodel] dirArg_def [gomodel] usage_def [gomodel] exitOn_def [gomodel] finished_def [gomodel]
  main_def [gomodel]

subsection \<open>What a watcher sees\<close>

text \<open>
  Once a valid machine has been shown every frame of the terminal begins with the last valid
  render, and a file that does not load leaves the diagram file alone.
\<close>

lemma watch_never_blank:
  assumes "haveGood wt" and "pollTurn v nw hms wt w = Some (wt', w')"
  shows "haveGood wt'"
    and "diagramFormat v (wFlags wt) = ''term'' \<Longrightarrow>
           w' = w \<or> (\<exists>t. stdout w' = stdout w @ Screen_Frame (lastGood wt' @ t))"
proof -
  note defs = pollTurn_def onTermChange_def watchFrame_def printOut_def Let_def
  have "haveGood wt'
     \<and> (diagramFormat v (wFlags wt) = ''term'' \<longrightarrow> w' = w \<or> (\<exists>t. stdout w' = stdout w @ Screen_Frame (lastGood wt' @ t)))"
  proof (cases "wFirst wt \<or> modTime (wJson wt) w \<noteq> wLast wt")
    case True
    then obtain r where r: "loadDefFromPath v (wPath wt) w = Some r"
      using assms(2) by (auto simp: defs split: option.splits)
    show ?thesis
      using True assms r by (cases r) (auto simp: defs split: prod.splits if_splits)
  qed (use assms in \<open>simp add: defs\<close>)
  then show "haveGood wt'"
    and "diagramFormat v (wFlags wt) = ''term'' \<Longrightarrow>
           w' = w \<or> (\<exists>t. stdout w' = stdout w @ Screen_Frame (lastGood wt' @ t))"
    by blast+
qed

lemma invalid_keeps_diagram_file: "disk (onMermaidChange v nw (Inl e) wt w) = disk w"
  by (simp add: onMermaidChange_def)

text \<open>
  The watched file is found once, by its name at the start: when it is gone (renamed together
  with the machine's id, say), the one turn that notices loads what is there now, and after it
  nothing is shown any more, whatever happens to the file that replaced it.
\<close>

definition gone :: "string \<Rightarrow> os \<Rightarrow> bool" where
  "gone j w \<longleftrightarrow> path_Clean j \<notin> set (dirs w) \<and> map_of (disk w) (path_Clean j) = None"

fun staysGone :: "string \<Rightarrow> watchEvent list \<Rightarrow> bool" where
  "staysGone j [] = True"
| "staysGone j (FileSystem ds dr md # evs) = (path_Clean j \<notin> set dr \<and> map_of ds (path_Clean j) = None \<and> staysGone j evs)"
| "staysGone j (Turn nw hms # evs) = staysGone j evs"
| "staysGone j (Interrupt # evs) = False"

lemma watch_loses_renamed:
  "gone (wJson wt) w \<Longrightarrow> \<not> wFirst wt \<Longrightarrow> wLast wt = zeroTime \<Longrightarrow> staysGone (wJson wt) evs \<Longrightarrow>
     \<exists>w'. watch_run v evs (wt, w) = Some (wt, w') \<and> stdout w' = stdout w \<and> stderr w' = stderr w"
proof (induction evs arbitrary: w)
  case (Cons ev evs)
  show ?case
  proof (cases ev)
    case (Turn nw hms)
    have "modTime (wJson wt) w = zeroTime"
      using Cons.prems(1) by (auto simp: modTime_def Stat_def gone_def split: option.splits)
    then have "watch_step v ev (wt, w) = Some (wt, w)"
      using Cons.prems Turn by (simp add: watch_step_def pollTurn_def)
    then show ?thesis
      using Cons Turn by simp
  next
    case (FileSystem ds dr md)
    have "gone (wJson wt) (w\<lparr>disk := ds, dirs := dr, modified := md\<rparr>)"
      using Cons.prems FileSystem by (simp add: gone_def)
    from Cons.IH [OF this] show ?thesis
      using Cons.prems FileSystem by (simp add: watch_step_def)
  qed (use Cons.prems in simp)
qed simp

lemma gone_turn:
  assumes "gone (wJson wt) w" and "pollTurn v nw hms wt w = Some (wt', w')"
  shows "\<not> wFirst wt' \<or> wt' = wt" and "wFirst wt \<longrightarrow> \<not> wFirst wt'" and "wLast wt' = zeroTime"
proof -
  have m: "modTime (wJson wt) w = zeroTime"
    using assms(1) by (auto simp: modTime_def Stat_def gone_def split: option.splits)
  show "\<not> wFirst wt' \<or> wt' = wt" "wFirst wt \<longrightarrow> \<not> wFirst wt'" "wLast wt' = zeroTime"
    using assms(2) m
    by (auto simp: pollTurn_def onTermChange_def Let_def split: if_splits option.splits sum.splits prod.splits)
qed

end
