(* ===== verification/Machine_View.thy ===== *)
theory Machine_View
  imports Machine_Run
begin

section \<open>What an actor shows of its engine\<close>

text \<open>
  Every snapshot that is not of an error or of the shutdown lists the leaves and the context of
  the engine at that moment; those of an error or the shutdown repeat what was shown before. So
  an invariant of the engine, kept by its operations, holds of everything an actor publishes.
  The interface is the locale \<open>engine_view\<close>: the operations of the engine and the predicates
  of the invariant as its parameters, what the operations keep as its assumptions.
\<close>

definition mirrors :: "heap \<Rightarrow> ('c, 'e, 'b) engine \<Rightarrow> 'c Snapshot \<Rightarrow> bool" where
  "mirrors H e s \<longleftrightarrow> ActiveStates s = atomicIDs H (engCfg e) \<and> Context s = engCtx e"

lemma mirrors_engine: "engCfg e' = engCfg e \<Longrightarrow> engCtx e' = engCtx e \<Longrightarrow> mirrors H e' s \<longleftrightarrow> mirrors H e s"
  by (simp add: mirrors_def)

lemma mirrors_snap: "ActiveStates s' = ActiveStates s \<Longrightarrow> Context s' = Context s \<Longrightarrow> mirrors H e s' \<longleftrightarrow> mirrors H e s"
  by (simp add: mirrors_def)

lemma start_engine: "engine_start H k e = Some (e', ms) \<Longrightarrow> e' = e\<lparr>lastEvt := None\<rparr>"
  by (auto simp: engine_start_def) (metis apply_engine fst_conv)

text \<open>The step leaves the live configuration and context alone.\<close>

lemma staged_frame:
  "staged (microstepFor H k e ts p trig) = Some (x, m) \<Longrightarrow> x = e\<lparr>lastEvt := p\<rparr>"
  by (auto simp: staged_def microstepFor_def) (metis apply_engine fst_conv)

lemma step_frame:
  assumes "engine_step H k e = Some (e', m)"
  shows "engCfg e' = engCfg e \<and> engCtx e' = engCtx e \<and> applyAction e' = applyAction e \<and> evalGuard e' = evalGuard e"
  using assms by (auto simp: engine_step_def Let_def dest!: staged_frame split: if_splits prod.splits option.splits)

lemma apply_shows: "apply_microstep H e exs ts S evt trig = (x, ms) \<Longrightarrow> NextActive ms = atomicIDs H (msCfg ms)"
  using apply_parts(1,5) [of H e exs ts S evt trig] by simp

lemma staged_shows: "staged (microstepFor H k e ts p trig) = Some (x, Some ms) \<Longrightarrow> NextActive ms = atomicIDs H (msCfg ms)"
  using apply_shows by (force simp: staged_def microstepFor_def)

lemma step_shows: "engine_step H k e = Some (e', Some ms) \<Longrightarrow> NextActive ms = atomicIDs H (msCfg ms)"
  using staged_shows by (fastforce simp: engine_step_def Let_def split: if_splits prod.splits option.splits)

lemma start_shows: "engine_start H k e = Some (e', ms) \<Longrightarrow> NextActive ms = atomicIDs H (msCfg ms)"
  using apply_shows by (force simp: engine_start_def)

lemma commit_mirrors:
  "NextActive ms = atomicIDs H (msCfg ms) \<Longrightarrow> mirrors H (commit ms e) (afterSnapshot H ms a)"
  by (simp add: mirrors_def afterSnapshot_def commit_def Let_def)

lemma stop_children_eng: "eng (fold (\<lambda>p. stopChild (snd p)) cs a) = eng a"
  by (induction cs arbitrary: a) (auto simp: stopChild_def)

lemma shutdown_done: "isDone (shutdown a)"
  by (simp add: shutdown_def Let_def)

text \<open>Shutdown publishes at most one snapshot, with the leaves and the context of the last one.\<close>

lemma shutdown_shows:
  "eng (shutdown a) = eng a \<and> ActiveStates (snap (shutdown a)) = ActiveStates (snap a)
     \<and> Context (snap (shutdown a)) = Context (snap a)
     \<and> (stored (shutdown a) = stored a
        \<or> (\<not> Terminal (Status (snap a)) \<and> stored (shutdown a) = stored a @ [snap (shutdown a)]))"
proof -
  let ?b = "fold (\<lambda>p. stopChild (snd p)) (children a) (a\<lparr>loopCancelled := True\<rparr>)"
  have "same_public (a\<lparr>loopCancelled := True\<rparr>) ?b" "eng ?b = eng a"
    by (rule stopChildren_public) (simp add: stop_children_eng)
  then show ?thesis
    by (auto simp: shutdown_def Let_def closeSubs_def stopTimers_def same_public_def)
qed

subsection \<open>The interface\<close>

text \<open>
  \<open>fresh\<close> is an engine before the initial entry, \<open>good\<close> one after it, \<open>staged_good\<close> a
  microstep that may be committed, \<open>shown\<close> what is claimed of a snapshot.
\<close>

locale engine_view =
  fixes H :: heap and k :: nat
    and fresh good :: "('c, 'e, 'b) engine \<Rightarrow> bool"
    and staged_good :: "('c, 'b) Microstep \<Rightarrow> bool"
    and shown :: "'c Snapshot \<Rightarrow> bool"
  assumes start_good: "fresh e \<Longrightarrow> engine_start H k e = Some (e', ms) \<Longrightarrow> fresh e' \<and> staged_good ms"
    and step_good: "good e \<Longrightarrow> engine_step H k e = Some (e', m) \<Longrightarrow>
          good e' \<and> (\<forall>ms. m = Some ms \<longrightarrow> staged_good ms)"
    and commit_good: "fresh e \<or> good e \<Longrightarrow> staged_good ms \<Longrightarrow> good (commit ms e)"
    and offer_good: "good e \<Longrightarrow> good (e\<lparr>pendingExternal := q\<rparr>)"
    and good_shown: "good e \<Longrightarrow> mirrors H e s \<Longrightarrow> shown s"
    and fresh_shown: "fresh e \<Longrightarrow> mirrors H e s \<Longrightarrow> Status s = StatusStarting \<or> Status s = StatusError \<Longrightarrow> shown s"
begin

definition tells :: "('w, 'c, 'e, 'b) actor \<Rightarrow> bool" where
  "tells a \<longleftrightarrow> list_all shown (stored a) \<and> mirrors H (eng a) (snap a)"

definition faithful :: "('w, 'c, 'e, 'b) actor \<Rightarrow> bool" where
  "faithful a \<longleftrightarrow> tells a \<and> good (eng a)"

definition exposes :: "('w, 'c, 'e, 'b) actor \<Rightarrow> bool" where
  "exposes a \<longleftrightarrow> tells a \<and> (isDone a \<or> good (eng a))"

lemma faithful_exposes: "faithful a \<Longrightarrow> exposes a"
  by (simp add: faithful_def exposes_def)

lemma faithful_cong:
  "stored b = stored a \<Longrightarrow> snap b = snap a \<Longrightarrow> eng b = eng a \<Longrightarrow> faithful b \<longleftrightarrow> faithful a"
  by (simp add: faithful_def tells_def)

lemma faithful_frame [simp]:
  "faithful (a\<lparr>mailbox := q\<rparr>) = faithful a" "faithful (a\<lparr>acks := ks\<rparr>) = faithful a"
  "faithful (a\<lparr>world := w\<rparr>) = faithful a" "faithful (a\<lparr>loopCancelled := c\<rparr>) = faithful a"
  by (simp_all add: faithful_def tells_def)

lemma offer_faithful: "faithful a \<Longrightarrow> faithful (offerItem it a)"
  using offer_good [of "eng a"]
  by (cases it) (simp_all add: offerItem_def offer_def offerDescriptor_def faithful_def tells_def mirrors_def)

lemma step_faithful:
  assumes "faithful a" and "engine_step H k (eng a) = Some (e', m)"
  shows "faithful (a\<lparr>eng := e'\<rparr>) \<and> (\<forall>ms. m = Some ms \<longrightarrow> staged_good ms \<and> NextActive ms = atomicIDs H (msCfg ms))"
  using assms step_good [of "eng a" e' m] step_frame [OF assms(2)] step_shows [of H k "eng a" e']
  by (auto simp: faithful_def tells_def mirrors_def)

text \<open>A committed microstep shows what it enters, one that an observer aborts what was shown before.\<close>

lemma exec_faithful:
  assumes st: "staged_good ms" "NextActive ms = atomicIDs H (msCfg ms)" and e: "fresh (eng a) \<or> good (eng a)"
    and old: "list_all shown (stored a)" and ex: "execMicrostep H ms a = (b, True)"
  shows "faithful b"
proof -
  note r = exec_result [OF ex]
  have "good (eng b)"
    unfolding r(3) by (rule commit_good [OF e st(1)])
  moreover have "mirrors H (eng b) (afterSnapshot H ms a)"
    unfolding r(3) by (rule commit_mirrors [OF st(2)])
  ultimately show ?thesis
    using old good_shown by (simp add: faithful_def tells_def r)
qed

lemma abort_tells:
  assumes "tells a" and "fresh (eng a) \<or> good (eng a)" and "execMicrostep H ms a = (b, False)"
  shows "tells b" and "eng b = eng a" and "Status (snap b) = StatusError"
proof -
  obtain cause fail where f: "fail = (snap a)\<lparr>Status := StatusError,
      ErrorReason := Some (ObserverError cause ''transition''), Version := version a + 1\<rparr>"
    and r: "eng b = eng a" "snap b = fail" "stored b = stored a @ [fail]"
    using assms(3) by (rule abort_result) blast
  have m: "mirrors H (eng a) fail"
    using assms(1) by (simp add: f tells_def mirrors_def)
  then have "shown fail"
    using assms(2) good_shown fresh_shown by (auto simp: f)
  then show "tells b" "eng b = eng a" "Status (snap b) = StatusError"
    using assms(1) r f m by (simp_all add: tells_def)
qed

lemma abort_faithful: "faithful a \<Longrightarrow> execMicrostep H ms a = (b, False) \<Longrightarrow> faithful b"
  using abort_tells [of a ms b] by (simp add: faithful_def)

lemma fail_faithful: "faithful a \<Longrightarrow> faithful (publishTerminalError reason a)"
  using good_shown [of "eng a"] by (auto simp: publishTerminalError_def faithful_def tells_def mirrors_def Let_def)

end

subsection \<open>The loop\<close>

context engine_view begin

lemma macro_faithful:
  assumes run: "runMacrostep H k a = Some (b, ok)" and a: "faithful a"
  shows "faithful b"
proof -
  have exec: "faithful a1"
    if "faithful x" "engine_step H k (eng x) = Some (e', Some ms)" "execMicrostep H ms (x\<lparr>eng := e'\<rparr>) = (a1, ok)"
    for x a1 :: "('w, 'c, 'e, 'b) actor" and e' ms ok
  proof (cases ok)
    case True
    have "list_all shown (stored x)" "good e'"
      using step_faithful [OF that(1,2)] by (auto simp: faithful_def tells_def)
    then show ?thesis
      using step_faithful [OF that(1,2)] that(3) True exec_faithful [of ms "x\<lparr>eng := e'\<rparr>" a1] by simp
  next
    case False
    then show ?thesis
      using step_faithful [OF that(1,2)] that(3) abort_faithful [of "x\<lparr>eng := e'\<rparr>" ms a1] by simp
  qed
  show ?thesis
    using run a
    by (induction rule: runMacrostep_rule) (use step_faithful exec fail_faithful in blast)+
qed

lemma shutdown_tells:
  assumes "tells a" and "Terminal (Status (snap a)) \<or> good (eng a)"
  shows "tells (shutdown a)" and "eng (shutdown a) = eng a"
proof -
  note sh = shutdown_shows [of a]
  have m: "mirrors H (eng a) (snap (shutdown a))"
    using assms(1) sh by (simp add: tells_def mirrors_def)
  then show "tells (shutdown a)"
    using assms sh good_shown [OF _ m] by (auto simp: tells_def)
  show "eng (shutdown a) = eng a"
    using sh by simp
qed

lemma shutdown_faithful: "faithful a \<Longrightarrow> faithful (shutdown a)"
  using shutdown_tells [of a] by (simp add: faithful_def)

lemma reconcile_faithful: "reconcileInvokes H a = Some b \<Longrightarrow> faithful b \<longleftrightarrow> faithful a"
  using reconcile_public(1,2) [of H a b] by (intro faithful_cong) (auto simp: same_public_def)

lemma macro_tail_faithful:
  assumes a: "faithful a" and run: "runMacrostep H k a = Some (b, ok)"
    and last: "(if \<not> ok then Some (shutdown b) else reconcileInvokes H b) = Some c"
  shows "faithful c"
  using macro_faithful [OF run a] last shutdown_faithful reconcile_faithful [of b c] by (auto split: if_splits)

lemma drain_faithful: "drainAndClose H k q a = Some c \<Longrightarrow> faithful a \<Longrightarrow> faithful c"
proof (induction q arbitrary: a)
  case Nil
  then show ?case
    using shutdown_faithful [of "a\<lparr>mailbox := []\<rparr>"] by auto
next
  case (Cons it q)
  have "faithful c"
    if "runMacrostep H k (offerItem it (a\<lparr>mailbox := q\<rparr>)) = Some (b, ok)"
      "(if \<not> ok then Some (shutdown b) else drainAndClose H k q b) = Some c" for b ok
    using macro_faithful [OF that(1)] that(2) Cons.prems(2) Cons.IH [of b] shutdown_faithful [of b]
      offer_faithful [of "a\<lparr>mailbox := q\<rparr>" it]
    by (auto split: if_splits)
  then show ?case
    using Cons by (cases it) (auto simp: Let_def split: option.splits prod.splits)
qed

lemma handle_faithful:
  assumes a: "faithful a" and step: "handleItem H k a = Some c"
  shows "faithful c"
proof (cases "mailbox a")
  case Nil
  then show ?thesis
    using a step by (simp add: handleItem_def)
next
  case (Cons it rest)
  have "faithful c"
    if "runMacrostep H k (offerItem it (a\<lparr>mailbox := rest\<rparr>)) = Some (b, ok)"
      "(if \<not> ok then Some (shutdown b) else reconcileInvokes H b) = Some c" for b ok
    using macro_tail_faithful [OF _ that] offer_faithful [of "a\<lparr>mailbox := rest\<rparr>" it] a by simp
  then show ?thesis
    using step a Cons drain_faithful [of rest "a\<lparr>mailbox := rest\<rparr>" c]
    by (cases it) (auto simp: handleItem_def Let_def split: option.splits prod.splits)
qed

lemma boot_exposes:
  assumes new: "fresh (eng a)" and t: "tells a" and boot: "bootLoop H k a = Some c"
  shows "exposes c"
proof -
  obtain e' ms where st: "engine_start H k (eng a) = Some (e', ms)"
    using boot by (auto simp: bootLoop_def split: option.splits)
  note e = start_good [OF new st]
  have t': "tells (a\<lparr>eng := e'\<rparr>)"
    using t start_engine [OF st] by (simp add: tells_def mirrors_def)
  obtain a1 ok where ex: "execMicrostep H ms (a\<lparr>eng := e'\<rparr>) = (a1, ok)"
    by fastforce
  show ?thesis
  proof (cases ok)
    case False
    then have "c = shutdown a1" "tells a1" "Terminal (Status (snap a1))"
      using boot st ex abort_tells(1,3) [OF t', of ms a1] e by (auto simp: bootLoop_def)
    then show ?thesis
      using shutdown_tells(1) [of a1] by (simp add: exposes_def shutdown_done)
  next
    case True
    then have f: "faithful a1"
      using exec_faithful [of ms "a\<lparr>eng := e'\<rparr>" a1] start_shows [OF st] ex e t' by (simp add: tells_def)
    show ?thesis
    proof (cases "Terminal (engStatus (eng a1))")
      case True
      then show ?thesis
        using boot st ex f shutdown_faithful faithful_exposes by (auto simp: bootLoop_def)
    next
      case False
      then obtain b ok2 where "runMacrostep H k a1 = Some (b, ok2)"
        "(if \<not> ok2 then Some (shutdown b) else reconcileInvokes H b) = Some c"
        using boot st ex \<open>ok\<close> by (auto simp: bootLoop_def split: option.splits prod.splits)
      then show ?thesis
        using macro_tail_faithful [OF f] faithful_exposes by blast
    qed
  qed
qed

lemma step_exposes:
  assumes step: "actor_step H k a b" and a: "exposes a"
  shows "exposes b"
  using step
proof cases
  case handle
  then show ?thesis
    using a handle_faithful faithful_exposes by (auto simp: exposes_def faithful_def)
next
  case cancel
  then show ?thesis
    using a shutdown_faithful faithful_exposes by (auto simp: exposes_def faithful_def)
next
  case (send evt err)
  then show ?thesis
    using a by (auto simp: Send_def exposes_def tells_def split: if_splits)
next
  case (try_send evt err)
  then show ?thesis
    using a by (auto simp: TrySend_def exposes_def tells_def split: if_splits)
next
  case (enqueue it)
  then show ?thesis
    using a by (auto simp: enqueue_def post_def exposes_def tells_def split: if_splits)
next
  case (fire st)
  then show ?thesis
    using a by (auto simp: fireTimer_def enqueue_def post_def exposes_def tells_def split: if_splits)
qed (use a in \<open>auto simp: addSub_def removeSub_def exposes_def tells_def\<close>)

text \<open>The rule that the invariants of an engine are used by.\<close>

lemma run_exposes:
  assumes new: "fresh (newEngine (mDef m) (initCtx m) (mApplyAction m) (mEvalGuard m) (mAlwaysLimit m))"
    and run: "actor_run H k (Start ad m w) a"
  shows "list_all shown (stored a)" and "mirrors H (eng a) (snap a)" and "isDone a \<or> good (eng a)"
proof -
  let ?a = "Start ad m w"
  have m: "mirrors H (eng ?a) (snap ?a)"
    by (simp add: mirrors_def Start_def initialSnapshot_def newEngine_def newConfiguration_def
        atomicIDs_def cfg_atomic_def cfg_all_def Let_def)
  have e: "fresh (eng ?a)"
    using new by (simp add: Start_def Let_def)
  have "shown (initialSnapshot (''/'' @ ad) m)"
    using fresh_shown [OF e m] by (simp add: Start_def initialSnapshot_def Let_def)
  then have t: "tells (?a\<lparr>mailbox := q\<rparr>)" for q
    using m by (simp add: tells_def Start_def Let_def)
  have "exposes a"
    using run
  proof induction
    case (boot q a)
    then show ?case
      using boot_exposes [OF _ t] e by simp
  next
    case (step a a')
    then show ?case
      using step_exposes by blast
  qed
  then show "list_all shown (stored a)" and "mirrors H (eng a) (snap a)" and "isDone a \<or> good (eng a)"
    by (auto simp: exposes_def tells_def)
qed

end

end
