(* ===== verification/Machine_Legal.thy ===== *)
theory Machine_Legal
  imports Machine_View Engine_Legal
begin

section \<open>Legal configurations in the snapshots\<close>

text \<open>
  \<open>Engine_Legal\<close> has the invariant of the engine on a sound chart; with \<open>Machine_View\<close> it holds
  of what an actor publishes.
\<close>

definition shows_legal :: "heap \<Rightarrow> 'c Snapshot \<Rightarrow> bool" where
  "shows_legal H s \<longleftrightarrow> (\<exists>C. legal H (set C) \<and> distinct C \<and> ActiveStates s = atomicIDs H C)"

text \<open>
  Nothing is shown before the initial entry, and by the error of an observer that aborts it.
\<close>

definition proper :: "heap \<Rightarrow> 'c Snapshot \<Rightarrow> bool" where
  "proper H s \<longleftrightarrow>
     shows_legal H s \<or> (ActiveStates s = [] \<and> (Status s = StatusStarting \<or> Status s = StatusError))"

text \<open>The chart is sound and the bound on the entry recursion is large enough.\<close>

definition runnable :: "heap \<Rightarrow> nat \<Rightarrow> bool" where
  "runnable H k \<longleftrightarrow> sound_chart H \<and> length (nodes H) < k"

definition fresh_engine :: "heap \<Rightarrow> nat \<Rightarrow> ('c, 'e, 'b) engine \<Rightarrow> bool" where
  "fresh_engine H k e \<longleftrightarrow> runnable H k \<and> engine_new e"

definition legal_engine :: "heap \<Rightarrow> nat \<Rightarrow> ('c, 'e, 'b) engine \<Rightarrow> bool" where
  "legal_engine H k e \<longleftrightarrow> runnable H k \<and> engine_ok H e"

lemma atomicIDs_Nil [simp]: "atomicIDs H [] = []"
  by (simp add: atomicIDs_def cfg_atomic_def cfg_all_def)

lemma legal_engine_start:
  assumes "fresh_engine H k e" and "engine_start H k e = Some (e', ms)"
  shows "fresh_engine H k e' \<and> staged_ok H ms"
proof -
  have r: "runnable H k" "engine_new e"
    using assms(1) by (simp_all add: fresh_engine_def)
  then have "staged_ok H ms"
    using engine_start_ok [of H e k] assms(2) by (auto simp: runnable_def)
  then show ?thesis
    using r start_engine [OF assms(2)] by (simp add: fresh_engine_def engine_new_def)
qed

lemma legal_engine_step:
  assumes "legal_engine H k e" and "engine_step H k e = Some (e', m)"
  shows "legal_engine H k e' \<and> (\<forall>ms. m = Some ms \<longrightarrow> staged_ok H ms)"
proof -
  have r: "runnable H k" "engine_ok H e"
    using assms(1) by (simp_all add: legal_engine_def)
  then have "step_ok H e (e', m)"
    using engine_step_ok [of H e k] assms(2) by (auto simp: runnable_def)
  then show ?thesis
    using r(1) by (auto simp: step_ok_def legal_engine_def)
qed

lemma legal_engine_commit:
  assumes "fresh_engine H k e \<or> legal_engine H k e" and "staged_ok H ms"
  shows "legal_engine H k (commit ms e)"
proof -
  have "runnable H k" "Root (engDef e) = 0"
    using assms(1) by (auto simp: fresh_engine_def legal_engine_def engine_new_def engine_ok_def)
  then show ?thesis
    using commit_ok [OF assms(2)] by (simp add: legal_engine_def)
qed

lemma legal_engine_offer: "legal_engine H k e \<Longrightarrow> legal_engine H k (e\<lparr>pendingExternal := q\<rparr>)"
  by (simp add: legal_engine_def engine_ok_def)

lemma legal_engine_shows: "legal_engine H k e \<Longrightarrow> mirrors H e s \<Longrightarrow> proper H s"
  by (auto simp: mirrors_def legal_engine_def engine_ok_def proper_def shows_legal_def)

lemma fresh_engine_shows:
  "fresh_engine H k e \<Longrightarrow> mirrors H e s \<Longrightarrow> Status s = StatusStarting \<or> Status s = StatusError \<Longrightarrow> proper H s"
  by (simp add: mirrors_def fresh_engine_def engine_new_def proper_def)

interpretation legal_view: engine_view H k "fresh_engine H k" "legal_engine H k" "staged_ok H" "proper H" for H k
  by unfold_locales (fact legal_engine_start legal_engine_step legal_engine_commit legal_engine_offer
      legal_engine_shows fresh_engine_shows)+

end
