(* ===== verification/Context_Rules.thy ===== *)
theory Context_Rules
  imports Machine_Legal
begin

section \<open>Invariants of the context\<close>

text \<open>
  How to show that the context of a machine keeps a property, edge by edge. A guard is
  evaluated on the context before the microstep, and its actions run on what the exit actions
  and the transitions before it leave: with one transition at a time, which is all a chart
  without parallel states selects, a guard protects the actions of its own edge.
\<close>

subsection \<open>Actions and guards\<close>

definition applied :: "(int \<Rightarrow> 'c \<Rightarrow> 'e option \<Rightarrow> ('c, 'b) AppliedEffect) \<Rightarrow> 'e option \<Rightarrow> ActionRef \<Rightarrow> 'c \<Rightarrow> 'c" where
  "applied act p a c = (case act (ACallsite a) c p of EffectAssign c' \<Rightarrow> c' | _ \<Rightarrow> c)"

definition admits :: "heap \<Rightarrow> (int \<Rightarrow> 'c \<Rightarrow> 'e option \<Rightarrow> bool) \<Rightarrow> 'e option \<Rightarrow> tref \<Rightarrow> 'c \<Rightarrow> bool" where
  "admits H grd p t c = (case Guard (edgeAt H t) of None \<Rightarrow> True | Some g \<Rightarrow> grd (GCallsite g) c p)"

lemma guardPass_admits: "guardPass H e p t = admits H (evalGuard e) p t (engCtx e)"
  by (simp add: guardPass_def admits_def)

lemma runActions_context: "fst (runActions e p as st) = fold (applied (applyAction e) p) as (fst st)"
  by (induction as arbitrary: st)
     (simp_all add: runActions_def foldAction_def applied_def Let_def split: AppliedEffect.splits)

lemma apply_context:
  assumes "apply_microstep H e exs ts S p trig = (x, ms)"
  shows "NextContext ms =
     fold (applied (applyAction e) p) (concat (map (\<lambda>s. Entry (nodeAt H s)) (orderedEntry H S)))
       (fold (applied (applyAction e) p) (concat (map (\<lambda>t. Actions (edgeAt H t)) ts))
         (fold (applied (applyAction e) p) (concat (map (\<lambda>s. Exit (nodeAt H s)) exs)) (engCtx e)))"
proof -
  have "NextContext ms = fst (snd (snd (snd (stagedLoops H e exs ts S p))))"
    using apply_parts(2) [of H e exs ts S p trig] assms by (metis fst_conv snd_conv)
  then show ?thesis
    by (simp add: stagedLoops_def enters_fold runActions_context)
qed

lemma fold_invariant: "\<lbrakk>\<And>a c. a \<in> set as \<Longrightarrow> Q c \<Longrightarrow> Q (f a c); Q c\<rbrakk> \<Longrightarrow> Q (fold f as c)"
  by (induction as arbitrary: c) auto

subsection \<open>One transition at a time\<close>

definition sequential :: "heap \<Rightarrow> bool" where
  "sequential H \<longleftrightarrow> list_all (\<lambda>n. kind H n \<noteq> StateParallel) [0..<length (nodes H)]"

lemma selectBy_leaf:
  "t \<in> set (selectBy H c at) \<Longrightarrow> \<exists>a \<in> set (cfg_atomic H c). firstMatch at (a # ProperAncestors H a) = Some t"
  using selectBy_subset [of H c "at"] by auto

text \<open>There is one leaf, and what it or the innermost node above it offers is selected.\<close>

lemma one_atomic:
  assumes S: "sound_chart H" and seq: "sequential H" and leg: "legal H (set c)" "distinct c"
  obtains a where "cfg_atomic H c = [a]" and "a \<in> set c" and "IsAtomic H a"
proof -
  note wf = sound_chartD(1) [OF S]
  have root: "0 \<in> set c" "kind H 0 = StateCompound"
    using legal_root [OF leg(1)] sound_chartD(3) [OF S] by auto
  obtain a where a: "a \<in> set c" "IsAtomic H a"
    and only: "\<And>b. b \<in> set c \<Longrightarrow> IsAtomic H b \<Longrightarrow> 0 \<in> set (ProperAncestors H b) \<Longrightarrow> b = a"
    using one_leaf [OF S leg(1) root] seq by (auto simp: sequential_def list_all_iff)
  have "set (cfg_atomic H c) \<subseteq> {a}"
  proof
    fix b assume b: "b \<in> set (cfg_atomic H c)"
    then have "b < length (nodes H)" "0 < b"
      using root(2) legal_lt [OF leg(1)] by (auto simp: set_cfg_atomic IsAtomic_def intro!: gr0I)
    then show "b \<in> {a}"
      using only b root_ancestor [OF wf] by (auto simp: set_cfg_atomic)
  qed
  moreover have "a \<in> set (cfg_atomic H c)" "distinct (cfg_atomic H c)"
    using a leg(2) by (simp_all add: set_cfg_atomic) (simp add: cfg_atomic_def)
  ultimately have "cfg_atomic H c = [a]"
    by (metis distinct.simps(2) list.exhaust list.set_intros(1) list.set_intros(2) empty_iff empty_set singletonD subsetD)
  then show thesis
    using that a by blast
qed

lemma selectBy_one:
  "cfg_atomic H c = [a] \<Longrightarrow>
     selectBy H c at = (case firstMatch at (a # ProperAncestors H a) of None \<Rightarrow> [] | Some t \<Rightarrow> [t])"
  by (simp add: selectBy_def removeConflictingTransitions_def ins_def del: firstMatch.simps split: option.split)

lemma sequential_select:
  assumes "sound_chart H" and "sequential H" and "legal H (set c)" and "distinct c"
    and "t \<in> set (selectBy H c at)"
  shows "selectBy H c at = [t]"
proof -
  obtain a where "cfg_atomic H c = [a]"
    using assms(1-4) by (rule one_atomic)
  from selectBy_one [OF this, of "at"] show ?thesis
    using assms(5) by (auto split: option.splits)
qed

subsection \<open>Where a microstep comes from\<close>

text \<open>A step selects transitions with one payload, on whose guards it passes.\<close>

definition selected :: "heap \<Rightarrow> ('c, 'e, 'b) engine \<Rightarrow> 'e option \<Rightarrow> tref list \<Rightarrow> bool" where
  "selected H e p ts \<longleftrightarrow>
     ts \<noteq> [] \<and> (\<exists>at. ts = selectBy H (engCfg e) at
       \<and> (\<forall>s t. at s = Some t \<longrightarrow> t \<in> set (node_edges (nodeAt H s)) \<and> guardPass H e p t))"

lemma selected_evented:
  "selectTransitions H (engCfg e) ev (guardPass H e p) = ts \<Longrightarrow> ts \<noteq> [] \<Longrightarrow> selected H e p ts"
  unfolding selected_def selectTransitions_def using matchAtNode_Some(1,2) by blast

lemma selected_eventless:
  "selectEventlessTransitions H (engCfg e) (guardPass H e p) = ts \<Longrightarrow> ts \<noteq> [] \<Longrightarrow> selected H e p ts"
  unfolding selected_def selectEventlessTransitions_def using eventlessAtNode_Some(1,2) by blast

lemma guardPass_frame [simp]:
  "guardPass H (e\<lparr>internalQueue := q\<rparr>) = guardPass H e" "guardPass H (e\<lparr>pendingExternal := pe\<rparr>) = guardPass H e"
  by (intro ext, simp add: guardPass_def split: option.splits)+

lemma step_selected:
  fixes e :: "('c, 'e, 'b) engine"
  assumes "engine_step H k e = Some (e', Some ms)"
  obtains e1 ts p trig where "microstepFor H k e1 ts p trig = Some (e', ms)" and "selected H e p ts"
    and "engCtx e1 = engCtx e" and "engCfg e1 = engCfg e" and "applyAction e1 = applyAction e"
proof -
  have un: "microstepFor H k x ts p trig = Some (e', ms)" if "staged (microstepFor H k x ts p trig) = Some (e', Some ms)"
    for x :: "('c, 'e, 'b) engine" and ts p trig
    using that by (auto simp: staged_def)
  let ?ts = "selectEventlessTransitions H (engCfg e) (guardPass H e None)"
  obtain q r where pop: "popInternal H e (internalQueue e) = (q, r)"
    by fastforce
  consider (always) "?ts \<noteq> []" "staged (microstepFor H k (e\<lparr>alwaysRun := alwaysRun e + 1\<rparr>) ?ts None False) = Some (e', Some ms)"
    | (internal) ts p where "r = Some (ts, p)" "staged (microstepFor H k (e\<lparr>internalQueue := q\<rparr>) ts p True) = Some (e', Some ms)"
    | (external) qe ts where "pendingExternal e = Some qe" "ts = selectTransitions H (engCfg e) (descriptor qe) (guardPass H e (payload qe))" "ts \<noteq> []"
        "staged (microstepFor H k (e\<lparr>internalQueue := q, pendingExternal := None\<rparr>) ts (payload qe) True) = Some (e', Some ms)"
    using assms pop
    by (auto simp: engine_step_def Let_def split: if_splits option.splits)
  then show thesis
  proof cases
    case always
    then show ?thesis
      using that [OF un [OF always(2)] selected_eventless [OF refl always(1)]] by simp
  next
    case internal
    have "popInternal H e (internalQueue e) = (q, Some (ts, p))"
      using pop internal(1) by simp
    from popInternal_Some [OF this] obtain qe :: "'e queuedEvent" where "ts = selectTransitions H (engCfg e) (descriptor qe) (guardPass H e (payload qe))"
      "p = payload qe" "ts \<noteq> []"
      by blast
    then have "selected H e p ts"
      using selected_evented [of H e "descriptor qe" p ts] by simp
    then show ?thesis
      using that [OF un [OF internal(2)]] by simp
  next
    case external
    then show ?thesis
      using that [OF un [OF external(4)] selected_evented [OF external(2) [symmetric] external(3)]] by simp
  qed
qed

subsection \<open>The rules\<close>

text \<open>
  \<open>safe\<close> is the invariant, \<open>cleared t p\<close> what holds of the context between the guard of the edge
  \<open>t\<close>, evaluated with the payload \<open>p\<close>, and the actions of the edge.
\<close>

definition context_rules ::
  "heap \<Rightarrow> (int \<Rightarrow> 'c \<Rightarrow> 'e option \<Rightarrow> ('c, 'b) AppliedEffect) \<Rightarrow> (int \<Rightarrow> 'c \<Rightarrow> 'e option \<Rightarrow> bool)
     \<Rightarrow> (tref \<Rightarrow> 'e option \<Rightarrow> 'c \<Rightarrow> bool) \<Rightarrow> ('c \<Rightarrow> bool) \<Rightarrow> bool" where
  "context_rules H act grd cleared safe \<longleftrightarrow>
     (\<forall>t < length (edges H). \<forall>p c. safe c \<longrightarrow> admits H grd p t c \<longrightarrow> cleared t p c)
     \<and> (\<forall>n < length (nodes H). \<forall>a \<in> set (Exit (nodeAt H n)). \<forall>t p c. cleared t p c \<longrightarrow> cleared t p (applied act p a c))
     \<and> (\<forall>t < length (edges H). \<forall>p c. cleared t p c \<longrightarrow> safe (fold (applied act p) (Actions (edgeAt H t)) c))
     \<and> (\<forall>n < length (nodes H). \<forall>a \<in> set (Entry (nodeAt H n)). \<forall>p c. safe c \<longrightarrow> safe (applied act p a c))"

lemma context_rulesD:
  assumes "context_rules H act grd cleared safe"
  shows "t < length (edges H) \<Longrightarrow> safe c \<Longrightarrow> admits H grd p t c \<Longrightarrow> cleared t p c"
    and "n < length (nodes H) \<Longrightarrow> a \<in> set (Exit (nodeAt H n)) \<Longrightarrow> cleared t p c \<Longrightarrow> cleared t p (applied act p a c)"
    and "t < length (edges H) \<Longrightarrow> cleared t p c \<Longrightarrow> safe (fold (applied act p) (Actions (edgeAt H t)) c)"
    and "n < length (nodes H) \<Longrightarrow> a \<in> set (Entry (nodeAt H n)) \<Longrightarrow> safe c \<Longrightarrow> safe (applied act p a c)"
  using assms by (auto simp: context_rules_def)

lemma entry_keeps:
  assumes "context_rules H act grd cleared safe" and "\<forall>s \<in> set ns. s < length (nodes H)" and "safe c"
  shows "safe (fold (applied act p) (concat (map (\<lambda>s. Entry (nodeAt H s)) ns)) c)"
proof (rule fold_invariant [where Q = safe, OF _ assms(3)])
  fix a c assume a: "a \<in> set (concat (map (\<lambda>s. Entry (nodeAt H s)) ns))" and c: "safe c"
  then obtain n where "n \<in> set ns" "a \<in> set (Entry (nodeAt H n))"
    by auto
  then show "safe (applied act p a c)"
    using context_rulesD(4) [OF assms(1) _ _ c] assms(2) by blast
qed

lemma microstep_keeps:
  assumes R: "context_rules H act grd cleared safe" and c: "safe (engCtx e)" "applyAction e = act"
    and t: "t < length (edges H)" "admits H grd p t (engCtx e)"
    and ap: "apply_microstep H e exs [t] S p trig = (x, ms)"
    and lt: "\<forall>s \<in> set exs. s < length (nodes H)" "\<forall>s \<in> set S. s < length (nodes H)"
  shows "safe (NextContext ms)"
proof -
  let ?c = "fold (applied act p) (concat (map (\<lambda>s. Exit (nodeAt H s)) exs)) (engCtx e)"
  have "cleared t p (engCtx e)"
    by (rule context_rulesD(1) [OF R t(1) c(1) t(2)])
  moreover have "cleared t p (applied act p a c)"
    if a: "a \<in> set (concat (map (\<lambda>s. Exit (nodeAt H s)) exs))" and c: "cleared t p c" for a c
  proof -
    obtain n where "n \<in> set exs" "a \<in> set (Exit (nodeAt H n))"
      using a by auto
    then show ?thesis
      using context_rulesD(2) [OF R _ _ c] lt(1) by blast
  qed
  ultimately have "cleared t p ?c"
    by (intro fold_invariant [where Q = "cleared t p"])
  then have "safe (fold (applied act p) (Actions (edgeAt H t)) ?c)"
    by (rule context_rulesD(3) [OF R t(1)])
  then show ?thesis
    using entry_keeps [OF R, of "orderedEntry H S"] lt(2) apply_context [OF ap] c(2) by simp
qed

subsection \<open>Steps and runs\<close>

text \<open>An engine with these closures on a sound chart without parallel states, the context being safe.\<close>

definition ruled ::
  "heap \<Rightarrow> nat \<Rightarrow> (int \<Rightarrow> 'c \<Rightarrow> 'e option \<Rightarrow> ('c, 'b) AppliedEffect) \<Rightarrow> (int \<Rightarrow> 'c \<Rightarrow> 'e option \<Rightarrow> bool)
     \<Rightarrow> (tref \<Rightarrow> 'e option \<Rightarrow> 'c \<Rightarrow> bool) \<Rightarrow> ('c \<Rightarrow> bool) \<Rightarrow> ('c, 'e, 'b) engine \<Rightarrow> bool" where
  "ruled H k act grd cleared safe e \<longleftrightarrow>
     runnable H k \<and> sequential H \<and> context_rules H act grd cleared safe
     \<and> applyAction e = act \<and> evalGuard e = grd \<and> safe (engCtx e)"

lemma entered_lt:
  assumes "staged_ok H ms" and "apply_microstep H e exs ts S p trig = (x, ms)"
  shows "\<forall>s \<in> set S. s < length (nodes H)"
proof -
  have "legal H (set (msCfg ms))"
    using assms(1) by (simp add: staged_ok_def)
  moreover have "set S \<subseteq> set (msCfg ms)"
    using apply_cfg_set(1) [of H e exs ts S p trig] assms(2) by simp
  ultimately show ?thesis
    using legal_lt by blast
qed

lemma ruled_start:
  assumes "fresh_engine H k e" and r: "ruled H k act grd cleared safe e" and st: "engine_start H k e = Some (e', ms)"
  shows "safe (NextContext ms)"
proof -
  obtain S where ap: "apply_microstep H e [] [] S None False = (e', ms)"
    using st by (auto simp: engine_start_def)
  have "staged_ok H ms"
    using legal_engine_start [OF assms(1) st] by simp
  from entered_lt [OF this ap] have "\<forall>s \<in> set (orderedEntry H S). s < length (nodes H)"
    by simp
  then show ?thesis
    using r apply_context [OF ap] by (auto simp: ruled_def intro: entry_keeps)
qed

lemma selected_one:
  assumes S: "sound_chart H" "sequential H" and leg: "legal H (set (engCfg e))" "distinct (engCfg e)"
    and sel: "selected H e p ts"
  obtains t where "ts = [t]" and "t < length (edges H)" and "guardPass H e p t"
proof -
  note wf = sound_chartD(1) [OF S(1)]
  obtain at where ts: "ts \<noteq> []" "ts = selectBy H (engCfg e) at"
    and at: "\<forall>s t. at s = Some t \<longrightarrow> t \<in> set (node_edges (nodeAt H s)) \<and> guardPass H e p t"
    using sel unfolding selected_def by blast
  define t where "t = hd ts"
  have t: "t \<in> set (selectBy H (engCfg e) at)"
    using ts by (simp add: t_def)
  then obtain a where a: "a \<in> set (cfg_atomic H (engCfg e))" "firstMatch at (a # ProperAncestors H a) = Some t"
    using selectBy_leaf by blast
  then obtain s where s: "s \<in> set (a # ProperAncestors H a)" "at s = Some t"
    using firstMatch_Some [OF a(2)] by (metis in_set_conv_decomp)
  have "a \<in> set (engCfg e)"
    using a(1) by (simp add: set_cfg_atomic)
  then have "s < length (nodes H)"
    using s(1) legal_lt [OF leg(1)] legal_ancestors [OF wf leg(1)] by auto
  then have "t < length (edges H)"
    using tree_edge [OF wf] at s(2) by blast
  then show thesis
    using that sequential_select [OF S leg t] ts(2) at s(2) by simp
qed

lemma ruled_step:
  assumes l: "legal_engine H k e" and r: "ruled H k act grd cleared safe e" and st: "engine_step H k e = Some (e', Some ms)"
  shows "safe (NextContext ms)"
proof -
  have S: "sound_chart H" "sequential H" and leg: "legal H (set (engCfg e))" "distinct (engCfg e)"
    and R: "context_rules H act grd cleared safe" "applyAction e = act" "evalGuard e = grd" "safe (engCtx e)"
    using l r by (auto simp: legal_engine_def ruled_def runnable_def engine_ok_def)
  obtain e1 ts p trig where m: "microstepFor H k e1 ts p trig = Some (e', ms)" and sel: "selected H e p ts"
    and same: "engCtx e1 = engCtx e" "engCfg e1 = engCfg e" "applyAction e1 = applyAction e"
    using st by (rule step_selected)
  obtain t where t: "ts = [t]" "t < length (edges H)" "guardPass H e p t"
    using S leg sel by (rule selected_one)
  obtain X where ap: "apply_microstep H e1 (computeExitSet H (engCfg e1) ts) [t] X p trig = (e', ms)"
    using m t(1) by (auto simp: microstepFor_def)
  have "staged_ok H ms"
    using legal_engine_step [OF l st] by simp
  note lt = entered_lt [OF this ap]
  have "\<forall>s \<in> set (computeExitSet H (engCfg e1) ts). s < length (nodes H)"
    using computeExitSet_active [of _ H "engCfg e1" ts] legal_lt [OF leg(1)] same(2) by auto
  then show ?thesis
    using microstep_keeps [OF R(1) _ _ t(2) _ ap _ lt] R t(3) same by (simp add: guardPass_admits)
qed

lemma ruled_frame:
  "ruled H k act grd cleared safe e \<Longrightarrow> engCtx e' = engCtx e \<Longrightarrow> applyAction e' = applyAction e
     \<Longrightarrow> evalGuard e' = evalGuard e \<Longrightarrow> ruled H k act grd cleared safe e'"
  by (simp add: ruled_def)

lemma ruled_commit:
  "ruled H k act grd cleared safe e \<Longrightarrow> safe (NextContext ms) \<Longrightarrow> ruled H k act grd cleared safe (commit ms e)"
  by (auto simp: ruled_def commit_def Let_def)

interpretation context_view: engine_view H k
    "\<lambda>e. fresh_engine H k e \<and> ruled H k act grd cleared safe e"
    "\<lambda>e. legal_engine H k e \<and> ruled H k act grd cleared safe e"
    "\<lambda>ms. staged_ok H ms \<and> safe (NextContext ms)" "\<lambda>s. safe (Context s)"
  for H k act grd cleared safe
proof (unfold_locales, goal_cases)
  case (1 e e' ms)
  then show ?case
    using legal_engine_start ruled_start start_engine by (fastforce intro: ruled_frame)
next
  case (2 e e' m)
  then show ?case
    using legal_engine_step [of H k e e' m] ruled_step [of H k e] step_frame [of H k e e' m] ruled_frame by blast
next
  case (3 e ms)
  then show ?case
    using legal_engine_commit ruled_commit by blast
next
  case (4 e q)
  then show ?case
    using legal_engine_offer by (fastforce intro: ruled_frame)
qed (auto simp: mirrors_def ruled_def)

text \<open>
  Every context that an actor publishes is safe, and while it runs so is the one of its engine,
  in a legal configuration and with the closures it was made with.
\<close>

lemma contexts_safe:
  assumes "runnable H k" and "sequential H" and "context_rules H (mApplyAction m) (mEvalGuard m) cleared safe"
    and "Root (mDef m) = 0" and "safe (initCtx m)" and run: "actor_run H k (Start ad m w) a"
  shows "\<forall>s \<in> set (stored a). safe (Context s)"
    and "mirrors H (eng a) (snap a)"
    and "isDone a \<or> legal_engine H k (eng a) \<and> ruled H k (mApplyAction m) (mEvalGuard m) cleared safe (eng a)"
proof -
  have "fresh_engine H k e \<and> ruled H k (mApplyAction m) (mEvalGuard m) cleared safe e"
    if "e = newEngine (mDef m) (initCtx m) (mApplyAction m) (mEvalGuard m) (mAlwaysLimit m)" for e
    using assms(1-5) that
    by (simp add: fresh_engine_def ruled_def engine_new_def newEngine_def newConfiguration_def Let_def)
  from context_view.run_exposes [OF this [OF refl] run]
  show "\<forall>s \<in> set (stored a). safe (Context s)" "mirrors H (eng a) (snap a)"
    "isDone a \<or> legal_engine H k (eng a) \<and> ruled H k (mApplyAction m) (mEvalGuard m) cleared safe (eng a)"
    by (simp_all add: list_all_iff)
qed

end
