(* ===== verification/Test_Support.thy ===== *)
theory Test_Support
  imports Machine_Handle Command_Files Json_Decoder
begin

section \<open>Test support: \<open>statesmantest/sync.go\<close>, \<open>fake.go\<close>, \<open>scenario.go\<close>\<close>

text \<open>
  Fake actors, the synchronous harness on virtual time, and the scenario runner, which puts the
  loader, the actor and the timers together. The harness is one schedule of the interleavings of
  \<open>call_run\<close>: the caller goes on until it has to wait, then the loop takes one item.
  \<open>txtar.Parse\<close> is an argument.
\<close>

subsection \<open>Fakes\<close>

text \<open>
  The counter \<open>attempt\<close> of the closure lives in the world, at a place given by its access
  functions; so does the slice of a \<open>CommandRecorder\<close>.
\<close>

definition FakeActor ::
  "('w \<Rightarrow> nat) \<Rightarrow> (nat \<Rightarrow> 'w \<Rightarrow> 'w) \<Rightarrow> 'e list \<Rightarrow> ('w, 'c, 'e, 'b) InvokeRunner"
where
  "FakeActor attempt setAttempt outcomes ctx c ad w =
     (let ri = \<lparr>riCancel = Some (\<lambda>w. w), riDeliver = None\<rparr> in
      if attempt w < length outcomes then (setAttempt (attempt w + 1) w, ri, [outcomes ! attempt w])
      else (w, ri, []))"

definition recorder_add :: "('w \<Rightarrow> 'x list) \<Rightarrow> ('x list \<Rightarrow> 'w \<Rightarrow> 'w) \<Rightarrow> 'x \<Rightarrow> 'w \<Rightarrow> 'w" where
  "recorder_add Commands setCmds c w = setCmds (Commands w @ [c]) w"

text \<open>\<open>asCmd\<close> is the type assertion \<open>e.(Cmd)\<close>.\<close>

definition FakeCallback ::
  "('w \<Rightarrow> 'x list) \<Rightarrow> ('x list \<Rightarrow> 'w \<Rightarrow> 'w) \<Rightarrow> ('b \<Rightarrow> 'x option) \<Rightarrow> ('w, 'c, 'e, 'b) InvokeRunner"
where
  "FakeCallback Commands setCmds asCmd ctx c ad w =
     (w, \<lparr>riCancel = Some (\<lambda>w. w),
          riDeliver = Some (\<lambda>e w. case asCmd e of None \<Rightarrow> w | Some c \<Rightarrow> recorder_add Commands setCmds c w)\<rparr>, [])"

declare FakeActor_def [gomodel] recorder_add_def [gomodel] FakeCallback_def [gomodel]

subsection \<open>The synchronous harness\<close>

text \<open>
  The next turn of a waiting call and the loop, the call's if it has one; \<open>None\<close> when both wait,
  or the loop does not come back.
\<close>

definition turn ::
  "heap \<Rightarrow> nat \<Rightarrow> ('w, 'c, 'e, 'b) actor \<times> call \<Rightarrow> (('w, 'c, 'e, 'b) actor \<times> call) option"
where
  "turn H k s =
     (case s of (a, c) \<Rightarrow>
        (case call_step None c a of
           x # xs \<Rightarrow> Some x
         | [] \<Rightarrow>
             if isDone a then None
             else if loopCancelled a then Some (shutdown a, c)
             else if mailbox a = [] then None
             else map_option (\<lambda>a'. (a', c)) (handleItem H k a)))"

fun returned :: "call \<Rightarrow> error option option" where
  "returned (Returned r) = Some r"
| "returned c = None"

partial_function (option) await ::
  "heap \<Rightarrow> nat \<Rightarrow> ('w, 'c, 'e, 'b) actor \<times> call \<Rightarrow> (('w, 'c, 'e, 'b) actor \<times> error option) option"
where
  "await H k s =
     (case returned (snd s) of
        Some r \<Rightarrow> Some (fst s, r)
      | None \<Rightarrow> (case turn H k s of None \<Rightarrow> None | Some s' \<Rightarrow> await H k s'))"

declare await.simps [code]

type_synonym 'c sync = "(ScheduledTimer ManualTimerService, 'c, string, unit) handle"

definition NewSync ::
  "(ScheduledTimer ManualTimerService Option list \<Rightarrow> (ScheduledTimer ManualTimerService, 'c, 'e, 'b) Machine) \<Rightarrow>
     (ScheduledTimer ManualTimerService, 'c, 'e, 'b) Machine \<times> ScheduledTimer ManualTimerService"
where
  "NewSync bld =
     (bld [WithClock (\<lambda>w. ManualClock_Now (clock w)), WithTimerService manualService],
      NewManualTimerService (NewManualClock 0))"

definition settle ::
  "heap \<Rightarrow> nat \<Rightarrow> ('w, 'c, 'e, 'b) actor \<Rightarrow> (('w, 'c, 'e, 'b) actor \<times> error option) option"
where
  "settle H k a = await H k (a, handle_Settle (Started a))"

text \<open>\<open>Sync.Start\<close> on a fresh machine: the goroutine boots, then the harness settles.\<close>

definition Sync_Start ::
  "heap \<Rightarrow> nat \<Rightarrow> string \<Rightarrow> ('w, 'c, 'e, 'b) Machine \<times> 'w \<Rightarrow> (('w, 'c, 'e, 'b) actor \<times> error option) option"
where
  "Sync_Start H k address s =
     (case bootLoop H k (Start address (fst s) (snd s)) of None \<Rightarrow> None | Some a \<Rightarrow> settle H k a)"

text \<open>\<open>Send\<close> waits while the mailbox is full.\<close>

partial_function (option) sendWaiting ::
  "heap \<Rightarrow> nat \<Rightarrow> 'e \<Rightarrow> ('w, 'c, 'e, 'b) actor \<Rightarrow> (('w, 'c, 'e, 'b) actor \<times> error option) option"
where
  "sendWaiting H k evt a =
     (case Send evt a of
        Some r \<Rightarrow> Some r
      | None \<Rightarrow>
          if mailbox a = [] then None
          else (case handleItem H k a of None \<Rightarrow> None | Some a' \<Rightarrow> sendWaiting H k evt a'))"

declare sendWaiting.simps [code]

definition SendAndSettle ::
  "heap \<Rightarrow> nat \<Rightarrow> 'e \<Rightarrow> ('w, 'c, 'e, 'b) actor \<Rightarrow> (('w, 'c, 'e, 'b) actor \<times> error option) option"
where
  "SendAndSettle H k evt a =
     (case sendWaiting H k evt a of
        None \<Rightarrow> None
      | Some (a, Some e) \<Rightarrow> Some (a, Some e)
      | Some (a, None) \<Rightarrow> settle H k a)"

text \<open>A timer's callback waits while the mailbox is full.\<close>

partial_function (option) fireWaiting ::
  "heap \<Rightarrow> nat \<Rightarrow> ScheduledTimer \<Rightarrow> ('w, 'c, 'e, 'b) actor \<Rightarrow> ('w, 'c, 'e, 'b) actor option"
where
  "fireWaiting H k st a =
     (if fireTimer st a \<noteq> [] then Some (hd (fireTimer st a))
      else if mailbox a = [] then None
      else (case handleItem H k a of None \<Rightarrow> None | Some a' \<Rightarrow> fireWaiting H k st a'))"

declare fireWaiting.simps [code]

definition Sync_Advance ::
  "heap \<Rightarrow> nat \<Rightarrow> duration \<Rightarrow> (ScheduledTimer ManualTimerService, 'c, 'e, 'b) actor \<Rightarrow>
     ((ScheduledTimer ManualTimerService, 'c, 'e, 'b) actor \<times> error option) option"
where
  "Sync_Advance H k d a =
     (let (w, due) = Advance d (world a) in
      case foldM (fireWaiting H k) due (a\<lparr>world := w\<rparr>) of None \<Rightarrow> None | Some a \<Rightarrow> settle H k a)"

declare turn_def [gomodel] NewSync_def [gomodel] settle_def [gomodel] Sync_Start_def [gomodel] SendAndSettle_def [gomodel]
  Sync_Advance_def [gomodel]

subsection \<open>Script lines\<close>

definition isSpace :: "char \<Rightarrow> bool" where
  "isSpace c \<longleftrightarrow> c \<in> {CHR 0x09, CHR 0x0A, CHR 0x0B, CHR 0x0C, CHR 0x0D, CHR '' ''}"

definition TrimSpace :: "string \<Rightarrow> string" where
  "TrimSpace s = rev (dropWhile isSpace (rev (dropWhile isSpace s)))"

text \<open>\<open>strings.Cut\<close> at a space, without the flag.\<close>

definition Cut :: "string \<Rightarrow> string \<times> string" where
  "Cut s = (takeWhile (\<lambda>c. c \<noteq> CHR '' '') s, tl (dropWhile (\<lambda>c. c \<noteq> CHR '' '') s))"

fun fieldsFrom :: "string \<Rightarrow> string \<Rightarrow> string list" where
  "fieldsFrom acc [] = (if acc = [] then [] else [acc])"
| "fieldsFrom acc (c # s) =
     (if isSpace c then (if acc = [] then [] else [acc]) @ fieldsFrom [] s else fieldsFrom (acc @ [c]) s)"

definition Fields :: "string \<Rightarrow> string list" where
  "Fields s = fieldsFrom [] s"

declare isSpace_def [gomodel] TrimSpace_def [gomodel] Cut_def [gomodel] Fields_def [gomodel]

subsection \<open>\<open>time.ParseDuration\<close>\<close>

text \<open>Fractions are exact here and of type \<open>float64\<close> in the library.\<close>

definition digit :: "char \<Rightarrow> bool" where
  "digit c \<longleftrightarrow> 48 \<le> (of_char c :: nat) \<and> (of_char c :: nat) \<le> 57"

definition unitOf :: "string \<Rightarrow> int option" where
  "unitOf u =
     map_of [(''ns'', 1), (''us'', 1000), (bytes [0xC2, 0xB5] @ ''s'', 1000), (bytes [0xCE, 0xBC] @ ''s'', 1000),
             (''ms'', 1000000), (''s'', 1000000000), (''m'', 60 * 1000000000), (''h'', 3600 * 1000000000)] u"

definition badDuration :: "string \<Rightarrow> string \<Rightarrow> error" where
  "badDuration what s = UserError (''time: '' @ what @ '' duration '' @ quote s)"

definition top63 :: int where
  "top63 = 2 ^ 63"

text \<open>Every term takes at least a digit, so the length of the text is fuel enough.\<close>

fun durationTerms :: "string \<Rightarrow> nat \<Rightarrow> string \<Rightarrow> int \<Rightarrow> error + int" where
  "durationTerms orig 0 s d = Inr d"
| "durationTerms orig (Suc k) s d =
     (if s = [] then Inr d
      else
        (let ds = takeWhile digit s;
             s1 = dropWhile digit s;
             fs = (if s1 \<noteq> [] \<and> hd s1 = CHR ''.'' then takeWhile digit (tl s1) else []);
             s2 = (if s1 \<noteq> [] \<and> hd s1 = CHR ''.'' then dropWhile digit (tl s1) else s1);
             u = takeWhile (\<lambda>c. c \<noteq> CHR ''.'' \<and> \<not> digit c) s2;
             remaining = drop (length u) s2
         in if decimal ds > top63 \<or> ds = [] \<and> fs = [] then Inl (badDuration ''invalid'' orig)
            else if u = [] then Inl (badDuration ''missing unit in'' orig)
            else
              (case unitOf u of
                 None \<Rightarrow> Inl (badDuration (''unknown unit '' @ quote u @ '' in'') orig)
               | Some unit \<Rightarrow>
                   (let v = decimal ds * unit + decimal fs * unit div 10 ^ length fs in
                    if decimal ds * unit > top63 \<or> v > top63 \<or> d + v > top63 then Inl (badDuration ''invalid'' orig)
                    else durationTerms orig k remaining (d + v)))))"

definition ParseDuration :: "string \<Rightarrow> error + duration" where
  "ParseDuration orig =
     (let signed = orig \<noteq> [] \<and> (hd orig = CHR ''-'' \<or> hd orig = CHR ''+'');
          s = (if signed then tl orig else orig)
      in if s = ''0'' then Inr 0
         else if s = [] then Inl (badDuration ''invalid'' orig)
         else
           (case durationTerms orig (length s) s 0 of
              Inl e \<Rightarrow> Inl e
            | Inr d \<Rightarrow>
                if hd orig = CHR ''-'' then Inr (- d)
                else if d \<ge> top63 then Inl (badDuration ''invalid'' orig)
                else Inr d))"

declare digit_def [gomodel] unitOf_def [gomodel] badDuration_def [gomodel] top63_def [gomodel]
  ParseDuration_def [gomodel]

subsection \<open>Scenarios\<close>

type_synonym scenario = "(ScheduledTimer ManualTimerService, unit, string, unit) actor"

definition scenarioMachine ::
  "Definition \<Rightarrow> ScheduledTimer ManualTimerService Option list \<Rightarrow> (ScheduledTimer ManualTimerService, unit, string, unit) Machine"
where
  "scenarioMachine d opts =
     NewMachine (\<lambda>w. ManualClock_Now (clock w)) (\<lambda>_. manualService) (\<lambda>e. e) d () (\<lambda>_ _ _. EffectNoop) (\<lambda>_ _ _. True) opts"

definition sliceText :: "string list \<Rightarrow> string" where
  "sliceText xs = ''['' @ Join xs '' '' @ '']''"

text \<open>What \<open>t.Errorf\<close> is called with, or the error returned.\<close>

definition expectStep :: "scenario \<Rightarrow> string \<Rightarrow> error + string list" where
  "expectStep a remaining =
     (let (kind, args) = Cut remaining; sn = snap a in
      if kind = ''active'' then
        (let want = sort (Fields args); got = sort (ActiveStates sn) in
         Inr (if Join want '','' \<noteq> Join got '','' then [''active = '' @ sliceText got @ '', want '' @ sliceText want] else []))
      else if kind = ''status'' then
        (let got = ActorStatus_String (Status sn) in
         Inr (if got \<noteq> args then [''status = '' @ got @ '', want '' @ args] else []))
      else Inl (UserError (''unknown expect kind '' @ quote kind)))"

definition runStep :: "heap \<Rightarrow> nat \<Rightarrow> scenario \<Rightarrow> string \<Rightarrow> (scenario \<times> string list \<times> error option) option" where
  "runStep H k a cmdline =
     (let (verb, args) = Cut cmdline; args = TrimSpace args in
      if verb = ''send'' then map_option (\<lambda>(a, e). (a, [], e)) (SendAndSettle H k args a)
      else if verb = ''advance'' then
        (case ParseDuration args of
           Inl e \<Rightarrow> Some (a, [], Some (WrapError ''bad duration: '' e []))
         | Inr d \<Rightarrow> map_option (\<lambda>(a, e). (a, [], e)) (Sync_Advance H k d a))
      else if verb = ''expect'' then
        Some (case expectStep a args of Inl e \<Rightarrow> (a, [], Some e) | Inr ms \<Rightarrow> (a, ms, None))
      else Some (a, [], Some (UserError (''unknown verb '' @ quote verb))))"

text \<open>The lines of a script: the failures reported, and whether the test goes on.\<close>

fun runLines :: "heap \<Rightarrow> nat \<Rightarrow> nat \<Rightarrow> string list \<Rightarrow> scenario \<Rightarrow> (scenario \<times> string list \<times> bool) option" where
  "runLines H k i [] a = Some (a, [], True)"
| "runLines H k i (raw # raws) a =
     (let cmdline = TrimSpace raw in
      if cmdline = [] \<or> HasPrefix cmdline ''#'' then runLines H k (Suc i) raws a
      else
        (case runStep H k a cmdline of
           None \<Rightarrow> None
         | Some (a, ms, Some e) \<Rightarrow>
             Some (a, ms @ [''line '' @ digits (i + 1) @ '' ('' @ quote cmdline @ ''): '' @ Error_text e], False)
         | Some (a, ms, None) \<Rightarrow> map_option (\<lambda>(a, ms', ok). (a, ms @ ms', ok)) (runLines H k (Suc i) raws a)))"

text \<open>The messages of one scenario: it passes when there are none, and hangs when \<open>None\<close>.\<close>

definition playScenario :: "heap \<Rightarrow> Definition \<Rightarrow> string \<Rightarrow> string list option" where
  "playScenario H d script =
     (let k = Suc (length (nodes H)) in
      case Sync_Start H k ''scenario'' (NewSync (scenarioMachine d)) of
        None \<Rightarrow> None
      | Some (a, Some e) \<Rightarrow> Some [''start: '' @ Error_text e]
      | Some (a, None) \<Rightarrow>
          (case runLines H k 0 (SplitByte (CHR 0x0A) script) a of
             None \<Rightarrow> None
           | Some (a, ms, ok) \<Rightarrow>
               if ok then map_option (\<lambda>_. ms) (await H k (hardClose None a)) else Some ms))"

definition RunScenario :: "env \<Rightarrow> (string \<Rightarrow> (string \<times> string) list) \<Rightarrow> string \<Rightarrow> string list option" where
  "RunScenario v txtar_Parse archive =
     (let ar = rev (txtar_Parse archive) in
      case (map_of ar ''machine.json'', map_of ar ''scenario'') of
        (Some mjson, Some script) \<Rightarrow>
          (case loadText v mjson of
             None \<Rightarrow> None
           | Some (Inl e) \<Rightarrow> Some [''load machine.json: '' @ Error_text e]
           | Some (Inr (H, d)) \<Rightarrow> playScenario H d script)
      | _ \<Rightarrow> Some [''scenario must contain machine.json and scenario files''])"

fun runFiles ::
  "env \<Rightarrow> (string \<Rightarrow> (string \<times> string) list) \<Rightarrow> os \<Rightarrow> string list \<Rightarrow> (string \<times> string list option) list"
where
  "runFiles v tx w [] = []"
| "runFiles v tx w (f # fs) =
     (case ReadFile f w of
        Inl e \<Rightarrow> [([], Some [''read '' @ f @ '': '' @ Error_text e])]
      | Inr data \<Rightarrow>
          (let name = take (length (path_Base f) - length ''.txtar'') (path_Base f)
           in (name, RunScenario v tx data) # runFiles v tx w fs))"

text \<open>The subtests by name; the empty name is the enclosing test.\<close>

definition RunScenarios ::
  "env \<Rightarrow> (string \<Rightarrow> (string \<times> string) list) \<Rightarrow> string \<Rightarrow> os \<Rightarrow> (string \<times> string list option) list"
where
  "RunScenarios v tx dir w =
     (let files = globEnding dir ''.txtar'' w in
      if files = [] then [([], Some [''no scenarios found in '' @ dir])] else runFiles v tx w files)"

declare scenarioMachine_def [gomodel] sliceText_def [gomodel] expectStep_def [gomodel] runStep_def [gomodel]
  playScenario_def [gomodel] RunScenario_def [gomodel] RunScenarios_def [gomodel]

subsection \<open>The harness is one of the interleavings\<close>

lemma turn_run:
  assumes "turn H k (a, c) = Some (a', c')"
  shows "call_run H k s (a, c) \<Longrightarrow> call_run H k s (a', c')"
proof -
  assume run: "call_run H k s (a, c)"
  show ?thesis
  proof (cases "call_step None c a")
    case (Cons x xs)
    then show ?thesis
      using assms run by (auto simp: turn_def intro: own [where ctx = None])
  next
    case Nil
    then have "actor_step H k a a' \<and> c' = c"
      using assms by (auto simp: turn_def split: if_splits intro: actor_step.cancel actor_step.handle)
    then show ?thesis
      using run by (auto intro: others)
  qed
qed

lemma await_run:
  assumes "await H k s = Some (b, r)"
  shows "\<exists>c. call_run H k s (b, c) \<and> returned c = Some r"
proof -
  let ?P = "\<lambda>H k s y. \<forall>s0. call_run H k s0 s \<longrightarrow> (\<exists>c. call_run H k s0 (fst y, c) \<and> returned c = Some (snd y))"
  have "?P H k s (b, r)"
  proof (rule await.raw_induct [where P = ?P, OF _ assms])
    fix aw :: "heap \<Rightarrow> nat \<Rightarrow> ('a, 'b, 'c, 'd) actor \<times> call \<Rightarrow> (('a, 'b, 'c, 'd) actor \<times> error option) option"
      and H k s y
    assume IH: "\<And>H k s y. aw H k s = Some y \<Longrightarrow> ?P H k s y"
      and body: "(case returned (snd s) of
           Some r \<Rightarrow> Some (fst s, r)
         | None \<Rightarrow> (case turn H k s of None \<Rightarrow> None | Some s' \<Rightarrow> aw H k s')) = Some y"
    show "?P H k s y"
    proof (cases "returned (snd s)")
      case (Some r)
      then show ?thesis
        using body by (cases s) auto
    next
      case None
      then obtain s' where s': "turn H k s = Some s'" "aw H k s' = Some y"
        using body by (auto split: option.splits)
      show ?thesis
        using IH [OF s'(2)] turn_run [of H k "fst s" "snd s" "fst s'" "snd s'"] s'(1) by simp
    qed
  qed
  then show ?thesis
    using call_run.call_begin by fastforce
qed

lemma settle_waits:
  assumes "settle H k a = Some (b, None)"
  shows "idle_between H k a b"
proof -
  have "await H k (a, PingPosting) = Some (b, None)"
    using assms by (simp add: settle_def)
  then obtain c where "call_run H k (a, PingPosting) (b, c)" "returned c = Some None"
    using await_run by blast
  then show ?thesis
    using settling_run [of H k a "(b, c)"] by (cases c) (auto simp: settling_def)
qed

text \<open>The outcomes of a fake actor come out one per spawn, in order, and then no more.\<close>

fun spawns :: "('w, 'c, 'e, 'b) InvokeRunner \<Rightarrow> (nat \<times> 'c \<times> ActorAddress) list \<Rightarrow> 'w \<Rightarrow> 'e list list" where
  "spawns r [] w = []"
| "spawns r ((ctx, c, ad) # xs) w = (case r ctx c ad w of (w, ri, es) \<Rightarrow> es # spawns r xs w)"

lemma fake_actor_script:
  assumes get_put: "\<And>n w. attempt (setAttempt n w) = n"
  shows "concat (spawns (FakeActor attempt setAttempt outcomes) xs w) = take (length xs) (drop (attempt w) outcomes)"
proof (induction xs arbitrary: w)
  case (Cons x xs)
  obtain ctx c ad where "x = (ctx, c, ad)"
    by (cases x)
  then show ?case
    using Cons.IH by (cases "attempt w < length outcomes") (auto simp: FakeActor_def get_put Cons_nth_drop_Suc [symmetric])
qed simp

end
