(* ===== verification/Test_Scenarios.thy ===== *)
theory Test_Scenarios
  imports Test_Support Schema_Rules
begin

section \<open>The scenario fixtures\<close>

text \<open>
  The five archives of \<open>statesmantest/testdata/scenarios\<close>, run by the model of the runner. The
  scanner delivers the lexemes of the document, the archive is already taken apart.
\<close>

definition obj :: "string \<Rightarrow> json \<Rightarrow> json" where
  "obj key v = JObject [(key, v)]"

definition goto :: "string \<Rightarrow> json" where
  "goto target = obj ''target'' (JString target)"

definition chart :: "string \<Rightarrow> string \<Rightarrow> (string \<times> json) list \<Rightarrow> json" where
  "chart i ini sts = JObject [(''id'', JString i), (''initial'', JString ini), (''states'', JObject sts)]"

definition onEvents :: "(string \<times> string) list \<Rightarrow> json" where
  "onEvents es = obj ''on'' (JObject (map (\<lambda>(ev, target). (ev, goto target)) es))"

definition final :: json where
  "final = obj ''type'' (JString ''final'')"

definition region :: "string \<Rightarrow> (string \<times> json) list \<Rightarrow> json" where
  "region ini sts = JObject [(''initial'', JString ini), (''states'', JObject sts)]"

definition runs :: "json \<Rightarrow> string list \<Rightarrow> string list option" where
  "runs machine script =
     RunScenario
       \<lparr>scan = (\<lambda>_. lexemes machine), message = (\<lambda>_. []), packages_Load = (\<lambda>_ _. Inr []), format_Source = Inr\<rparr>
       (\<lambda>_. [(''machine.json'', []), (''scenario'', joinLines script)]) []"

lemma runs_loaded: "loads_with (\<lambda>H d. playScenario H d (joinLines script) = Some ms) machine \<Longrightarrow> runs machine script = Some ms"
  unfolding loads_with_iff by (auto simp: runs_def RunScenario_def loadText_def Let_def)

lemma after_scenario:
  "runs (chart ''t'' ''wait'' [(''wait'', obj ''after'' (obj ''1000'' (goto ''#go''))), (''go'', final)])
     [''expect active wait'', ''advance 1s'', ''expect active go'', ''expect status done''] = Some []"
  by (rule runs_loaded) code_simp

lemma always_scenario:
  "runs (chart ''always'' ''start''
      [(''start'', onEvents [(''GO'', ''middle'')]), (''middle'', obj ''always'' (goto ''end'')), (''end'', final)])
     [''expect active start'', ''send GO'', ''expect active end'', ''expect status done''] = Some []"
  by (rule runs_loaded) code_simp

lemma hierarchy_scenario:
  "runs (chart ''h'' ''a''
      [(''a'', region ''a1'' [(''a1'', onEvents [(''E'', ''a2'')]), (''a2'', onEvents [(''UP'', ''#b'')])]), (''b'', final)])
     [''expect active a.a1'', ''send E'', ''expect active a.a2'', ''send UP'', ''expect active b'',
      ''expect status done''] = Some []"
  by (rule runs_loaded) code_simp

lemma parallel_scenario:
  "runs (chart ''p'' ''par''
      [(''par'', JObject
         [(''type'', JString ''parallel''),
          (''states'', JObject
             [(''r1'', region ''x1'' [(''x1'', onEvents [(''E'', ''y1'')]), (''y1'', JObject [])]),
              (''r2'', region ''x2'' [(''x2'', onEvents [(''E'', ''y2'')]), (''y2'', JObject [])])])])])
     [''expect active par.r1.x1 par.r2.x2'', ''send E'', ''expect active par.r1.y1 par.r2.y2''] = Some []"
  by (rule runs_loaded) code_simp

lemma wildcard_scenario:
  "runs (chart ''wild'' ''a'' [(''a'', onEvents [(''SPECIFIC'', ''b''), (''*'', ''c'')]), (''b'', JObject []), (''c'', JObject [])])
     [''expect active a'', ''send RANDOM'', ''expect active c''] = Some []"
  by (rule runs_loaded) code_simp

text \<open>An expectation that does not hold is reported, an unknown verb ends the test.\<close>

lemma failing_scenario:
  "runs (chart ''t'' ''a'' [(''a'', final)]) [''expect status running'', ''# no verb'', ''jump'', ''expect status error''] =
     Some [''status = done, want running'', ''line 3 ('' @ quote ''jump'' @ ''): unknown verb '' @ quote ''jump'']"
  by (rule runs_loaded) code_simp

end
