(* ===== verification/Documents.thy ===== *)
theory Documents
  imports Machine_Legal Machine_Props Test_Scenarios
begin

section \<open>From the document to what is published\<close>

text \<open>
  Documents of the repository (\<open>light\<close> of the diagrams' test data, \<open>simple\<close>, \<open>investigate\<close>
  and \<open>fix\<close> of the examples, \<open>parent\<close> of the generator's test data), each accepted by the
  loader and sound, and the theorem on the whole chain for which they are examples: document,
  chart, engine, actor, snapshot.
\<close>

definition light_json :: json where
  "light_json =
     JObject
      [(''id'', JString ''light''),
       (''initial'', JString ''idle''),
       (''states'', JObject
         [(''idle'', obj ''on'' (obj ''GO'' (goto ''running''))),
          (''running'', obj ''on'' (obj ''STOP'' (goto ''stopped''))),
          (''stopped'', obj ''type'' (JString ''final''))])]"

definition simple_json :: json where
  "simple_json =
     JObject
      [(''$schema'', JString ''../../schema/machineSchema.json''),
       (''id'', JString ''simple''),
       (''initial'', JString ''giving''),
       (''states'', JObject
         [(''giving'', JObject
            [(''on'', obj ''SPIN'' (obj ''actions'' (JArray
                 [obj ''type'' (JString ''spinGiving'')]))),
             (''always'', JObject
               [(''target'', JString ''taking''),
                (''guard'', obj ''type'' (JString ''payingTooMuch''))])]),
          (''taking'', JObject
            [(''on'', obj ''SPIN'' (obj ''actions'' (JArray
                 [obj ''type'' (JString ''spinTaking'')]))),
             (''always'', JObject
               [(''target'', JString ''giving''),
                (''guard'', obj ''type'' (JString ''payingTooLittle''))])])])]"

definition parent_json :: json where
  "parent_json =
     JObject
      [(''id'', JString ''parent''),
       (''initial'', JString ''running''),
       (''states'', JObject
         [(''running'', obj ''invoke'' (JArray
             [JObject
                [(''id'', JString ''run''),
                 (''src'', JString ''runChild''),
                 (''onDone'', goto ''done''),
                 (''onError'', goto ''failed'')]])),
          (''done'', obj ''type'' (JString ''final'')),
          (''failed'', obj ''type'' (JString ''final''))])]"

definition investigate_json :: json where
  "investigate_json =
     JObject
      [(''$schema'', JString ''../../../schema/machineSchema.json''),
       (''description'', JString (''Sub-machine: runs code analysis for one issue and leaves '' @
          ''findings in its terminal context.'')),
       (''id'', JString ''investigate''),
       (''initial'', JString ''analysing''),
       (''states'', JObject
         [(''analysing'', JObject
            [(''description'', JString ''Invokes the code-analysis agent (shell).''),
             (''invoke'', JArray
               [JObject
                  [(''id'', JString ''analyse''),
                   (''src'', JString ''analyseCode''),
                   (''onDone'', JObject
                     [(''target'', JString ''done''),
                      (''actions'', JArray
                        [obj ''type'' (JString ''saveFindings'')])]),
                   (''onError'', goto ''failed'')]]),
             (''after'', obj ''AnalyseTimeout'' (goto ''failed''))]),
          (''done'', JObject [(''description'', JString ''Findings ready.''), (''type'', JString ''final'')]),
          (''failed'', JObject
            [(''description'', JString ''Analysis failed or timed out.''),
             (''type'', JString ''final'')])])]"

definition fix_json :: json where
  "fix_json =
     JObject
      [(''$schema'', JString ''../../../schema/machineSchema.json''),
       (''description'', JString (''Sub-machine: edit -> test -> re-edit loop for one issue, bounded by an '' @
           ''internal attempt budget.'')),
       (''id'', JString ''fix''),
       (''initial'', JString ''editing''),
       (''states'', JObject
         [(''editing'', JObject
            [(''description'', JString ''Invokes the fixing agent (shell) to apply a patch.''),
             (''invoke'', JArray
               [JObject
                  [(''id'', JString ''edit''),
                   (''src'', JString ''applyEdit''),
                   (''onDone'', JObject
                     [(''target'', JString ''testing''),
                      (''actions'', JArray
                        [obj ''type'' (JString ''savePatch'')])]),
                   (''onError'', goto ''failed'')]])]),
          (''testing'', JObject
            [(''description'', JString (''Runs the test command. Pass -> done; fail with budget left -> '' @
                ''re-edit; else fail.'')),
             (''invoke'', JArray
               [JObject
                  [(''id'', JString ''test''),
                   (''src'', JString ''runTests''),
                   (''onDone'', JArray
                     [JObject [(''guard'', obj ''type'' (JString ''testsPassed'')), (''target'', JString ''done'')],
                      JObject
                        [(''guard'', obj ''type'' (JString ''canRetry'')),
                         (''target'', JString ''editing''),
                         (''actions'', JArray
                           [obj ''type'' (JString ''nextAttempt'')])],
                      goto ''failed'']),
                   (''onError'', goto ''failed'')]])]),
          (''done'', JObject [(''description'', JString ''Tests pass.''), (''type'', JString ''final'')]),
          (''failed'', JObject
            [(''description'', JString ''Edit failed or the attempt budget ran out.''),
             (''type'', JString ''final'')])])]"

lemma simple_sound: "loads_with (\<lambda>H d. sound_chart H) simple_json"
  by code_simp

lemma parent_sound: "loads_with (\<lambda>H d. sound_chart H) parent_json"
  by code_simp

lemma investigate_sound: "loads_with (\<lambda>H d. sound_chart H) investigate_json"
  by code_simp

lemma fix_sound: "loads_with (\<lambda>H d. sound_chart H) fix_json"
  by code_simp

text \<open>An actor on a loaded document, with actions that do nothing and guards that pass.\<close>

definition loaded_machine :: "Definition \<Rightarrow> (sample_world, unit, string, unit) Machine" where
  "loaded_machine d =
     NewMachine (\<lambda>w. ManualClock_Now (clock w)) (\<lambda>_. manualService) (\<lambda>s. s) d () (\<lambda>_ _ _. EffectNoop) (\<lambda>_ _ _. True) []"

definition light_actor :: "Definition \<Rightarrow> (sample_world, unit, string, unit) actor" where
  "light_actor d = Start ''light'' (loaded_machine d) sample_world0"

definition light_booted :: "heap \<Rightarrow> Definition \<Rightarrow> (sample_world, unit, string, unit) actor" where
  "light_booted H d = booted H 9 ((light_actor d)\<lparr>mailbox := []\<rparr>)"

definition light_told :: "heap \<Rightarrow> Definition \<Rightarrow> (sample_world, unit, string, unit) actor" where
  "light_told H d = told H 9 ''STOP'' (told H 9 ''GO'' (light_booted H d))"

definition light_ok :: "heap \<Rightarrow> Definition \<Rightarrow> bool" where
  "light_ok H d \<longleftrightarrow>
     sound_chart H \<and> length (nodes H) < 9
     \<and> bootLoop H 9 ((light_actor d)\<lparr>mailbox := []\<rparr>) \<noteq> None
     \<and> \<not> isDone (light_booted H d) \<and> \<not> isDone (told H 9 ''GO'' (light_booted H d))
     \<and> map ActiveStates (stored (light_told H d)) = [[], [''idle''], [''running''], [''stopped'']]"

lemma light_loads: "loads_with light_ok light_json"
  by code_simp

lemma load_gives_root: "Load ls = Some (Inr (H, d)) \<Longrightarrow> Root d = 0"
  by (auto simp: Load_def result_iff NewDefinition_def elim!: build_stages)

text \<open>
  C3. From the document to the snapshot: when the loader accepts a document and the chart it
  builds is sound, then whatever the environment of the actor does, every snapshot the actor
  publishes lists the leaves of a legal configuration of that chart; the only exceptions are
  the snapshot before the initial entry and the error of an observer that aborts this entry,
  which list nothing. The current snapshot always lists the leaves of the engine's own
  configuration.
\<close>

theorem published_states_legal:
  assumes "Load ls = Some (Inr (H, d))" and "sound_chart H" and "length (nodes H) < k"
    and "mDef m = d" and "actor_run H k (Start ad m w) a"
  shows "(\<forall>s \<in> set (stored a).
            (\<exists>C. legal H (set C) \<and> distinct C \<and> ActiveStates s = atomicIDs H C)
            \<or> (ActiveStates s = [] \<and> (Status s = StatusStarting \<or> Status s = StatusError)))
         \<and> ActiveStates (snap a) = atomicIDs H (engCfg (eng a))"
proof -
  have "Root (mDef m) = 0"
    using load_gives_root [OF assms(1)] assms(4) by simp
  then have new: "fresh_engine H k (newEngine (mDef m) (initCtx m) (mApplyAction m) (mEvalGuard m) (mAlwaysLimit m))"
    using assms(2,3) by (simp add: fresh_engine_def runnable_def engine_new_def newEngine_def newConfiguration_def Let_def)
  show ?thesis
    using legal_view.run_exposes(1,2) [OF new assms(5)]
    by (simp add: mirrors_def list_all_iff proper_def shows_legal_def)
qed

theorem published_states_legal_witness:
  "\<exists>H d a. Load (lexemes light_json) = Some (Inr (H, d)) \<and> actor_run H 9 (light_actor d) a
     \<and> map ActiveStates (stored a) = [[], [''idle''], [''running''], [''stopped'']]
     \<and> ActiveStates (snap a) = atomicIDs H (engCfg (eng a))"
proof -
  obtain H d where l: "Load (lexemes light_json) = Some (Inr (H, d))" and ok: "light_ok H d"
    using light_loads unfolding loads_with_iff by blast
  note parts = ok [unfolded light_ok_def]
  have "actor_run H 9 (light_actor d) (light_booted H d)"
    unfolding light_booted_def using parts by (intro run_booted) blast
  then have run: "actor_run H 9 (light_actor d) (light_told H d)"
    unfolding light_told_def using parts by (intro run_told) blast+
  have "mDef (loaded_machine d) = d"
    by (simp add: loaded_machine_def NewMachine_def Let_def)
  then have "ActiveStates (snap (light_told H d)) = atomicIDs H (engCfg (eng (light_told H d)))"
    using published_states_legal [OF l _ _ _ run [unfolded light_actor_def]] parts by blast
  then show ?thesis
    using l run parts by (intro exI [of _ H] exI [of _ d] exI [of _ "light_told H d"]) simp
qed

end
