(* ===== verification/Example_Agent.thy ===== *)
theory Example_Agent
  imports Test_Support
begin

section \<open>An example's agent: \<open>examples/issues/agent/run.go\<close>\<close>

text \<open>
  The steps of the issues example that run a language model: a prompt is rendered and handed to
  a command given by the environment. Processes, files and \<open>text/template\<close> are arguments. A
  prompt holds text from strangers, so what matters is that it cannot change the command.
\<close>

record ('v) agentEnv =
  Getenv :: "string \<Rightarrow> string"
  ReadFile :: "string \<Rightarrow> error + string"
  Template :: "string \<Rightarrow> string \<Rightarrow> error + ('v \<Rightarrow> error + string)"
  Output :: "string list \<Rightarrow> string \<Rightarrow> error + string"

definition Placeholder :: string where
  "Placeholder = ''{{prompt}}''"

subsection \<open>Words of a command\<close>

definition isBlank :: "char \<Rightarrow> bool" where
  "isBlank c \<longleftrightarrow> c \<in> {CHR '' '', CHR 0x09, CHR 0x0A, CHR 0x0D}"

definition isQuote :: "char \<Rightarrow> bool" where
  "isQuote c \<longleftrightarrow> c = CHR 0x27 \<or> c = CHR 0x22"

definition unterminated :: "char \<Rightarrow> error" where
  "unterminated c = UserError (''agent: unterminated '' @ [c] @ '' quote in command'')"

lemma dropWhile_shorter: "dropWhile P s = q # s' \<Longrightarrow> length s' < length s"
  using length_dropWhile_le [of P s] by simp

text \<open>The words so far, the current one, and whether one has begun.\<close>

function splitFrom :: "string list \<Rightarrow> string \<Rightarrow> bool \<Rightarrow> string \<Rightarrow> error + string list" where
  "splitFrom args cur inWord [] = Inr (if inWord then args @ [cur] else args)"
| "splitFrom args cur inWord (c # s) =
     (if isBlank c then
        (if inWord then splitFrom (args @ [cur]) [] False s else splitFrom args cur False s)
      else if isQuote c then
        (case dropWhile (\<lambda>x. x \<noteq> c) s of
           [] \<Rightarrow> Inl (unterminated c)
         | q # s' \<Rightarrow> splitFrom args (cur @ takeWhile (\<lambda>x. x \<noteq> c) s) True s')
      else splitFrom args (cur @ [c]) True s)"
  by pat_completeness auto

termination
  by (relation "measure (\<lambda>(args, cur, inWord, s). length s)") (auto dest: dropWhile_shorter)

definition splitArgs :: "string \<Rightarrow> error + string list" where
  "splitArgs s = splitFrom [] [] False s"

subsection \<open>The command\<close>

text \<open>\<open>strings.ReplaceAll\<close> of a string that is not empty.\<close>

function ReplaceAll :: "string \<Rightarrow> string \<Rightarrow> string \<Rightarrow> string" where
  "ReplaceAll [] old new = []"
| "ReplaceAll (c # s) old new =
     (if HasPrefix (c # s) old then new @ ReplaceAll (drop (length old - 1) s) old new
      else c # ReplaceAll s old new)"
  by pat_completeness auto

termination
  by (relation "measure (\<lambda>(s, old, new). length s)") auto

definition substitute :: "string \<Rightarrow> string \<Rightarrow> string" where
  "substitute prompt a = (if Contains a Placeholder then ReplaceAll a Placeholder prompt else a)"

definition buildExec :: "string \<Rightarrow> string \<Rightarrow> error + string list \<times> string" where
  "buildExec spec prompt =
     bindE (splitArgs spec) (\<lambda>argv.
       if argv = [] then Inl (UserError ''agent: empty command'')
       else Inr (map (substitute prompt) argv,
                 if list_ex (\<lambda>a. Contains a Placeholder) argv then [] else prompt))"

definition Run :: "'v agentEnv \<Rightarrow> string \<Rightarrow> string \<Rightarrow> error + string" where
  "Run E spec prompt =
     bindE (buildExec spec prompt) (\<lambda>(argv, stdin).
       case Output E argv stdin of
         Inl err \<Rightarrow> Inl (WrapError (''agent '' @ quote (argv ! 0) @ '': '') err [])
       | Inr out \<Rightarrow> Inr (TrimSpace out))"

definition resolveSpec :: "'v agentEnv \<Rightarrow> string \<Rightarrow> error + string" where
  "resolveSpec E verb =
     (let own = TrimSpace (Getenv E (''AGENT_'' @ map ToUpper verb));
          base = TrimSpace (Getenv E ''AGENT'')
      in if own \<noteq> [] then Inr own
         else if base \<noteq> [] then Inr base
         else Inl (UserError (''agent: set AGENT (or AGENT_'' @ map ToUpper verb
                @ '') to your agent command, e.g. AGENT='' @ [CHR 0x27] @ ''pi -p {{prompt}}'' @ [CHR 0x27])))"

text \<open>The text of the prompt: the file of the verb if the directory is set and has it.\<close>

definition promptText :: "'v agentEnv \<Rightarrow> string \<Rightarrow> string \<Rightarrow> error + string" where
  "promptText E verb defaultTmpl =
     (let dir = TrimSpace (Getenv E ''AGENT_PROMPT_DIR'')
      in if dir = [] then Inr defaultTmpl
         else (let path = path_Join dir (verb @ ''.tmpl'')
               in case ReadFile E path of
                    Inr b \<Rightarrow> Inr b
                  | Inl (OsNotExist msg) \<Rightarrow> Inr defaultTmpl
                  | Inl err \<Rightarrow> Inl (WrapError (''agent: read prompt '' @ path @ '': '') err [])))"

definition render :: "'v agentEnv \<Rightarrow> string \<Rightarrow> string \<Rightarrow> 'v \<Rightarrow> error + string" where
  "render E verb defaultTmpl v =
     bindE (promptText E verb defaultTmpl) (\<lambda>text.
       case Template E verb text of
         Inl err \<Rightarrow> Inl (WrapError (''agent: parse '' @ verb @ '' prompt: '') err [])
       | Inr execute \<Rightarrow>
           (case execute v of
              Inl err \<Rightarrow> Inl (WrapError (''agent: render '' @ verb @ '' prompt: '') err [])
            | Inr out \<Rightarrow> Inr out))"

definition agent_Invoke :: "'v agentEnv \<Rightarrow> string \<Rightarrow> string \<Rightarrow> 'v \<Rightarrow> error + string" where
  "agent_Invoke E verb defaultTmpl v =
     bindE (resolveSpec E verb) (\<lambda>spec.
     bindE (render E verb defaultTmpl v) (\<lambda>prompt.
       Run E spec prompt))"

declare Placeholder_def [gomodel] isBlank_def [gomodel] isQuote_def [gomodel] unterminated_def [gomodel]
  splitArgs_def [gomodel] substitute_def [gomodel] buildExec_def [gomodel] Run_def [gomodel]
  resolveSpec_def [gomodel] promptText_def [gomodel] render_def [gomodel] agent_Invoke_def [gomodel]

subsection \<open>Splitting is what quoting undoes\<close>

definition plain_word :: "string \<Rightarrow> bool" where
  "plain_word w \<longleftrightarrow> w \<noteq> [] \<and> list_all (\<lambda>c. \<not> isBlank c \<and> \<not> isQuote c) w"

lemma splitFrom_plain:
  "list_all (\<lambda>c. \<not> isBlank c \<and> \<not> isQuote c) w \<Longrightarrow>
     splitFrom args cur b (w @ s) = splitFrom args (cur @ w) (b \<or> w \<noteq> []) s"
  by (induction w arbitrary: cur b) auto

definition quoted :: "string \<Rightarrow> string" where
  "quoted w = [CHR 0x27] @ w @ [CHR 0x27]"

lemma splitFrom_quoted:
  assumes "CHR 0x27 \<notin> set w"
  shows "splitFrom args cur b (quoted w @ s) = splitFrom args (cur @ w) True s"
proof -
  have "dropWhile (\<lambda>x. x \<noteq> CHR 0x27) (w @ CHR 0x27 # s) = CHR 0x27 # s"
    "takeWhile (\<lambda>x. x \<noteq> CHR 0x27) (w @ CHR 0x27 # s) = w"
    using assms by (auto simp: dropWhile_append takeWhile_append dest: set_dropWhileD)
  then show ?thesis
    by (simp add: quoted_def isBlank_def isQuote_def)
qed

lemma splitFrom_words:
  assumes "\<forall>w \<in> set ws. CHR 0x27 \<notin> set w"
  shows "splitFrom args [] False (Join (map quoted ws) '' '') = Inr (args @ ws)"
  using assms
proof (induction ws arbitrary: args)
  case Nil
  then show ?case by simp
next
  case (Cons w ws)
  have blank: "isBlank CHR '' ''"
    by (simp add: isBlank_def)
  show ?case
  proof (cases ws)
    case Nil
    then show ?thesis
      using Cons.prems splitFrom_quoted [of w args "[]" False "[]"] by simp
  next
    case (Cons v vs)
    then show ?thesis
      using Cons.IH [of "args @ [w]"] \<open>\<forall>w \<in> set (w # ws). _\<close> splitFrom_quoted [of w args "[]" False "'' '' @ Join (map quoted ws) '' ''"]
      by (simp add: Join_Cons blank)
  qed
qed

end
