(* ===== verification/Example_Fix.thy ===== *)
theory Example_Fix
  imports Adapters Context_Rules Documents Example_Agent
begin

section \<open>Two machines of an example: \<open>examples/issues/investigate\<close> and \<open>fix\<close>\<close>

text \<open>
  Client programs of the library: a document, the context and events, the behaviour written by
  hand (\<open>*.behavior.go\<close>, \<open>*.actors.go\<close>) and the wiring that the generator has written
  (\<open>*.machine.gen.go\<close>), here as a program and not as text. \<open>go\<close> starts the goroutine of a
  promise on its function; its values are inputs (\<open>Inl\<close>) and results (\<open>Inr\<close>). A type assertion
  on the event that fails panics and ends the process: the action then does nothing.
\<close>

subsection \<open>What the generated files have in common\<close>

datatype 'f ActionResult = Assign 'f | Noop

fun applyResult :: "'f ActionResult \<Rightarrow> ('f, 'b) AppliedEffect" where
  "applyResult (Assign f) = EffectAssign f"
| "applyResult Noop = EffectNoop"

definition Minute :: duration where
  "Minute = 60 * 1000 * Millisecond"

definition Second :: duration where
  "Second = 1000 * Millisecond"

declare Minute_def [gomodel] Second_def [gomodel]

subsection \<open>\<open>investigate\<close>\<close>

record invContext =
  invNumber :: int
  invTitle :: string
  invBody :: string
  invFindings :: string

datatype invEvent = AnalyseDone string | AnalyseError "error option"

fun inv_EventType :: "invEvent \<Rightarrow> string" where
  "inv_EventType (AnalyseDone findings) = ''done.invoke.analyse''"
| "inv_EventType (AnalyseError err) = ''error.invoke.analyse''"

record AnalyseInput =
  anNumber :: int
  anTitle :: string
  anBody :: string

record invImplementations =
  SaveFindingsOnAnalyseDone :: "invContext \<Rightarrow> string \<Rightarrow> invContext ActionResult"
  AnalyseCodeInput :: "invContext \<Rightarrow> AnalyseInput"

definition invImpl :: invImplementations where
  "invImpl =
     \<lparr>SaveFindingsOnAnalyseDone = (\<lambda>ctx findings. Assign (ctx\<lparr>invFindings := findings\<rparr>)),
      AnalyseCodeInput = (\<lambda>ctx. \<lparr>anNumber = invNumber ctx, anTitle = invTitle ctx, anBody = invBody ctx\<rparr>)\<rparr>"

definition analysePrompt :: string where
  "analysePrompt =
     ''Investigate GitHub issue #{{.Number}} in this repository using read-only tools.'' @ nl @ nl
     @ ''Title: {{.Title}}'' @ nl @ nl @ ''Body:'' @ nl @ ''{{.Body}}'' @ nl @ nl
     @ ''Produce concise root-cause findings (a few sentences). Do not modify any files.''"

definition AnalyseCode :: "AnalyseInput agentEnv \<Rightarrow> AnalyseInput \<Rightarrow> error + string" where
  "AnalyseCode E v = agent_Invoke E ''analyse'' analysePrompt v"

definition AnalyseTimeout :: duration where
  "AnalyseTimeout = 5 * Minute"

definition inv_makeApplier ::
  "invImplementations \<Rightarrow> int \<Rightarrow> invContext \<Rightarrow> invEvent option \<Rightarrow> (invContext, 'b) AppliedEffect" where
  "inv_makeApplier impl cs ctx evt =
     (if cs = 0 then
        (case evt of Some (AnalyseDone out) \<Rightarrow> applyResult (SaveFindingsOnAnalyseDone impl ctx out) | _ \<Rightarrow> EffectNoop)
      else EffectNoop)"

definition inv_makeGuard :: "invImplementations \<Rightarrow> int \<Rightarrow> invContext \<Rightarrow> invEvent option \<Rightarrow> bool" where
  "inv_makeGuard impl cs ctx evt \<longleftrightarrow> True"

definition NewInvestigateMachine ::
  "('w \<Rightarrow> time) \<Rightarrow> (('w \<Rightarrow> time) \<Rightarrow> ('w, ScheduledTimer) TimerService) \<Rightarrow> Definition
     \<Rightarrow> ('w, AnalyseInput + string, invEvent) go \<Rightarrow> invImplementations \<Rightarrow> 'w Option list
     \<Rightarrow> ('w, invContext, invEvent, 'b) Machine" where
  "NewInvestigateMachine clk svc d go impl opts =
     (let opts = opts @ [WithDelays (\<lambda>s. if s = ''AnalyseTimeout'' then AnalyseTimeout else 0)];
          m = NewMachine clk svc inv_EventType d \<lparr>invNumber = 0, invTitle = [], invBody = [], invFindings = []\<rparr>
                (inv_makeApplier impl) (inv_makeGuard impl) opts
      in RegisterInvoke ''analyse''
           (PromiseActor go (\<lambda>ctx. Inl (AnalyseCodeInput impl ctx)) (\<lambda>out. AnalyseDone (projr out))
             (\<lambda>err. AnalyseError (Some err))) m)"

declare invImpl_def [gomodel] analysePrompt_def [gomodel] AnalyseCode_def [gomodel] AnalyseTimeout_def [gomodel]
  inv_makeApplier_def [gomodel] inv_makeGuard_def [gomodel] NewInvestigateMachine_def [gomodel]

subsection \<open>\<open>fix\<close>\<close>

record fixContext =
  fixNumber :: int
  fixFindings :: string
  fixPatch :: string
  fixAttempt :: int
  fixMaxAttempts :: int

record TestResult =
  Passed :: bool
  TestOutput :: string

datatype fixEvent = EditDone string | TestDone TestResult | EditError "error option" | TestError "error option"

fun fix_EventType :: "fixEvent \<Rightarrow> string" where
  "fix_EventType (EditDone out) = ''done.invoke.edit''"
| "fix_EventType (TestDone out) = ''done.invoke.test''"
| "fix_EventType (EditError err) = ''error.invoke.edit''"
| "fix_EventType (TestError err) = ''error.invoke.test''"

record EditInput =
  edNumber :: int
  edFindings :: string

record fixImplementations =
  SavePatchOnEditDone :: "fixContext \<Rightarrow> string \<Rightarrow> fixContext ActionResult"
  NextAttemptOnTestDone :: "fixContext \<Rightarrow> TestResult \<Rightarrow> fixContext ActionResult"
  TestsPassedOnTestDone :: "fixContext \<Rightarrow> TestResult \<Rightarrow> bool"
  CanRetryOnTestDone :: "fixContext \<Rightarrow> TestResult \<Rightarrow> bool"
  ApplyEditInput :: "fixContext \<Rightarrow> EditInput"
  RunTestsInput :: "fixContext \<Rightarrow> int"

text \<open>Go's \<open>int\<close> has 64 bits.\<close>

definition fixImpl :: fixImplementations where
  "fixImpl =
     \<lparr>SavePatchOnEditDone = (\<lambda>ctx patch. Assign (ctx\<lparr>fixPatch := patch\<rparr>)),
      NextAttemptOnTestDone = (\<lambda>ctx out. Assign (ctx\<lparr>fixAttempt := wrap64 (fixAttempt ctx + 1)\<rparr>)),
      TestsPassedOnTestDone = (\<lambda>ctx out. Passed out),
      CanRetryOnTestDone = (\<lambda>ctx out. wrap64 (fixAttempt ctx + 1) < fixMaxAttempts ctx),
      ApplyEditInput = (\<lambda>ctx. \<lparr>edNumber = fixNumber ctx, edFindings = fixFindings ctx\<rparr>),
      RunTestsInput = fixNumber\<rparr>"

definition fixPrompt :: string where
  "fixPrompt =
     ''Propose a unified-diff patch that fixes GitHub issue #{{.Number}}, based on these findings:'' @ nl @ nl
     @ ''{{.Findings}}'' @ nl @ nl @ ''Output only the patch text.''"

definition ApplyEdit :: "EditInput agentEnv \<Rightarrow> EditInput \<Rightarrow> error + string" where
  "ApplyEdit E v = agent_Invoke E ''fix'' fixPrompt v"

text \<open>\<open>combined\<close> is \<open>CombinedOutput\<close>: what the command printed, and its error.\<close>

definition RunTests :: "(string \<Rightarrow> string) \<Rightarrow> (string list \<Rightarrow> string \<times> error option) \<Rightarrow> int \<Rightarrow> error + TestResult" where
  "RunTests getenv combined n =
     (let cmd = getenv ''VERIFY_CMD'' in
      if cmd = [] then Inl (UserError ''fix: set VERIFY_CMD to your verification command'')
      else (case combined [''sh'', ''-c'', cmd] of
              (out, err) \<Rightarrow> Inr \<lparr>Passed = (err = None), TestOutput = TrimSpace out\<rparr>))"

definition fix_makeApplier ::
  "fixImplementations \<Rightarrow> int \<Rightarrow> fixContext \<Rightarrow> fixEvent option \<Rightarrow> (fixContext, 'b) AppliedEffect" where
  "fix_makeApplier impl cs ctx evt =
     (if cs = 0 then
        (case evt of Some (EditDone out) \<Rightarrow> applyResult (SavePatchOnEditDone impl ctx out) | _ \<Rightarrow> EffectNoop)
      else if cs = 1 then
        (case evt of Some (TestDone out) \<Rightarrow> applyResult (NextAttemptOnTestDone impl ctx out) | _ \<Rightarrow> EffectNoop)
      else EffectNoop)"

definition fix_makeGuard :: "fixImplementations \<Rightarrow> int \<Rightarrow> fixContext \<Rightarrow> fixEvent option \<Rightarrow> bool" where
  "fix_makeGuard impl cs ctx evt =
     (if cs = 0 then (case evt of Some (TestDone out) \<Rightarrow> TestsPassedOnTestDone impl ctx out | _ \<Rightarrow> False)
      else if cs = 1 then (case evt of Some (TestDone out) \<Rightarrow> CanRetryOnTestDone impl ctx out | _ \<Rightarrow> False)
      else True)"

definition NewFixMachine ::
  "('w \<Rightarrow> time) \<Rightarrow> (('w \<Rightarrow> time) \<Rightarrow> ('w, ScheduledTimer) TimerService) \<Rightarrow> Definition
     \<Rightarrow> ('w, EditInput + string, fixEvent) go \<Rightarrow> ('w, int + TestResult, fixEvent) go \<Rightarrow> fixImplementations
     \<Rightarrow> 'w Option list \<Rightarrow> ('w, fixContext, fixEvent, 'b) Machine" where
  "NewFixMachine clk svc d goEdit goTest impl opts =
     (let m = NewMachine clk svc fix_EventType d
                \<lparr>fixNumber = 0, fixFindings = [], fixPatch = [], fixAttempt = 0, fixMaxAttempts = 0\<rparr>
                (fix_makeApplier impl) (fix_makeGuard impl) opts;
          m = RegisterInvoke ''edit''
                (PromiseActor goEdit (\<lambda>ctx. Inl (ApplyEditInput impl ctx)) (\<lambda>out. EditDone (projr out))
                  (\<lambda>err. EditError (Some err))) m
      in RegisterInvoke ''test''
           (PromiseActor goTest (\<lambda>ctx. Inl (RunTestsInput impl ctx)) (\<lambda>out. TestDone (projr out))
             (\<lambda>err. TestError (Some err))) m)"

declare fixImpl_def [gomodel] fixPrompt_def [gomodel] ApplyEdit_def [gomodel] RunTests_def [gomodel]
  fix_makeApplier_def [gomodel] fix_makeGuard_def [gomodel] NewFixMachine_def [gomodel]

subsection \<open>The attempt budget\<close>

text \<open>The guards and actions of the loaded document, by name and callsite, edge by edge.\<close>

definition edge_calls :: "Transition \<Rightarrow> (string \<times> int) option \<times> (string \<times> int) list" where
  "edge_calls t = (map_option (\<lambda>g. (GType g, GCallsite g)) (Guard t), map (\<lambda>a. (AType a, ACallsite a)) (Actions t))"

definition fix_calls :: "((string \<times> int) option \<times> (string \<times> int) list) list" where
  "fix_calls =
     [(None, [(''savePatch'', 0)]), (None, []), (Some (''testsPassed'', 0), []),
      (Some (''canRetry'', 1), [(''nextAttempt'', 1)]), (None, []), (None, [])]"

definition fix_chart :: "heap \<Rightarrow> bool" where
  "fix_chart H \<longleftrightarrow>
     sound_chart H \<and> length (nodes H) = 5 \<and> sequential H
     \<and> list_all (\<lambda>nd. Entry nd = [] \<and> Exit nd = []) (nodes H) \<and> map edge_calls (edges H) = fix_calls"

lemma fix_loads: "loads_with (\<lambda>H d. fix_chart H) fix_json"
  by code_simp

lemma fix_chart_edge:
  assumes "fix_chart H" and "t < length (edges H)"
  shows "edge_calls (edgeAt H t) = fix_calls ! t" and "t < 6"
proof -
  have calls: "map edge_calls (edges H) = fix_calls"
    using assms(1) by (simp add: fix_chart_def)
  have "length (map edge_calls (edges H)) = length fix_calls"
    by (simp only: calls)
  then have "length (edges H) = 6"
    by (simp add: fix_calls_def)
  then show "t < 6" using assms(2) by simp
  show "edge_calls (edgeAt H t) = fix_calls ! t"
    using assms(2) by (simp add: calls [symmetric] edgeAt_def)
qed

lemma fix_chart_node:
  "fix_chart H \<Longrightarrow> n < length (nodes H) \<Longrightarrow> Entry (nodeAt H n) = [] \<and> Exit (nodeAt H n) = []"
  by (auto simp: fix_chart_def list_all_length nodeAt_def)

definition within_budget :: "fixContext \<Rightarrow> fixContext \<Rightarrow> bool" where
  "within_budget c0 c \<longleftrightarrow>
     fixNumber c = fixNumber c0 \<and> fixFindings c = fixFindings c0 \<and> fixMaxAttempts c = fixMaxAttempts c0
     \<and> 0 \<le> fixAttempt c \<and> (fixAttempt c = 0 \<or> fixAttempt c < fixMaxAttempts c0)"

definition may_retry :: "fixContext \<Rightarrow> tref \<Rightarrow> fixEvent option \<Rightarrow> fixContext \<Rightarrow> bool" where
  "may_retry c0 t p c \<longleftrightarrow> within_budget c0 c \<and> (t = 3 \<longrightarrow> fixAttempt c + 1 < fixMaxAttempts c0)"

text \<open>What the guard and the actions of an edge do, by its number.\<close>

lemma fix_edge_cases:
  assumes "fix_chart H" and "t < length (edges H)"
  obtains (save) a where "t = 0" and "Guard (edgeAt H t) = None" and "Actions (edgeAt H t) = [a]" and "ACallsite a = 0"
    | (retry) g a where "t = 3" and "Guard (edgeAt H t) = Some g" and "GCallsite g = 1"
        and "Actions (edgeAt H t) = [a]" and "ACallsite a = 1"
    | (other) "t \<noteq> 3" and "Actions (edgeAt H t) = []"
proof -
  have e: "edge_calls (edgeAt H t) = fix_calls ! t" and "t < 6"
    using fix_chart_edge [OF assms] by simp_all
  then consider "t = 0" | "t = 1" | "t = 2" | "t = 3" | "t = 4" | "t = 5"
    by linarith
  then show thesis
    by cases (use e that in \<open>auto simp: fix_calls_def edge_calls_def\<close>)
qed

lemma fix_rules:
  assumes H: "fix_chart H" and top: "fixMaxAttempts c0 < 2 ^ 63"
  shows "context_rules H (fix_makeApplier fixImpl) (fix_makeGuard fixImpl) (may_retry c0) (within_budget c0)"
  unfolding context_rules_def
proof (intro conjI allI impI ballI)
  fix t p c
  assume t: "t < length (edges H)"
  show "may_retry c0 t p c" if c: "within_budget c0 c" "admits H (fix_makeGuard fixImpl) p t c"
    using H t
  proof (cases rule: fix_edge_cases)
    case (retry g a)
    have "wrap64 (fixAttempt c + 1) = fixAttempt c + 1"
      using c(1) top unfolding wrap64_id by (auto simp: within_budget_def)
    then show ?thesis
      using c retry by (auto simp: may_retry_def admits_def fix_makeGuard_def fixImpl_def within_budget_def
          split: option.splits fixEvent.splits)
  qed (use c in \<open>simp_all add: may_retry_def\<close>)
  show "within_budget c0 (fold (applied (fix_makeApplier fixImpl) p) (Actions (edgeAt H t)) c)"
    if c: "may_retry c0 t p c"
    using H t
  proof (cases rule: fix_edge_cases)
    case (save a)
    then show ?thesis
      using c by (auto simp: may_retry_def applied_def fix_makeApplier_def fixImpl_def within_budget_def
          split: option.splits fixEvent.splits)
  next
    case (retry g a)
    have "wrap64 (fixAttempt c + 1) = fixAttempt c + 1"
      using c top unfolding wrap64_id by (auto simp: may_retry_def within_budget_def)
    then show ?thesis
      using c retry by (auto simp: may_retry_def applied_def fix_makeApplier_def fixImpl_def within_budget_def
          split: option.splits fixEvent.splits)
  qed (use c in \<open>simp add: may_retry_def\<close>)
qed (use fix_chart_node [OF H] in simp_all)

text \<open>
  The run of the example's test: the first edit fails the tests, the second passes them. Nothing
  is started for the promises, their results are sent.
\<close>

definition fix_seed :: fixContext where
  "fix_seed = \<lparr>fixNumber = 7, fixFindings = [], fixPatch = [], fixAttempt = 0, fixMaxAttempts = 2\<rparr>"

definition fix_machine :: "Definition \<Rightarrow> (sample_world, fixContext, fixEvent, unit) Machine" where
  "fix_machine d =
     SetInitialContext fix_seed
       (NewFixMachine (\<lambda>w. ManualClock_Now (clock w)) (\<lambda>_. manualService) d (\<lambda>_ _ _ w. w) (\<lambda>_ _ _ w. w) fixImpl [])"

definition fix_start :: "Definition \<Rightarrow> (sample_world, fixContext, fixEvent, unit) actor" where
  "fix_start d = Start ''fix'' (fix_machine d) sample_world0"

definition fix_booted :: "heap \<Rightarrow> Definition \<Rightarrow> (sample_world, fixContext, fixEvent, unit) actor" where
  "fix_booted H d = booted H 6 ((fix_start d)\<lparr>mailbox := []\<rparr>)"

definition fix_retried :: "heap \<Rightarrow> Definition \<Rightarrow> (sample_world, fixContext, fixEvent, unit) actor" where
  "fix_retried H d =
     told H 6 (TestDone \<lparr>Passed = False, TestOutput = []\<rparr>) (told H 6 (EditDone ''diff-1'') (fix_booted H d))"

definition fix_passed :: "heap \<Rightarrow> Definition \<Rightarrow> (sample_world, fixContext, fixEvent, unit) actor" where
  "fix_passed H d =
     told H 6 (TestDone \<lparr>Passed = True, TestOutput = []\<rparr>) (told H 6 (EditDone ''diff-2'') (fix_retried H d))"

definition fix_test :: "heap \<Rightarrow> Definition \<Rightarrow> bool" where
  "fix_test H d \<longleftrightarrow>
     bootLoop H 6 ((fix_start d)\<lparr>mailbox := []\<rparr>) \<noteq> None
     \<and> (let a = fix_booted H d; b = told H 6 (EditDone ''diff-1'') a;
            c = told H 6 (TestDone \<lparr>Passed = False, TestOutput = []\<rparr>) b; e = told H 6 (EditDone ''diff-2'') c;
            f = told H 6 (TestDone \<lparr>Passed = True, TestOutput = []\<rparr>) e
        in \<not> isDone a \<and> \<not> isDone b \<and> \<not> isDone c \<and> \<not> isDone e
           \<and> map ActiveStates (stored f) = [[], [''editing''], [''testing''], [''editing''], [''testing''], [''done'']]
           \<and> map (\<lambda>s. fixAttempt (Context s)) (stored f) = [0, 0, 0, 1, 1, 1])"

lemma fix_tested: "loads_with fix_test fix_json"
  by code_simp

lemma fix_machine_parts:
  "mDef (fix_machine d) = d" "mApplyAction (fix_machine d) = fix_makeApplier fixImpl"
  "mEvalGuard (fix_machine d) = fix_makeGuard fixImpl" "initCtx (fix_machine d) = fix_seed"
  by (simp_all add: fix_machine_def SetInitialContext_def NewFixMachine_def RegisterInvoke_def NewMachine_def Let_def)

text \<open>
  C39. The \<open>fix\<close> machine stays within its budget: whatever its edits, tests, timers, observers and
  callers do and in whatever order, every context that it publishes has the number, the findings
  and the budget it was started with, and an attempt counter that is zero or less than the
  budget; so an edit that failed its tests is repeated at most \<open>MaxAttempts - 1\<close> times, also at
  the bounds of 64-bit integers.
\<close>

theorem fix_attempts_bounded:
  assumes "Load (lexemes fix_json) = Some (Inr (H, d))" and "5 < k"
    and "mDef m = d" and "mApplyAction m = fix_makeApplier fixImpl" and "mEvalGuard m = fix_makeGuard fixImpl"
    and "fixAttempt (initCtx m) = 0" and "fixMaxAttempts (initCtx m) < 2 ^ 63"
    and "actor_run H k (Start ad m w) a"
  shows "\<forall>s \<in> set (stored a).
           fixNumber (Context s) = fixNumber (initCtx m) \<and> fixFindings (Context s) = fixFindings (initCtx m)
           \<and> fixMaxAttempts (Context s) = fixMaxAttempts (initCtx m) \<and> 0 \<le> fixAttempt (Context s)
           \<and> (fixAttempt (Context s) = 0 \<or> fixAttempt (Context s) < fixMaxAttempts (initCtx m))"
proof -
  have H: "fix_chart H"
    using fix_loads assms(1) unfolding loads_with_iff by auto
  have "runnable H k" "sequential H"
    using H assms(2) by (auto simp: runnable_def fix_chart_def)
  moreover have "Root (mDef m) = 0"
    using load_gives_root [OF assms(1)] assms(3) by simp
  moreover have "within_budget (initCtx m) (initCtx m)"
    using assms(6) by (simp add: within_budget_def)
  ultimately have "\<forall>s \<in> set (stored a). within_budget (initCtx m) (Context s)"
    using contexts_safe(1) [of H k m "may_retry (initCtx m)" "within_budget (initCtx m)"] fix_rules [OF H assms(7)] assms(4,5,8)
    by simp
  then show ?thesis
    by (simp add: within_budget_def)
qed

theorem fix_attempts_bounded_witness:
  "\<exists>H d a. Load (lexemes fix_json) = Some (Inr (H, d)) \<and> actor_run H 6 (fix_start d) a
     \<and> map (\<lambda>s. fixAttempt (Context s)) (stored a) = [0, 0, 0, 1, 1, 1]
     \<and> (\<forall>s \<in> set (stored a). fixAttempt (Context s) = 0 \<or> fixAttempt (Context s) < 2)"
proof -
  obtain H d where l: "Load (lexemes fix_json) = Some (Inr (H, d))" and ok: "fix_test H d"
    using fix_tested unfolding loads_with_iff by blast
  note parts = ok [unfolded fix_test_def Let_def, folded fix_retried_def fix_passed_def]
  have "actor_run H 6 (fix_start d) (fix_booted H d)"
    unfolding fix_booted_def using parts by (intro run_booted) blast
  then have "actor_run H 6 (fix_start d) (fix_retried H d)"
    unfolding fix_retried_def using parts by (intro run_told) blast+
  then have run: "actor_run H 6 (fix_start d) (fix_passed H d)"
    unfolding fix_passed_def using parts by (intro run_told) blast+
  have "\<forall>s \<in> set (stored (fix_passed H d)). fixAttempt (Context s) = 0 \<or> fixAttempt (Context s) < 2"
    using fix_attempts_bounded [OF l _ fix_machine_parts(1-3) _ _ run [unfolded fix_start_def]]
    by (simp add: fix_machine_parts fix_seed_def)
  then show ?thesis
    using l run parts by (intro exI [of _ H] exI [of _ d] exI [of _ "fix_passed H d"]) simp
qed

end
