(* ===== verification/Machine_Settled.thy ===== *)
theory Machine_Settled
  imports Machine_Props
begin

section \<open>Run to completion\<close>

text \<open>
  Between two items of the mailbox an actor is settled: its engine has nothing left to do
  without a new event.
\<close>

definition settled :: "heap \<Rightarrow> ('c, 'e, 'b) engine \<Rightarrow> bool" where
  "settled H e \<longleftrightarrow>
     selectEventlessTransitions H (engCfg e) (guardPass H e None) = []
     \<and> internalQueue e = [] \<and> pendingExternal e = None"

lemma popInternal_None: "popInternal H e q = (q', None) \<Longrightarrow> q' = []"
  by (induction q) (auto simp: Let_def split: if_splits)

lemma staged_some: "staged r \<noteq> Some (e', None)"
  by (cases r) (auto simp: staged_def)

lemma guardPass_cong:
  "evalGuard e' = evalGuard e \<Longrightarrow> engCtx e' = engCtx e \<Longrightarrow> guardPass H e' = guardPass H e"
  by (intro ext) (simp add: guardPass_def split: option.splits)

lemma step_settles:
  assumes step: "engine_step H k e = Some (e', None)" and "engStatus e' \<noteq> StatusError"
  shows "settled H e'"
proof -
  obtain q r where pop: "popInternal H e (internalQueue e) = (q, r)"
    by fastforce
  have none: "selectEventlessTransitions H (engCfg e) (guardPass H e None) = []"
    using assms staged_some by (auto simp: engine_step_def Let_def split: if_splits)
  then have r: "r = None"
    using step pop staged_some by (cases r) (auto simp: engine_step_def Let_def)
  then have q: "q = []"
    using popInternal_None pop by blast
  have "engCfg e' = engCfg e \<and> evalGuard e' = evalGuard e \<and> engCtx e' = engCtx e
      \<and> internalQueue e' = [] \<and> pendingExternal e' = None"
    using step pop r q none staged_some
    by (auto simp: engine_step_def Let_def split: if_splits option.splits)
  then show ?thesis
    using none by (simp add: settled_def guardPass_cong [of e' e])
qed

lemma macro_settles: "runMacrostep H k a = Some (b, ok) \<Longrightarrow> ok \<Longrightarrow> settled H (eng b)"
proof -
  assume run: "runMacrostep H k a = Some (b, ok)" and ok
  have "ok \<longrightarrow> settled H (eng b)"
    using run TrueI by (induction rule: runMacrostep_rule) (simp_all add: step_settles)
  then show ?thesis
    using \<open>ok\<close> by blast
qed

definition resting :: "heap \<Rightarrow> ('w, 'c, 'e, 'b) actor \<Rightarrow> bool" where
  "resting H a \<longleftrightarrow> isDone a \<or> settled H (eng a)"

lemma shutdown_rests: "resting H (shutdown a)"
  by (simp add: resting_def shutdown_def Let_def)

lemma macro_tail_rests:
  assumes "runMacrostep H k a = Some (b, ok)"
    and "(if \<not> ok then Some (shutdown b) else reconcileInvokes H b) = Some c"
  shows "resting H c"
proof (cases ok)
  case True
  then have "settled H (eng b)" "reconcileInvokes H b = Some c"
    using assms macro_settles by auto
  then show ?thesis
    using reconcile_public(2) [of H b c] by (simp add: resting_def)
qed (use assms shutdown_rests in auto)

lemma boot_rests: "bootLoop H k a = Some c \<Longrightarrow> resting H c"
  using shutdown_rests macro_tail_rests
  by (fastforce simp: bootLoop_def split: option.splits prod.splits if_splits)

lemma drain_rests: "drainAndClose H k q a = Some c \<Longrightarrow> resting H c"
proof (induction q arbitrary: a)
  case Nil
  then show ?case
    using shutdown_rests by auto
next
  case (Cons it q)
  then show ?case
    using shutdown_rests by (cases it) (auto simp: Let_def split: option.splits prod.splits if_splits)
qed

lemma handle_rests:
  assumes "resting H a" and "handleItem H k a = Some c"
  shows "resting H c"
proof (cases "mailbox a")
  case Nil
  then show ?thesis
    using assms by (simp add: handleItem_def)
next
  case (Cons it rest)
  then show ?thesis
    using assms drain_rests macro_tail_rests
    by (cases it) (fastforce simp: handleItem_def resting_def Let_def split: option.splits prod.splits)+
qed

lemma step_rests:
  assumes "actor_step H k a b" and "resting H a"
  shows "resting H b"
  using assms(1)
proof cases
  case handle
  then show ?thesis using handle_rests assms(2) by blast
next
  case cancel
  then show ?thesis using shutdown_rests by simp
next
  case (send evt err)
  then show ?thesis using assms(2) by (auto simp: Send_def resting_def split: if_splits)
next
  case (try_send evt err)
  then show ?thesis using assms(2) by (auto simp: TrySend_def resting_def split: if_splits)
next
  case (enqueue it)
  then show ?thesis using assms(2) by (auto simp: enqueue_def post_def resting_def split: if_splits)
next
  case (fire st)
  then show ?thesis using assms(2) by (auto simp: fireTimer_def enqueue_def post_def resting_def split: if_splits)
qed (use assms(2) in \<open>auto simp: addSub_def removeSub_def resting_def\<close>)

lemma run_rests: "actor_run H k a0 a \<Longrightarrow> resting H a"
  by (induction rule: actor_run.induct) (auto intro: boot_rests step_rests)

text \<open>
  C4. Run to completion: whenever a running actor is between two items of its mailbox, in any
  interleaving and on any chart, no eventless transition is enabled in its configuration and
  context, its queue of internal events is empty, and the event it was last given is used up.
\<close>

theorem settled_between_items:
  assumes "actor_run H k a0 a" and "\<not> isDone a"
  shows "selectEventlessTransitions H (engCfg (eng a)) (guardPass H (eng a) None) = []
         \<and> internalQueue (eng a) = [] \<and> pendingExternal (eng a) = None"
  using run_rests [OF assms(1)] assms(2) by (simp add: resting_def settled_def)

theorem settled_between_items_witness:
  "let a = booted demo 14 ((sample_actor demo)\<lparr>mailbox := []\<rparr>) in
     actor_run demo 14 (sample_actor demo) a \<and> \<not> isDone a
     \<and> selectEventlessTransitions demo (engCfg (eng a)) (guardPass demo (eng a) None) = []
     \<and> internalQueue (eng a) = [] \<and> pendingExternal (eng a) = None"
proof -
  have "\<not> isDone (booted demo 14 ((sample_actor demo)\<lparr>mailbox := []\<rparr>))"
    by code_simp
  then show ?thesis
    using settled_between_items [OF demo_booted] demo_booted by (simp add: Let_def)
qed

end
