(* ===== verification/Example_Simple.thy ===== *)
theory Example_Simple
  imports Example_Fix Machine_Settled Diagram_Render
begin

section \<open>A machine of an example: \<open>examples/simple\<close>\<close>

text \<open>
  The slot machine that keeps a return to the player by switching between two states
  (\<open>simple.behavior.go\<close>, \<open>simple.events.go\<close>, \<open>simple.machine.gen.go\<close>). Floating-point numbers
  are a type \<open>'f\<close> with the operations that are used, an argument; so is the random generator, on
  states \<open>'r\<close>. The program changes the generator in place; here its state is kept beside the
  context. (A microstep that is dropped ends the actor, so that a draw that is lost with it is
  never missed.)
\<close>

record 'f floats =
  fLess :: "'f \<Rightarrow> 'f \<Rightarrow> bool"
  fGeq :: "'f \<Rightarrow> 'f \<Rightarrow> bool"
  fQuot :: "int \<Rightarrow> int \<Rightarrow> 'f"

record ('f, 'r) Rand =
  Float64 :: "'r \<Rightarrow> 'f \<times> 'r"
  Intn :: "int \<Rightarrow> 'r \<Rightarrow> int \<times> 'r"

subsection \<open>Behaviour\<close>

record simpleContext =
  Spins :: int
  TotalBet :: int
  TotalWon :: int
  LastWin :: int
  Reels :: "int \<times> int \<times> int"

datatype simpleEvent = Spin

fun simple_EventType :: "simpleEvent \<Rightarrow> string" where
  "simple_EventType Spin = ''SPIN''"

record 'f simpleImpl =
  Bet :: int
  TargetRTP :: 'f

text \<open>The faces are bytes of UTF-8.\<close>

definition reelSymbols :: "string list" where
  "reelSymbols =
     [bytes [0xF0, 0x9F, 0x8D, 0x92], bytes [0xF0, 0x9F, 0x94, 0x94], bytes [0xF0, 0x9F, 0x8D, 0x8B],
      bytes [0xF0, 0x9F, 0x92, 0x8E], bytes [0x37, 0xEF, 0xB8, 0x8F, 0xE2, 0x83, 0xA3]]"

definition payouts :: "int list" where
  "payouts = [3, 4, 5, 10, 20]"

definition SymbolCount :: int where
  "SymbolCount = int (length reelSymbols)"

definition Face :: "int \<Rightarrow> string option" where
  "Face i = (if 0 \<le> i \<and> i < SymbolCount then Some (reelSymbols ! nat i) else None)"

text \<open>The chances 0.50 and 0.04.\<close>

definition givingWinChance :: "'f floats \<Rightarrow> 'f" where
  "givingWinChance F = fQuot F 50 100"

definition takingWinChance :: "'f floats \<Rightarrow> 'f" where
  "takingWinChance F = fQuot F 4 100"

definition threeReels :: "('f, 'r) Rand \<Rightarrow> 'r \<Rightarrow> (int \<times> int \<times> int) \<times> 'r" where
  "threeReels R r =
     (let (a, r) = Intn R SymbolCount r; (b, r) = Intn R SymbolCount r; (c, r) = Intn R SymbolCount r
      in ((a, b, c), r))"

partial_function (option) losingReels :: "('f, 'r) Rand \<Rightarrow> 'r \<Rightarrow> ((int \<times> int \<times> int) \<times> 'r) option" where
  "losingReels R r =
     (case threeReels R r of
        ((a, b, c), r') \<Rightarrow> if a \<noteq> b \<or> b \<noteq> c then Some ((a, b, c), r') else losingReels R r')"

definition draw ::
  "'f floats \<Rightarrow> ('f, 'r) Rand \<Rightarrow> 'f simpleImpl \<Rightarrow> 'f \<Rightarrow> 'r \<Rightarrow> (((int \<times> int \<times> int) \<times> int) \<times> 'r) option" where
  "draw F R s winChance r =
     (let (x, r) = Float64 R r in
      if fLess F x winChance then
        (let (sym, r) = Intn R SymbolCount r
         in Some (((sym, sym, sym), wrap64 (Bet s * payouts ! nat sym)), r))
      else map_option (\<lambda>(reels, r). ((reels, 0), r)) (losingReels R r))"

declare losingReels.simps [code]

text \<open>
  A draw that does not return keeps the actor for ever; a face outside of the table panics. The
  action then does nothing.
\<close>

definition spin ::
  "'f floats \<Rightarrow> ('f, 'r) Rand \<Rightarrow> 'f simpleImpl \<Rightarrow> 'f \<Rightarrow> simpleContext \<times> 'r \<Rightarrow> (simpleContext \<times> 'r) ActionResult" where
  "spin F R s winChance cr =
     (case cr of (ctx, r) \<Rightarrow>
        (case draw F R s winChance r of
           None \<Rightarrow> Noop
         | Some ((reels, win), r) \<Rightarrow>
             Assign (\<lparr>Spins = wrap64 (Spins ctx + 1), TotalBet = wrap64 (TotalBet ctx + Bet s),
                      TotalWon = wrap64 (TotalWon ctx + win), LastWin = win, Reels = reels\<rparr>, r)))"

definition SpinGivingOnSpin ::
  "'f floats \<Rightarrow> ('f, 'r) Rand \<Rightarrow> 'f simpleImpl \<Rightarrow> simpleContext \<times> 'r \<Rightarrow> (simpleContext \<times> 'r) ActionResult" where
  "SpinGivingOnSpin F R s cr = spin F R s (givingWinChance F) cr"

definition SpinTakingOnSpin ::
  "'f floats \<Rightarrow> ('f, 'r) Rand \<Rightarrow> 'f simpleImpl \<Rightarrow> simpleContext \<times> 'r \<Rightarrow> (simpleContext \<times> 'r) ActionResult" where
  "SpinTakingOnSpin F R s cr = spin F R s (takingWinChance F) cr"

definition returnToPlayer :: "'f floats \<Rightarrow> simpleContext \<Rightarrow> 'f" where
  "returnToPlayer F ctx = (if TotalBet ctx = 0 then fQuot F 0 1 else fQuot F (TotalWon ctx) (TotalBet ctx))"

definition PayingTooMuchOnGiving :: "'f floats \<Rightarrow> 'f simpleImpl \<Rightarrow> simpleContext \<Rightarrow> bool" where
  "PayingTooMuchOnGiving F s ctx \<longleftrightarrow> 0 < TotalBet ctx \<and> fGeq F (returnToPlayer F ctx) (TargetRTP s)"

definition PayingTooLittleOnTaking :: "'f floats \<Rightarrow> 'f simpleImpl \<Rightarrow> simpleContext \<Rightarrow> bool" where
  "PayingTooLittleOnTaking F s ctx \<longleftrightarrow> fLess F (returnToPlayer F ctx) (TargetRTP s)"

declare reelSymbols_def [gomodel] payouts_def [gomodel] SymbolCount_def [gomodel] Face_def [gomodel]
  givingWinChance_def [gomodel] takingWinChance_def [gomodel] threeReels_def [gomodel] draw_def [gomodel]
  spin_def [gomodel] SpinGivingOnSpin_def [gomodel] SpinTakingOnSpin_def [gomodel] returnToPlayer_def [gomodel]
  PayingTooMuchOnGiving_def [gomodel] PayingTooLittleOnTaking_def [gomodel]

subsection \<open>Wiring\<close>

definition simple_makeApplier ::
  "'f floats \<Rightarrow> ('f, 'r) Rand \<Rightarrow> 'f simpleImpl \<Rightarrow> int \<Rightarrow> simpleContext \<times> 'r \<Rightarrow> simpleEvent option
     \<Rightarrow> (simpleContext \<times> 'r, 'b) AppliedEffect" where
  "simple_makeApplier F R impl cs ctx evt =
     (if cs = 0 then (case evt of Some Spin \<Rightarrow> applyResult (SpinGivingOnSpin F R impl ctx) | None \<Rightarrow> EffectNoop)
      else if cs = 1 then (case evt of Some Spin \<Rightarrow> applyResult (SpinTakingOnSpin F R impl ctx) | None \<Rightarrow> EffectNoop)
      else EffectNoop)"

definition simple_makeGuard ::
  "'f floats \<Rightarrow> 'f simpleImpl \<Rightarrow> int \<Rightarrow> simpleContext \<times> 'r \<Rightarrow> simpleEvent option \<Rightarrow> bool" where
  "simple_makeGuard F impl cs ctx evt =
     (if cs = 0 then PayingTooMuchOnGiving F impl (fst ctx)
      else if cs = 1 then PayingTooLittleOnTaking F impl (fst ctx)
      else True)"

definition NewSimpleMachine ::
  "('w \<Rightarrow> time) \<Rightarrow> (('w \<Rightarrow> time) \<Rightarrow> ('w, ScheduledTimer) TimerService) \<Rightarrow> Definition
     \<Rightarrow> 'f floats \<Rightarrow> ('f, 'r) Rand \<Rightarrow> 'r \<Rightarrow> 'f simpleImpl \<Rightarrow> 'w Option list
     \<Rightarrow> ('w, simpleContext \<times> 'r, simpleEvent, 'b) Machine" where
  "NewSimpleMachine clk svc d F R r impl opts =
     NewMachine clk svc simple_EventType d
       (\<lparr>Spins = 0, TotalBet = 0, TotalWon = 0, LastWin = 0, Reels = (0, 0, 0)\<rparr>, r)
       (simple_makeApplier F R impl) (simple_makeGuard F impl) opts"

declare simple_makeApplier_def [gomodel] simple_makeGuard_def [gomodel] NewSimpleMachine_def [gomodel]

subsection \<open>The mode follows the return\<close>

text \<open>The callsites of the eventless edges of a node, and what of the chart matters.\<close>

definition always_guards :: "heap \<Rightarrow> node \<Rightarrow> int option list" where
  "always_guards H n =
     map (\<lambda>t. map_option GCallsite (Guard (edgeAt H t))) (filter (\<lambda>t. Eventless (edgeAt H t)) (Transitions (nodeAt H n)))"

definition simple_chart :: "heap \<Rightarrow> bool" where
  "simple_chart H \<longleftrightarrow>
     sound_chart H \<and> sequential H \<and> length (nodes H) = 3
     \<and> map (IsAtomic H) [0, 1, 2] = [False, True, True]
     \<and> map (always_guards H) [1, 2] = [[Some 0], [Some 1]]
     \<and> map (\<lambda>n. ID (nodeAt H n)) [1, 2] = [''giving'', ''taking'']"

lemma simple_loads: "loads_with (\<lambda>H d. simple_chart H) simple_json"
  by code_simp

lemma no_always:
  assumes "always_guards H n = [Some cs]" and "eventlessAtNode H n (guardPass H e None) = None"
  shows "\<not> evalGuard e cs (engCtx e) None"
proof -
  obtain t where t: "filter (\<lambda>t. Eventless (edgeAt H t)) (Transitions (nodeAt H n)) = [t]"
    and g: "map_option GCallsite (Guard (edgeAt H t)) = Some cs"
    using assms(1) unfolding always_guards_def map_eq_Cons_conv by blast
  have "t \<in> set (filter (\<lambda>t. Eventless (edgeAt H t)) (Transitions (nodeAt H n)))"
    by (simp only: t) simp
  then have "\<not> guardPass H e None t"
    using assms(2) by (simp add: eventlessAtNode_def find_None_iff)
  then show ?thesis
    using g by (auto simp: guardPass_def)
qed

text \<open>What a settled engine on the chart is in.\<close>

lemma simple_settled:
  assumes H: "simple_chart H" and e: "engine_ok H e" and s: "settled H e"
  obtains "atomicIDs H (engCfg e) = [''giving'']" and "\<not> evalGuard e 0 (engCtx e) None"
    | "atomicIDs H (engCfg e) = [''taking'']" and "\<not> evalGuard e 1 (engCtx e) None"
proof -
  have chart: "sound_chart H" "sequential H" "length (nodes H) = 3" "\<not> IsAtomic H 0"
    "always_guards H 1 = [Some 0]" "always_guards H 2 = [Some 1]" "ID (nodeAt H 1) = ''giving''" "ID (nodeAt H 2) = ''taking''"
    using H by (simp_all add: simple_chart_def)
  have leg: "legal H (set (engCfg e))" "distinct (engCfg e)"
    using e by (simp_all add: engine_ok_def)
  obtain a where a: "cfg_atomic H (engCfg e) = [a]" "a \<in> set (engCfg e)" "IsAtomic H a"
    using chart(1,2) leg by (rule one_atomic)
  have "eventlessAtNode H a (guardPass H e None) = None"
    using s selectBy_one [OF a(1), of "\<lambda>n. eventlessAtNode H n (guardPass H e None)"]
    by (auto simp: settled_def selectEventlessTransitions_def split: option.splits)
  moreover have "a = 1 \<or> a = 2"
    using legal_lt [OF leg(1) a(2)] a(3) chart(3,4) by (cases "a = 0") auto
  moreover have "atomicIDs H (engCfg e) = [ID (nodeAt H a)]"
    using a(1) by (simp add: atomicIDs_def)
  ultimately show thesis
    using that no_always chart(5-8) by auto
qed

subsection \<open>The books\<close>

text \<open>What is wagered is the bets of the spins, what was won last is paid for three equal faces.\<close>

definition booked :: "'f simpleImpl \<Rightarrow> simpleContext \<Rightarrow> bool" where
  "booked impl c \<longleftrightarrow>
     TotalBet c = wrap64 (Spins c * Bet impl)
     \<and> (LastWin c = 0 \<or> (\<exists>i. Reels c = (i, i, i) \<and> LastWin c = wrap64 (Bet impl * payouts ! nat i)))"

lemma wrap64_step: "wrap64 (wrap64 (n + 1) * b) = wrap64 (wrap64 (n * b) + b)"
  by (simp add: wrap64_def distrib_right)

lemma draw_pays:
  "draw F R impl chance r = Some ((reels, win), r') \<Longrightarrow>
     win = 0 \<or> (\<exists>i. reels = (i, i, i) \<and> win = wrap64 (Bet impl * payouts ! nat i))"
  by (auto simp: draw_def Let_def split: if_splits prod.splits)

lemma spin_books:
  assumes "booked impl (fst cr)" and "applyResult (spin F R impl chance cr) = EffectAssign cr'"
  shows "booked impl (fst cr')"
proof -
  obtain reels win r where d: "draw F R impl chance (snd cr) = Some ((reels, win), r)"
    using assms(2) by (auto simp: spin_def split: prod.splits option.splits)
  then show ?thesis
    using assms draw_pays [OF d] by (auto simp: spin_def booked_def wrap64_step split: prod.splits)
qed

lemma applied_books:
  "booked impl (fst cr) \<Longrightarrow> booked impl (fst (applied (simple_makeApplier F R impl) p a cr))"
  by (auto simp: applied_def simple_makeApplier_def SpinGivingOnSpin_def SpinTakingOnSpin_def
      split: option.splits simpleEvent.splits AppliedEffect.splits dest: spin_books)

lemma simple_rules:
  "context_rules H (simple_makeApplier F R impl) grd (\<lambda>_ _ cr. booked impl (fst cr)) (\<lambda>cr. booked impl (fst cr))"
  unfolding context_rules_def using applied_books
  by (auto intro!: fold_invariant [where Q = "\<lambda>cr. booked impl (fst cr)"])

subsection \<open>The property\<close>

text \<open>
  An example: numbers are fractions, the generator counts. The first spin wins, so that the
  machine starts to take, the second one loses.
\<close>

definition fractions :: "(int \<times> int) floats" where
  "fractions =
     \<lparr>fLess = (\<lambda>x y. fst x * snd y < fst y * snd x), fGeq = (\<lambda>x y. fst y * snd x \<le> fst x * snd y),
      fQuot = (\<lambda>a b. (a, b))\<rparr>"

definition counting :: "(int \<times> int, int) Rand" where
  "counting = \<lparr>Float64 = (\<lambda>r. ((r, 1), r + 1)), Intn = (\<lambda>n r. (r mod n, r + 1))\<rparr>"

definition one_credit :: "(int \<times> int) simpleImpl" where
  "one_credit = \<lparr>Bet = 1, TargetRTP = (92, 100)\<rparr>"

definition slot_machine :: "Definition \<Rightarrow> (sample_world, simpleContext \<times> int, simpleEvent, unit) Machine" where
  "slot_machine d =
     NewSimpleMachine (\<lambda>w. ManualClock_Now (clock w)) (\<lambda>_. manualService) d fractions counting 0 one_credit []"

definition slot_booted :: "heap \<Rightarrow> Definition \<Rightarrow> (sample_world, simpleContext \<times> int, simpleEvent, unit) actor" where
  "slot_booted H d = booted H 4 ((Start ''slot-1'' (slot_machine d) sample_world0)\<lparr>mailbox := []\<rparr>)"

definition slot_spun :: "heap \<Rightarrow> Definition \<Rightarrow> (sample_world, simpleContext \<times> int, simpleEvent, unit) actor" where
  "slot_spun H d = told H 4 Spin (told H 4 Spin (slot_booted H d))"

definition slot_test :: "heap \<Rightarrow> Definition \<Rightarrow> bool" where
  "slot_test H d \<longleftrightarrow>
     bootLoop H 4 ((Start ''slot-1'' (slot_machine d) sample_world0)\<lparr>mailbox := []\<rparr>) \<noteq> None
     \<and> (let a = slot_booted H d; b = told H 4 Spin a; c = told H 4 Spin b in
          \<not> isDone a \<and> \<not> isDone b \<and> \<not> isDone c
          \<and> map ActiveStates (stored c) = [[], [''giving''], [''giving''], [''taking''], [''taking'']]
          \<and> map (\<lambda>s. LastWin (fst (Context s))) (stored c) = [0, 0, 4, 4, 0])"

lemma slot_tested: "loads_with slot_test simple_json"
  by code_simp

lemma slot_machine_parts:
  "mDef (slot_machine d) = d" "mApplyAction (slot_machine d) = simple_makeApplier fractions counting one_credit"
  "mEvalGuard (slot_machine d) = simple_makeGuard fractions one_credit"
  "initCtx (slot_machine d) = (\<lparr>Spins = 0, TotalBet = 0, TotalWon = 0, LastWin = 0, Reels = (0, 0, 0)\<rparr>, 0)"
  by (simp_all add: slot_machine_def NewSimpleMachine_def NewMachine_def Let_def)

text \<open>
  C40. The slot machine, whatever the random numbers, the arithmetic of floating point and the
  order of what happens to its actor: in every context that it publishes the credits wagered are
  the bet times the spins, in 64 bits, and the last win is nothing or what three equal faces
  pay; and whenever the running actor is between two items of its mailbox, it is giving and
  nothing is wagered or the return to the player has not reached the target, or it is taking
  and the return is not below the target.
\<close>

theorem mode_follows_return:
  assumes "Load (lexemes simple_json) = Some (Inr (H, d))" and "3 < k" and "mDef m = d"
    and "mApplyAction m = simple_makeApplier F R impl" and "mEvalGuard m = simple_makeGuard F impl"
    and "initCtx m = (\<lparr>Spins = 0, TotalBet = 0, TotalWon = 0, LastWin = 0, Reels = (0, 0, 0)\<rparr>, r)"
    and "actor_run H k (Start ad m w) a"
  shows "(\<forall>s \<in> set (stored a).
            TotalBet (fst (Context s)) = wrap64 (Spins (fst (Context s)) * Bet impl)
            \<and> (LastWin (fst (Context s)) = 0
               \<or> (\<exists>i. Reels (fst (Context s)) = (i, i, i)
                    \<and> LastWin (fst (Context s)) = wrap64 (Bet impl * payouts ! nat i))))
         \<and> (\<not> isDone a \<longrightarrow>
              ActiveStates (snap a) = [''giving'']
                \<and> \<not> (0 < TotalBet (fst (Context (snap a))) \<and> fGeq F (returnToPlayer F (fst (Context (snap a)))) (TargetRTP impl))
              \<or> ActiveStates (snap a) = [''taking'']
                \<and> \<not> fLess F (returnToPlayer F (fst (Context (snap a)))) (TargetRTP impl))"
proof -
  have H: "simple_chart H"
    using simple_loads assms(1) unfolding loads_with_iff by auto
  have run: "runnable H k" "sequential H" "Root (mDef m) = 0" "booked impl (fst (initCtx m))"
    using H assms(2,3,6) load_gives_root [OF assms(1)] by (auto simp: runnable_def simple_chart_def booked_def wrap64_def)
  have rules: "context_rules H (mApplyAction m) (mEvalGuard m) (\<lambda>_ _ cr. booked impl (fst cr)) (\<lambda>cr. booked impl (fst cr))"
    unfolding assms(4,5) by (rule simple_rules)
  note safe = contexts_safe [OF run(1,2) rules run(3,4) assms(7)]
  have "ActiveStates (snap a) = [''giving'']
                \<and> \<not> (0 < TotalBet (fst (Context (snap a))) \<and> fGeq F (returnToPlayer F (fst (Context (snap a)))) (TargetRTP impl))
      \<or> ActiveStates (snap a) = [''taking'']
                \<and> \<not> fLess F (returnToPlayer F (fst (Context (snap a)))) (TargetRTP impl)"
    if live: "\<not> isDone a"
  proof -
    have "engine_ok H (eng a)" "evalGuard (eng a) = simple_makeGuard F impl" "settled H (eng a)"
      using safe(3) live assms(5) run_rests [OF assms(7)] by (simp_all add: legal_engine_def ruled_def resting_def)
    then show ?thesis
      using safe(2) by (elim simple_settled [OF H]) (simp_all add: mirrors_def simple_makeGuard_def PayingTooMuchOnGiving_def PayingTooLittleOnTaking_def)
  qed
  then show ?thesis
    using safe(1) by (auto simp: booked_def)
qed

theorem mode_follows_return_witness:
  "\<exists>H d a. Load (lexemes simple_json) = Some (Inr (H, d))
     \<and> actor_run H 4 (Start ''slot-1'' (slot_machine d) sample_world0) a \<and> \<not> isDone a
     \<and> map ActiveStates (stored a) = [[], [''giving''], [''giving''], [''taking''], [''taking'']]
     \<and> map (\<lambda>s. LastWin (fst (Context s))) (stored a) = [0, 0, 4, 4, 0]
     \<and> (\<forall>s \<in> set (stored a). TotalBet (fst (Context s)) = wrap64 (Spins (fst (Context s))))"
proof -
  obtain H d where l: "Load (lexemes simple_json) = Some (Inr (H, d))" and ok: "slot_test H d"
    using slot_tested unfolding loads_with_iff by blast
  note parts = ok [unfolded slot_test_def Let_def, folded slot_spun_def]
  have "actor_run H 4 (Start ''slot-1'' (slot_machine d) sample_world0) (slot_booted H d)"
    unfolding slot_booted_def using parts by (intro run_booted) blast
  then have run: "actor_run H 4 (Start ''slot-1'' (slot_machine d) sample_world0) (slot_spun H d)"
    unfolding slot_spun_def using parts by (intro run_told) blast+
  have "\<forall>s \<in> set (stored (slot_spun H d)). TotalBet (fst (Context s)) = wrap64 (Spins (fst (Context s)))"
    using mode_follows_return [OF l _ slot_machine_parts run] by (simp add: one_credit_def)
  then show ?thesis
    using l run parts by (intro exI [of _ H] exI [of _ d] exI [of _ "slot_spun H d"]) simp
qed

end
