(* ===== verification/Example_GitHub.thy ===== *)
theory Example_GitHub
  imports Example_Agent
begin

section \<open>An example's access to GitHub: \<open>examples/issues/github\<close>\<close>

text \<open>
  The token, the repository and the operations on an issue (\<open>client.go\<close>, \<open>issue.go\<close>). The
  generated functions of \<open>generated.go\<close> send one request each: they are the record \<open>graphql\<close>
  of operations on the state \<open>'g\<close> of the service, an argument.
\<close>

subsection \<open>Strings\<close>

definition TrimSuffix :: "string \<Rightarrow> string \<Rightarrow> string" where
  "TrimSuffix s t = (if HasSuffix s t then take (length s - length t) s else s)"

fun after :: "string \<Rightarrow> string \<Rightarrow> string option" where
  "after [] sub = (if sub = [] then Some [] else None)"
| "after (c # s) sub = (if HasPrefix (c # s) sub then Some (drop (length sub) (c # s)) else after s sub)"

definition afterFirst :: "char \<Rightarrow> string \<Rightarrow> string option" where
  "afterFirst c s = (case dropWhile (\<lambda>x. x \<noteq> c) s of [] \<Rightarrow> None | x # t \<Rightarrow> Some t)"

definition afterLast :: "char \<Rightarrow> string \<Rightarrow> string" where
  "afterLast c s = rev (takeWhile (\<lambda>x. x \<noteq> c) (rev s))"

definition TrimByte :: "char \<Rightarrow> string \<Rightarrow> string" where
  "TrimByte c s = rev (dropWhile (\<lambda>x. x = c) (rev (dropWhile (\<lambda>x. x = c) s)))"

declare TrimSuffix_def [gomodel] afterFirst_def [gomodel] afterLast_def [gomodel] TrimByte_def [gomodel]

subsection \<open>Token and repository\<close>

definition Token :: "'v agentEnv \<Rightarrow> error + string" where
  "Token E =
     (let t = TrimSpace (Getenv E ''GITHUB_TOKEN'') in
      if t \<noteq> [] then Inr t
      else case Output E [''gh'', ''auth'', ''token''] [] of
             Inl err \<Rightarrow> Inl (WrapError ''github: GITHUB_TOKEN unset and `gh auth token` failed: '' err [])
           | Inr out \<Rightarrow>
               (if TrimSpace out = [] then Inl (UserError ''github: `gh auth token` returned an empty token'')
                else Inr (TrimSpace out)))"

definition splitOwnerRepo :: "string \<Rightarrow> (string \<times> string) option" where
  "splitOwnerRepo s =
     (let s = TrimSpace s; own = takeWhile (\<lambda>x. x \<noteq> CHR ''/'') s in
      case afterFirst (CHR ''/'') s of
        None \<Rightarrow> None
      | Some r \<Rightarrow> if own = [] \<or> r = [] \<or> ContainsByte r (CHR ''/'') then None else Some (own, r))"

text \<open>What is left of the address when scheme, user and host are taken off.\<close>

definition remotePath :: "string \<Rightarrow> string option" where
  "remotePath s =
     (case after s ''://'' of
        Some t \<Rightarrow> afterFirst (CHR ''/'') (afterLast (CHR ''@'') t)
      | None \<Rightarrow>
          (case afterFirst (CHR ''@'') s of
             Some t \<Rightarrow> afterFirst (CHR '':'') t
           | None \<Rightarrow> Some s))"

definition parseRemoteURL :: "string \<Rightarrow> (string \<times> string) option" where
  "parseRemoteURL raw =
     (case remotePath (TrimSuffix (TrimSpace raw) ''.git'') of
        None \<Rightarrow> None
      | Some s \<Rightarrow>
          (let parts = SplitByte (CHR ''/'') (TrimByte (CHR ''/'') s) in
           if length parts < 2 then None
           else (let own = parts ! (length parts - 2); rep = parts ! (length parts - 1) in
                 if own = [] \<or> rep = [] then None else Some (own, rep))))"

definition Repo :: "'v agentEnv \<Rightarrow> error + string \<times> string" where
  "Repo E =
     (let r = TrimSpace (Getenv E ''GITHUB_REPOSITORY'') in
      if r \<noteq> [] then
        (case splitOwnerRepo r of
           None \<Rightarrow> Inl (UserError (''github: GITHUB_REPOSITORY '' @ quote r @ '' is not '' @ quote ''owner/repo''))
         | Some on \<Rightarrow> Inr on)
      else
        (case Output E [''git'', ''remote'', ''get-url'', ''origin''] [] of
           Inl err \<Rightarrow> Inl (WrapError ''github: GITHUB_REPOSITORY unset and `git remote get-url origin` failed: '' err [])
         | Inr out \<Rightarrow>
             (case parseRemoteURL out of
                None \<Rightarrow> Inl (UserError (''github: cannot parse git remote '' @ quote (TrimSpace out)))
              | Some on \<Rightarrow> Inr on)))"

declare Token_def [gomodel] splitOwnerRepo_def [gomodel] remotePath_def [gomodel] parseRemoteURL_def [gomodel]
  Repo_def [gomodel]

text \<open>The forms the comment of \<open>parseRemoteURL\<close> names, and one that it takes for another.\<close>

lemma remotes:
  "parseRemoteURL ''git@github.com:andrioid/statesman.git'' = Some (''andrioid'', ''statesman'')"
  "parseRemoteURL ''ssh://git@github.com/andrioid/statesman'' = Some (''andrioid'', ''statesman'')"
  "parseRemoteURL ''https://token@host/group/andrioid/statesman.git'' = Some (''andrioid'', ''statesman'')"
  "parseRemoteURL ''github.com:andrioid/statesman'' = Some (''github.com:andrioid'', ''statesman'')"
  by code_simp+

subsection \<open>Issues and comments\<close>

record Issue =
  issueID :: string
  issueNumber :: int
  issueTitle :: string
  issueBody :: string
  issueURL :: string
  issueState :: string

record commentPage =
  bodies :: "string list"
  HasNextPage :: bool
  EndCursor :: string

record 'g graphql =
  IssueByNumber :: "string \<Rightarrow> string \<Rightarrow> int \<Rightarrow> 'g \<Rightarrow> 'g \<times> (error + Issue)"
  IssueComments :: "string \<Rightarrow> string \<Rightarrow> int \<Rightarrow> string option \<Rightarrow> 'g \<Rightarrow> 'g \<times> (error + commentPage)"
  AddIssueComment :: "string \<Rightarrow> string \<Rightarrow> 'g \<Rightarrow> 'g \<times> error option"

definition GetIssue :: "'g graphql \<Rightarrow> string \<Rightarrow> string \<Rightarrow> int \<Rightarrow> 'g \<Rightarrow> 'g \<times> (error + Issue)" where
  "GetIssue C own rep n g =
     (case IssueByNumber C own rep n g of
        (g, Inl err) \<Rightarrow> (g, Inl err)
      | (g, Inr i) \<Rightarrow>
          (g, if issueID i = [] then Inl (UserError (''github: issue '' @ own @ ''/'' @ rep @ ''#'' @ itoa n @ '' not found''))
              else Inr i))"

definition PostComment :: "'g graphql \<Rightarrow> string \<Rightarrow> string \<Rightarrow> 'g \<Rightarrow> 'g \<times> error option" where
  "PostComment C subject body g = AddIssueComment C subject body g"

definition commentPageLimit :: nat where
  "commentPageLimit = 50"

fun commentPages ::
  "'g graphql \<Rightarrow> string \<Rightarrow> string \<Rightarrow> int \<Rightarrow> string \<Rightarrow> nat \<Rightarrow> string option \<Rightarrow> 'g \<Rightarrow> 'g \<times> (error + bool)" where
  "commentPages C own rep n marker 0 cur g = (g, Inr False)"
| "commentPages C own rep n marker (Suc pages) cur g =
     (case IssueComments C own rep n cur g of
        (g, Inl err) \<Rightarrow> (g, Inl err)
      | (g, Inr c) \<Rightarrow>
          if list_ex (\<lambda>b. Contains b marker) (bodies c) then (g, Inr True)
          else if \<not> HasNextPage c \<or> EndCursor c = [] then (g, Inr False)
          else commentPages C own rep n marker pages (Some (EndCursor c)) g)"

definition CommentExists ::
  "'g graphql \<Rightarrow> string \<Rightarrow> string \<Rightarrow> int \<Rightarrow> string \<Rightarrow> 'g \<Rightarrow> 'g \<times> (error + bool)" where
  "CommentExists C own rep n marker g = commentPages C own rep n marker commentPageLimit None g"

declare GetIssue_def [gomodel] PostComment_def [gomodel] commentPageLimit_def [gomodel] CommentExists_def [gomodel]

end
