(* ===== verification/Example_Issues.thy ===== *)
theory Example_Issues
  imports Example_Fix Example_GitHub
begin

section \<open>The coordinator of an example: \<open>examples/issues\<close>\<close>

text \<open>
  The machine that collects an issue, has it classified, investigated and fixed, and posts a
  comment: context, events and behaviour (\<open>issues.events.go\<close>, \<open>issues.behavior.go\<close>,
  \<open>issues.delays.go\<close>), the functions behind its promises (\<open>issues.actors.go\<close>, \<open>dryrun.go\<close>)
  and the wiring (\<open>issues.machine.gen.go\<close>). The conventions are those of \<open>Example_Fix\<close>; the
  methods that the generated guards look for with a type assertion are optional.
\<close>

subsection \<open>Context, inputs, events\<close>

record issContext =
  issNumber :: int
  issOwner :: string
  issRepo :: string
  issTitle :: string
  issBody :: string
  issIssueID :: string
  issCategory :: string
  issFindings :: string
  issPatch :: string
  issSummary :: string
  issAttempt :: int
  issLastError :: string

record CollectResult =
  crTitle :: string
  crBody :: string
  crIssueID :: string
  crOwner :: string
  crRepo :: string

record ClassifyInput =
  clNumber :: int
  clTitle :: string
  clBody :: string

record SummariseInput =
  suNumber :: int
  suCategory :: string
  suFindings :: string
  suPatch :: string

record SyncInput =
  syNumber :: int
  syOwner :: string
  syRepo :: string
  syIssueID :: string
  syComment :: string

datatype issEvent =
    ClassifyDone string
  | CollectDone CollectResult
  | FixDone fixContext
  | InvestigateDone invContext
  | SummariseDone string
  | SyncDone bool
  | ClassifyError "error option"
  | CollectError "error option"
  | FixError "error option"
  | InvestigateError "error option"
  | SummariseError "error option"
  | SyncError "error option"

fun iss_EventType :: "issEvent \<Rightarrow> string" where
  "iss_EventType (ClassifyDone out) = ''done.invoke.classify''"
| "iss_EventType (CollectDone out) = ''done.invoke.collect''"
| "iss_EventType (FixDone out) = ''done.invoke.fix''"
| "iss_EventType (InvestigateDone out) = ''done.invoke.investigate''"
| "iss_EventType (SummariseDone out) = ''done.invoke.summarise''"
| "iss_EventType (SyncDone out) = ''done.invoke.sync''"
| "iss_EventType (ClassifyError err) = ''error.invoke.classify''"
| "iss_EventType (CollectError err) = ''error.invoke.collect''"
| "iss_EventType (FixError err) = ''error.invoke.fix''"
| "iss_EventType (InvestigateError err) = ''error.invoke.investigate''"
| "iss_EventType (SummariseError err) = ''error.invoke.summarise''"
| "iss_EventType (SyncError err) = ''error.invoke.sync''"

subsection \<open>Behaviour\<close>

record issImplementations =
  SavePackageOnCollectDone :: "issContext \<Rightarrow> CollectResult \<Rightarrow> issContext ActionResult"
  RecordFailureOnCollectError :: "issContext \<Rightarrow> error option \<Rightarrow> issContext ActionResult"
  NextAttemptOnCollectingBackingOff :: "issContext \<Rightarrow> issContext ActionResult"
  SaveClassificationOnClassifyDone :: "issContext \<Rightarrow> string \<Rightarrow> issContext ActionResult"
  SaveFindingsOnInvestigateDone :: "issContext \<Rightarrow> invContext \<Rightarrow> issContext ActionResult"
  SavePatchOnFixDone :: "issContext \<Rightarrow> fixContext \<Rightarrow> issContext ActionResult"
  SaveSummaryOnSummariseDone :: "issContext \<Rightarrow> string \<Rightarrow> issContext ActionResult"
  RecordFailureOnSyncError :: "issContext \<Rightarrow> error option \<Rightarrow> issContext ActionResult"
  NextAttemptOnSyncingBackingOff :: "issContext \<Rightarrow> issContext ActionResult"
  HasAttemptsLeft :: "issContext \<Rightarrow> bool"
  ShouldRetry :: "issContext \<Rightarrow> bool"
  IsActionableOnClassifyDone :: "issContext \<Rightarrow> string \<Rightarrow> bool"
  ClassifyIssueInput :: "issContext \<Rightarrow> ClassifyInput"
  CollectIssueInput :: "issContext \<Rightarrow> int"
  FixInput :: "issContext \<Rightarrow> fixContext"
  InvestigateInput :: "issContext \<Rightarrow> invContext"
  SummariseIssueInput :: "issContext \<Rightarrow> SummariseInput"
  SyncIssueInput :: "issContext \<Rightarrow> SyncInput"
  HasAttemptsLeftOnCollectingFetching :: "(issContext \<Rightarrow> bool) option"
  ShouldRetryOnCollectError :: "(issContext \<Rightarrow> error option \<Rightarrow> bool) option"
  HasAttemptsLeftOnSyncingPosting :: "(issContext \<Rightarrow> bool) option"
  ShouldRetryOnSyncError :: "(issContext \<Rightarrow> error option \<Rightarrow> bool) option"

definition maxRetries :: int where
  "maxRetries = 3"

definition fixAttempts :: int where
  "fixAttempts = 3"

definition recordErr :: "issContext \<Rightarrow> error option \<Rightarrow> issContext ActionResult" where
  "recordErr ctx err =
     Assign (case err of None \<Rightarrow> ctx | Some e \<Rightarrow> ctx\<lparr>issLastError := Error_text e\<rparr>)"

definition bump :: "issContext \<Rightarrow> issContext ActionResult" where
  "bump ctx = Assign (ctx\<lparr>issAttempt := wrap64 (issAttempt ctx + 1)\<rparr>)"

definition retriesLeft :: "issContext \<Rightarrow> bool" where
  "retriesLeft ctx \<longleftrightarrow> issAttempt ctx < maxRetries"

definition transientLeft :: "issContext \<Rightarrow> error option \<Rightarrow> bool" where
  "transientLeft ctx err \<longleftrightarrow> issAttempt ctx < maxRetries \<and> IsTransient err"

definition issImpl :: issImplementations where
  "issImpl =
     \<lparr>SavePackageOnCollectDone = (\<lambda>ctx out.
        Assign (ctx\<lparr>issTitle := crTitle out, issBody := crBody out, issIssueID := crIssueID out,
                    issOwner := crOwner out, issRepo := crRepo out\<rparr>)),
      RecordFailureOnCollectError = recordErr,
      NextAttemptOnCollectingBackingOff = bump,
      SaveClassificationOnClassifyDone = (\<lambda>ctx out. Assign (ctx\<lparr>issCategory := out\<rparr>)),
      SaveFindingsOnInvestigateDone = (\<lambda>ctx out. Assign (ctx\<lparr>issFindings := invFindings out\<rparr>)),
      SavePatchOnFixDone = (\<lambda>ctx out. Assign (ctx\<lparr>issPatch := fixPatch out\<rparr>)),
      SaveSummaryOnSummariseDone = (\<lambda>ctx out. Assign (ctx\<lparr>issSummary := out\<rparr>)),
      RecordFailureOnSyncError = recordErr,
      NextAttemptOnSyncingBackingOff = bump,
      HasAttemptsLeft = retriesLeft,
      ShouldRetry = retriesLeft,
      IsActionableOnClassifyDone = (\<lambda>ctx out. out = ''bug''),
      ClassifyIssueInput = (\<lambda>ctx. \<lparr>clNumber = issNumber ctx, clTitle = issTitle ctx, clBody = issBody ctx\<rparr>),
      CollectIssueInput = issNumber,
      FixInput = (\<lambda>ctx. \<lparr>fixNumber = issNumber ctx, fixFindings = issFindings ctx, fixPatch = [], fixAttempt = 0,
                          fixMaxAttempts = fixAttempts\<rparr>),
      InvestigateInput = (\<lambda>ctx. \<lparr>invNumber = issNumber ctx, invTitle = issTitle ctx, invBody = issBody ctx,
                                  invFindings = []\<rparr>),
      SummariseIssueInput = (\<lambda>ctx. \<lparr>suNumber = issNumber ctx, suCategory = issCategory ctx,
                                     suFindings = issFindings ctx, suPatch = issPatch ctx\<rparr>),
      SyncIssueInput = (\<lambda>ctx. \<lparr>syNumber = issNumber ctx, syOwner = issOwner ctx, syRepo = issRepo ctx,
                                syIssueID = issIssueID ctx, syComment = issSummary ctx\<rparr>),
      HasAttemptsLeftOnCollectingFetching = None,
      ShouldRetryOnCollectError = Some transientLeft,
      HasAttemptsLeftOnSyncingPosting = None,
      ShouldRetryOnSyncError = Some transientLeft\<rparr>"

declare maxRetries_def [gomodel] fixAttempts_def [gomodel] recordErr_def [gomodel] bump_def [gomodel]
  retriesLeft_def [gomodel] transientLeft_def [gomodel] issImpl_def [gomodel]

subsection \<open>The functions behind the promises\<close>

text \<open>\<open>connect\<close> is \<open>graphql.NewClient\<close> with the transport that sends the token.\<close>

definition NewClient :: "'v agentEnv \<Rightarrow> (string \<Rightarrow> 'g graphql) \<Rightarrow> error + 'g graphql" where
  "NewClient E connect = bindE (Token E) (\<lambda>tk. Inr (connect tk))"

definition CollectIssue ::
  "'v agentEnv \<Rightarrow> (string \<Rightarrow> 'g graphql) \<Rightarrow> int \<Rightarrow> 'g \<Rightarrow> 'g \<times> (error + CollectResult)" where
  "CollectIssue E connect n g =
     (case Repo E of
        Inl err \<Rightarrow> (g, Inl err)
      | Inr (own, rep) \<Rightarrow>
          (case NewClient E connect of
             Inl err \<Rightarrow> (g, Inl err)
           | Inr C \<Rightarrow>
               (case GetIssue C own rep n g of
                  (g, Inl err) \<Rightarrow> (g, Inl err)
                | (g, Inr i) \<Rightarrow>
                    (g, Inr \<lparr>crTitle = issueTitle i, crBody = issueBody i, crIssueID = issueID i,
                             crOwner = own, crRepo = rep\<rparr>))))"

definition classifyPrompt :: string where
  "classifyPrompt =
     ''You are triaging GitHub issue #{{.Number}}.'' @ nl @ nl @ ''Title: {{.Title}}'' @ nl @ nl
     @ ''Body:'' @ nl @ ''{{.Body}}'' @ nl @ nl
     @ ''Classify it as exactly ONE lowercase word from: bug, question, duplicate, invalid. Reply with only that single word.''"

definition ClassifyIssue :: "ClassifyInput agentEnv \<Rightarrow> ClassifyInput \<Rightarrow> error + string" where
  "ClassifyIssue E v = agent_Invoke E ''classify'' classifyPrompt v"

definition summarisePrompt :: string where
  "summarisePrompt =
     ''Write a concise maintainer comment (2-4 sentences) for GitHub issue #{{.Number}} summarising the triage outcome.''
     @ nl @ nl @ ''Category: {{.Category}}'' @ nl @ ''{{if .Findings}}'' @ nl @ ''Findings:'' @ nl @ ''{{.Findings}}'' @ nl
     @ ''{{end}}{{if .Patch}}'' @ nl @ ''Proposed patch:'' @ nl @ ''{{.Patch}}'' @ nl @ ''{{end}}'' @ nl
     @ ''Reply with only the comment text.''"

definition SummariseIssue :: "SummariseInput agentEnv \<Rightarrow> SummariseInput \<Rightarrow> error + string" where
  "SummariseIssue E v = agent_Invoke E ''summarise'' summarisePrompt v"

definition marker :: "int \<Rightarrow> string" where
  "marker n = ''<!-- issues-bot:'' @ itoa n @ '' -->''"

text \<open>The result is \<open>Posted\<close>.\<close>

definition SyncIssue ::
  "'v agentEnv \<Rightarrow> (string \<Rightarrow> 'g graphql) \<Rightarrow> SyncInput \<Rightarrow> 'g \<Rightarrow> 'g \<times> (error + bool)" where
  "SyncIssue E connect v g =
     (case NewClient E connect of
        Inl err \<Rightarrow> (g, Inl err)
      | Inr C \<Rightarrow>
          (case CommentExists C (syOwner v) (syRepo v) (syNumber v) (marker (syNumber v)) g of
             (g, Inl err) \<Rightarrow> (g, Inl err)
           | (g, Inr True) \<Rightarrow> (g, Inr False)
           | (g, Inr False) \<Rightarrow>
               (case PostComment C (syIssueID v) (marker (syNumber v) @ nl @ syComment v) g of
                  (g, Some err) \<Rightarrow> (g, Inl err)
                | (g, None) \<Rightarrow> (g, Inr True))))"

text \<open>The dry run: what it writes, and its result.\<close>

definition DryRunSyncIssue :: "SyncInput \<Rightarrow> string \<times> (error + bool)" where
  "DryRunSyncIssue v =
     (''[dry-run] would comment on '' @ syOwner v @ ''/'' @ syRepo v @ ''#'' @ itoa (syNumber v) @ '' (subject ''
        @ syIssueID v @ ''):'' @ nl @ marker (syNumber v) @ nl @ syComment v @ nl,
      Inr False)"

declare NewClient_def [gomodel] CollectIssue_def [gomodel] classifyPrompt_def [gomodel] ClassifyIssue_def [gomodel]
  summarisePrompt_def [gomodel] SummariseIssue_def [gomodel] marker_def [gomodel] SyncIssue_def [gomodel]
  DryRunSyncIssue_def [gomodel]

subsection \<open>Wiring\<close>

definition issuesDelays :: "(string \<times> duration) list" where
  "issuesDelays =
     [(''CollectAttemptTimeout'', 30 * Second), (''CollectDeadline'', 3 * Minute), (''CollectBackoff'', 5 * Second),
      (''ClassifyTimeout'', 60 * Second), (''SummariseTimeout'', 60 * Second), (''SyncAttemptTimeout'', 20 * Second),
      (''SyncDeadline'', 2 * Minute), (''SyncBackoff'', 3 * Second)]"

definition iss_delays :: "string \<Rightarrow> duration" where
  "iss_delays s = (case map_of issuesDelays s of None \<Rightarrow> 0 | Some d \<Rightarrow> d)"

definition iss_makeApplier ::
  "issImplementations \<Rightarrow> int \<Rightarrow> issContext \<Rightarrow> issEvent option \<Rightarrow> (issContext, 'b) AppliedEffect" where
  "iss_makeApplier impl cs ctx evt =
     (if cs = 0 then
        (case evt of Some (CollectDone out) \<Rightarrow> applyResult (SavePackageOnCollectDone impl ctx out) | _ \<Rightarrow> EffectNoop)
      else if cs = 1 \<or> cs = 2 then
        (case evt of Some (CollectError err) \<Rightarrow> applyResult (RecordFailureOnCollectError impl ctx err) | _ \<Rightarrow> EffectNoop)
      else if cs = 3 then applyResult (NextAttemptOnCollectingBackingOff impl ctx)
      else if cs = 4 \<or> cs = 5 then
        (case evt of Some (ClassifyDone out) \<Rightarrow> applyResult (SaveClassificationOnClassifyDone impl ctx out) | _ \<Rightarrow> EffectNoop)
      else if cs = 6 then
        (case evt of Some (InvestigateDone out) \<Rightarrow> applyResult (SaveFindingsOnInvestigateDone impl ctx out) | _ \<Rightarrow> EffectNoop)
      else if cs = 7 then
        (case evt of Some (FixDone out) \<Rightarrow> applyResult (SavePatchOnFixDone impl ctx out) | _ \<Rightarrow> EffectNoop)
      else if cs = 8 then
        (case evt of Some (SummariseDone out) \<Rightarrow> applyResult (SaveSummaryOnSummariseDone impl ctx out) | _ \<Rightarrow> EffectNoop)
      else if cs = 9 \<or> cs = 10 then
        (case evt of Some (SyncError err) \<Rightarrow> applyResult (RecordFailureOnSyncError impl ctx err) | _ \<Rightarrow> EffectNoop)
      else if cs = 11 then applyResult (NextAttemptOnSyncingBackingOff impl ctx)
      else EffectNoop)"

definition iss_makeGuard :: "issImplementations \<Rightarrow> int \<Rightarrow> issContext \<Rightarrow> issEvent option \<Rightarrow> bool" where
  "iss_makeGuard impl cs ctx evt =
     (if cs = 0 then
        (case HasAttemptsLeftOnCollectingFetching impl of Some f \<Rightarrow> f ctx | None \<Rightarrow> HasAttemptsLeft impl ctx)
      else if cs = 1 then
        (case ShouldRetryOnCollectError impl of
           Some f \<Rightarrow> (case evt of Some (CollectError err) \<Rightarrow> f ctx err | _ \<Rightarrow> False)
         | None \<Rightarrow> ShouldRetry impl ctx)
      else if cs = 2 then
        (case evt of Some (ClassifyDone out) \<Rightarrow> IsActionableOnClassifyDone impl ctx out | _ \<Rightarrow> False)
      else if cs = 3 then
        (case HasAttemptsLeftOnSyncingPosting impl of Some f \<Rightarrow> f ctx | None \<Rightarrow> HasAttemptsLeft impl ctx)
      else if cs = 4 then
        (case ShouldRetryOnSyncError impl of
           Some f \<Rightarrow> (case evt of Some (SyncError err) \<Rightarrow> f ctx err | _ \<Rightarrow> False)
         | None \<Rightarrow> ShouldRetry impl ctx)
      else True)"

text \<open>What the coordinator is told by its nested machines.\<close>

definition investigate_notify :: "invContext Snapshot \<Rightarrow> issEvent list" where
  "investigate_notify =
     machine_notify (Some (\<lambda>s. InvestigateDone (Context s))) (Some (\<lambda>s. InvestigateError (ErrorReason s)))"

definition fix_notify :: "fixContext Snapshot \<Rightarrow> issEvent list" where
  "fix_notify = machine_notify (Some (\<lambda>s. FixDone (Context s))) (Some (\<lambda>s. FixError (ErrorReason s)))"

text \<open>
  The runners are arguments: promises on the functions above, and \<open>MachineActor\<close> with the
  context that the behaviour derives from the coordinator's.
\<close>

definition zeroIssContext :: issContext where
  "zeroIssContext =
     \<lparr>issNumber = 0, issOwner = [], issRepo = [], issTitle = [], issBody = [], issIssueID = [], issCategory = [],
      issFindings = [], issPatch = [], issSummary = [], issAttempt = 0, issLastError = []\<rparr>"

definition Investigate ::
  "('w \<Rightarrow> time) \<Rightarrow> (('w \<Rightarrow> time) \<Rightarrow> ('w, ScheduledTimer) TimerService) \<Rightarrow> Definition
     \<Rightarrow> ('w, AnalyseInput + string, invEvent) go \<Rightarrow> ('w, invContext, invEvent, 'b) Machine" where
  "Investigate clk svc d goAnalyse = NewInvestigateMachine clk svc d goAnalyse invImpl []"

definition Fix ::
  "('w \<Rightarrow> time) \<Rightarrow> (('w \<Rightarrow> time) \<Rightarrow> ('w, ScheduledTimer) TimerService) \<Rightarrow> Definition
     \<Rightarrow> ('w, EditInput + string, fixEvent) go \<Rightarrow> ('w, int + TestResult, fixEvent) go
     \<Rightarrow> ('w, fixContext, fixEvent, 'b) Machine" where
  "Fix clk svc d goEdit goTest = NewFixMachine clk svc d goEdit goTest fixImpl []"

definition promise ::
  "('w, 'i + 'o, issEvent) go \<Rightarrow> (issContext \<Rightarrow> 'i) \<Rightarrow> ('o \<Rightarrow> issEvent) \<Rightarrow> (error option \<Rightarrow> issEvent)
     \<Rightarrow> ('w, issContext, issEvent, 'b) InvokeRunner" where
  "promise go inp onDone onError =
     PromiseActor go (\<lambda>ctx. Inl (inp ctx)) (\<lambda>out. onDone (projr out)) (\<lambda>err. onError (Some err))"

text \<open>\<open>nestInvestigate\<close> and \<open>nestFix\<close> are \<open>MachineActor\<close> on the factories above.\<close>

definition NewIssuesMachine ::
  "('w \<Rightarrow> time) \<Rightarrow> (('w \<Rightarrow> time) \<Rightarrow> ('w, ScheduledTimer) TimerService) \<Rightarrow> Definition
     \<Rightarrow> ('w, int + CollectResult, issEvent) go \<Rightarrow> ('w, ClassifyInput + string, issEvent) go
     \<Rightarrow> ((issContext \<Rightarrow> invContext) option \<Rightarrow> ('w, issContext, issEvent, 'b) InvokeRunner)
     \<Rightarrow> ((issContext \<Rightarrow> fixContext) option \<Rightarrow> ('w, issContext, issEvent, 'b) InvokeRunner)
     \<Rightarrow> ('w, SummariseInput + string, issEvent) go \<Rightarrow> ('w, SyncInput + bool, issEvent) go
     \<Rightarrow> issImplementations \<Rightarrow> 'w Option list \<Rightarrow> ('w, issContext, issEvent, 'b) Machine" where
  "NewIssuesMachine clk svc d goCollect goClassify nestInvestigate nestFix goSummarise goSync impl opts =
     (let opts = opts @ [WithDelays iss_delays];
          m = NewMachine clk svc iss_EventType d zeroIssContext (iss_makeApplier impl) (iss_makeGuard impl) opts;
          m = RegisterInvoke ''collect'' (promise goCollect (CollectIssueInput impl) CollectDone CollectError) m;
          m = RegisterInvoke ''classify'' (promise goClassify (ClassifyIssueInput impl) ClassifyDone ClassifyError) m;
          m = RegisterInvoke ''investigate'' (nestInvestigate (Some (InvestigateInput impl))) m;
          m = RegisterInvoke ''fix'' (nestFix (Some (FixInput impl))) m;
          m = RegisterInvoke ''summarise'' (promise goSummarise (SummariseIssueInput impl) SummariseDone SummariseError) m
      in RegisterInvoke ''sync'' (promise goSync (SyncIssueInput impl) SyncDone SyncError) m)"

definition RegisterDryRunSync ::
  "('w, SyncInput + bool, issEvent) go \<Rightarrow> ('w, issContext, issEvent, 'b) Machine \<Rightarrow> ('w, issContext, issEvent, 'b) Machine" where
  "RegisterDryRunSync goDry m = RegisterInvoke ''sync'' (promise goDry (SyncIssueInput issImpl) SyncDone SyncError) m"

declare issuesDelays_def [gomodel] iss_delays_def [gomodel] iss_makeApplier_def [gomodel] iss_makeGuard_def [gomodel]
  investigate_notify_def [gomodel] fix_notify_def [gomodel] zeroIssContext_def [gomodel] Investigate_def [gomodel]
  Fix_def [gomodel] promise_def [gomodel] NewIssuesMachine_def [gomodel] RegisterDryRunSync_def [gomodel]

subsection \<open>A failed investigation is a result\<close>

text \<open>
  A nested machine that ends in its final state \<open>failed\<close> is done: the coordinator is told
  \<open>InvestigateDone\<close> with empty findings, not \<open>InvestigateError\<close>.
\<close>

definition inv_start :: "Definition \<Rightarrow> (sample_world, invContext, invEvent, unit) actor" where
  "inv_start d =
     Start ''investigate'' (Investigate (\<lambda>w. ManualClock_Now (clock w)) (\<lambda>_. manualService) d (\<lambda>_ _ _ w. w)) sample_world0"

definition failed_investigation :: "heap \<Rightarrow> Definition \<Rightarrow> bool" where
  "failed_investigation H d \<longleftrightarrow>
     (let a = told H 5 (AnalyseError (Some (UserError ''agent''))) (booted H 5 ((inv_start d)\<lparr>mailbox := []\<rparr>))
      in ActiveStates (snap a) = [''failed'']
         \<and> concat (map investigate_notify (stored a)) =
             [InvestigateDone \<lparr>invNumber = 0, invTitle = [], invBody = [], invFindings = []\<rparr>])"

lemma failed_investigation_is_done: "loads_with failed_investigation investigate_json"
  by code_simp

subsection \<open>One comment\<close>

text \<open>
  What is assumed of the service for one issue: it does not fail, reading changes nothing and
  pages through the thread of comments, posting appends to it.
\<close>

fun listed :: "'g graphql \<Rightarrow> string \<Rightarrow> string \<Rightarrow> int \<Rightarrow> nat \<Rightarrow> string option \<Rightarrow> 'g \<Rightarrow> string list" where
  "listed C own rep n 0 cur g = []"
| "listed C own rep n (Suc pages) cur g =
     (case snd (IssueComments C own rep n cur g) of
        Inl err \<Rightarrow> []
      | Inr c \<Rightarrow>
          bodies c @ (if \<not> HasNextPage c \<or> EndCursor c = [] then [] else listed C own rep n pages (Some (EndCursor c)) g))"

definition reads_only :: "'g graphql \<Rightarrow> string \<Rightarrow> string \<Rightarrow> int \<Rightarrow> bool" where
  "reads_only C own rep n \<longleftrightarrow> (\<forall>cur g. \<exists>c. IssueComments C own rep n cur g = (g, Inr c))"

lemma commentPages_listed:
  assumes "reads_only C own rep n"
  shows "commentPages C own rep n mk pages cur g = (g, Inr (list_ex (\<lambda>b. Contains b mk) (listed C own rep n pages cur g)))"
proof (induction pages arbitrary: cur)
  case 0
  then show ?case by simp
next
  case (Suc pages)
  obtain c where "IssueComments C own rep n cur g = (g, Inr c)"
    using assms by (auto simp: reads_only_def)
  then show ?case
    using Suc by simp
qed

lemma Contains_prefix: "HasPrefix s t \<Longrightarrow> Contains s t"
  by (cases s) (auto simp: HasPrefix_def)

text \<open>
  As long as the thread fits into the pages that are read, a sync that has posted is not
  repeated by the next one, whatever comment that has.
\<close>

lemma sync_once:
  assumes env: "Token E = Inr tk" and C: "C = connect tk" "reads_only C (syOwner v) (syRepo v) (syNumber v)"
    and posts: "\<And>g body g'. AddIssueComment C (syIssueID v) body g = (g', None) \<Longrightarrow>
        body \<in> set (listed C (syOwner v) (syRepo v) (syNumber v) commentPageLimit None g')"
    and first: "SyncIssue E connect v g = (g1, Inr True)"
    and again: "syOwner v' = syOwner v" "syRepo v' = syRepo v" "syNumber v' = syNumber v"
  shows "SyncIssue E connect v' g1 = (g1, Inr False)"
proof -
  let ?l = "\<lambda>g. listed C (syOwner v) (syRepo v) (syNumber v) commentPageLimit None g"
  let ?m = "marker (syNumber v)"
  have exists: "CommentExists C (syOwner v) (syRepo v) (syNumber v) ?m g = (g, Inr (list_ex (\<lambda>b. Contains b ?m) (?l g)))" for g
    unfolding CommentExists_def by (rule commentPages_listed [OF C(2)])
  have "\<exists>body. AddIssueComment C (syIssueID v) (?m @ body) g = (g1, None)"
    using first by (auto simp: SyncIssue_def NewClient_def env C(1) [symmetric] exists PostComment_def
        split: bool.splits prod.splits option.splits)
  then obtain body where "?m @ body \<in> set (?l g1)"
    using posts by blast
  then have "list_ex (\<lambda>b. Contains b ?m) (?l g1)"
    using Contains_prefix [of "?m @ body" ?m] by (auto simp: list_ex_iff)
  then show ?thesis
    by (simp add: SyncIssue_def NewClient_def env C(1) [symmetric] again exists)
qed

end
