(* ===== verification/Example_Issuesctl.thy ===== *)
theory Example_Issuesctl
  imports Example_Issues Diagram_Render
begin

section \<open>The command of an example: \<open>examples/issues/cmd/issuesctl\<close>\<close>

text \<open>
  The command that runs the coordinator on an issue: what it accepts, what it prints, how it
  exits. Parsing the flags is package \<open>flag\<close>'s; the run of the machine is the list of
  snapshots that its subscriber is given, or the end of the time it was allowed.
\<close>

subsection \<open>The issue number\<close>

text \<open>\<open>strconv.Atoi\<close>: an optional sign and digits, in 64 bits.\<close>

definition Atoi :: "string \<Rightarrow> int option" where
  "Atoi s =
     (let neg = HasPrefix s ''-'';
          ds = (if neg \<or> HasPrefix s ''+'' then tl s else s);
          i = (if neg then - decimal ds else decimal ds)
      in if isAllDigits ds \<and> - (2 ^ 63) \<le> i \<and> i < 2 ^ 63 then Some i else None)"

text \<open>The number, or what is printed before the exit with status 2; \<open>usage\<close> is the text on the flags.\<close>

definition issueArg :: "string \<Rightarrow> string list \<Rightarrow> string + int" where
  "issueArg usage args =
     (case args of
        [arg] \<Rightarrow>
          (case Atoi arg of
             Some n \<Rightarrow>
               (if n \<le> 0 then Inl (''issue number must be a positive integer, got '' @ quote arg @ nl) else Inr n)
           | None \<Rightarrow> Inl (''issue number must be a positive integer, got '' @ quote arg @ nl))
      | _ \<Rightarrow> Inl (''usage: issuesctl [flags] <issue-number>'' @ nl @ nl @ usage))"

subsection \<open>Progress\<close>

record ctl =
  printed :: string
  lastStates :: string
  ended :: "issContext Snapshot option"

text \<open>\<open>ended\<close> is the channel \<open>term\<close>: it has room for one snapshot; the others are dropped.\<close>

definition onSnapshot :: "issContext Snapshot \<Rightarrow> ctl \<Rightarrow> ctl" where
  "onSnapshot s p =
     (let cur = sliceText (ActiveStates s);
          p = (if cur \<noteq> lastStates p
               then p\<lparr>printed := printed p @ bytes [0xE2, 0x86, 0x92] @ '' '' @ cur @ nl, lastStates := cur\<rparr> else p)
      in if (Status s = StatusDone \<or> Status s = StatusError) \<and> ended p = None then p\<lparr>ended := Some s\<rparr> else p)"

subsection \<open>The result\<close>

definition field :: "string \<Rightarrow> string \<Rightarrow> string" where
  "field name v = (if v = [] then [] else name @ v @ nl)"

definition report :: "issContext Snapshot \<Rightarrow> string" where
  "report s =
     (let c = Context s; dash = (\<lambda>n. concat (replicate n (bytes [0xE2, 0x94, 0x80]))) in
      nl @ dash 2 @ '' result '' @ dash 23 @ nl
      @ ''status:    '' @ ActorStatus_String (Status s) @ nl
      @ (if issOwner c \<noteq> []
         then ''issue:     '' @ issOwner c @ ''/'' @ issRepo c @ ''#'' @ itoa (issNumber c) @ nl
         else ''issue:     #'' @ itoa (issNumber c) @ nl)
      @ ''title:     '' @ issTitle c @ nl
      @ ''category:  '' @ issCategory c @ nl
      @ field ''findings:  '' (issFindings c) @ field ''patch:     '' (issPatch c)
      @ field ''summary:   '' (issSummary c) @ field ''last error: '' (issLastError c)
      @ (case ErrorReason s of None \<Rightarrow> [] | Some err \<Rightarrow> ''error:     '' @ Error_text err @ nl))"

definition endedFailed :: "issContext Snapshot \<Rightarrow> bool" where
  "endedFailed s \<longleftrightarrow> list_ex (\<lambda>i. i = ''failed'') (ActiveStates s)"

text \<open>
  What is printed on stdout after the run, and the exit status: of the terminal snapshot, or when there is
  none in time of the machine's current one.
\<close>

definition ctlEnd :: "issContext Snapshot option \<Rightarrow> issContext Snapshot \<Rightarrow> string \<times> int" where
  "ctlEnd t current =
     (case t of
        Some s \<Rightarrow> (report s, if Status s = StatusError \<or> endedFailed s then 1 else 0)
      | None \<Rightarrow> (report current, 1))"

declare Atoi_def [gomodel] issueArg_def [gomodel] onSnapshot_def [gomodel] field_def [gomodel]
  report_def [gomodel] endedFailed_def [gomodel] ctlEnd_def [gomodel]

subsection \<open>Exit status\<close>

lemma onSnapshot_ended:
  "ended (onSnapshot s p) =
     (if ended p = None \<and> (Status s = StatusDone \<or> Status s = StatusError) then Some s else ended p)"
  by (simp add: onSnapshot_def Let_def)

lemma ended_first:
  "ended (fold onSnapshot ss p) =
     (case ended p of
        Some t \<Rightarrow> Some t
      | None \<Rightarrow> find (\<lambda>s. Status s = StatusDone \<or> Status s = StatusError) ss)"
  by (induction ss arbitrary: p) (auto simp: onSnapshot_ended split: option.splits)

text \<open>
  The command succeeds exactly when the first snapshot that is done or an error is done and not
  in \<open>failed\<close>, although this is a final state of the machine.
\<close>

lemma exits_with_success:
  "snd (ctlEnd (ended (fold onSnapshot ss \<lparr>printed = [], lastStates = [], ended = None\<rparr>)) current) = 0 \<longleftrightarrow>
     (\<exists>s. find (\<lambda>s. Status s = StatusDone \<or> Status s = StatusError) ss = Some s
        \<and> Status s = StatusDone \<and> ''failed'' \<notin> set (ActiveStates s))"
proof -
  have "snd (ctlEnd t current) = 0 \<longleftrightarrow>
      (\<exists>s. t = Some s \<and> Status s \<noteq> StatusError \<and> ''failed'' \<notin> set (ActiveStates s))" for t
    by (auto simp: ctlEnd_def endedFailed_def list_ex_iff split: option.splits)
  then show ?thesis
    by (auto simp: ended_first find_Some_iff)
qed

end
